(* ===== verification/Prelude.thy ===== *)
theory Prelude
  imports Complex_Main "HOL-Library.Char_ord" "HOL-Library.List_Lexorder"
    "HOL-Library.Product_Lexorder" "HOL-Library.AList"
begin

text \<open>
  What the component theories share: the string and number operations of the Rust standard
  library that the sources use, JSON documents, the error-and-state monad in which the effectful
  code is written, and the rules that carry an invariant through it.

  A Rust \<^verbatim>\<open>String\<close> is a \<^typ>\<open>string\<close>, the list of its UTF-8 bytes: \<^verbatim>\<open>len\<close>, slicing and the
  byte-wise order agree with Rust's. Whitespace and letter case are those of ASCII; other bytes are
  neither. An unsigned integer is a \<^typ>\<open>nat\<close> (an \<^typ>\<open>int\<close> where it counts bytes, sectors or
  seconds), with the width written out where the code parses,
  casts or saturates. A finite \<^verbatim>\<open>f64\<close> is the rational it denotes; every definition that computes
  with \<^verbatim>\<open>f64\<close> takes the rounding \<open>fl\<close> that the machine applies to the exact result of one
  operation, and the theorems hold for the roundings their hypotheses allow (most: for all).
\<close>

section \<open>Collections of rules\<close>

named_theorems str_defs "string operations, unfolded to evaluate them"
named_theorems sem_defs "the operations of the monad and of the volumes"
named_theorems sem_simps "how a computation steps"
named_theorems keeps_intros "rules that carry an invariant through a computation"

section \<open>Strings\<close>

definition is_digit :: "char \<Rightarrow> bool" where
  "is_digit c \<longleftrightarrow> 48 \<le> (of_char c :: int) \<and> of_char c \<le> (57 :: int)"

definition is_upper :: "char \<Rightarrow> bool" where
  "is_upper c \<longleftrightarrow> 65 \<le> (of_char c :: int) \<and> of_char c \<le> (90 :: int)"

definition is_lower :: "char \<Rightarrow> bool" where
  "is_lower c \<longleftrightarrow> 97 \<le> (of_char c :: int) \<and> of_char c \<le> (122 :: int)"

definition is_alnum :: "char \<Rightarrow> bool" where
  "is_alnum c \<longleftrightarrow> is_digit c \<or> is_upper c \<or> is_lower c"

definition is_space :: "char \<Rightarrow> bool" where
  "is_space c \<longleftrightarrow> (of_char c :: int) = 32 \<or> (9 \<le> (of_char c :: int) \<and> of_char c \<le> (13 :: int))"

definition to_lower :: "char \<Rightarrow> char" where
  "to_lower c = (if is_upper c then char_of ((of_char c :: int) + 32) else c)"

definition to_upper :: "char \<Rightarrow> char" where
  "to_upper c = (if is_lower c then char_of ((of_char c :: int) - 32) else c)"

fun strip_prefix :: "string \<Rightarrow> string \<Rightarrow> string option" where
  "strip_prefix [] s = Some s"
| "strip_prefix (p # ps) [] = None"
| "strip_prefix (p # ps) (c # s) = (if p = c then strip_prefix ps s else None)"

definition starts_with :: "string \<Rightarrow> string \<Rightarrow> bool" where
  "starts_with s p \<longleftrightarrow> strip_prefix p s \<noteq> None"

definition strip_suffix :: "string \<Rightarrow> string \<Rightarrow> string option" where
  "strip_suffix p s = map_option rev (strip_prefix (rev p) (rev s))"

definition ends_with :: "string \<Rightarrow> string \<Rightarrow> bool" where
  "ends_with s p \<longleftrightarrow> strip_suffix p s \<noteq> None"

fun contains :: "string \<Rightarrow> string \<Rightarrow> bool" where
  "contains [] p \<longleftrightarrow> p = []"
| "contains (c # s) p \<longleftrightarrow> starts_with (c # s) p \<or> contains s p"

text \<open>\<^verbatim>\<open>split_once(c)\<close>, \<^verbatim>\<open>rsplit_once(c)\<close> and \<^verbatim>\<open>split(c)\<close>, for a character.\<close>

fun split_once :: "char \<Rightarrow> string \<Rightarrow> (string \<times> string) option" where
  "split_once c [] = None"
| "split_once c (x # s) =
     (if x = c then Some ([], s)
      else map_option (\<lambda>(a, b). (x # a, b)) (split_once c s))"

definition rsplit_once :: "char \<Rightarrow> string \<Rightarrow> (string \<times> string) option" where
  "rsplit_once c s = map_option (\<lambda>(a, b). (rev b, rev a)) (split_once c (rev s))"

fun split_on :: "(char \<Rightarrow> bool) \<Rightarrow> string \<Rightarrow> string list" where
  "split_on P [] = [[]]"
| "split_on P (x # s) =
     (if P x then [] # split_on P s
      else (case split_on P s of [] \<Rightarrow> [[x]] | w # ws \<Rightarrow> (x # w) # ws))"

abbreviation split_char :: "char \<Rightarrow> string \<Rightarrow> string list" where
  "split_char c \<equiv> split_on (\<lambda>x. x = c)"

text \<open>\<^verbatim>\<open>split_once(p)\<close> and \<^verbatim>\<open>split(p)\<close> for a non-empty string \<open>p\<close>.\<close>

fun split_once_str :: "string \<Rightarrow> string \<Rightarrow> (string \<times> string) option" where
  "split_once_str p [] = (if p = [] then Some ([], []) else None)"
| "split_once_str p (x # s) =
     (case strip_prefix p (x # s) of
        Some r \<Rightarrow> Some ([], r)
      | None \<Rightarrow> map_option (\<lambda>(a, b). (x # a, b)) (split_once_str p s))"

definition rsplit_once_str :: "string \<Rightarrow> string \<Rightarrow> (string \<times> string) option" where
  "rsplit_once_str p s =
     map_option (\<lambda>(a, b). (rev b, rev a)) (split_once_str (rev p) (rev s))"

definition split_whitespace :: "string \<Rightarrow> string list" where
  "split_whitespace s = filter (\<lambda>w. w \<noteq> []) (split_on is_space s)"

definition trim_start_matches :: "(char \<Rightarrow> bool) \<Rightarrow> string \<Rightarrow> string" where
  "trim_start_matches P s = dropWhile P s"

definition trim_end_matches :: "(char \<Rightarrow> bool) \<Rightarrow> string \<Rightarrow> string" where
  "trim_end_matches P s = rev (dropWhile P (rev s))"

definition trim_matches :: "(char \<Rightarrow> bool) \<Rightarrow> string \<Rightarrow> string" where
  "trim_matches P s = trim_end_matches P (trim_start_matches P s)"

abbreviation trim :: "string \<Rightarrow> string" where
  "trim \<equiv> trim_matches is_space"

fun join :: "string \<Rightarrow> string list \<Rightarrow> string" where
  "join sep [] = []"
| "join sep [w] = w"
| "join sep (w # ws) = w @ sep @ join sep ws"

definition replace_char :: "char \<Rightarrow> string \<Rightarrow> string \<Rightarrow> string" where
  "replace_char c t s = concat (map (\<lambda>x. if x = c then t else [x]) s)"

definition newline :: char where "newline = CHR 0x0A"
definition carriage :: char where "carriage = CHR 0x0D"
definition quote :: char where "quote = CHR 0x22"

text \<open>\<^verbatim>\<open>str::lines\<close>: split at line feeds, no last empty line, one carriage return dropped.\<close>

definition lines :: "string \<Rightarrow> string list" where
  "lines s =
     (let ps = split_char newline s;
          ps' = (if last ps = [] then butlast ps else ps)
      in map (\<lambda>l. case strip_suffix [carriage] l of Some r \<Rightarrow> r | None \<Rightarrow> l) ps')"

section \<open>Numbers and their decimal form\<close>

fun nat_str :: "nat \<Rightarrow> string" where
  "nat_str n =
     (if n < 10 then [char_of (48 + n)] else nat_str (n div 10) @ [char_of (48 + n mod 10)])"

declare nat_str.simps [simp del]

definition int_str :: "int \<Rightarrow> string" where
  "int_str i = (if i < 0 then ''-'' @ nat_str (nat (- i)) else nat_str (nat i))"

text \<open>\<^verbatim>\<open>{:0w}\<close>: padded with zeros to \<open>w\<close> places.\<close>

definition pad0 :: "nat \<Rightarrow> nat \<Rightarrow> string" where
  "pad0 w n = replicate (w - length (nat_str n)) (CHR ''0'') @ nat_str n"

definition digit_val :: "char \<Rightarrow> int" where
  "digit_val c = of_char c - 48"

fun digits_val :: "int \<Rightarrow> string \<Rightarrow> int" where
  "digits_val acc [] = acc"
| "digits_val acc (c # s) = digits_val (10 * acc + digit_val c) s"

text \<open>\<^verbatim>\<open>str::parse\<close> for an unsigned type of \<open>w\<close> bits: an optional plus sign, one or more digits,
  and an error when the value does not fit.\<close>

definition parse_unsigned :: "nat \<Rightarrow> string \<Rightarrow> int option" where
  "parse_unsigned w s =
     (let ds = (case s of c # r \<Rightarrow> if c = CHR ''+'' then r else s | [] \<Rightarrow> [])
      in if ds \<noteq> [] \<and> list_all is_digit ds \<and> digits_val 0 ds < 2 ^ w
         then Some (digits_val 0 ds) else None)"

definition parse_uint :: "nat \<Rightarrow> string \<Rightarrow> nat option" where
  "parse_uint w s = map_option nat (parse_unsigned w s)"

type_synonym f64 = rat
type_synonym rounding = "rat \<Rightarrow> rat"

text \<open>\<^verbatim>\<open>str::parse::<f64>\<close> on decimal notation (\<^verbatim>\<open>[+-]digits[.digits][e[+-]digits]\<close>, at least one
  digit before the exponent): the exact value, rounded once.\<close>

definition parse_exponent :: "string \<Rightarrow> int option" where
  "parse_exponent s =
     (let (neg, ds) = (case s of c # r \<Rightarrow> if c = CHR ''-'' then (True, r)
                                        else if c = CHR ''+'' then (False, r) else (False, s)
                               | [] \<Rightarrow> (False, []))
      in if ds \<noteq> [] \<and> list_all is_digit ds
         then Some (if neg then - digits_val 0 ds else digits_val 0 ds) else None)"

definition pow10 :: "int \<Rightarrow> rat" where
  "pow10 e = (if 0 \<le> e then 10 ^ nat e else 1 / 10 ^ nat (- e))"

definition parse_f64 :: "rounding \<Rightarrow> string \<Rightarrow> f64 option" where
  "parse_f64 fl s =
     (let (neg, body) = (case s of c # r \<Rightarrow> if c = CHR ''-'' then (True, r)
                                          else if c = CHR ''+'' then (False, r) else (False, s)
                                 | [] \<Rightarrow> (False, []));
          split_e = (\<lambda>c. split_once c body);
          (mant, ex) = (case split_e (CHR ''e'') of
                          Some (m, x) \<Rightarrow> (m, parse_exponent x)
                        | None \<Rightarrow> (case split_e (CHR ''E'') of
                            Some (m, x) \<Rightarrow> (m, parse_exponent x) | None \<Rightarrow> (body, Some 0)));
          (ip, fp) = (case split_once (CHR ''.'') mant of Some (a, b) \<Rightarrow> (a, b)
                                                       | None \<Rightarrow> (mant, []))
      in if ip @ fp \<noteq> [] \<and> list_all is_digit (ip @ fp)
         then (case ex of None \<Rightarrow> None
               | Some x \<Rightarrow>
                   let v = of_int (digits_val 0 (ip @ fp)) * pow10 (x - int (length fp))
                   in Some (fl (if neg then - v else v)))
         else None)"

text \<open>\<^verbatim>\<open>trunc\<close>, and the saturating cast \<^verbatim>\<open>as uN\<close>.\<close>

definition trunc :: "f64 \<Rightarrow> int" where
  "trunc x = (if 0 \<le> x then \<lfloor>x\<rfloor> else \<lceil>x\<rceil>)"

definition cast_uint :: "nat \<Rightarrow> f64 \<Rightarrow> nat" where
  "cast_uint w x = nat (min (2 ^ w - 1) (trunc x))"

text \<open>\<^verbatim>\<open>f64::round\<close>: to the nearest integer, halves away from zero.\<close>

definition round_away :: "f64 \<Rightarrow> int" where
  "round_away x = (if 0 \<le> x then \<lfloor>x + 1 / 2\<rfloor> else \<lceil>x - 1 / 2\<rceil>)"

text \<open>\<^verbatim>\<open>as i64\<close> of an integral \<^verbatim>\<open>f64\<close>.\<close>

definition cast_i64 :: "int \<Rightarrow> int" where
  "cast_i64 i = max (- (2 ^ 63)) (min (2 ^ 63 - 1) i)"

text \<open>\<^verbatim>\<open>iter().sum::<f64>()\<close>: one rounding per addition, from the left.\<close>

definition fsum :: "rounding \<Rightarrow> f64 list \<Rightarrow> f64" where
  "fsum fl xs = foldl (\<lambda>a x. fl (a + x)) 0 xs"

section \<open>JSON documents\<close>

text \<open>\<^verbatim>\<open>serde_json::Value\<close>. A number is an integer or a finite \<^verbatim>\<open>f64\<close>; an object is the list of its
  members. Indexing by a key that is not there, or into something that is no object, is null.\<close>

datatype json =
    JNull
  | JBool bool
  | JInt int
  | JFloat f64
  | JStr string
  | JArr "json list"
  | JObj "(string \<times> json) list"

fun jget :: "json \<Rightarrow> string \<Rightarrow> json" where
  "jget (JObj ms) k = (case map_of ms k of Some v \<Rightarrow> v | None \<Rightarrow> JNull)"
| "jget v k = JNull"

fun jset :: "json \<Rightarrow> string \<Rightarrow> json \<Rightarrow> json" where
  "jset (JObj ms) k v = JObj (AList.update k v ms)"
| "jset other k v = other"

fun as_str :: "json \<Rightarrow> string option" where
  "as_str (JStr s) = Some s"
| "as_str v = None"

fun as_i64 :: "json \<Rightarrow> int option" where
  "as_i64 (JInt i) = (if - (2 ^ 63) \<le> i \<and> i < 2 ^ 63 then Some i else None)"
| "as_i64 v = None"

fun as_array :: "json \<Rightarrow> json list option" where
  "as_array (JArr vs) = Some vs"
| "as_array v = None"

section \<open>Errors and state\<close>

text \<open>A fallible computation on a state: what \<^verbatim>\<open>?\<close> and early returns do to the state stays done.\<close>

type_synonym ('s, 'e, 'a) sem = "'s \<Rightarrow> ('e + 'a) \<times> 's"

definition ret :: "'a \<Rightarrow> ('s, 'e, 'a) sem" where
  [sem_defs]: "ret x = (\<lambda>s. (Inr x, s))"

definition throw :: "'e \<Rightarrow> ('s, 'e, 'a) sem" where
  [sem_defs]: "throw e = (\<lambda>s. (Inl e, s))"

definition andthen :: "('s, 'e, 'a) sem \<Rightarrow> ('a \<Rightarrow> ('s, 'e, 'b) sem) \<Rightarrow> ('s, 'e, 'b) sem" where
  [sem_defs]: "andthen m f = (\<lambda>s. case m s of (Inl e, s') \<Rightarrow> (Inl e, s') | (Inr x, s') \<Rightarrow> f x s')"

text \<open>\<^verbatim>\<open>.ok()\<close>: the error is dropped, the effects are not.\<close>

definition ignore :: "('s, 'e, 'a) sem \<Rightarrow> ('s, 'f, unit) sem" where
  [sem_defs]: "ignore m = (\<lambda>s. (Inr (), snd (m s)))"

text \<open>\<^verbatim>\<open>match\<close> on the result of a call.\<close>

definition try_sem :: "('s, 'e, 'a) sem \<Rightarrow> ('e \<Rightarrow> ('s, 'f, 'b) sem) \<Rightarrow> ('a \<Rightarrow> ('s, 'f, 'b) sem) \<Rightarrow> ('s, 'f, 'b) sem" where
  [sem_defs]: "try_sem m f g = (\<lambda>s. case m s of (Inl e, s') \<Rightarrow> f e s' | (Inr x, s') \<Rightarrow> g x s')"

definition gets :: "('s \<Rightarrow> 'a) \<Rightarrow> ('s, 'e, 'a) sem" where
  [sem_defs]: "gets f = (\<lambda>s. (Inr (f s), s))"

definition lift_result :: "('e + 'a) \<Rightarrow> ('s, 'e, 'a) sem" where
  [sem_defs]: "lift_result r = (\<lambda>s. (r, s))"

text \<open>\<open>?\<close> in a function whose own error type wraps that of the call.\<close>

definition wrap :: "('f \<Rightarrow> 'e) \<Rightarrow> ('s, 'f, 'a) sem \<Rightarrow> ('s, 'e, 'a) sem" where
  [sem_defs]: "wrap g m = (\<lambda>s. case m s of (Inl e, s') \<Rightarrow> (Inl (g e), s') | (Inr x, s') \<Rightarrow> (Inr x, s'))"

definition if_err :: "bool \<Rightarrow> 'e \<Rightarrow> ('s, 'e, unit) sem" where
  [sem_defs]: "if_err b e = (if b then throw e else ret ())"

definition whenever :: "bool \<Rightarrow> ('s, 'e, unit) sem \<Rightarrow> ('s, 'e, unit) sem" where
  [sem_defs]: "whenever b m = (if b then m else ret ())"

fun for_each :: "'x list \<Rightarrow> ('x \<Rightarrow> ('s, 'e, unit) sem) \<Rightarrow> ('s, 'e, unit) sem" where
  "for_each [] f = ret ()"
| "for_each (x # xs) f = andthen (f x) (\<lambda>_. for_each xs f)"

text \<open>A loop that carries a value from one round to the next.\<close>

fun fold_sem :: "'x list \<Rightarrow> ('x \<Rightarrow> 'a \<Rightarrow> ('s, 'e, 'a) sem) \<Rightarrow> 'a \<Rightarrow> ('s, 'e, 'a) sem" where
  "fold_sem [] f a = ret a"
| "fold_sem (x # xs) f a = andthen (f x a) (fold_sem xs f)"

text \<open>\<open>keeps P m Q\<close>: from a state that satisfies \<open>P\<close> the computation ends in one that does,
  returning or failing, and what it returns satisfies \<open>Q\<close>.\<close>

definition keeps :: "('s \<Rightarrow> bool) \<Rightarrow> ('s, 'e, 'a) sem \<Rightarrow> ('a \<Rightarrow> bool) \<Rightarrow> bool" where
  "keeps P m Q \<longleftrightarrow> (\<forall>s. P s \<longrightarrow> P (snd (m s)) \<and> (\<forall>x. fst (m s) = Inr x \<longrightarrow> Q x))"


section \<open>Facts about strings\<close>

lemma strip_prefix_Some_iff: "strip_prefix p s = Some r \<longleftrightarrow> s = p @ r"
  by (induction p s rule: strip_prefix.induct) auto

lemma strip_prefix_append [simp]: "strip_prefix p (p @ r) = Some r"
  by (simp add: strip_prefix_Some_iff)

lemma starts_with_iff: "starts_with s p \<longleftrightarrow> (\<exists>r. s = p @ r)"
  by (auto simp: starts_with_def strip_prefix_Some_iff)

lemma strip_suffix_Some_iff: "strip_suffix p s = Some r \<longleftrightarrow> s = r @ p"
proof -
  have "strip_suffix p s = Some r \<longleftrightarrow> (\<exists>t. rev s = rev p @ t \<and> rev t = r)"
    by (simp add: strip_suffix_def strip_prefix_Some_iff)
  also have "\<dots> \<longleftrightarrow> s = r @ p"
  proof
    assume "\<exists>t. rev s = rev p @ t \<and> rev t = r"
    then obtain t where "rev s = rev p @ t" and "rev t = r" by blast
    then show "s = r @ p" by (metis rev_append rev_rev_ident)
  next
    assume "s = r @ p"
    then show "\<exists>t. rev s = rev p @ t \<and> rev t = r" by (intro exI [of _ "rev r"]) simp
  qed
  finally show ?thesis .
qed

lemma ends_with_iff: "ends_with s p \<longleftrightarrow> (\<exists>r. s = r @ p)"
  by (auto simp: ends_with_def strip_suffix_Some_iff)

lemma ends_with_append [simp]: "ends_with (r @ p) p"
  by (auto simp: ends_with_iff)

lemma contains_iff: "contains s p \<longleftrightarrow> (\<exists>a b. s = a @ p @ b)"
proof (induction s p rule: contains.induct)
  case (1 p)
  then show ?case by auto
next
  case (2 c s p)
  have "(\<exists>a b. c # s = a @ p @ b) \<longleftrightarrow>
      (\<exists>b. c # s = p @ b) \<or> (\<exists>a b. s = a @ p @ b)" (is "?l \<longleftrightarrow> ?r")
  proof
    assume ?l
    then obtain a b where ab: "c # s = a @ p @ b" by blast
    then show ?r by (cases a) auto
  next
    assume ?r
    then show ?l by (metis append_Cons append_Nil)
  qed
  with "2" show ?case by (simp add: starts_with_iff)
qed

lemma split_once_None_iff: "split_once c s = None \<longleftrightarrow> c \<notin> set s"
  by (induction s) auto

lemma split_once_SomeD: "split_once c s = Some (a, b) \<Longrightarrow> s = a @ c # b \<and> c \<notin> set a"
  by (induction s arbitrary: a b) (auto split: if_splits)

lemma split_once_append [simp]: "c \<notin> set a \<Longrightarrow> split_once c (a @ c # b) = Some (a, b)"
  by (induction a) auto

lemma rsplit_once_None_iff: "rsplit_once c s = None \<longleftrightarrow> c \<notin> set s"
  by (simp add: rsplit_once_def split_once_None_iff)

lemma rsplit_once_SomeD: "rsplit_once c s = Some (a, b) \<Longrightarrow> s = a @ c # b \<and> c \<notin> set b"
  by (auto simp: rsplit_once_def dest!: split_once_SomeD) (metis append.assoc append_Cons append_Nil rev.simps(2) rev_append rev_rev_ident)

lemma rsplit_once_append [simp]: "c \<notin> set b \<Longrightarrow> rsplit_once c (a @ c # b) = Some (a, b)"
  by (simp add: rsplit_once_def)

lemma split_on_not_Nil [simp]: "split_on P s \<noteq> []"
  by (induction s) (auto split: list.splits)

lemma split_on_pieces: "w \<in> set (split_on P s) \<Longrightarrow> x \<in> set w \<Longrightarrow> \<not> P x \<and> x \<in> set s"
proof (induction s arbitrary: w)
  case (Cons y s)
  obtain v vs where s: "split_on P s = v # vs" by (cases "split_on P s") auto
  from Cons.IH [of v] Cons.IH [of w] Cons.prems s show ?case by (auto split: if_splits)
qed simp

lemma join_Cons: "ws \<noteq> [] \<Longrightarrow> join sep (w # ws) = w @ sep @ join sep ws"
  by (cases ws) auto

lemma join_split_char: "join [c] (split_char c s) = s"
proof (induction s)
  case (Cons x s)
  obtain v vs where s: "split_char c s = v # vs" by (cases "split_char c s") auto
  with Cons.IH show ?case by (cases vs) auto
qed simp

lemma trim_end_matches_append:
  "s \<noteq> [] \<Longrightarrow> \<not> P (last s) \<Longrightarrow> trim_end_matches P s = s"
  by (metis dropWhile.simps(2) hd_rev list.collapse rev_is_Nil_conv rev_rev_ident trim_end_matches_def)

lemma trim_end_matches_last:
  "trim_end_matches P s \<noteq> [] \<Longrightarrow> \<not> P (last (trim_end_matches P s))"
  by (metis hd_dropWhile last_rev rev_is_Nil_conv trim_end_matches_def)

lemma trim_end_matches_prefix: "\<exists>r. s = trim_end_matches P s @ r \<and> list_all P r"
proof -
  have "rev s = takeWhile P (rev s) @ dropWhile P (rev s)" by simp
  then have "s = rev (dropWhile P (rev s)) @ rev (takeWhile P (rev s))"
    by (metis rev_append rev_rev_ident)
  moreover have "list_all P (rev (takeWhile P (rev s)))"
    by (auto simp: list_all_iff dest: set_takeWhileD)
  ultimately show ?thesis unfolding trim_end_matches_def by blast
qed

lemma set_trim_end_matches: "set (trim_end_matches P s) \<subseteq> set s"
  using trim_end_matches_prefix [of s P] by (metis Un_upper1 set_append)

lemma length_trim_end_matches: "length (trim_end_matches P s) \<le> length s"
  unfolding trim_end_matches_def by (metis length_dropWhile_le length_rev)

section \<open>Facts about decimals\<close>

lemma of_char_digit [simp]: "n < 10 \<Longrightarrow> (of_char (char_of (48 + n :: nat) :: char) :: int) = 48 + int n"
proof -
  assume "n < 10"
  then have "(of_char (char_of (48 + n :: nat) :: char) :: nat) = 48 + n" by simp
  then show ?thesis by (metis of_nat_add of_nat_numeral of_nat_of_char)
qed

lemma is_digit_char_of [simp]: "n < 10 \<Longrightarrow> is_digit (char_of (48 + n :: nat))"
  by (simp add: is_digit_def)

lemma digit_val_char_of [simp]: "n < 10 \<Longrightarrow> digit_val (char_of (48 + n :: nat)) = int n"
  by (simp add: digit_val_def)

lemma digits_val_snoc: "digits_val acc (s @ [c]) = 10 * digits_val acc s + digit_val c"
  by (induction s arbitrary: acc) auto

lemma nat_str_not_Nil [simp]: "nat_str n \<noteq> []"
  by (subst nat_str.simps) simp

lemma nat_str_digits: "list_all is_digit (nat_str n)"
proof (induction n rule: nat_str.induct)
  case (1 n)
  then show ?case by (subst nat_str.simps) simp
qed

lemma digits_val_nat_str [simp]: "digits_val 0 (nat_str n) = int n"
proof (induction n rule: nat_str.induct)
  case (1 n)
  show ?case
  proof (cases "n < 10")
    case True
    then show ?thesis by (subst nat_str.simps) simp
  next
    case False
    moreover have "10 * int (n div 10) + int (n mod 10) = int n" by presburger
    ultimately show ?thesis using "1" by (subst nat_str.simps) (simp add: digits_val_snoc)
  qed
qed

lemma nat_str_inject [simp]: "nat_str m = nat_str n \<longleftrightarrow> m = n"
  by (metis digits_val_nat_str of_nat_eq_iff)

lemma is_digit_nat_str: "c \<in> set (nat_str n) \<Longrightarrow> is_digit c"
  using nat_str_digits [of n] by (simp add: list_all_iff)

lemma parse_uint_nat_str: "n < 2 ^ w \<Longrightarrow> parse_uint w (nat_str n) = Some n"
proof -
  assume n: "n < 2 ^ w"
  obtain c r where cr: "nat_str n = c # r" by (cases "nat_str n") auto
  then have "is_digit c" using is_digit_nat_str [of c n] by simp
  then have "c \<noteq> CHR ''+''" by (auto simp: is_digit_def)
  with cr n nat_str_digits [of n] digits_val_nat_str [of n] show ?thesis
    by (simp add: parse_uint_def parse_unsigned_def nat_less_numeral_power_cancel_iff)
qed

lemma digits_val_nonneg: "0 \<le> acc \<Longrightarrow> list_all is_digit s \<Longrightarrow> 0 \<le> digits_val acc s"
  by (induction s arbitrary: acc) (auto simp: is_digit_def digit_val_def)

lemma parse_uint_bound: "parse_uint w s = Some n \<Longrightarrow> n < 2 ^ w"
proof -
  assume "parse_uint w s = Some n"
  then have "n = nat k" and "k < 2 ^ w" if "k = int n" for k
    using that by (auto simp: parse_uint_def parse_unsigned_def Let_def digits_val_nonneg split: if_splits)
  from this [OF refl] show ?thesis by (metis of_nat_less_numeral_power_cancel_iff)
qed

lemma cast_uint_bound: "cast_uint w x < 2 ^ w"
proof -
  have "min (2 ^ w - 1) (trunc x) < 2 ^ w" by (simp add: min_less_iff_disj)
  then have "nat (min (2 ^ w - 1) (trunc x)) < nat (2 ^ w)" by simp
  then show ?thesis by (simp add: cast_uint_def nat_power_eq)
qed

section \<open>Rules of the monad\<close>

lemma ret_apply [sem_simps]: "ret x s = (Inr x, s)"
  by (simp add: ret_def)

lemma throw_apply [sem_simps]: "throw e s = (Inl e, s)"
  by (simp add: throw_def)

lemma gets_apply [sem_simps]: "gets f s = (Inr (f s), s)"
  by (simp add: gets_def)

lemma andthen_Inr_iff:
  "andthen m f s = (Inr y, s') \<longleftrightarrow> (\<exists>x s1. m s = (Inr x, s1) \<and> f x s1 = (Inr y, s'))"
  by (auto simp: andthen_def split: prod.splits sum.splits)

lemma wrap_Inr_iff: "wrap g m s = (Inr x, s') \<longleftrightarrow> m s = (Inr x, s')"
  by (auto simp: wrap_def split: prod.splits sum.splits)

lemma andthen_okI: "m s = (Inr x, s1) \<Longrightarrow> andthen m f s = f x s1"
  by (simp add: andthen_def)

lemma andthen_errI: "m s = (Inl e, s1) \<Longrightarrow> andthen m f s = (Inl e, s1)"
  by (simp add: andthen_def)

lemma andthen_assoc: "andthen (andthen m f) g = andthen m (\<lambda>x. andthen (f x) g)"
  by (rule ext) (simp add: andthen_def split: prod.splits sum.splits)

lemma andthen_ret_left [simp]: "andthen (ret x) f = f x"
  by (rule ext) (simp add: andthen_def ret_def)

lemma andthen_ret_right [simp]: "andthen m ret = m"
  by (rule ext) (simp add: andthen_def ret_def split: prod.splits sum.splits)

lemma ignore_apply [sem_simps]: "ignore m s = (Inr (), snd (m s))"
  by (simp add: ignore_def)

lemma keepsI:
  assumes "\<And>s. P s \<Longrightarrow> P (snd (m s))" and "\<And>s x. P s \<Longrightarrow> fst (m s) = Inr x \<Longrightarrow> Q x"
  shows "keeps P m Q"
  using assms by (auto simp: keeps_def)

lemma keepsD: "keeps P m Q \<Longrightarrow> P s \<Longrightarrow> P (snd (m s))"
  by (simp add: keeps_def)

lemma keeps_weaken: "keeps P m Q \<Longrightarrow> (\<And>x. Q x \<Longrightarrow> R x) \<Longrightarrow> keeps P m R"
  by (auto simp: keeps_def)

lemma keeps_True: "keeps P m Q \<Longrightarrow> keeps P m (\<lambda>_. True)"
  by (rule keeps_weaken) auto

lemma keeps_ret [keeps_intros]: "Q x \<Longrightarrow> keeps P (ret x) Q"
  by (simp add: keeps_def ret_def)

lemma keeps_throw [keeps_intros]: "keeps P (throw e) Q"
  by (simp add: keeps_def throw_def)

lemma keeps_gets [keeps_intros]: "(\<And>s. P s \<Longrightarrow> Q (f s)) \<Longrightarrow> keeps P (gets f) Q"
  by (simp add: keeps_def gets_def)

lemma keeps_lift_result [keeps_intros]:
  "(\<And>x. r = Inr x \<Longrightarrow> Q x) \<Longrightarrow> keeps P (lift_result r) Q"
  by (simp add: keeps_def lift_result_def)

lemma keeps_ignore [keeps_intros]:
  "keeps P m (\<lambda>_. True) \<Longrightarrow> Q () \<Longrightarrow> keeps P (ignore m) Q"
  by (simp add: keeps_def ignore_def)

lemma keeps_if_err [keeps_intros]: "Q () \<Longrightarrow> keeps P (if_err b e) Q"
  by (simp add: keeps_def if_err_def ret_def throw_def)

lemma keeps_whenever [keeps_intros]:
  "(b \<Longrightarrow> keeps P m Q) \<Longrightarrow> Q () \<Longrightarrow> keeps P (whenever b m) Q"
  by (simp add: keeps_def whenever_def ret_def)

lemma keeps_andthen:
  assumes "keeps P m R" and "\<And>x. R x \<Longrightarrow> keeps P (f x) Q"
  shows "keeps P (andthen m f) Q"
proof (rule keepsI)
  fix s
  assume s: "P s"
  obtain r s1 where m: "m s = (r, s1)" by (cases "m s")
  with assms(1) s have P1: "P s1" and R: "\<And>x. r = Inr x \<Longrightarrow> R x"
    unfolding keeps_def by (metis snd_conv, metis fst_conv)
  show "P (snd (andthen m f s))"
  proof (cases r)
    case (Inl e)
    with m P1 show ?thesis by (simp add: andthen_def)
  next
    case (Inr x)
    with m P1 R assms(2) [of x] show ?thesis by (simp add: andthen_def keeps_def)
  qed
  fix y
  assume "fst (andthen m f s) = Inr y"
  then obtain x where "r = Inr x" and "fst (f x s1) = Inr y"
    using m by (auto simp: andthen_def split: sum.splits)
  with R assms(2) P1 show "Q y" by (auto simp: keeps_def)
qed

lemma keeps_andthen_any [keeps_intros]:
  "keeps P m (\<lambda>_. True) \<Longrightarrow> (\<And>x. keeps P (f x) Q) \<Longrightarrow> keeps P (andthen m f) Q"
  by (rule keeps_andthen) auto

lemma keeps_try_sem [keeps_intros]:
  "keeps P m (\<lambda>_. True) \<Longrightarrow> (\<And>e. keeps P (f e) Q) \<Longrightarrow> (\<And>x. keeps P (g x) Q) \<Longrightarrow> keeps P (try_sem m f g) Q"
  by (fastforce simp: keeps_def try_sem_def split: prod.splits sum.splits)

lemma keeps_try_sem_post:
  "keeps P m R \<Longrightarrow> (\<And>e. keeps P (f e) Q) \<Longrightarrow> (\<And>x. R x \<Longrightarrow> keeps P (g x) Q) \<Longrightarrow> keeps P (try_sem m f g) Q"
  by (fastforce simp: keeps_def try_sem_def split: prod.splits sum.splits)

lemma keeps_wrap [keeps_intros]: "keeps P m Q \<Longrightarrow> keeps P (wrap g m) Q"
  by (auto simp: keeps_def wrap_def split: prod.splits sum.splits)

lemma keeps_for_each [keeps_intros]:
  "(\<And>x. x \<in> set xs \<Longrightarrow> keeps P (f x) (\<lambda>_. True)) \<Longrightarrow> keeps P (for_each xs f) (\<lambda>_. True)"
  by (induction xs) (auto intro!: keeps_intros)

lemma keeps_fold_sem:
  assumes "\<And>x a. x \<in> set xs \<Longrightarrow> Q a \<Longrightarrow> keeps P (f x a) Q" and "Q a"
  shows "keeps P (fold_sem xs f a) Q"
  using assms
proof (induction xs arbitrary: a)
  case Nil
  then show ?case by (simp add: keeps_ret)
next
  case (Cons x xs)
  have "keeps P (f x a) Q" using Cons.prems by simp
  moreover have "keeps P (fold_sem xs f b) Q" if "Q b" for b
    using that Cons.prems by (intro Cons.IH) auto
  ultimately show ?case by (simp add: keeps_andthen)
qed

lemma keeps_if [keeps_intros]:
  "(b \<Longrightarrow> keeps P m Q) \<Longrightarrow> (\<not> b \<Longrightarrow> keeps P n Q) \<Longrightarrow> keeps P (if b then m else n) Q"
  by simp

lemma keeps_case_option [keeps_intros]:
  "(x = None \<Longrightarrow> keeps P m Q) \<Longrightarrow> (\<And>y. x = Some y \<Longrightarrow> keeps P (f y) Q) \<Longrightarrow>
     keeps P (case x of None \<Rightarrow> m | Some y \<Rightarrow> f y) Q"
  by (cases x) auto

lemma keeps_case_prod [keeps_intros]:
  "(\<And>a b. p = (a, b) \<Longrightarrow> keeps P (f a b) Q) \<Longrightarrow> keeps P (case p of (a, b) \<Rightarrow> f a b) Q"
  by (cases p) simp

lemma keeps_case_sum [keeps_intros]:
  "(\<And>e. r = Inl e \<Longrightarrow> keeps P (f e) Q) \<Longrightarrow> (\<And>x. r = Inr x \<Longrightarrow> keeps P (g x) Q) \<Longrightarrow>
     keeps P (case r of Inl e \<Rightarrow> f e | Inr x \<Rightarrow> g x) Q"
  by (cases r) simp_all

lemma keeps_Let [keeps_intros]: "keeps P (f x) Q \<Longrightarrow> keeps P (let y = x in f y) Q"
  by simp

end
