(* ===== verification/Files.thy ===== *)
theory Files
  imports Prelude
begin

text \<open>
  The file system calls the program makes, on the volumes it mounts. A volume is the list of
  its entries, by path relative to the volume; the empty path is its root. Every call takes one tick
  of the world, and \<open>w_ok\<close> says whether the call of a tick succeeds, so a statement for every
  \<open>w_ok\<close> is a statement about every pattern of I/O errors, and about a run that stops anywhere.
  What a device stores of the bytes it is given is \<open>w_medium\<close>: a copy that goes bad is one that
  returns other bytes. \<^verbatim>\<open>Path::exists\<close> answers what is there. The code renames files only; a
  rename of a directory is an error here.
\<close>

section \<open>Volumes\<close>

datatype node = File string | Dir

datatype vol = Work | Dvd | Movies | Staging | Seed

type_synonym volume = "(string \<times> node) list"

record world =
  w_vols :: "vol \<Rightarrow> volume"
  w_tick :: nat
  w_ok :: "nat \<Rightarrow> bool"
  w_medium :: "nat \<Rightarrow> string \<Rightarrow> string"

definition lookup :: "world \<Rightarrow> vol \<Rightarrow> string \<Rightarrow> node option" where
  "lookup w v p = (if p = [] then Some Dir else map_of (w_vols w v) p)"

definition put :: "vol \<Rightarrow> string \<Rightarrow> node \<Rightarrow> world \<Rightarrow> world" where
  "put v p n w = w\<lparr>w_vols := (w_vols w)(v := AList.update p n (w_vols w v))\<rparr>"

definition vdelete :: "vol \<Rightarrow> string \<Rightarrow> world \<Rightarrow> world" where
  "vdelete v p w = w\<lparr>w_vols := (w_vols w)(v := AList.delete p (w_vols w v))\<rparr>"

definition parent :: "string \<Rightarrow> string" where
  "parent p = (case rsplit_once (CHR ''/'') p of Some (d, _) \<Rightarrow> d | None \<Rightarrow> [])"

definition is_dir :: "world \<Rightarrow> vol \<Rightarrow> string \<Rightarrow> bool" where
  "is_dir w v p \<longleftrightarrow> lookup w v p = Some Dir"

section \<open>Calls\<close>

datatype io_error = Denied | Missing | NotADirectory | IsADirectory | NotEmpty

type_synonym ('e, 'a) io = "(world, 'e, 'a) sem"

definition tick :: "world \<Rightarrow> world" where
  "tick w = w\<lparr>w_tick := Suc (w_tick w)\<rparr>"

definition io_call :: "(io_error, 'a) io \<Rightarrow> (io_error, 'a) io" where
  [sem_defs]: "io_call m = (\<lambda>w. if w_ok w (w_tick w) then m (tick w) else (Inl Denied, tick w))"

definition exists_path :: "vol \<Rightarrow> string \<Rightarrow> ('e, bool) io" where
  [sem_defs]: "exists_path v p = gets (\<lambda>w. lookup w v p \<noteq> None)"

definition read_file :: "vol \<Rightarrow> string \<Rightarrow> (io_error, string) io" where
  [sem_defs]: "read_file v p = io_call (\<lambda>w. case lookup w v p of
     Some (File c) \<Rightarrow> (Inr c, w) | Some Dir \<Rightarrow> (Inl IsADirectory, w) | None \<Rightarrow> (Inl Missing, w))"

fun ancestors :: "string \<Rightarrow> string \<Rightarrow> string list" where
  "ancestors done [] = (if done = [] then [] else [done])"
| "ancestors done (c # cs) =
     (if c = CHR ''/'' \<and> done \<noteq> [] then done # ancestors (done @ [c]) cs else ancestors (done @ [c]) cs)"

fun make_dirs :: "vol \<Rightarrow> string list \<Rightarrow> (io_error, unit) io" where
  "make_dirs v [] w = (Inr (), w)"
| "make_dirs v (p # ps) w =
     (case lookup w v p of
        Some Dir \<Rightarrow> make_dirs v ps w
      | Some (File c) \<Rightarrow> (Inl NotADirectory, w)
      | None \<Rightarrow> make_dirs v ps (put v p Dir w))"

definition create_dir_all :: "vol \<Rightarrow> string \<Rightarrow> (io_error, unit) io" where
  [sem_defs]: "create_dir_all v p = io_call (make_dirs v (ancestors [] p))"

text \<open>\<^verbatim>\<open>File::create\<close>: made or truncated.\<close>

definition create_file :: "vol \<Rightarrow> string \<Rightarrow> (io_error, unit) io" where
  [sem_defs]: "create_file v p = io_call (\<lambda>w.
     if lookup w v p = Some Dir then (Inl IsADirectory, w)
     else if is_dir w v (parent p) then (Inr (), put v p (File []) w)
     else (Inl Missing, w))"

text \<open>\<^verbatim>\<open>write_all\<close> on a file just created: an error may come after any of the bytes.\<close>

definition write_file :: "vol \<Rightarrow> string \<Rightarrow> string \<Rightarrow> (io_error, unit) io" where
  [sem_defs]: "write_file v p c = (\<lambda>w.
     let w' = put v p (File (w_medium w (w_tick w) c)) (tick w)
     in (if w_ok w (w_tick w) then Inr () else Inl Denied, w'))"

definition sync_all :: "(io_error, unit) io" where
  [sem_defs]: "sync_all = io_call (ret ())"

definition rename :: "vol \<Rightarrow> string \<Rightarrow> string \<Rightarrow> (io_error, unit) io" where
  [sem_defs]: "rename v a b = io_call (\<lambda>w.
     case lookup w v a of
       None \<Rightarrow> (Inl Missing, w)
     | Some Dir \<Rightarrow> (Inl IsADirectory, w)
     | Some (File c) \<Rightarrow>
         if lookup w v b = Some Dir then (Inl IsADirectory, w)
         else if is_dir w v (parent b)
         then (Inr (), if a = b then w else put v b (File c) (vdelete v a w))
         else (Inl Missing, w))"

definition remove_file :: "vol \<Rightarrow> string \<Rightarrow> (io_error, unit) io" where
  [sem_defs]: "remove_file v p = io_call (\<lambda>w.
     case lookup w v p of
       Some (File c) \<Rightarrow> (Inr (), vdelete v p w)
     | Some Dir \<Rightarrow> (Inl IsADirectory, w)
     | None \<Rightarrow> (Inl Missing, w))"

definition remove_dir :: "vol \<Rightarrow> string \<Rightarrow> (io_error, unit) io" where
  [sem_defs]: "remove_dir v p = io_call (\<lambda>w.
     case lookup w v p of
       Some Dir \<Rightarrow> if list_ex (\<lambda>(q, n). starts_with q (p @ ''/'')) (w_vols w v) then (Inl NotEmpty, w)
                   else (Inr (), vdelete v p w)
     | Some (File c) \<Rightarrow> (Inl NotADirectory, w)
     | None \<Rightarrow> (Inl Missing, w))"

definition below :: "string \<Rightarrow> string \<Rightarrow> bool" where
  "below dir q \<longleftrightarrow> q = dir \<or> starts_with q (dir @ ''/'')"

definition remove_dir_all :: "vol \<Rightarrow> string \<Rightarrow> (io_error, unit) io" where
  [sem_defs]: "remove_dir_all v p = io_call (\<lambda>w.
     if lookup w v p = None then (Inl Missing, w)
     else (Inr (), w\<lparr>w_vols := (w_vols w)(v := filter (\<lambda>(q, n). \<not> below p q) (w_vols w v))\<rparr>))"

text \<open>The entries of a directory, as they are listed.\<close>

definition entries :: "world \<Rightarrow> vol \<Rightarrow> string \<Rightarrow> (string \<times> node) list" where
  "entries w v dir = filter (\<lambda>(q, n). q \<noteq> [] \<and> parent q = dir) (w_vols w v)"

definition read_dir :: "vol \<Rightarrow> string \<Rightarrow> (io_error, (string \<times> node) list) io" where
  [sem_defs]: "read_dir v dir = io_call (\<lambda>w.
     if is_dir w v dir then (Inr (entries w v dir), w) else (Inl Missing, w))"

definition file_name :: "string \<Rightarrow> string" where
  "file_name p = (case rsplit_once (CHR ''/'') p of Some (_, n) \<Rightarrow> n | None \<Rightarrow> p)"

text \<open>\<^verbatim>\<open>fs::write\<close>.\<close>

definition overwrite :: "vol \<Rightarrow> string \<Rightarrow> string \<Rightarrow> (io_error, unit) io" where
  "overwrite v p c = andthen (create_file v p) (\<lambda>_. write_file v p c)"

definition content_at :: "world \<Rightarrow> vol \<Rightarrow> string \<Rightarrow> string option" where
  "content_at w v p = (case lookup w v p of Some (File c) \<Rightarrow> Some c | _ \<Rightarrow> None)"

text \<open>\<^verbatim>\<open>fs::copy\<close> and \<^verbatim>\<open>fs::hard_link\<close> (the files are not written through a link here).\<close>

definition copy_file :: "vol \<Rightarrow> string \<Rightarrow> vol \<Rightarrow> string \<Rightarrow> (io_error, unit) io" where
  "copy_file sv src dv dst = andthen (read_file sv src) (\<lambda>c. overwrite dv dst c)"

definition hard_link :: "vol \<Rightarrow> string \<Rightarrow> string \<Rightarrow> (io_error, unit) io" where
  [sem_defs]: "hard_link v src dst = io_call (\<lambda>w.
     case content_at w v src of
       None \<Rightarrow> (Inl Missing, w)
     | Some c \<Rightarrow> if lookup w v dst = None \<and> is_dir w v (parent dst) then (Inr (), put v dst (File c) w) else (Inl Denied, w))"

section \<open>What a call leaves alone\<close>

lemma lookup_tick [simp]: "lookup (tick w) v p = lookup w v p"
  by (simp add: lookup_def tick_def)

lemma below_root: "p \<noteq> [] \<Longrightarrow> \<not> below p []"
  by (auto simp: below_def starts_with_iff)

lemma map_of_filter_key: "map_of (filter (\<lambda>(q, n). P q) xs) k = (if P k then map_of xs k else None)"
  by (induction xs) auto

lemma lookup_root [simp]: "lookup w v [] = Some Dir"
  by (simp add: lookup_def)

lemma lookup_put: "lookup (put v p n w) u q =
    (if u = v \<and> q = p \<and> q \<noteq> [] then Some n else lookup w u q)"
  by (simp add: lookup_def put_def update_conv')

lemma lookup_vdelete: "lookup (vdelete v p w) u q = (if u = v \<and> q = p \<and> q \<noteq> [] then None else lookup w u q)"
  by (simp add: lookup_def vdelete_def delete_conv')

lemma tick_fields [simp]: "w_ok (tick w) = w_ok w" "w_medium (tick w) = w_medium w"
    "w_ok (put v p n w) = w_ok w" "w_ok (vdelete v p w) = w_ok w"
    "w_medium (put v p n w) = w_medium w" "w_medium (vdelete v p w) = w_medium w"
    "w_tick (put v p n w) = w_tick w" "w_tick (vdelete v p w) = w_tick w" "w_tick (tick w) = Suc (w_tick w)"
  by (simp_all add: tick_def put_def vdelete_def)

text \<open>A predicate that does not look at some places: every call on those places keeps it. The
  directories a call makes or removes never hold a file.\<close>

locale frame =
  fixes P :: "world \<Rightarrow> bool" and safe :: "vol \<Rightarrow> string \<Rightarrow> bool"
  assumes P_tick: "P (tick w) = P w"
    and P_put: "safe v p \<Longrightarrow> P w \<Longrightarrow> P (put v p n w)"
    and P_vdelete: "safe v p \<Longrightarrow> P w \<Longrightarrow> P (vdelete v p w)"
    and P_make_dir: "lookup w v p = None \<Longrightarrow> P w \<Longrightarrow> P (put v p Dir w)"
    and P_remove_dir: "lookup w v p = Some Dir \<Longrightarrow> P w \<Longrightarrow> P (vdelete v p w)"
begin

lemma keeps_io_call: "keeps P m Q \<Longrightarrow> keeps P (io_call m) Q"
  using P_tick by (auto simp: keeps_def io_call_def)

lemma keeps_exists: "Q True \<Longrightarrow> Q False \<Longrightarrow> keeps P (exists_path v p) Q"
  by (auto simp: keeps_def exists_path_def gets_def) (metis (full_types))

lemma keeps_read: "(\<And>d. Q d) \<Longrightarrow> keeps P (read_file v p) Q"
  unfolding read_file_def
  by (rule keeps_io_call) (auto simp: keeps_def split: option.splits node.splits)

lemma make_dirs_P: "P w \<Longrightarrow> P (snd (make_dirs v ps w))"
  by (induction v ps w rule: make_dirs.induct) (auto simp: P_make_dir split: option.splits node.splits)

lemma keeps_create_dir_all: "Q () \<Longrightarrow> keeps P (create_dir_all v p) Q"
  unfolding create_dir_all_def by (rule keeps_io_call) (auto simp: keeps_def make_dirs_P)

lemma keeps_create_file: "safe v p \<Longrightarrow> Q () \<Longrightarrow> keeps P (create_file v p) Q"
  unfolding create_file_def by (rule keeps_io_call) (auto simp: keeps_def P_put)

lemma keeps_write_file: "safe v p \<Longrightarrow> Q () \<Longrightarrow> keeps P (write_file v p d) Q"
  by (auto simp: keeps_def write_file_def Let_def P_put P_tick)

lemma keeps_sync: "Q () \<Longrightarrow> keeps P sync_all Q"
  unfolding sync_all_def by (rule keeps_io_call) (auto simp: keeps_ret)

lemma keeps_rename: "safe v a \<Longrightarrow> safe v b \<Longrightarrow> Q () \<Longrightarrow> keeps P (rename v a b) Q"
  unfolding rename_def
  by (rule keeps_io_call) (auto simp: keeps_def P_put P_vdelete split: option.splits node.splits)

lemma keeps_remove_file: "safe v p \<Longrightarrow> Q () \<Longrightarrow> keeps P (remove_file v p) Q"
  unfolding remove_file_def
  by (rule keeps_io_call) (auto simp: keeps_def P_vdelete split: option.splits node.splits)

lemma keeps_remove_dir: "Q () \<Longrightarrow> keeps P (remove_dir v p) Q"
  unfolding remove_dir_def
  by (rule keeps_io_call) (auto simp: keeps_def P_remove_dir split: option.splits node.splits)

lemma keeps_overwrite: "safe v p \<Longrightarrow> Q () \<Longrightarrow> keeps P (overwrite v p d) Q"
  unfolding overwrite_def by (intro keeps_andthen_any keeps_create_file keeps_write_file) auto

lemma keeps_read_dir: "(\<And>l. Q l) \<Longrightarrow> keeps P (read_dir v p) Q"
  unfolding read_dir_def by (rule keeps_io_call) (auto simp: keeps_def)

lemma keeps_copy_file: "safe dv dst \<Longrightarrow> Q () \<Longrightarrow> keeps P (copy_file sv src dv dst) Q"
  unfolding copy_file_def by (intro keeps_andthen_any keeps_read keeps_overwrite) auto

lemma keeps_hard_link: "safe v dst \<Longrightarrow> Q () \<Longrightarrow> keeps P (hard_link v src dst) Q"
  unfolding hard_link_def by (rule keeps_io_call) (auto simp: keeps_def P_put split: option.splits)

lemmas keeps_calls = keeps_copy_file keeps_hard_link keeps_read_dir keeps_exists keeps_read keeps_create_dir_all keeps_create_file keeps_write_file
  keeps_sync keeps_rename keeps_remove_file keeps_remove_dir keeps_overwrite

end

text \<open>A list of files is there, each with its bytes.\<close>

definition holds :: "(vol \<times> string \<times> string) list \<Rightarrow> world \<Rightarrow> bool" where
  "holds fs w \<longleftrightarrow> list_all (\<lambda>(v, p, c). lookup w v p = Some (File c)) fs"

definition clear_of :: "(vol \<times> string \<times> string) list \<Rightarrow> vol \<Rightarrow> string \<Rightarrow> bool" where
  "clear_of fs v p \<longleftrightarrow> (v, p) \<notin> set (map (\<lambda>(v, p, c). (v, p)) fs)"

lemma holds_simps [simp]:
  "holds [] w" "holds ((v, p, c) # fs) w \<longleftrightarrow> lookup w v p = Some (File c) \<and> holds fs w"
  "holds (fs @ gs) w \<longleftrightarrow> holds fs w \<and> holds gs w"
  by (simp_all add: holds_def)

lemma clear_of_simps [simp]:
  "clear_of [] v p" "clear_of ((u, q, c) # fs) v p \<longleftrightarrow> (v, p) \<noteq> (u, q) \<and> clear_of fs v p"
  "clear_of (fs @ gs) v p \<longleftrightarrow> clear_of fs v p \<and> clear_of gs v p"
  by (auto simp: clear_of_def)

lemma holds_put: "clear_of fs v p \<Longrightarrow> holds fs w \<Longrightarrow> holds fs (put v p n w)"
  by (induction fs) (auto simp: lookup_put)

lemma holds_vdelete: "clear_of fs v p \<Longrightarrow> holds fs w \<Longrightarrow> holds fs (vdelete v p w)"
  by (induction fs) (auto simp: lookup_vdelete)

lemma holds_lookup: "holds fs w \<Longrightarrow> clear_of fs v p \<or> (\<exists>c. lookup w v p = Some (File c))"
  by (induction fs) auto

interpretation held: frame "holds fs" "clear_of fs" for fs
proof
  show "holds fs (tick w) = holds fs w" for w by (induction fs) auto
  show "holds fs (put v p Dir w)" if "lookup w v p = None" "holds fs w" for w v p
    using that holds_lookup [of fs w v p] by (auto intro: holds_put)
  show "holds fs (vdelete v p w)" if "lookup w v p = Some Dir" "holds fs w" for w v p
    using that holds_lookup [of fs w v p] by (auto intro: holds_vdelete)
qed (simp_all add: holds_put holds_vdelete)

text \<open>What one path holds, if it is a file.\<close>

interpretation same: frame "\<lambda>w. content_at w v p = c" "\<lambda>u q. (u, q) \<noteq> (v, p)" for v p c
  by unfold_locales (auto simp: content_at_def lookup_put lookup_vdelete)

text \<open>What a guard that finds nothing there proves.\<close>

lemma keeps_exists_clear:
  "(\<And>b. (b \<or> clear_of fs v p) \<Longrightarrow> Q b) \<Longrightarrow> keeps (holds fs) (exists_path v p) Q"
proof (rule keepsI)
  fix w x
  assume Q: "\<And>b. b \<or> clear_of fs v p \<Longrightarrow> Q b" and w: "holds fs w"
    and x: "fst (exists_path v p w) = Inr x"
  from x have "x = (lookup w v p \<noteq> None)" by (simp add: exists_path_def gets_def)
  with holds_lookup [OF w, of v p] have "x \<or> clear_of fs v p" by auto
  then show "Q x" by (rule Q)
qed (simp add: exists_path_def gets_def)

section \<open>What a call that succeeds has done\<close>

lemma read_file_ok:
  "read_file v p w = (Inr c, w') \<longleftrightarrow> w_ok w (w_tick w) \<and> w' = tick w \<and> lookup w v p = Some (File c)"
  by (auto simp: read_file_def io_call_def split: option.splits node.splits)

lemma make_dirs_file_iff:
  "lookup (snd (make_dirs v ps w)) u q = Some (File c) \<longleftrightarrow> lookup w u q = Some (File c)"
  by (induction v ps w rule: make_dirs.induct)
     (auto simp: lookup_put split: option.splits node.splits if_splits)

lemma create_dir_all_file_iff:
  "create_dir_all v p w = (r, w') \<Longrightarrow> lookup w' u q = Some (File c) \<longleftrightarrow> lookup w u q = Some (File c)"
  using make_dirs_file_iff [of v "ancestors [] p" "tick w" u q c]
  by (auto simp: create_dir_all_def io_call_def split: if_splits)

lemma create_file_ok: "create_file v p w = (Inr u, w') \<Longrightarrow> p \<noteq> [] \<and> w' = put v p (File []) (tick w)"
  by (auto simp: create_file_def io_call_def split: if_splits)

lemma write_file_ok:
  "write_file v p c w = (Inr u, w') \<Longrightarrow> w' = put v p (File (w_medium w (w_tick w) c)) (tick w)"
  by (auto simp: write_file_def Let_def split: if_splits)

lemma sync_all_ok: "sync_all w = (Inr u, w') \<Longrightarrow> w' = tick w"
  by (auto simp: sync_all_def io_call_def ret_def split: if_splits)

lemma rename_ok:
  "rename v a b w = (Inr u, w') \<Longrightarrow>
     \<exists>c. lookup w v a = Some (File c) \<and> b \<noteq> [] \<and> w' = (if a = b then tick w else put v b (File c) (vdelete v a (tick w)))"
  by (auto simp: rename_def io_call_def split: if_splits option.splits node.splits)

lemmas io_ok = wrap_Inr_iff read_file_ok andthen_Inr_iff

section \<open>Paths\<close>

lemma parent_shorter: "p \<noteq> [] \<Longrightarrow> length (parent p) < length p"
  by (auto simp: parent_def split: option.splits dest!: rsplit_once_SomeD)

end
