(* ===== verification/Classify.thy ===== *)
theory Classify
  imports Prelude "HOL-Library.Multiset"
begin

text \<open>
  \<^verbatim>\<open>apps/dvdrip/src/classify.rs\<close>: lsdvd's titles, normalised, and the role each one gets. The
  passes of \<^verbatim>\<open>classify\<close> are separate functions, composed in the order of the source:
  \<open>read_title\<close> and the sort, \<open>assign_roles\<close>, \<open>prefer_wide\<close>, \<open>mark_parts\<close>, \<open>mark_playall\<close>.
\<close>

section \<open>Data\<close>

datatype role = Main | Alt | Dup | Playall | Part | Stub | Short | Extra

definition encoded :: "role \<Rightarrow> bool" where
  "encoded r \<longleftrightarrow> (case r of Main \<Rightarrow> True | Alt \<Rightarrow> True | Extra \<Rightarrow> True | Short \<Rightarrow> True | _ \<Rightarrow> False)"

record track =
  tr_lang :: json
  tr_language :: json
  tr_format :: "json option"
  tr_channels :: "f64 option"
  tr_content :: json

record title =
  t_title :: nat
  t_seconds :: f64
  t_vts :: nat
  t_ttn :: nat
  t_aspect :: json
  t_fps :: f64
  t_angles :: nat
  t_chapters :: "f64 list"
  t_cells :: "int list"
  t_audio :: "track list"
  t_subs :: "track list"
  t_role :: role
  t_part_of :: "nat option"
  t_playall_of :: "nat list option"
  t_mkv :: "nat option"
  t_file :: "string option"

record thresholds =
  th_stub :: f64
  th_extra :: f64

definition default_thresholds :: thresholds where
  "default_thresholds = \<lparr>th_stub = 5, th_extra = 30\<rparr>"

section \<open>Reading lsdvd's JSON\<close>

fun arr :: "json \<Rightarrow> json list" where
  "arr JNull = []"
| "arr (JArr items) = items"
| "arr other = [other]"

fun num :: "rounding \<Rightarrow> json \<Rightarrow> f64" where
  "num fl (JInt i) = fl (of_int i)"
| "num fl (JFloat x) = x"
| "num fl (JStr s) = (case parse_f64 fl (trim s) of Some x \<Rightarrow> x | None \<Rightarrow> 0)"
| "num fl v = 0"

definition norm_track :: "rounding \<Rightarrow> json \<Rightarrow> bool \<Rightarrow> track" where
  "norm_track fl t audio =
     \<lparr>tr_lang = jget t ''langcode'',
      tr_language = jget t ''language'',
      tr_format = (if audio then Some (jget t ''format'') else None),
      tr_channels = (if audio then Some (num fl (jget t ''channels'')) else None),
      tr_content = jget t ''content''\<rparr>"

definition read_title :: "rounding \<Rightarrow> json \<Rightarrow> title" where
  "read_title fl t =
     \<lparr>t_title = cast_uint 32 (num fl (jget t ''ix'')),
      t_seconds = num fl (jget t ''length''),
      t_vts = cast_uint 32 (num fl (jget t ''vts'')),
      t_ttn = cast_uint 32 (num fl (jget t ''ttn'')),
      t_aspect = jget t ''aspect'',
      t_fps = num fl (jget t ''fps''),
      t_angles = cast_uint 32 (num fl (jget t ''angles'')),
      t_chapters = map (\<lambda>c. num fl (jget c ''length'')) (arr (jget t ''chapter'')),
      t_cells = map (\<lambda>c. cast_i64 (round_away (fl (num fl (jget c ''length'') * 10))))
                  (arr (jget t ''cell'')),
      t_audio = map (\<lambda>a. norm_track fl a True) (arr (jget t ''audio'')),
      t_subs = map (\<lambda>s. norm_track fl s False) (arr (jget t ''subp'')),
      t_role = Extra,
      t_part_of = None,
      t_playall_of = None,
      t_mkv = None,
      t_file = None\<rparr>"

section \<open>The passes\<close>

text \<open>Whether an earlier title that is kept has the same VTS and cells.\<close>

definition is_dup :: "title list \<Rightarrow> title \<Rightarrow> bool" where
  "is_dup before t \<longleftrightarrow>
     list_ex (\<lambda>k. encoded (t_role k) \<and> t_vts k = t_vts t \<and> t_cells k = t_cells t) before"

definition first_role ::
  "rounding \<Rightarrow> thresholds \<Rightarrow> nat \<Rightarrow> f64 \<Rightarrow> title list \<Rightarrow> title \<Rightarrow> role" where
  "first_role fl th main main_len before t =
     (if t_title t = main then Main
      else if t_seconds t < th_stub th then Stub
      else if is_dup before t then Dup
      else if main_len > 0 \<and> \<bar>fl (t_seconds t - main_len)\<bar> < fl (main_len * fl (2 / 100)) then Alt
      else if t_seconds t < th_extra th then Short
      else Extra)"

fun assign_roles ::
  "rounding \<Rightarrow> thresholds \<Rightarrow> nat \<Rightarrow> f64 \<Rightarrow> title list \<Rightarrow> title list \<Rightarrow> title list" where
  "assign_roles fl th main main_len before [] = before"
| "assign_roles fl th main main_len before (t # ts) =
     assign_roles fl th main main_len
       (before @ [t\<lparr>t_role := first_role fl th main main_len before t\<rparr>]) ts"

definition prefer_wide :: "title list \<Rightarrow> title list" where
  "prefer_wide titles =
     (case find (\<lambda>t. t_role t = Alt \<and> t_aspect t = JStr ''16/9'') titles of
        None \<Rightarrow> titles
      | Some w \<Rightarrow>
          if list_ex (\<lambda>t. t_role t = Main \<and> t_aspect t = JStr ''4/3'') titles
          then map (\<lambda>t. if t_role t = Main then t\<lparr>t_role := Alt\<rparr>
                        else if t_title t = t_title w then t\<lparr>t_role := Main\<rparr> else t) titles
          else titles)"

definition mark_parts :: "rounding \<Rightarrow> title list \<Rightarrow> title list" where
  "mark_parts fl titles =
     (case find (\<lambda>t. t_role t = Main) titles of
        None \<Rightarrow> titles
      | Some m \<Rightarrow>
          let parts = map t_title (filter (\<lambda>t. t_role t = Extra \<and> t_vts t = t_vts m
                                              \<and> t_seconds t < t_seconds m) titles);
              sum = fsum fl (map t_seconds (filter (\<lambda>t. t_title t \<in> set parts) titles))
          in if 2 \<le> length parts \<and> \<bar>fl (sum - t_seconds m)\<bar> < 3
             then map (\<lambda>t. if t_title t \<in> set parts
                           then t\<lparr>t_role := Part, t_part_of := Some (t_title m)\<rparr> else t) titles
             else titles)"

definition chain_parts :: "title list \<Rightarrow> title \<Rightarrow> title list" where
  "chain_parts before t =
     filter (\<lambda>p. t_role p = Extra \<and> t_vts p = t_vts t \<and> t_title p \<noteq> t_title t
                 \<and> t_seconds p < t_seconds t) before"

definition mark_playall :: "rounding \<Rightarrow> title list \<Rightarrow> title list" where
  "mark_playall fl before =
     map (\<lambda>t. if t_role t \<noteq> Extra then t
              else let parts = chain_parts before t;
                       sum = fsum fl (map t_seconds parts)
                   in if 2 \<le> length parts \<and> \<bar>fl (sum - t_seconds t)\<bar> < 3
                      then t\<lparr>t_role := Playall, t_playall_of := Some (map t_title parts)\<rparr>
                      else t) before"

definition read_titles :: "rounding \<Rightarrow> json \<Rightarrow> title list" where
  "read_titles fl lsdvd =
     sort_key t_title (map (read_title fl) (arr (jget (jget lsdvd ''lsdvd'') ''track'')))"

definition main_length :: "title list \<Rightarrow> nat \<Rightarrow> f64" where
  "main_length titles main =
     (case find (\<lambda>t. t_title t = main) titles of Some t \<Rightarrow> t_seconds t | None \<Rightarrow> 0)"

definition classify :: "rounding \<Rightarrow> json \<Rightarrow> nat \<Rightarrow> thresholds \<Rightarrow> title list" where
  "classify fl lsdvd main th =
     (let titles = read_titles fl lsdvd;
          main_len = main_length titles main
      in mark_playall fl (mark_parts fl (prefer_wide (assign_roles fl th main main_len [] titles))))"

text \<open>HandBrake's pick, else lsdvd's longest title. The \<^verbatim>\<open>as u32\<close> of an \<^verbatim>\<open>i64\<close> wraps.\<close>

definition main_feature :: "rounding \<Rightarrow> json \<Rightarrow> json \<Rightarrow> nat option" where
  "main_feature fl scan lsdvd =
     (case as_i64 (jget scan ''MainFeature'') of
        Some m \<Rightarrow> if 0 < m then Some (nat (m mod 2 ^ 32))
                  else (let n = cast_uint 32 (num fl (jget (jget lsdvd ''lsdvd'') ''longest_track''))
                        in if n = 0 then None else Some n)
      | None \<Rightarrow> (let n = cast_uint 32 (num fl (jget (jget lsdvd ''lsdvd'') ''longest_track''))
                 in if n = 0 then None else Some n))"


section \<open>What the passes keep\<close>

text \<open>A title without what classification writes into it.\<close>

definition erase :: "title \<Rightarrow> title" where
  "erase t = t\<lparr>t_role := Extra, t_part_of := None, t_playall_of := None\<rparr>"

lemma erase_update [simp]:
  "erase (t\<lparr>t_role := r\<rparr>) = erase t"
  "erase (t\<lparr>t_role := r, t_part_of := p\<rparr>) = erase t"
  "erase (t\<lparr>t_role := r, t_playall_of := q\<rparr>) = erase t"
  by (simp_all add: erase_def)

lemma erase_fields [simp]:
  "t_title (erase t) = t_title t" "t_seconds (erase t) = t_seconds t"
  "t_vts (erase t) = t_vts t" "t_cells (erase t) = t_cells t"
  "t_aspect (erase t) = t_aspect t"
  by (simp_all add: erase_def)

lemma erase_read_title [simp]: "erase (read_title fl t) = read_title fl t"
  by (simp add: erase_def read_title_def)

lemma erase_map_cong: "(\<And>t. erase (f t) = erase t) \<Longrightarrow> map erase (map f ts) = map erase ts"
  by simp

lemma erase_assign_roles:
  "map erase (assign_roles fl th main ml before ts) = map erase before @ map erase ts"
  by (induction ts arbitrary: before) auto

lemma erase_prefer_wide: "map erase (prefer_wide ts) = map erase ts"
  unfolding prefer_wide_def by (auto split: option.splits)

lemma erase_mark_parts: "map erase (mark_parts fl ts) = map erase ts"
  unfolding mark_parts_def by (auto simp: Let_def split: option.splits)

lemma erase_mark_playall: "map erase (mark_playall fl ts) = map erase ts"
  unfolding mark_playall_def by (auto simp: Let_def)

lemmas erase_passes = erase_assign_roles erase_prefer_wide erase_mark_parts erase_mark_playall

text \<open>Fields read off equal erasures are equal, position by position.\<close>

lemma erase_eqD:
  assumes "map erase xs = map erase ys"
  shows "map t_title xs = map t_title ys" and "length xs = length ys"
    and "i < length xs \<Longrightarrow> t_title (xs ! i) = t_title (ys ! i)"
    and "i < length xs \<Longrightarrow> t_vts (xs ! i) = t_vts (ys ! i)"
    and "i < length xs \<Longrightarrow> t_cells (xs ! i) = t_cells (ys ! i)"
    and "i < length xs \<Longrightarrow> t_seconds (xs ! i) = t_seconds (ys ! i)"
    and "i < length xs \<Longrightarrow> t_aspect (xs ! i) = t_aspect (ys ! i)"
proof -
  show l: "length xs = length ys" using assms by (rule map_eq_imp_length_eq)
  have e: "erase (xs ! i) = erase (ys ! i)" if "i < length xs" for i
    using assms l that by (metis nth_map)
  have t: "t_title (xs ! i) = t_title (ys ! i)" if "i < length xs" for i
    using e [OF that] by (metis erase_fields(1))
  show "map t_title xs = map t_title ys"
    using l t by (intro nth_equalityI) auto
  show "i < length xs \<Longrightarrow> t_title (xs ! i) = t_title (ys ! i)" by (rule t)
  show "i < length xs \<Longrightarrow> t_vts (xs ! i) = t_vts (ys ! i)" using e by (metis erase_fields(3))
  show "i < length xs \<Longrightarrow> t_cells (xs ! i) = t_cells (ys ! i)" using e by (metis erase_fields(4))
  show "i < length xs \<Longrightarrow> t_seconds (xs ! i) = t_seconds (ys ! i)" using e by (metis erase_fields(2))
  show "i < length xs \<Longrightarrow> t_aspect (xs ! i) = t_aspect (ys ! i)" using e by (metis erase_fields(5))
qed

lemma erase_read_titles [simp]: "map erase (read_titles fl lsdvd) = read_titles fl lsdvd"
proof -
  have "erase t = t" if "t \<in> set (read_titles fl lsdvd)" for t
    using that by (auto simp: read_titles_def)
  then show ?thesis by (simp add: map_idI)
qed

lemma erase_classify: "map erase (classify fl lsdvd main th) = read_titles fl lsdvd"
  by (simp add: classify_def Let_def erase_passes)

lemma classify_titles:
  "map t_title (classify fl lsdvd main th) = map t_title (read_titles fl lsdvd)"
  by (rule erase_eqD(1)) (simp add: erase_classify)

section \<open>Roles after each pass\<close>

lemma assign_roles_append:
  "assign_roles fl th main ml before ts = before @ drop (length before) (assign_roles fl th main ml before ts)"
proof (induction ts arbitrary: before)
  case (Cons t ts)
  show ?case
    using Cons.IH [of "before @ [t\<lparr>t_role := first_role fl th main ml before t\<rparr>]"]
    by (metis append.assoc append_eq_conv_conj assign_roles.simps(2))
qed simp

lemma assign_roles_length [simp]:
  "length (assign_roles fl th main ml before ts) = length before + length ts"
  by (induction ts arbitrary: before) auto

lemma assign_roles_take:
  "take (length before) (assign_roles fl th main ml before ts) = before"
  using assign_roles_append [of fl th main ml before ts] by (metis append_eq_conv_conj)

lemma assign_roles_nth:
  assumes "i < length ts"
  shows "t_role (assign_roles fl th main ml before ts ! (length before + i))
       = first_role fl th main ml (take (length before + i) (assign_roles fl th main ml before ts)) (ts ! i)"
  using assms
proof (induction ts arbitrary: before i)
  case (Cons t ts)
  let ?b = "before @ [t\<lparr>t_role := first_role fl th main ml before t\<rparr>]"
  let ?r = "assign_roles fl th main ml ?b ts"
  show ?case
  proof (cases i)
    case 0
    have "take (length ?b) ?r = ?b" by (rule assign_roles_take)
    then have "?r ! length before = ?b ! length before"
      by (metis length_append_singleton lessI nth_take)
    moreover have "take (length before) ?r = before"
      using \<open>take (length ?b) ?r = ?b\<close>
      by (metis append_eq_conv_conj append_take_drop_id append_assoc)
    ultimately show ?thesis using 0 by simp
  next
    case (Suc j)
    then show ?thesis using Cons.IH [of j ?b] Cons.prems by simp
  qed
qed simp

lemma assign_roles_Main_iff:
  assumes "t \<in> set (assign_roles fl th main ml [] ts)"
  shows "t_role t = Main \<longleftrightarrow> t_title t = main"
proof -
  let ?r = "assign_roles fl th main ml [] ts"
  from assms obtain i where i: "i < length ts" and t: "t = ?r ! i"
    by (metis assign_roles_length add_0 in_set_conv_nth list.size(3))
  have "t_title t = t_title (ts ! i)"
    using erase_eqD(3) [of ?r ts i] i t by (simp add: erase_assign_roles)
  moreover have "t_role t = first_role fl th main ml (take i ?r) (ts ! i)"
    using assign_roles_nth [OF i, of fl th main ml "[]"] t by simp
  ultimately show ?thesis by (auto simp: first_role_def)
qed

lemma distinct_titleD:
  "distinct (map t_title ts) \<Longrightarrow> a \<in> set ts \<Longrightarrow> b \<in> set ts \<Longrightarrow> t_title a = t_title b \<Longrightarrow> a = b"
  by (metis distinct_map inj_onD)

text \<open>A role only moves between main and alternate, or from extra to a dropped one.\<close>

lemma prefer_wide_nth:
  assumes "distinct (map t_title ts)" and "i < length ts"
  shows "t_role (prefer_wide ts ! i) = t_role (ts ! i)
       \<or> t_role (ts ! i) = Main \<and> t_role (prefer_wide ts ! i) = Alt
       \<or> t_role (ts ! i) = Alt \<and> t_role (prefer_wide ts ! i) = Main"
proof (cases "find (\<lambda>t. t_role t = Alt \<and> t_aspect t = JStr ''16/9'') ts")
  case None
  then show ?thesis by (simp add: prefer_wide_def)
next
  case (Some w)
  then have "w \<in> set ts" and "t_role w = Alt" by (auto simp: find_Some_iff)
  then have "t_title (ts ! i) = t_title w \<longrightarrow> ts ! i = w"
    using distinct_titleD [OF assms(1)] assms(2) by (metis nth_mem)
  with Some assms(2) \<open>t_role w = Alt\<close> show ?thesis by (auto simp: prefer_wide_def)
qed

lemma mark_parts_nth:
  assumes "distinct (map t_title ts)" and "i < length ts"
  shows "mark_parts fl ts ! i = ts ! i
       \<or> t_role (ts ! i) = Extra \<and> t_role (mark_parts fl ts ! i) = Part"
proof (cases "find (\<lambda>t. t_role t = Main) ts")
  case None
  then show ?thesis by (simp add: mark_parts_def)
next
  case (Some m)
  have "t_role (ts ! i) = Extra" if "t_title (ts ! i) = t_title x" and "x \<in> set ts" and "t_role x = Extra" for x
    using distinct_titleD [OF assms(1)] assms(2) that by (metis nth_mem)
  with Some assms(2) show ?thesis by (auto simp: mark_parts_def Let_def)
qed

lemma mark_playall_nth:
  assumes "i < length ts"
  shows "mark_playall fl ts ! i = ts ! i
       \<or> t_role (ts ! i) = Extra \<and> t_role (mark_playall fl ts ! i) = Playall"
  using assms by (auto simp: mark_playall_def Let_def)

lemma prefer_wide_one_main:
  assumes d: "distinct (map t_title ts)"
    and one: "\<And>t. t \<in> set ts \<Longrightarrow> t_role t = Main \<longleftrightarrow> t_title t = main"
    and ex: "main \<in> set (map t_title ts)"
  shows "\<exists>m \<in> set ts. (\<forall>t \<in> set (prefer_wide ts). t_role t = Main \<longleftrightarrow> t_title t = t_title m)
           \<and> (t_title m = main \<or> t_aspect m = JStr ''16/9'')"
proof (cases "find (\<lambda>t. t_role t = Alt \<and> t_aspect t = JStr ''16/9'') ts")
  case None
  with one ex show ?thesis by (auto simp: prefer_wide_def)
next
  case (Some w)
  then have w: "w \<in> set ts" "t_role w = Alt" "t_aspect w = JStr ''16/9''"
    by (auto simp: find_Some_iff)
  show ?thesis
  proof (cases "list_ex (\<lambda>t. t_role t = Main \<and> t_aspect t = JStr ''4/3'') ts")
    case True
    have "t_role x = Alt" if "x \<in> set ts" and "t_title x = t_title w" for x
      using distinct_titleD [OF d that(1) w(1) that(2)] w(2) by simp
    then have "\<forall>t \<in> set (prefer_wide ts). t_role t = Main \<longleftrightarrow> t_title t = t_title w"
      using Some True by (fastforce simp: prefer_wide_def)
    with w show ?thesis by blast
  next
    case False
    with Some one ex show ?thesis by (auto simp: prefer_wide_def)
  qed
qed

text \<open>The roles before and after the last two passes.\<close>

lemma late_passes_nth:
  assumes "distinct (map t_title ts)" and "i < length ts"
  shows "t_role (mark_playall fl (mark_parts fl ts) ! i) = t_role (ts ! i)
       \<or> t_role (ts ! i) = Extra \<and> t_role (mark_playall fl (mark_parts fl ts) ! i) \<in> {Part, Playall}"
proof -
  have "length (mark_parts fl ts) = length ts"
    using erase_eqD(2) [OF erase_mark_parts] .
  then show ?thesis
    using mark_parts_nth [OF assms, of fl] mark_playall_nth [of i "mark_parts fl ts" fl] assms(2)
    by auto
qed


section \<open>One main feature\<close>

text \<open>The titles after the first two passes; \<open>late_passes_nth\<close> is about what follows.\<close>

definition early :: "rounding \<Rightarrow> json \<Rightarrow> nat \<Rightarrow> thresholds \<Rightarrow> title list" where
  "early fl lsdvd main th =
     (let titles = read_titles fl lsdvd
      in prefer_wide (assign_roles fl th main (main_length titles main) [] titles))"

lemma classify_early:
  "classify fl lsdvd main th = mark_playall fl (mark_parts fl (early fl lsdvd main th))"
  by (simp add: classify_def early_def Let_def)

lemma erase_early: "map erase (early fl lsdvd main th) = map erase (read_titles fl lsdvd)"
  by (simp add: early_def Let_def erase_passes)

lemma early_titles: "map t_title (early fl lsdvd main th) = map t_title (read_titles fl lsdvd)"
  by (rule erase_eqD(1)) (rule erase_early)

lemma classify_length: "length (classify fl lsdvd main th) = length (read_titles fl lsdvd)"
  using classify_titles by (metis length_map)

lemma classify_Main_iff:
  assumes "distinct (map t_title (read_titles fl lsdvd))" and "i < length (read_titles fl lsdvd)"
  shows "t_role (classify fl lsdvd main th ! i) = Main \<longleftrightarrow> t_role (early fl lsdvd main th ! i) = Main"
proof -
  have "distinct (map t_title (early fl lsdvd main th))" using assms(1) by (simp add: early_titles)
  moreover have "i < length (early fl lsdvd main th)" using assms(2) early_titles by (metis length_map)
  ultimately show ?thesis
    using late_passes_nth [of "early fl lsdvd main th" i fl] by (auto simp: classify_early)
qed

lemma early_one_main:
  assumes "distinct (map t_title (read_titles fl lsdvd))"
    and "main \<in> set (map t_title (read_titles fl lsdvd))"
  shows "\<exists>m < length (read_titles fl lsdvd).
           (\<forall>i < length (read_titles fl lsdvd). t_role (early fl lsdvd main th ! i) = Main \<longleftrightarrow> i = m)
         \<and> (t_title (read_titles fl lsdvd ! m) = main
            \<or> t_aspect (read_titles fl lsdvd ! m) = JStr ''16/9'')"
proof -
  let ?rd = "read_titles fl lsdvd"
  let ?a = "assign_roles fl th main (main_length ?rd main) [] ?rd"
  let ?e = "early fl lsdvd main th"
  have ea: "map erase ?a = map erase ?rd" by (simp add: erase_assign_roles)
  have la: "length ?a = length ?rd" by simp
  have le: "length ?e = length ?rd" by (metis early_titles length_map)
  have d: "distinct (map t_title ?a)" using assms(1) erase_eqD(1) [OF ea] by simp
  obtain m where m: "m \<in> set ?a"
    and mm: "\<And>t. t \<in> set ?e \<Longrightarrow> t_role t = Main \<longleftrightarrow> t_title t = t_title m"
    and ma: "t_title m = main \<or> t_aspect m = JStr ''16/9''"
    using prefer_wide_one_main [OF d, of main] assign_roles_Main_iff assms(2) erase_eqD(1) [OF ea]
    by (auto simp: early_def Let_def)
  then obtain k where k: "k < length ?rd" and mk: "m = ?a ! k" by (metis in_set_conv_nth la)
  have "t_role (?e ! i) = Main \<longleftrightarrow> i = k" if "i < length ?rd" for i
  proof -
    have "t_role (?e ! i) = Main \<longleftrightarrow> t_title (?rd ! i) = t_title (?rd ! k)"
      using mm [of "?e ! i"] that le erase_eqD(3) [OF erase_early] erase_eqD(3) [OF ea] k mk la
      by (metis nth_mem)
    also have "\<dots> \<longleftrightarrow> i = k"
      using assms(1) that k nth_eq_iff_index_eq [of "map t_title ?rd" i k] by simp
    finally show ?thesis .
  qed
  moreover have "t_title (?rd ! k) = main \<or> t_aspect (?rd ! k) = JStr ''16/9''"
    using ma mk k erase_eqD(3,7) [OF ea, of k] la by simp
  ultimately show ?thesis using k by blast
qed

section \<open>Chains of extras\<close>

text \<open>Of at least two titles, two are not longer than two others of them each.\<close>

lemma two_shortest:
  fixes f :: "'a \<Rightarrow> rat"
  assumes "2 \<le> length ps" and "distinct ps"
  shows "\<exists>a \<in> set ps. \<exists>b \<in> set ps. a \<noteq> b
           \<and> (\<forall>x \<in> {a, b}. length (filter (\<lambda>p. f p < f x) ps) < 2)"
proof -
  obtain a b r where s: "sort_key f ps = a # b # r"
    using assms(1) by (metis Suc_le_length_iff length_sort numeral_2_eq_2)
  have srt: "sorted (map f (a # b # r))" using sorted_sort_key [of f ps] s by simp
  have "mset ps = mset (a # b # r)" using s by (metis mset_sort)
  then have len: "length (filter P ps) = length (filter P (a # b # r))" for P
    by (metis mset_filter size_mset)
  have no_r: "filter (\<lambda>p. f p < f x) r = []" if "x \<in> {a, b}" for x
    using srt that by (auto simp: filter_empty_conv)
  have "length (filter (\<lambda>p. f p < f x) ps) < 2" if "x \<in> {a, b}" for x
    using that srt by (auto simp: len no_r)
  moreover have "a \<noteq> b" using assms(2) s by (metis distinct_sort distinct_length_2_or_more)
  moreover have "a \<in> set ps" "b \<in> set ps" using s by (metis list.set_intros set_sort)+
  ultimately show ?thesis by blast
qed

lemma mark_playall_role:
  assumes "i < length ts" and "t_role (ts ! i) = Extra"
  shows "t_role (mark_playall fl ts ! i) = Playall \<longleftrightarrow>
           2 \<le> length (chain_parts ts (ts ! i))
           \<and> \<bar>fl (fsum fl (map t_seconds (chain_parts ts (ts ! i))) - t_seconds (ts ! i))\<bar> < 3"
  using assms by (simp add: mark_playall_def Let_def)

lemma mark_playall_covered:
  assumes "distinct (map t_title ts)" and "i < length ts"
    and "t_role (ts ! i) = Extra" and "t_role (mark_playall fl ts ! i) = Playall"
  shows "\<exists>j < length ts. \<exists>k < length ts. j \<noteq> k
           \<and> (\<forall>x \<in> {j, k}. t_role (mark_playall fl ts ! x) = Extra
                 \<and> t_vts (ts ! x) = t_vts (ts ! i) \<and> t_seconds (ts ! x) < t_seconds (ts ! i))"
proof -
  let ?ps = "chain_parts ts (ts ! i)"
  have "2 \<le> length ?ps" using assms mark_playall_role by simp
  moreover have "distinct ?ps" using assms(1) by (simp add: chain_parts_def distinct_map)
  ultimately obtain a b where ab: "a \<in> set ?ps" "b \<in> set ?ps" "a \<noteq> b"
    and few: "\<And>x. x \<in> {a, b} \<Longrightarrow> length (filter (\<lambda>p. t_seconds p < t_seconds x) ?ps) < 2"
    using two_shortest [of ?ps t_seconds] by blast
  have kept: "t_role (mark_playall fl ts ! x) = Extra"
    if x: "x < length ts" and "ts ! x \<in> {a, b}" for x
  proof -
    have mem: "ts ! x \<in> set ?ps" using ab that(2) by auto
    have "t_seconds p = t_seconds (ts ! i)" if "p \<in> set ts" "t_title p = t_title (ts ! i)" for p
      using distinct_titleD [OF assms(1) that(1) _ that(2)] assms(2) by simp
    then have "set (chain_parts ts (ts ! x)) \<subseteq> set (filter (\<lambda>p. t_seconds p < t_seconds (ts ! x)) ?ps)"
      using mem by (fastforce simp: chain_parts_def)
    then have "length (chain_parts ts (ts ! x)) < 2"
      using few [OF that(2)] \<open>distinct ?ps\<close> assms(1)
      by (metis (no_types, lifting) List.finite_set card_mono chain_parts_def distinct_card distinct_filter
          distinct_map le_less_trans)
    moreover have "t_role (ts ! x) = Extra" using mem by (simp add: chain_parts_def)
    ultimately show ?thesis
      using mark_playall_role [OF x, of fl] mark_playall_nth [OF x, of fl] by auto
  qed
  have "set ?ps \<subseteq> set ts" by (simp add: chain_parts_def)
  then obtain j k where "j < length ts" "k < length ts" "a = ts ! j" "b = ts ! k"
    using ab by (metis in_mono in_set_conv_nth)
  with ab kept show ?thesis
    by (intro exI [of _ j] conjI exI [of _ k]) (auto simp: chain_parts_def)
qed

section \<open>Properties\<close>

text \<open>Classification loses no title and changes nothing lsdvd reported: apart from role,
  part-of and play-all-of, the classified titles are exactly the tracks of the disc, each once, in
  the order of their numbers.\<close>

theorem classify_keeps_titles:
  "mset (map erase (classify fl lsdvd main th))
     = mset (map (read_title fl) (arr (jget (jget lsdvd ''lsdvd'') ''track'')))
   \<and> sorted (map t_title (classify fl lsdvd main th))"
  by (simp add: erase_classify classify_titles) (simp add: read_titles_def)

text \<open>Property C31: on a disc whose titles have different numbers, one of them the main-feature pick,
  exactly one classified title is the main feature, and it is the pick or a 16:9 title.\<close>

theorem classify_one_main:
  assumes "distinct (map t_title (read_titles fl lsdvd))"
    and "main \<in> set (map t_title (read_titles fl lsdvd))"
  shows "\<exists>m < length (classify fl lsdvd main th).
           (\<forall>i < length (classify fl lsdvd main th).
              t_role (classify fl lsdvd main th ! i) = Main \<longleftrightarrow> i = m)
         \<and> (t_title (classify fl lsdvd main th ! m) = main
            \<or> t_aspect (classify fl lsdvd main th ! m) = JStr ''16/9'')"
proof -
  let ?rd = "read_titles fl lsdvd"
  have e: "map erase (classify fl lsdvd main th) = map erase ?rd" by (simp add: erase_classify)
  obtain m where m: "m < length ?rd"
    and mm: "\<And>i. i < length ?rd \<Longrightarrow> t_role (early fl lsdvd main th ! i) = Main \<longleftrightarrow> i = m"
    and ma: "t_title (?rd ! m) = main \<or> t_aspect (?rd ! m) = JStr ''16/9''"
    using early_one_main [OF assms] by blast
  show ?thesis
    using m mm ma classify_Main_iff [OF assms(1)] erase_eqD(3,7) [OF e, of m]
    by (intro exI [of _ m]) (simp add: classify_length)
qed

text \<open>No video is encoded twice: of two titles with the same VTS and the same cells the
  later one is not encoded, unless it is the main-feature pick itself.\<close>

theorem classify_no_duplicate_encodes:
  assumes d: "distinct (map t_title (read_titles fl lsdvd))"
    and ij: "i < j" "j < length (classify fl lsdvd main th)"
    and same: "t_vts (classify fl lsdvd main th ! i) = t_vts (classify fl lsdvd main th ! j)"
      "t_cells (classify fl lsdvd main th ! i) = t_cells (classify fl lsdvd main th ! j)"
    and enc: "encoded (t_role (classify fl lsdvd main th ! i))"
      "encoded (t_role (classify fl lsdvd main th ! j))"
  shows "t_title (classify fl lsdvd main th ! j) = main"
proof (rule ccontr)
  let ?c = "classify fl lsdvd main th" and ?rd = "read_titles fl lsdvd"
  let ?a = "assign_roles fl th main (main_length ?rd main) [] ?rd"
  assume nm: "t_title (?c ! j) \<noteq> main"
  have ec: "map erase ?c = map erase ?rd" and ea: "map erase ?a = map erase ?rd"
    by (simp_all add: erase_classify erase_assign_roles)
  have i: "i < length ?rd" and j: "j < length ?rd" using ij by (simp_all add: classify_length)
  have enc_a: "encoded (t_role (?a ! x))" if x: "x < length ?rd" and "encoded (t_role (?c ! x))" for x
  proof -
    have "x < length (early fl lsdvd main th)" by (metis early_titles length_map x)
    moreover have "distinct (map t_title (early fl lsdvd main th))" using d by (simp add: early_titles)
    ultimately have "encoded (t_role (early fl lsdvd main th ! x))"
      using late_passes_nth [of "early fl lsdvd main th" x fl] that(2)
      by (auto simp: classify_early encoded_def)
    moreover have "distinct (map t_title ?a)" using d erase_eqD(1) [OF ea] by simp
    ultimately show ?thesis
      using prefer_wide_nth [of ?a x] x by (auto simp: early_def Let_def encoded_def)
  qed
  have "t_role (?a ! j) = first_role fl th main (main_length ?rd main) (take j ?a) (?rd ! j)"
    using assign_roles_nth [OF j, of fl th main _ "[]"] by simp
  moreover have "is_dup (take j ?a) (?rd ! j)"
  proof -
    have "?a ! i \<in> set (take j ?a)" using ij(1) j by (auto simp: in_set_conv_nth)
    moreover have "t_vts (?a ! i) = t_vts (?rd ! j)" "t_cells (?a ! i) = t_cells (?rd ! j)"
      using same i j erase_eqD(4,5) [OF ec] erase_eqD(4,5) [OF ea]
      by (simp_all add: classify_length)
    ultimately show ?thesis using enc_a [OF i enc(1)] by (auto simp: is_dup_def list_ex_iff)
  qed
  moreover have "t_title (?rd ! j) \<noteq> main" using nm j erase_eqD(3) [OF ec, of j]
    by (simp add: classify_length)
  ultimately have "t_role (?a ! j) \<in> {Stub, Dup}" by (simp add: first_role_def)
  then show False using enc_a [OF j enc(2)] by (auto simp: encoded_def)
qed

text \<open>Dropping a play-all chain loses nothing: when a title is not encoded because it is the
  sum of other extras, at least two strictly shorter extras of the same VTS are encoded.\<close>

theorem classify_playall_covered:
  assumes d: "distinct (map t_title (read_titles fl lsdvd))"
    and i: "i < length (classify fl lsdvd main th)"
    and pa: "t_role (classify fl lsdvd main th ! i) = Playall"
  shows "\<exists>j < length (classify fl lsdvd main th). \<exists>k < length (classify fl lsdvd main th). j \<noteq> k
           \<and> (\<forall>x \<in> {j, k}. t_role (classify fl lsdvd main th ! x) = Extra
                 \<and> t_vts (classify fl lsdvd main th ! x) = t_vts (classify fl lsdvd main th ! i)
                 \<and> t_seconds (classify fl lsdvd main th ! x) < t_seconds (classify fl lsdvd main th ! i))"
proof -
  let ?c = "classify fl lsdvd main th" and ?p = "mark_parts fl (early fl lsdvd main th)"
  have c: "?c = mark_playall fl ?p" by (rule classify_early)
  have e: "map erase ?c = map erase ?p" by (simp add: c erase_mark_playall)
  have dp: "distinct (map t_title ?p)"
    using d erase_eqD(1) [OF erase_mark_parts] by (simp add: early_titles)
  have l: "length ?p = length ?c" using erase_eqD(2) [OF e] by simp
  have le: "length (early fl lsdvd main th) = length ?c"
    using early_titles classify_titles by (metis length_map)
  have "t_role (?p ! i) \<noteq> Playall"
  proof -
    have ie: "i < length (early fl lsdvd main th)" using i le by simp
    let ?rd = "read_titles fl lsdvd"
    let ?a = "assign_roles fl th main (main_length ?rd main) [] ?rd"
    have ir: "i < length ?rd" using i by (simp add: classify_length)
    have "distinct (map t_title ?a)"
      using d erase_eqD(1) [of ?a ?rd] by (simp add: erase_assign_roles)
    then have "t_role (early fl lsdvd main th ! i) \<noteq> Playall"
      using prefer_wide_nth [of ?a i] ir assign_roles_nth [OF ir, of fl th main _ "[]"]
      by (auto simp: early_def Let_def first_role_def split: if_splits)
    then show ?thesis
      using mark_parts_nth [of "early fl lsdvd main th" i fl] d ie by (auto simp: early_titles)
  qed
  then have "t_role (?p ! i) = Extra" using mark_playall_nth [of i ?p fl] i l pa c by auto
  with dp i l pa obtain j k where "j < length ?p" "k < length ?p" "j \<noteq> k"
    and jk: "\<And>x. x \<in> {j, k} \<Longrightarrow> t_role (?c ! x) = Extra \<and> t_vts (?p ! x) = t_vts (?p ! i)
               \<and> t_seconds (?p ! x) < t_seconds (?p ! i)"
    using mark_playall_covered [OF dp, of i fl] unfolding c by (metis (no_types, lifting))
  then show ?thesis
    using erase_eqD(4,6) [OF e] i l by (intro exI [of _ j] conjI exI [of _ k]) auto
qed

section \<open>Sample discs\<close>

definition sample_track :: "string \<Rightarrow> string \<Rightarrow> string \<Rightarrow> string \<Rightarrow> string \<Rightarrow> json" where
  "sample_track ix len vts aspect cell =
     JObj [(''ix'', JStr ix), (''length'', JStr len), (''vts'', JStr vts), (''aspect'', JStr aspect),
           (''cell'', JArr [JObj [(''length'', JStr cell)]])]"

definition sample_lsdvd :: "json list \<Rightarrow> json" where
  "sample_lsdvd ts = JObj [(''lsdvd'', JObj [(''track'', JArr ts)])]"

text \<open>A full-screen pick with a wide-screen cut, three extras of which the last is the chain of the
  other two, and a copy of the first extra.\<close>

definition sample_disc :: json where
  "sample_disc = sample_lsdvd
     [sample_track ''1'' ''5400.5'' ''1'' ''4/3'' ''1'',
      sample_track ''2'' ''5400'' ''2'' ''16/9'' ''2'',
      sample_track ''3'' ''100'' ''3'' ''4/3'' ''3'',
      sample_track ''4'' ''200'' ''3'' ''4/3'' ''4'',
      sample_track ''5'' ''301'' ''3'' ''4/3'' ''5'',
      sample_track ''6'' ''100'' ''3'' ''4/3'' ''3'']"

text \<open>The main-feature pick is the second copy of one video.\<close>

definition sample_twice :: json where
  "sample_twice = sample_lsdvd
     [sample_track ''1'' ''5400'' ''1'' ''16/9'' ''7'', sample_track ''2'' ''5400'' ''1'' ''16/9'' ''7'']"

lemma sample_disc_roles:
  "map t_role (classify id sample_disc 1 default_thresholds) = [Alt, Main, Extra, Extra, Playall, Dup]"
  by code_simp

theorem classify_one_main_witness:
  "distinct (map t_title (read_titles id sample_disc))
   \<and> 1 \<in> set (map t_title (read_titles id sample_disc))
   \<and> (\<exists>m < length (classify id sample_disc 1 default_thresholds).
        (\<forall>i < length (classify id sample_disc 1 default_thresholds).
           t_role (classify id sample_disc 1 default_thresholds ! i) = Main \<longleftrightarrow> i = m)
        \<and> (t_title (classify id sample_disc 1 default_thresholds ! m) = 1
           \<or> t_aspect (classify id sample_disc 1 default_thresholds ! m) = JStr ''16/9''))"
proof -
  have 1: "distinct (map t_title (read_titles id sample_disc))" by code_simp
  have 2: "1 \<in> set (map t_title (read_titles id sample_disc))" by code_simp
  from 1 2 classify_one_main [OF 1 2, of default_thresholds] show ?thesis by blast
qed

theorem classify_no_duplicate_encodes_witness:
  "distinct (map t_title (read_titles id sample_twice))
   \<and> map (encoded \<circ> t_role) (classify id sample_twice 2 default_thresholds) = [True, True]
   \<and> t_title (classify id sample_twice 2 default_thresholds ! 1) = 2"
proof -
  let ?c = "classify id sample_twice 2 default_thresholds"
  have d: "distinct (map t_title (read_titles id sample_twice))" by code_simp
  have 1: "(0::nat) < 1" by simp
  have 2: "1 < length ?c" by code_simp
  have 3: "t_vts (?c ! 0) = t_vts (?c ! 1)" by code_simp
  have 4: "t_cells (?c ! 0) = t_cells (?c ! 1)" by code_simp
  have 5: "encoded (t_role (?c ! 0))" by code_simp
  have 6: "encoded (t_role (?c ! 1))" by code_simp
  have 7: "map (encoded \<circ> t_role) ?c = [True, True]" by code_simp
  show ?thesis using classify_no_duplicate_encodes [OF d 1 2 3 4 5 6] d 7 by blast
qed

theorem classify_playall_covered_witness:
  "distinct (map t_title (read_titles id sample_disc))
   \<and> t_role (classify id sample_disc 1 default_thresholds ! 4) = Playall
   \<and> (\<exists>j < length (classify id sample_disc 1 default_thresholds).
      \<exists>k < length (classify id sample_disc 1 default_thresholds). j \<noteq> k
        \<and> (\<forall>x \<in> {j, k}. t_role (classify id sample_disc 1 default_thresholds ! x) = Extra
              \<and> t_vts (classify id sample_disc 1 default_thresholds ! x)
                = t_vts (classify id sample_disc 1 default_thresholds ! 4)
              \<and> t_seconds (classify id sample_disc 1 default_thresholds ! x)
                < t_seconds (classify id sample_disc 1 default_thresholds ! 4)))"
proof -
  let ?c = "classify id sample_disc 1 default_thresholds"
  have 1: "distinct (map t_title (read_titles id sample_disc))" by code_simp
  have 2: "4 < length ?c" by code_simp
  have 3: "t_role (?c ! 4) = Playall" by code_simp
  from 1 3 classify_playall_covered [OF 1 2 3] show ?thesis by blast
qed

end
