(* ===== verification/Crd.thy ===== *)
theory Crd
  imports Classify "HOL-Library.Countable"
begin

text \<open>
  \<^verbatim>\<open>apps/dvdrip/src/crd.rs\<close>: the custom resources \<^verbatim>\<open>Drive\<close> and \<^verbatim>\<open>Disc\<close>, a record for each
  struct with the source's fields in their order. A \<^verbatim>\<open>BTreeMap\<close> is the list of its entries in key
  order. \<open>ser\<close> stands for \<^verbatim>\<open>serde_json::Value::to_string\<close>, which is not part of this repository.
\<close>

record drive_spec =
  dr_enabled :: bool
  dr_eject_unknown :: bool

datatype drive_state =
  Waiting | Disabled | Paused | Reading | DriveBackingUp | Uploading | Ejecting | Error

record drive_status =
  dv_node :: string
  dv_device :: string
  dv_model :: "string option"
  dv_serial :: "string option"
  dv_state :: drive_state
  dv_disc :: "string option"
  dv_message :: "string option"
  dv_heartbeat :: "string option"

record title_spec =
  ts_folder :: "string option"
  ts_name :: "string option"

record disc_spec =
  sp_name :: string
  sp_disc :: nat
  sp_main_title :: "nat option"
  sp_protected :: bool
  sp_titles :: "(string \<times> title_spec) list"
  sp_hold :: bool
  sp_retry :: nat

datatype phase =
  Detected | BackingUp | BackedUp | Held | Encoding | Encoded | Publishing | Done | Failed

record backup_info =
  bk_method :: string
  bk_bytes :: int
  bk_seconds :: int
  bk_read_errors :: nat
  bk_sha256 :: string

record damage_info =
  dm_recovered_percent :: f64
  dm_missing_bytes :: int
  dm_rescue_pending :: bool

record title_status =
  tt_title :: nat
  tt_role :: role
  tt_seconds :: f64
  tt_output :: "string option"
  tt_encoded_seconds :: "f64 option"
  tt_aspect :: "string option"
  tt_glitches :: "int list"

record published_file =
  pf_title :: nat
  pf_path :: string
  pf_segment_title :: string

record published =
  pb_iso :: "string option"
  pb_files :: "published_file list"
  pb_generation :: int
  pb_notes :: "string list"

record disc_status =
  st_phase :: phase
  st_message :: "string option"
  st_label :: string
  st_fingerprint :: string
  st_drive :: "string option"
  st_attempts :: nat
  st_observed_retry :: nat
  st_backup :: "backup_info option"
  st_damage :: "damage_info option"
  st_protected :: bool
  st_titles :: "title_status list"
  st_warnings :: "string list"
  st_published :: "published option"
  st_encoded_generation :: "int option"
  st_summary :: "string option"
  st_since :: "string option"
  st_encode_key :: "string option"
  st_publish_key :: "string option"
  st_heartbeat :: "string option"

text \<open>A \<^verbatim>\<open>Disc\<close> object: the metadata the code reads, the spec and the status.\<close>

record disc =
  d_name :: string
  d_namespace :: "string option"
  d_uid :: "string option"
  d_labels :: "(string \<times> string) list option"
  d_generation :: "int option"
  d_spec :: disc_spec
  d_status :: "disc_status option"

definition is_test :: "disc \<Rightarrow> bool" where
  "is_test d =
     (case d_labels d of None \<Rightarrow> False
      | Some l \<Rightarrow> map_of l ''dvd.trdos.me/test'' = Some ''true'')"

definition default_title_spec :: title_spec where
  "default_title_spec = \<lparr>ts_folder = None, ts_name = None\<rparr>"

definition default_disc_spec :: disc_spec where
  "default_disc_spec =
     \<lparr>sp_name = [], sp_disc = 0, sp_main_title = None, sp_protected = False, sp_titles = [],
      sp_hold = False, sp_retry = 0\<rparr>"

definition default_status :: disc_status where
  "default_status =
     \<lparr>st_phase = Detected, st_message = None, st_label = [], st_fingerprint = [], st_drive = None,
      st_attempts = 0, st_observed_retry = 0, st_backup = None, st_damage = None,
      st_protected = False, st_titles = [], st_warnings = [], st_published = None,
      st_encoded_generation = None, st_summary = None, st_since = None, st_encode_key = None,
      st_publish_key = None, st_heartbeat = None\<rparr>"

definition title_spec_json :: "title_spec \<Rightarrow> json" where
  "title_spec_json t =
     JObj ((case ts_folder t of None \<Rightarrow> [] | Some f \<Rightarrow> [(''folder'', JStr f)])
         @ (case ts_name t of None \<Rightarrow> [] | Some n \<Rightarrow> [(''name'', JStr n)]))"

definition encode_key :: "(json \<Rightarrow> string) \<Rightarrow> disc_spec \<Rightarrow> string" where
  "encode_key ser s =
     ser (JObj [(''mainTitle'', case sp_main_title s of None \<Rightarrow> JNull | Some t \<Rightarrow> JInt (int t)),
                (''protected'', JBool (sp_protected s))])"

definition publish_key :: "(json \<Rightarrow> string) \<Rightarrow> disc_spec \<Rightarrow> string" where
  "publish_key ser s =
     ser (JObj [(''name'', JStr (sp_name s)), (''disc'', JInt (int (sp_disc s))),
                (''titles'', JObj (map (\<lambda>(k, t). (k, title_spec_json t)) (sp_titles s)))])"

section \<open>What the keys determine\<close>

lemma title_spec_json_inject [simp]: "title_spec_json t = title_spec_json u \<longleftrightarrow> t = u"
  by (cases t; cases u) (auto simp: title_spec_json_def split: option.splits)

lemma titles_json_inject:
  "map (\<lambda>(k, t). (k, title_spec_json t)) xs = map (\<lambda>(k, t). (k, title_spec_json t)) ys \<longleftrightarrow> xs = ys"
proof (induction xs arbitrary: ys)
  case (Cons x xs)
  then show ?case by (cases ys) (auto split: prod.splits)
qed auto

text \<open>With a rendering that tells documents apart, a key changes exactly when a field it covers does.\<close>

lemma encode_key_eq_iff:
  "inj ser \<Longrightarrow> encode_key ser s = encode_key ser s' \<longleftrightarrow>
     sp_main_title s = sp_main_title s' \<and> sp_protected s = sp_protected s'"
  by (auto simp: encode_key_def inj_eq split: option.splits)

lemma publish_key_eq_iff:
  "inj ser \<Longrightarrow> publish_key ser s = publish_key ser s' \<longleftrightarrow>
     sp_name s = sp_name s' \<and> sp_disc s = sp_disc s' \<and> sp_titles s = sp_titles s'"
  by (simp add: publish_key_def inj_eq titles_json_inject)

text \<open>Such a rendering exists: documents are countable.\<close>

instance json :: countable
  by countable_datatype

definition numbering :: "json \<Rightarrow> string" where
  "numbering j = nat_str (to_nat j)"

lemma inj_numbering: "inj numbering"
  by (simp add: inj_def numbering_def)

end
