(* ===== verification/Naming.thy ===== *)
theory Naming
  imports Prelude
begin

text \<open>
  \<^verbatim>\<open>apps/dvdrip/src/naming.rs\<close>: disc labels to library names and to Kubernetes object names, and
  runtimes as they appear in file names.
\<close>

section \<open>Operations\<close>

definition title_case :: "string \<Rightarrow> string" where
  "title_case w = (case map to_lower w of [] \<Rightarrow> [] | c # cs \<Rightarrow> to_upper c # cs)"

definition label_to_name :: "string \<Rightarrow> string" where
  "label_to_name label =
     join '' '' (map title_case (filter (\<lambda>w. w \<noteq> []) (split_char (CHR '' '')
       (replace_char (CHR ''_'') '' '' label))))"

fun slug_loop :: "string \<Rightarrow> string \<Rightarrow> string" where
  "slug_loop slug [] = slug"
| "slug_loop slug (c # cs) =
     (if is_alnum c then slug_loop (slug @ [c]) cs
      else if \<not> ends_with slug ''-'' then slug_loop (slug @ ''-'') cs
      else slug_loop slug cs)"

text \<open>The release profile has no overflow checks: \<open>62 - fingerprint.len()\<close> wraps.\<close>

definition wrapping_sub :: "nat \<Rightarrow> nat \<Rightarrow> nat" where
  "wrapping_sub a b = (if b \<le> a then a - b else nat ((int a - int b) mod 2 ^ 64))"

definition disc_object_name :: "string \<Rightarrow> string \<Rightarrow> string" where
  "disc_object_name label fingerprint =
     (let slug = trim_matches (\<lambda>c. c = CHR ''-'') (slug_loop [] (map to_lower label));
          slug = (if slug = [] then ''disc'' else slug);
          room = wrapping_sub 62 (length fingerprint);
          slug = trim_end_matches (\<lambda>c. c = CHR ''-'') (take (min (length slug) room) slug)
      in slug @ ''-'' @ fingerprint)"

text \<open>\<^verbatim>\<open>%\<close> keeps the sign of the dividend, and \<^verbatim>\<open>{:02}\<close> counts a sign as a place.\<close>

definition rem60 :: "int \<Rightarrow> int" where
  "rem60 i = (if i < 0 then - ((- i) mod 60) else i mod 60)"

definition pad_int :: "nat \<Rightarrow> int \<Rightarrow> string" where
  "pad_int w i =
     (if i < 0 then ''-'' @ pad0 (w - 1) (nat (- i)) else pad0 w (nat i))"

definition dur :: "rounding \<Rightarrow> f64 \<Rightarrow> string" where
  "dur fl seconds =
     int_str (cast_i64 \<lfloor>fl (seconds / 60)\<rfloor>) @ ''m'' @ pad_int 2 (rem60 (cast_i64 (trunc seconds))) @ ''s''"

definition title_stem :: "rounding \<Rightarrow> nat \<Rightarrow> f64 \<Rightarrow> string" where
  "title_stem fl title seconds = ''Title '' @ nat_str title @ '' - '' @ dur fl seconds"

definition version_label :: "json \<Rightarrow> nat \<Rightarrow> string" where
  "version_label aspect title =
     (if as_str aspect = Some ''4/3'' then ''Fullscreen''
      else if as_str aspect = Some ''16/9'' then ''Widescreen''
      else ''Title '' @ nat_str title)"

definition valid_library_name :: "string \<Rightarrow> bool" where
  "valid_library_name name \<longleftrightarrow>
     name \<noteq> [] \<and> CHR ''/'' \<notin> set name \<and> name \<noteq> ''.'' \<and> name \<noteq> ''..''"

section \<open>Object names\<close>

text \<open>A DNS-1123 label: at most 63 lower-case letters, digits and dashes, the first and the last of
  them no dash.\<close>

definition is_lower_alnum :: "char \<Rightarrow> bool" where
  "is_lower_alnum c \<longleftrightarrow> is_digit c \<or> is_lower c"

definition dns1123 :: "string \<Rightarrow> bool" where
  "dns1123 s \<longleftrightarrow>
     s \<noteq> [] \<and> length s \<le> 63 \<and> list_all (\<lambda>c. is_lower_alnum c \<or> c = CHR ''-'') s
     \<and> is_lower_alnum (hd s) \<and> is_lower_alnum (last s)"

lemma to_lower_not_upper: "\<not> is_upper (to_lower c)"
proof (cases "is_upper c")
  case True
  then have "(of_char c :: int) + 32 < 256" by (simp add: is_upper_def)
  moreover have "(of_char (char_of ((of_char c :: int) + 32) :: char) :: int) = (of_char c + 32) mod 256"
    by (simp del: char_of_eq_iff)
  ultimately show ?thesis using True by (auto simp: to_lower_def is_upper_def)
qed (simp add: to_lower_def)

lemma slug_loop_chars:
  "list_all (\<lambda>c. is_lower_alnum c \<or> c = CHR ''-'') slug \<Longrightarrow> list_all (\<lambda>c. \<not> is_upper c) cs \<Longrightarrow>
   list_all (\<lambda>c. is_lower_alnum c \<or> c = CHR ''-'') (slug_loop slug cs)"
  by (induction slug cs rule: slug_loop.induct) (auto simp: is_lower_alnum_def is_alnum_def)

lemma list_all_trim_matches: "list_all Q s \<Longrightarrow> list_all Q (trim_matches P s)"
  unfolding trim_matches_def trim_start_matches_def list_all_iff
  by (meson set_dropWhileD set_trim_end_matches subsetD)

lemma list_all_trim_end_matches: "list_all Q s \<Longrightarrow> list_all Q (trim_end_matches P s)"
  unfolding list_all_iff by (meson set_trim_end_matches subsetD)

lemma hd_trim_end_matches: "trim_end_matches P s \<noteq> [] \<Longrightarrow> hd (trim_end_matches P s) = hd s"
  using trim_end_matches_prefix [of s P] by (metis hd_append2)

lemma trim_end_matches_nonempty: "s \<noteq> [] \<Longrightarrow> \<not> P (hd s) \<Longrightarrow> trim_end_matches P s \<noteq> []"
  using trim_end_matches_prefix [of s P] by (cases s) (auto simp: list_all_iff)

lemma hd_trim_matches: "trim_matches P s \<noteq> [] \<Longrightarrow> \<not> P (hd (trim_matches P s))"
  unfolding trim_matches_def trim_start_matches_def
  by (metis hd_dropWhile hd_trim_end_matches length_trim_end_matches list.size(3) le_zero_eq length_0_conv)

text \<open>The slug the name starts with: not empty, of the allowed characters, starting with no dash.\<close>

definition disc_slug :: "string \<Rightarrow> string" where
  "disc_slug label =
     (let slug = trim_matches (\<lambda>c. c = CHR ''-'') (slug_loop [] (map to_lower label))
      in if slug = [] then ''disc'' else slug)"

lemma disc_slug_ok:
  "disc_slug label \<noteq> []" "list_all (\<lambda>c. is_lower_alnum c \<or> c = CHR ''-'') (disc_slug label)"
  "hd (disc_slug label) \<noteq> CHR ''-''"
proof -
  have "list_all (\<lambda>c. is_lower_alnum c \<or> c = CHR ''-'') (slug_loop [] (map to_lower label))"
    by (rule slug_loop_chars) (simp_all add: list_all_iff to_lower_not_upper)
  then show "list_all (\<lambda>c. is_lower_alnum c \<or> c = CHR ''-'') (disc_slug label)"
    by (simp add: disc_slug_def Let_def list_all_trim_matches)
       (simp add: is_lower_alnum_def is_lower_def)
  show "disc_slug label \<noteq> []" by (simp add: disc_slug_def Let_def)
  show "hd (disc_slug label) \<noteq> CHR ''-''"
    using hd_trim_matches [of "\<lambda>c. c = CHR ''-''"] by (auto simp: disc_slug_def Let_def)
qed

lemma disc_object_name_slug:
  "length fp \<le> 62 \<Longrightarrow> disc_object_name label fp =
     trim_end_matches (\<lambda>c. c = CHR ''-'')
             (take (min (length (disc_slug label)) (62 - length fp)) (disc_slug label)) @ ''-'' @ fp"
  by (simp add: disc_object_name_def disc_slug_def wrapping_sub_def Let_def)

text \<open>For a fingerprint of lower-case letters and digits, at most 61 of them, the object
  name of a disc is a DNS-1123 label whatever the disc's label is, and ends with the
  fingerprint; so two discs with fingerprints of one length never share an object name.\<close>

theorem disc_object_name_valid:
  assumes fp: "fp \<noteq> []" "length fp \<le> 61" "list_all is_lower_alnum fp"
    and fp': "length fp' = length fp"
  shows "dns1123 (disc_object_name label fp) \<and> ends_with (disc_object_name label fp) (''-'' @ fp)
       \<and> (disc_object_name label' fp' = disc_object_name label fp \<longrightarrow> fp' = fp)"
proof -
  let ?cut = "\<lambda>l f. take (min (length (disc_slug l)) (62 - length f)) (disc_slug l)"
  let ?slug = "\<lambda>l f. trim_end_matches (\<lambda>c. c = CHR ''-'') (?cut l f)"
  let ?n = "?slug label fp @ ''-'' @ fp"
  have n: "disc_object_name label fp = ?n"
    using fp by (subst disc_object_name_slug) simp_all
  have cut: "?cut label fp \<noteq> []" "hd (?cut label fp) = hd (disc_slug label)"
    using disc_slug_ok (1) [of label] fp by auto
  then have ne: "?slug label fp \<noteq> []"
    using disc_slug_ok (3) [of label] by (intro trim_end_matches_nonempty) auto
  have chars: "list_all (\<lambda>c. is_lower_alnum c \<or> c = CHR ''-'') (?slug label fp)"
    using disc_slug_ok (2) [of label]
    by (intro list_all_trim_end_matches) (auto simp: list_all_iff dest: in_set_takeD)
  have hd: "hd ?n = hd (disc_slug label)"
    using ne cut hd_trim_end_matches [OF ne] by simp
  moreover have "hd (disc_slug label) \<noteq> CHR ''-''" by (rule disc_slug_ok)
  moreover have "is_lower_alnum (hd (disc_slug label)) \<or> hd (disc_slug label) = CHR ''-''"
    using disc_slug_ok (1,2) [of label] by (cases "disc_slug label") auto
  ultimately have first: "is_lower_alnum (hd ?n)" by metis
  have "length (?slug label fp) \<le> 62 - length fp"
    by (rule order_trans [OF length_trim_end_matches]) simp
  then have len: "length ?n \<le> 63" using fp by simp
  have "last fp \<in> set fp" using fp by simp
  then have lst: "is_lower_alnum (last ?n)" using fp by (simp add: list_all_iff)
  have dns: "dns1123 ?n"
    unfolding dns1123_def using first lst len chars fp (3) by (auto simp: list_all_iff)
  have "fp' = fp" if "disc_object_name label' fp' = ?n"
    using that fp fp' by (simp add: disc_object_name_slug)
  then show ?thesis using n dns by (auto simp: ends_with_iff)
qed

theorem disc_object_name_valid_witness:
  "list_all is_lower_alnum ''3fa2c1e0b9d4''
   \<and> disc_object_name ''MONSTERS__INC_'' ''3fa2c1e0b9d4'' = ''monsters-inc-3fa2c1e0b9d4''
   \<and> dns1123 ''monsters-inc-3fa2c1e0b9d4''"
proof -
  have 1: "list_all is_lower_alnum ''3fa2c1e0b9d4''" by code_simp
  have 2: "disc_object_name ''MONSTERS__INC_'' ''3fa2c1e0b9d4'' = ''monsters-inc-3fa2c1e0b9d4''"
    by code_simp
  show ?thesis
    using disc_object_name_valid [OF _ _ 1, of "''3fa2c1e0b9d4''" "''MONSTERS__INC_''"] 1 2 by simp
qed

end
