(* ===== verification/Layout.thy ===== *)
theory Layout
  imports Crd Naming
begin

text \<open>
  \<^verbatim>\<open>apps/dvdrip/src/layout.rs\<close>: where the files of a disc go in the libraries. The \<^verbatim>\<open>bail!\<close>s of
  \<^verbatim>\<open>layout\<close> are the values of \<open>layout_error\<close>; the body of its loop is \<open>place\<close>, the loop
  \<open>place_all\<close>.
\<close>

section \<open>Data\<close>

definition FOLDERS :: "string list" where
  "FOLDERS =
     [''behind the scenes'', ''deleted scenes'', ''interviews'', ''scenes'', ''samples'', ''shorts'',
      ''featurettes'', ''clips'', ''other'', ''extras'', ''trailers'', ''junk'']"

record placement =
  p_title :: nat
  p_source :: string
  p_dest :: string
  p_segment_title :: string

record layout_rec =
  l_iso :: string
  l_files :: "placement list"

datatype layout_error =
    InvalidName string
  | DiscZero
  | NotATitle string
  | BadFolder string string
  | BadFileName string string
  | SameDest string

definition encode_path :: "nat \<Rightarrow> string" where
  "encode_path title = ''encodes/'' @ nat_str title @ ''.mkv''"

section \<open>The checks on the spec\<close>

definition check_title :: "string \<Rightarrow> title_spec \<Rightarrow> layout_error option" where
  "check_title t ts =
     (if parse_uint 32 t = None then Some (NotATitle t)
      else case (case ts_folder ts of
                   Some f \<Rightarrow> if f \<in> set FOLDERS then None else Some (BadFolder t f)
                 | None \<Rightarrow> None) of
             Some e \<Rightarrow> Some e
           | None \<Rightarrow> (case ts_name ts of
                        Some n \<Rightarrow> if valid_library_name n then None else Some (BadFileName t n)
                      | None \<Rightarrow> None))"

fun check_titles :: "(string \<times> title_spec) list \<Rightarrow> layout_error option" where
  "check_titles [] = None"
| "check_titles ((t, ts) # rest) =
     (case check_title t ts of Some e \<Rightarrow> Some e | None \<Rightarrow> check_titles rest)"

definition check_spec :: "disc_spec \<Rightarrow> layout_error option" where
  "check_spec spec =
     (if \<not> valid_library_name (trim (sp_name spec)) then Some (InvalidName (sp_name spec))
      else if sp_disc spec = 0 then Some DiscZero
      else check_titles (sp_titles spec))"

section \<open>The place of one title\<close>

definition aspect :: "title_status \<Rightarrow> json" where
  "aspect t = (case tt_aspect t of None \<Rightarrow> JNull | Some s \<Rightarrow> JStr s)"

text \<open>\<open>seen\<close>, the count of each version label among the alternates, and the closure \<open>version\<close>.\<close>

definition seen :: "title_status list \<Rightarrow> string \<Rightarrow> nat" where
  "seen titles v =
     length (filter (\<lambda>t. tt_role t = Alt \<and> version_label (aspect t) (tt_title t) = v) titles)"

definition version :: "title_status list \<Rightarrow> title_status \<Rightarrow> string" where
  "version titles t =
     (let v = version_label (aspect t) (tt_title t)
      in if seen titles v > 1 then ''Title '' @ nat_str (tt_title t) else v)"

definition own_name :: "disc_spec \<Rightarrow> string \<Rightarrow> string" where
  "own_name spec label =
     (let own = label_to_name label in if own = [] then ''Disc '' @ nat_str (sp_disc spec) else own)"

definition unwrap_or :: "'a option \<Rightarrow> 'a \<Rightarrow> 'a" where
  "unwrap_or v d = (case v of Some x \<Rightarrow> x | None \<Rightarrow> d)"

definition override :: "disc_spec \<Rightarrow> nat \<Rightarrow> title_spec" where
  "override spec title = unwrap_or (map_of (sp_titles spec) (nat_str title)) default_title_spec"

text \<open>Folder (None: beside the main feature), stem and segment title; None: not published.\<close>

definition stem_of ::
  "rounding \<Rightarrow> disc_spec \<Rightarrow> string \<Rightarrow> title_status list \<Rightarrow> title_status \<Rightarrow>
     (string option \<times> string \<times> string) option" where
  "stem_of fl spec label titles t =
     (let name = trim (sp_name spec);
          bonus = sp_disc spec > 1;
          own = own_name spec label;
          over = override spec (tt_title t);
          custom = ts_name over;
          folder = unwrap_or (ts_folder over) ''extras'';
          plain = unwrap_or custom (title_stem fl (tt_title t) (tt_seconds t));
          plain_segment = unwrap_or custom (''Title '' @ nat_str (tt_title t))
      in case tt_role t of
           Main \<Rightarrow>
             if \<not> bonus \<and> ts_folder over = None then Some (None, unwrap_or custom name, name)
             else let stem = unwrap_or custom own in Some (Some folder, stem, stem)
         | Alt \<Rightarrow>
             if \<not> bonus \<and> ts_folder over = None
             then let v = version titles t
                  in Some (None, unwrap_or custom (name @ '' - '' @ v), name @ '' ('' @ v @ '')'')
             else let stem = unwrap_or custom (own @ '' - '' @ version titles t)
                  in Some (Some folder, stem, stem)
         | Extra \<Rightarrow> Some (Some folder, plain, plain_segment)
         | Short \<Rightarrow>
             (case ts_folder over of Some f \<Rightarrow> Some (Some f, plain, plain_segment) | None \<Rightarrow> None)
         | _ \<Rightarrow> None)"

definition disc_prefix :: "disc_spec \<Rightarrow> string" where
  "disc_prefix spec =
     (if sp_disc spec > 1 then ''Disc '' @ nat_str (sp_disc spec) @ '' - '' else [])"

definition dest_of :: "disc_spec \<Rightarrow> string option \<Rightarrow> string \<Rightarrow> string" where
  "dest_of spec folder stem =
     (let name = trim (sp_name spec); file = disc_prefix spec @ stem @ ''.mkv''
      in case folder of Some f \<Rightarrow> name @ ''/'' @ f @ ''/'' @ file | None \<Rightarrow> name @ ''/'' @ file)"

definition place ::
  "rounding \<Rightarrow> disc_spec \<Rightarrow> string \<Rightarrow> title_status list \<Rightarrow> title_status \<Rightarrow> placement option" where
  "place fl spec label titles t =
     (if tt_output t = None then None
      else case stem_of fl spec label titles t of
             None \<Rightarrow> None
           | Some (folder, stem, segment) \<Rightarrow>
               if folder = Some ''junk'' then None
               else Some \<lparr>p_title = tt_title t, p_source = encode_path (tt_title t),
                          p_dest = dest_of spec folder stem, p_segment_title = segment\<rparr>)"

fun place_all ::
  "(title_status \<Rightarrow> placement option) \<Rightarrow> title_status list \<Rightarrow> placement list \<Rightarrow>
     layout_error + placement list" where
  "place_all f [] files = Inr files"
| "place_all f (t # ts) files =
     (case f t of
        None \<Rightarrow> place_all f ts files
      | Some p \<Rightarrow> if p_dest p \<in> set (map p_dest files) then Inl (SameDest (p_dest p))
                  else place_all f ts (files @ [p]))"

definition iso_of :: "disc_spec \<Rightarrow> string" where
  "iso_of spec =
     (let name = trim (sp_name spec)
      in if sp_disc spec > 1
         then name @ ''/'' @ name @ '' - Disc '' @ nat_str (sp_disc spec) @ ''.iso''
         else name @ ''/'' @ name @ ''.iso'')"

definition layout ::
  "rounding \<Rightarrow> disc_spec \<Rightarrow> string \<Rightarrow> title_status list \<Rightarrow> layout_error + layout_rec" where
  "layout fl spec label titles =
     (case check_spec spec of
        Some e \<Rightarrow> Inl e
      | None \<Rightarrow>
          (case place_all (place fl spec label titles) titles [] of
             Inl e \<Rightarrow> Inl e
           | Inr files \<Rightarrow> Inr \<lparr>l_iso = iso_of spec, l_files = files\<rparr>))"

section \<open>What a layout is\<close>

text \<open>The placements without the test for a destination that is taken.\<close>

definition placements ::
  "rounding \<Rightarrow> disc_spec \<Rightarrow> string \<Rightarrow> title_status list \<Rightarrow> placement list" where
  "placements fl spec label titles = List.map_filter (place fl spec label titles) titles"

lemma place_all_spec:
  "distinct (map p_dest files) \<Longrightarrow>
   (if distinct (map p_dest (files @ List.map_filter f ts))
    then place_all f ts files = Inr (files @ List.map_filter f ts)
    else \<exists>d. place_all f ts files = Inl (SameDest d))"
proof (induction ts arbitrary: files)
  case (Cons t ts)
  show ?case
  proof (cases "f t")
    case None
    with Cons show ?thesis by simp
  next
    case (Some p)
    show ?thesis
    proof (cases "p_dest p \<in> set (map p_dest files)")
      case True
      with Some show ?thesis by auto
    next
      case False
      with Cons.prems have "distinct (map p_dest (files @ [p]))" by auto
      from Cons.IH [OF this] Some False show ?thesis by simp
    qed
  qed
qed simp

lemma check_titles_None_iff:
  "check_titles ts = None \<longleftrightarrow> (\<forall>(t, s) \<in> set ts. check_title t s = None)"
  by (induction ts rule: check_titles.induct) (auto split: option.splits)

lemma check_title_None_iff:
  "check_title t s = None \<longleftrightarrow>
     parse_uint 32 t \<noteq> None \<and> (\<forall>f. ts_folder s = Some f \<longrightarrow> f \<in> set FOLDERS)
     \<and> (\<forall>n. ts_name s = Some n \<longrightarrow> valid_library_name n)"
  by (auto simp: check_title_def split: option.splits)

lemma layout_Inr_iff:
  "layout fl spec label titles = Inr l \<longleftrightarrow>
     check_spec spec = None \<and> distinct (map p_dest (placements fl spec label titles))
     \<and> l = \<lparr>l_iso = iso_of spec, l_files = placements fl spec label titles\<rparr>"
  using place_all_spec [of "[]" "place fl spec label titles" titles]
  by (auto simp: layout_def placements_def split: option.splits if_splits)

lemma check_spec_None_iff:
  "check_spec spec = None \<longleftrightarrow>
     valid_library_name (trim (sp_name spec)) \<and> sp_disc spec \<noteq> 0
     \<and> (\<forall>(t, s) \<in> set (sp_titles spec). parse_uint 32 t \<noteq> None
          \<and> (\<forall>f. ts_folder s = Some f \<longrightarrow> f \<in> set FOLDERS)
          \<and> (\<forall>n. ts_name s = Some n \<longrightarrow> valid_library_name n))"
  by (simp add: check_spec_def check_titles_None_iff check_title_None_iff)

lemma placements_elem:
  "p \<in> set (placements fl spec label titles) \<longleftrightarrow>
     (\<exists>t \<in> set titles. place fl spec label titles t = Some p)"
  by (force simp: placements_def List.map_filter_def)

section \<open>Where the destinations are\<close>

lemma to_lower_slash: "to_lower c = CHR ''/'' \<longleftrightarrow> c = CHR ''/''"
proof (cases "is_upper c")
  case True
  then have "(of_char (to_lower c) :: int) = of_char c + 32"
    by (simp add: to_lower_def is_upper_def)
  with True have "97 \<le> (of_char (to_lower c) :: int)" by (simp add: is_upper_def)
  with True show ?thesis by (auto simp: is_upper_def)
qed (simp add: to_lower_def)

lemma to_upper_slash: "to_upper c = CHR ''/'' \<longleftrightarrow> c = CHR ''/''"
proof (cases "is_lower c")
  case True
  then have "(of_char (to_upper c) :: int) = of_char c - 32"
    by (simp add: to_upper_def is_lower_def)
  with True have "65 \<le> (of_char (to_upper c) :: int)" by (simp add: is_lower_def)
  with True show ?thesis by (auto simp: is_lower_def)
qed (simp add: to_upper_def)

lemma title_case_slash: "CHR ''/'' \<in> set (title_case w) \<longleftrightarrow> CHR ''/'' \<in> set w"
  by (cases w) (auto simp: title_case_def to_lower_slash to_upper_slash image_iff eq_commute)

lemma set_join: "c \<in> set (join sep ws) \<Longrightarrow> c \<in> set sep \<or> (\<exists>w \<in> set ws. c \<in> set w)"
  by (induction sep ws rule: join.induct) auto

lemma label_to_name_slash: "CHR ''/'' \<notin> set label \<Longrightarrow> CHR ''/'' \<notin> set (label_to_name label)"
  by (auto simp: label_to_name_def title_case_slash replace_char_def
           dest!: set_join split_on_pieces split: if_splits)

lemma nat_str_slash [simp]: "CHR ''/'' \<notin> set (nat_str n)"
  using is_digit_nat_str [of "CHR ''/''" n] by (auto simp: is_digit_def)

lemma pad0_slash [simp]: "CHR ''/'' \<notin> set (pad0 w n)"
  by (simp add: pad0_def)

lemma dur_slash [simp]: "CHR ''/'' \<notin> set (dur fl s)"
  by (simp add: dur_def int_str_def pad_int_def)

lemma title_stem_slash [simp]: "CHR ''/'' \<notin> set (title_stem fl t s)"
  by (simp add: title_stem_def)

lemma version_slash [simp]: "CHR ''/'' \<notin> set (version titles t)"
  by (simp add: version_def version_label_def Let_def)

lemma own_name_slash: "CHR ''/'' \<notin> set label \<Longrightarrow> CHR ''/'' \<notin> set (own_name spec label)"
  by (simp add: own_name_def Let_def label_to_name_slash)

lemma valid_library_name_slash: "valid_library_name n \<Longrightarrow> CHR ''/'' \<notin> set n"
  by (simp add: valid_library_name_def)

lemma FOLDERS_valid: "f \<in> set FOLDERS \<Longrightarrow> valid_library_name f"
  by (auto simp: FOLDERS_def valid_library_name_def)

lemma override_ok:
  assumes "check_spec spec = None"
  shows "ts_folder (override spec t) = Some f \<Longrightarrow> f \<in> set FOLDERS"
    and "ts_name (override spec t) = Some n \<Longrightarrow> valid_library_name n"
  using assms map_of_SomeD [of "sp_titles spec" "nat_str t"]
  by (cases "map_of (sp_titles spec) (nat_str t)";
      auto simp: override_def check_spec_None_iff unwrap_or_def default_title_spec_def)+

lemma stem_of_folder:
  "check_spec spec = None \<Longrightarrow> stem_of fl spec label titles t = Some (Some f, stem, segment) \<Longrightarrow>
     f \<in> set FOLDERS"
  using override_ok (1) [of spec "tt_title t" f]
  by (cases "tt_role t"; cases "ts_folder (override spec (tt_title t))")
     (auto simp: stem_of_def Let_def unwrap_or_def FOLDERS_def split: if_splits)

lemma bonus_stem:
  "stem_of fl spec label titles t = Some (folder, stem, segment) \<Longrightarrow> sp_disc spec > 1 \<Longrightarrow>
     folder \<noteq> None"
  by (cases "tt_role t"; cases "ts_folder (override spec (tt_title t))")
     (auto simp: stem_of_def Let_def split: if_splits dest!: sym [of "Some _"])

lemma stem_of_slash:
  assumes spec: "check_spec spec = None" and label: "CHR ''/'' \<notin> set label"
    and stem: "stem_of fl spec label titles t = Some (folder, stem, segment)"
  shows "CHR ''/'' \<notin> set stem"
proof -
  let ?over = "override spec (tt_title t)"
  have name: "CHR ''/'' \<notin> set (trim (sp_name spec))"
    using spec by (simp add: check_spec_None_iff valid_library_name_slash)
  have custom: "CHR ''/'' \<notin> set (unwrap_or (ts_name ?over) d)" if "CHR ''/'' \<notin> set d" for d
    using override_ok (2) [OF spec] that
    by (auto simp: unwrap_or_def valid_library_name_slash split: option.split)
  note own = own_name_slash [OF label, of spec]
  have "CHR ''/'' \<notin> set (own_name spec label @ '' - '' @ version titles t)"
    "CHR ''/'' \<notin> set (trim (sp_name spec) @ '' - '' @ version titles t)"
    using own name by simp_all
  note stems = custom [OF name] custom [OF own] custom [OF this(1)] custom [OF this(2)]
    custom [OF title_stem_slash, of fl "tt_title t" "tt_seconds t"]
  show ?thesis
    using stem stems
    by (cases "tt_role t"; cases "ts_folder ?over") (auto simp: stem_of_def Let_def split: if_splits)
qed

lemma split_char_join3 [simp]:
  "c \<notin> set a \<Longrightarrow> split_char c (a @ c # b) = a # split_char c b"
  by (induction a) auto

lemma split_char_no [simp]: "c \<notin> set a \<Longrightarrow> split_char c a = [a]"
  by (induction a) auto

lemma valid_mkv: "CHR ''/'' \<notin> set stem \<Longrightarrow> valid_library_name (p @ stem @ ''.mkv'') = (CHR ''/'' \<notin> set p)"
  by (auto simp: valid_library_name_def append_eq_Cons_conv)

lemma disc_prefix_slash [simp]: "CHR ''/'' \<notin> set (disc_prefix spec)"
  by (simp add: disc_prefix_def)

lemma placeD:
  "place fl spec label titles t = Some p \<Longrightarrow>
     \<exists>folder stem segment. stem_of fl spec label titles t = Some (folder, stem, segment)
       \<and> folder \<noteq> Some ''junk'' \<and> tt_output t \<noteq> None \<and> p_dest p = dest_of spec folder stem
       \<and> p_title p = tt_title t \<and> p_source p = encode_path (tt_title t)"
  by (auto simp: place_def split: if_splits option.splits)

lemma dest_of_components:
  assumes "valid_library_name (trim (sp_name spec))" and "CHR ''/'' \<notin> set stem"
    and "\<And>f. folder = Some f \<Longrightarrow> f \<in> set FOLDERS" and "folder \<noteq> Some ''junk''"
  shows "\<exists>dir leaf. split_char (CHR ''/'') (dest_of spec folder stem) = trim (sp_name spec) # dir @ [leaf]
           \<and> (dir = [] \<or> (\<exists>f \<in> set FOLDERS - {''junk''}. dir = [f]))
           \<and> valid_library_name leaf"
proof -
  let ?file = "disc_prefix spec @ stem @ ''.mkv''"
  have leaf: "CHR ''/'' \<notin> set ?file" "valid_library_name ?file"
    using assms (2) valid_mkv by simp_all
  have name: "CHR ''/'' \<notin> set (trim (sp_name spec))" using assms (1) by (rule valid_library_name_slash)
  show ?thesis
  proof (cases folder)
    case None
    with name leaf show ?thesis by (intro exI [of _ "[]"] exI [of _ ?file]) (simp add: dest_of_def Let_def)
  next
    case (Some f)
    with assms have f: "f \<in> set FOLDERS - {''junk''}" "CHR ''/'' \<notin> set f"
      using FOLDERS_valid valid_library_name_slash by auto
    with Some name leaf show ?thesis
      by (intro exI [of _ "[f]"] exI [of _ ?file]) (simp add: dest_of_def Let_def)
  qed
qed

section \<open>Properties\<close>

text \<open>A disc is laid out exactly when its name is a path component, its number is at
  least 1, every override names a title number, a known folder and a path component, and no two titles
  get one path; the files are then, in disc order, the placements of the titles one by one.\<close>

theorem layout_ok_iff:
  "layout fl spec label titles = Inr l \<longleftrightarrow>
     valid_library_name (trim (sp_name spec)) \<and> sp_disc spec \<noteq> 0
     \<and> list_all (\<lambda>(t, s). parse_uint 32 t \<noteq> None
          \<and> list_all (\<lambda>f. f \<in> set FOLDERS) (case ts_folder s of None \<Rightarrow> [] | Some f \<Rightarrow> [f])
          \<and> list_all valid_library_name (case ts_name s of None \<Rightarrow> [] | Some n \<Rightarrow> [n])) (sp_titles spec)
     \<and> distinct (map p_dest (List.map_filter (place fl spec label titles) titles))
     \<and> l = \<lparr>l_iso = iso_of spec, l_files = List.map_filter (place fl spec label titles) titles\<rparr>"
proof -
  have "check_spec spec = None \<longleftrightarrow>
     valid_library_name (trim (sp_name spec)) \<and> sp_disc spec \<noteq> 0
     \<and> list_all (\<lambda>(t, s). parse_uint 32 t \<noteq> None
          \<and> list_all (\<lambda>f. f \<in> set FOLDERS) (case ts_folder s of None \<Rightarrow> [] | Some f \<Rightarrow> [f])
          \<and> list_all valid_library_name (case ts_name s of None \<Rightarrow> [] | Some n \<Rightarrow> [n])) (sp_titles spec)"
    unfolding check_spec_None_iff by (auto simp: list_all_iff split: option.splits)
  then show ?thesis unfolding layout_Inr_iff placements_def by blast
qed


lemma bonus_dest:
  assumes spec: "check_spec spec = None" and bonus: "sp_disc spec > 1"
    and "p \<in> set (placements fl spec label titles)"
  shows "\<exists>f r. CHR ''/'' \<notin> set f
    \<and> p_dest p = trim (sp_name spec) @ CHR ''/'' # f @ CHR ''/'' # ''Disc '' @ nat_str (sp_disc spec) @ CHR '' '' # r"
proof -
  from assms obtain t where "place fl spec label titles t = Some p" by (auto simp: placements_elem)
  from placeD [OF this] obtain folder stem segment where
    s: "stem_of fl spec label titles t = Some (folder, stem, segment)"
    and d: "p_dest p = dest_of spec folder stem" by blast
  from bonus_stem [OF s bonus] obtain f where f: "folder = Some f" by blast
  with s spec have "f \<in> set FOLDERS" by (auto intro: stem_of_folder)
  then have "CHR ''/'' \<notin> set f" by (intro valid_library_name_slash FOLDERS_valid)
  with d f bonus show ?thesis
    by (intro exI [of _ f] exI [of _ "''- '' @ stem @ ''.mkv''"])
       (simp add: dest_of_def disc_prefix_def Let_def)
qed

lemma append_delim_inject:
  fixes c :: char
  shows "c \<notin> set a \<Longrightarrow> c \<notin> set a' \<Longrightarrow> a @ c # b = a' @ c # b' \<longleftrightarrow> a = a' \<and> b = b'"
  by (metis split_once_append option.inject prod.inject)

lemma nat_str_space [simp]: "CHR '' '' \<notin> set (nat_str n)"
  using is_digit_nat_str [of "CHR '' ''" n] by (auto simp: is_digit_def)

text \<open>Two bonus discs of one title with different numbers are never laid out onto a
  common path, whatever their labels, overrides and titles are.\<close>

theorem bonus_discs_disjoint:
  assumes "layout fl spec label titles = Inr l" and "layout fl' spec' label' titles' = Inr l'"
    and "trim (sp_name spec) = trim (sp_name spec')"
    and "1 < sp_disc spec" and "1 < sp_disc spec'" and "sp_disc spec \<noteq> sp_disc spec'"
  shows "set (map p_dest (l_files l)) \<inter> set (map p_dest (l_files l')) = {} \<and> l_iso l \<noteq> l_iso l'"
proof -
  have "p_dest p \<noteq> p_dest p'" if "p \<in> set (l_files l)" "p' \<in> set (l_files l')" for p p'
    using bonus_dest [of spec p fl label titles] bonus_dest [of spec' p' fl' label' titles'] that assms
    by (auto simp: layout_Inr_iff append_delim_inject)
  moreover have "l_iso l \<noteq> l_iso l'"
    using assms by (auto simp: layout_Inr_iff iso_of_def Let_def append_delim_inject)
  ultimately show ?thesis by auto
qed

section \<open>A laid-out disc\<close>

definition sample_title :: "nat \<Rightarrow> role \<Rightarrow> f64 \<Rightarrow> string option \<Rightarrow> title_status" where
  "sample_title n r s a =
     \<lparr>tt_title = n, tt_role = r, tt_seconds = s,
      tt_output = (if encoded r then Some (encode_path n) else None),
      tt_encoded_seconds = None, tt_aspect = a, tt_glitches = []\<rparr>"

definition sample_titles :: "title_status list" where
  "sample_titles =
     [sample_title 1 Main 5516 (Some ''16/9''), sample_title 2 Alt 5500 (Some ''4/3''),
      sample_title 3 Extra 185 None, sample_title 4 Short 7 None, sample_title 5 Dup 185 None]"

definition sample_spec :: "nat \<Rightarrow> disc_spec" where
  "sample_spec n = default_disc_spec\<lparr>sp_name := ''Elf (2003)'', sp_disc := n,
     sp_titles := [(''4'', \<lparr>ts_folder = Some ''clips'', ts_name = Some ''Logo''\<rparr>)]\<rparr>"

definition sample_layout :: "nat \<Rightarrow> layout_rec" where
  "sample_layout n =
     \<lparr>l_iso = iso_of (sample_spec n),
      l_files = List.map_filter (place id (sample_spec n) ''ELF'' sample_titles) sample_titles\<rparr>"

lemma sample_layout_ok: "n \<in> {1, 2, 3} \<Longrightarrow> layout id (sample_spec n) ''ELF'' sample_titles = Inr (sample_layout n)"
  by (elim insertE emptyE) (hypsubst, code_simp)+


theorem bonus_discs_disjoint_witness:
  "''Elf (2003)/extras/Disc 2 - Elf.mkv'' \<in> set (map p_dest (l_files (sample_layout 2)))
   \<and> set (map p_dest (l_files (sample_layout 2))) \<inter> set (map p_dest (l_files (sample_layout 3))) = {}"
proof -
  have 1: "''Elf (2003)/extras/Disc 2 - Elf.mkv'' \<in> set (map p_dest (l_files (sample_layout 2)))"
    by code_simp
  from bonus_discs_disjoint [OF sample_layout_ok sample_layout_ok, of 2 3] 1 show ?thesis
    by (simp add: sample_spec_def)
qed

end
