(* ===== verification/Tracks.thy ===== *)
theory Tracks
  imports Prelude "HOL-Library.Multiset"
begin

text \<open>
  \<^verbatim>\<open>apps/dvdrip/src/tracks.rs\<close>: which subtitle tracks of a HandBrake scan are kept, and the
  mkvpropedit arguments that name the tracks of an encode. \<open>ser\<close> stands for the rendering of a JSON
  value by \<^verbatim>\<open>serde_json\<close>.
\<close>

section \<open>Operations\<close>

fun truthy :: "json \<Rightarrow> bool" where
  "truthy JNull \<longleftrightarrow> False"
| "truthy (JBool b) \<longleftrightarrow> b"
| "truthy v \<longleftrightarrow> True"

definition array_or_empty :: "json \<Rightarrow> json list" where
  "array_or_empty v = (case as_array v of Some a \<Rightarrow> a | None \<Rightarrow> [])"

definition sub_key :: "json \<Rightarrow> json list" where
  "sub_key s =
     (let a = jget s ''Attributes''
      in [jget s ''LanguageCode'', jget s ''SourceName'', jget a ''Commentary'', jget a ''ClosedCaption'',
          jget a ''Forced'', jget a ''Large'', jget a ''Children''])"

definition variant :: "json \<Rightarrow> nat" where
  "variant s =
     (let a = jget s ''Attributes''
      in if truthy (jget a ''Wide'') then 0
         else if \<not> (truthy (jget a ''Letterbox'') \<or> truthy (jget a ''PanScan'') \<or> truthy (jget a ''4By3'')) then 1
         else if truthy (jget a ''Letterbox'') then 2 else 3)"

fun add_group :: "(json list \<times> json list) list \<Rightarrow> json list \<Rightarrow> json \<Rightarrow> (json list \<times> json list) list" where
  "add_group [] k s = [(k, [s])]"
| "add_group ((g, members) # groups) k s =
     (if g = k then (g, members @ [s]) # groups else (g, members) # add_group groups k s)"

definition group_subs :: "json list \<Rightarrow> (json list \<times> json list) list" where
  "group_subs subs = foldl (\<lambda>groups s. add_group groups (sub_key s) s) [] subs"

text \<open>\<^verbatim>\<open>min_by_key\<close>: the first of the smallest.\<close>

fun min_by_key :: "('a \<Rightarrow> nat) \<Rightarrow> 'a list \<Rightarrow> 'a option" where
  "min_by_key f [] = None"
| "min_by_key f (x # xs) =
     (case min_by_key f xs of None \<Rightarrow> Some x | Some y \<Rightarrow> if f x \<le> f y then Some x else Some y)"

definition track_number :: "json \<Rightarrow> int" where
  "track_number s = (case as_i64 (jget s ''TrackNumber'') of Some n \<Rightarrow> n | None \<Rightarrow> 0)"

definition select_subs :: "json \<Rightarrow> json list" where
  "select_subs hb_title =
     sort_key track_number
       (List.map_filter (\<lambda>(k, members). min_by_key variant members)
         (group_subs (array_or_empty (jget hb_title ''SubtitleList''))))"

definition channel_layout :: "(json \<Rightarrow> string) \<Rightarrow> json \<Rightarrow> string" where
  "channel_layout ser channels =
     (let n = ser channels
      in if n = ''1'' then ''Mono'' else if n = ''2'' then ''Stereo'' else if n = ''6'' then ''5.1''
         else if n = ''8'' then ''7.1'' else n @ ''ch'')"

definition flag :: "bool \<Rightarrow> string" where
  "flag b = (if b then ''1'' else ''0'')"

definition lang :: "json \<Rightarrow> string" where
  "lang language =
     (case as_str language of
        None \<Rightarrow> []
      | Some s \<Rightarrow> takeWhile (\<lambda>c. c \<notin> {CHR '' '', CHR '','', CHR ''('', CHR ''[''}) s)"

definition is_comm :: "json \<Rightarrow> bool" where
  "is_comm d \<longleftrightarrow> truthy (jget (jget d ''Attributes'') ''Commentary'')
     \<or> truthy (jget (jget d ''Attributes'') ''AltCommentary'')"

definition is_described :: "json \<Rightarrow> bool" where
  "is_described d \<longleftrightarrow> truthy (jget (jget d ''Attributes'') ''VisuallyImpaired'')"

fun position :: "('a \<Rightarrow> bool) \<Rightarrow> 'a list \<Rightarrow> nat option" where
  "position P [] = None"
| "position P (x # xs) = (if P x then Some 0 else map_option Suc (position P xs))"

definition default_audio :: "json list \<Rightarrow> nat" where
  "default_audio al = (case position (\<lambda>d. \<not> (is_comm d \<or> is_described d)) al of Some i \<Rightarrow> i | None \<Rightarrow> 0)"

definition audio_args :: "(json \<Rightarrow> string) \<Rightarrow> nat \<Rightarrow> nat \<Rightarrow> json \<Rightarrow> string list" where
  "audio_args ser deflt i d =
     (let comm = is_comm d;
          ad = is_described d;
          prefix = (if comm then ''Commentary - '' else if ad then ''Audio Description - '' else []);
          description = (case as_str (jget d ''Description'') of Some s \<Rightarrow> s | None \<Rightarrow> []);
          surround = (if contains description ''Dolby Surround'' then '' (Dolby Surround)'' else [])
      in [''--edit'', ''track:a'' @ nat_str (i + 1), ''--set'',
          ''name='' @ prefix @ channel_layout ser (jget d ''ChannelCount'') @ surround,
          ''--set'', ''flag-default='' @ flag (i = deflt), ''--set'', ''flag-commentary='' @ flag comm,
          ''--set'', ''flag-visual-impaired='' @ flag ad])"

definition sub_kind :: "json \<Rightarrow> string" where
  "sub_kind att =
     (if truthy (jget att ''Commentary'') then '' (Commentary)''
      else if truthy (jget att ''ClosedCaption'') then '' (CC)''
      else if truthy (jget att ''Forced'') then '' (Forced)''
      else if truthy (jget att ''Large'') then '' (Large)''
      else if truthy (jget att ''Children'') then '' (Children)'' else [])"

definition sub_args :: "nat \<Rightarrow> json \<Rightarrow> string list" where
  "sub_args k s =
     (let att = jget s ''Attributes''
      in [''--edit'', ''track:s'' @ nat_str (k + 1), ''--set'', ''name='' @ lang (jget s ''Language'') @ sub_kind att,
          ''--set'', ''flag-default=0'', ''--set'', ''flag-commentary='' @ flag (truthy (jget att ''Commentary'')),
          ''--set'', ''flag-hearing-impaired='' @ flag (truthy (jget att ''ClosedCaption'')),
          ''--set'', ''flag-forced='' @ flag (truthy (jget att ''Forced''))])"

definition enumerate_map :: "(nat \<Rightarrow> 'a \<Rightarrow> 'b list) \<Rightarrow> 'a list \<Rightarrow> 'b list" where
  "enumerate_map f xs = concat (map (\<lambda>(i, x). f i x) (zip [0..<length xs] xs))"

definition propedit_args :: "(json \<Rightarrow> string) \<Rightarrow> json \<Rightarrow> json \<Rightarrow> json list \<Rightarrow> string \<Rightarrow> string list" where
  "propedit_args ser mkvmerge hb_title subs title =
     (let tracks = array_or_empty (jget mkvmerge ''tracks'');
          n_audio = length (filter (\<lambda>t. jget t ''type'' = JStr ''audio'') tracks);
          n_subs = length (filter (\<lambda>t. jget t ''type'' = JStr ''subtitles'') tracks);
          al = array_or_empty (jget hb_title ''AudioList'')
      in [''--edit'', ''info'', ''--set'', ''title='' @ title]
         @ (if n_audio = length al then enumerate_map (audio_args ser (default_audio al)) al else [])
         @ (if n_subs = length subs then enumerate_map sub_args subs else []))"

section \<open>The subtitles that are kept\<close>

lemma add_group_keys: "map fst (add_group gs k s) = (if k \<in> fst ` set gs then map fst gs else map fst gs @ [k])"
  by (induction gs k s rule: add_group.induct) auto

lemma add_group_distinct: "distinct (map fst gs) \<Longrightarrow> distinct (map fst (add_group gs k s))"
  by (simp add: add_group_keys)

lemma add_group_members:
  assumes "distinct (map fst gs)"
  shows "(h, ms) \<in> set (add_group gs k s) \<longleftrightarrow>
    (if h = k then ms = (case map_of gs k of Some l \<Rightarrow> l | None \<Rightarrow> []) @ [s] else (h, ms) \<in> set gs)"
  using assms by (induction gs k s rule: add_group.induct) (auto simp: image_iff)

lemma group_subs_spec:
  "distinct (map fst (group_subs subs))
   \<and> (\<forall>h ms. (h, ms) \<in> set (group_subs subs) \<longleftrightarrow> ms \<noteq> [] \<and> ms = filter (\<lambda>s. sub_key s = h) subs)"
proof (induction subs rule: rev_induct)
  case Nil
  then show ?case by (simp add: group_subs_def)
next
  case (snoc s subs)
  let ?gs = "group_subs subs"
  have step: "group_subs (subs @ [s]) = add_group ?gs (sub_key s) s" by (simp add: group_subs_def)
  have d: "distinct (map fst ?gs)" and m: "\<And>h ms. (h, ms) \<in> set ?gs \<longleftrightarrow> ms \<noteq> [] \<and> ms = filter (\<lambda>s. sub_key s = h) subs"
    using snoc by blast+
  have "(case map_of ?gs (sub_key s) of Some l \<Rightarrow> l | None \<Rightarrow> []) = filter (\<lambda>t. sub_key t = sub_key s) subs"
  proof (cases "map_of ?gs (sub_key s)")
    case None
    then have "sub_key s \<notin> fst ` set ?gs" by (simp add: map_of_eq_None_iff)
    with m [of "sub_key s" "filter (\<lambda>t. sub_key t = sub_key s) subs"] None show ?thesis by force
  next
    case (Some l)
    then have "(sub_key s, l) \<in> set ?gs" by (rule map_of_SomeD)
    with m Some show ?thesis by simp
  qed
  with add_group_distinct [OF d] add_group_members [OF d] m show ?case unfolding step by auto
qed

lemma min_by_key_None [simp]: "min_by_key f xs = None \<longleftrightarrow> xs = []"
  by (cases xs) (auto split: option.splits)

lemma min_by_key_spec:
  "min_by_key f xs = Some y \<Longrightarrow> y \<in> set xs \<and> (\<forall>x \<in> set xs. f y \<le> f x)"
proof (induction xs arbitrary: y)
  case (Cons a xs)
  show ?case
  proof (cases "min_by_key f xs")
    case None
    with Cons.prems show ?thesis by auto
  next
    case (Some z)
    from Cons.IH [OF this] Cons.prems Some show ?thesis by (fastforce split: if_splits)
  qed
qed simp

lemma kept_keys:
  assumes "\<And>k ms. (k, ms) \<in> set gs \<Longrightarrow> ms \<noteq> [] \<and> (\<forall>s \<in> set ms. sub_key s = k)"
  shows "map sub_key (List.map_filter (\<lambda>(k, ms). min_by_key variant ms) gs) = map fst gs"
  using assms
proof (induction gs)
  case (Cons g gs)
  obtain k ms where g: "g = (k, ms)" by (cases g)
  with Cons.prems [of k ms] obtain y where y: "min_by_key variant ms = Some y" by (cases "min_by_key variant ms") auto
  from min_by_key_spec [OF y] Cons.prems [of k ms] g have "sub_key y = k" by auto
  moreover have "map sub_key (List.map_filter (\<lambda>(k, ms). min_by_key variant ms) gs) = map fst gs"
    by (rule Cons.IH) (use Cons.prems in auto)
  ultimately show ?case using g y by (simp add: List.map_filter_simps)
qed (simp add: List.map_filter_simps)

text \<open>Of the subtitle tracks exactly one is kept for each (language, kind), one whose
  positioning variant is the best of its group, and the kept tracks are in track order.\<close>

theorem select_subs_one_per_kind:
  fixes hb_title :: json
  defines "subs \<equiv> array_or_empty (jget hb_title ''SubtitleList'')"
  shows "distinct (map sub_key (select_subs hb_title))
       \<and> set (map sub_key (select_subs hb_title)) = set (map sub_key subs)
       \<and> set (select_subs hb_title) \<subseteq> set subs
       \<and> (\<forall>s \<in> set (select_subs hb_title). \<forall>t \<in> set subs. sub_key t = sub_key s \<longrightarrow> variant s \<le> variant t)
       \<and> sorted (map track_number (select_subs hb_title))"
proof -
  let ?gs = "group_subs subs"
  let ?kept = "List.map_filter (\<lambda>(k, ms). min_by_key variant ms) ?gs"
  have sel: "select_subs hb_title = sort_key track_number ?kept" by (simp add: select_subs_def subs_def)
  have d: "distinct (map fst ?gs)"
    and m: "\<And>h ms. (h, ms) \<in> set ?gs \<longleftrightarrow> ms \<noteq> [] \<and> ms = filter (\<lambda>s. sub_key s = h) subs"
    using group_subs_spec by blast+
  have keys: "map sub_key ?kept = map fst ?gs" by (rule kept_keys) (use m in auto)
  have mem: "s \<in> set subs \<and> (\<forall>t \<in> set subs. sub_key t = sub_key s \<longrightarrow> variant s \<le> variant t)"
    if "s \<in> set ?kept" for s
  proof -
    from that obtain k ms where g: "(k, ms) \<in> set ?gs" "min_by_key variant ms = Some s"
      by (auto simp: List.map_filter_def)
    with m min_by_key_spec [OF g(2)] show ?thesis by auto
  qed
  have "fst ` set ?gs = sub_key ` set subs"
  proof
    show "fst ` set ?gs \<subseteq> sub_key ` set subs" using m by (fastforce simp: filter_empty_conv)
    show "sub_key ` set subs \<subseteq> fst ` set ?gs"
    proof
      fix k assume "k \<in> sub_key ` set subs"
      then have "(k, filter (\<lambda>s. sub_key s = k) subs) \<in> set ?gs" using m by (auto simp: filter_empty_conv)
      then show "k \<in> fst ` set ?gs" by force
    qed
  qed
  moreover have "set (map sub_key ?kept) = fst ` set ?gs" unfolding keys by simp
  moreover have "distinct (map sub_key ?kept)" unfolding keys by (rule d)
  then have "distinct (map sub_key (sort_key track_number ?kept))"
    by (metis (no_types) distinct_map distinct_sort set_sort)
  ultimately show ?thesis unfolding sel using mem by auto
qed

section \<open>The default track\<close>

lemma position_bound: "position P xs = Some i \<Longrightarrow> i < length xs"
  by (induction xs arbitrary: i) (auto split: if_splits)

lemma default_audio_bound: "al \<noteq> [] \<Longrightarrow> default_audio al < length al"
  by (auto simp: default_audio_def dest: position_bound split: option.splits)

lemma audio_args_default:
  "count_list (audio_args ser deflt i d) ''flag-default=1'' = (if i = deflt then 1 else 0)"
  by (simp add: audio_args_def Let_def flag_def)

lemma sub_args_default: "count_list (sub_args k s) ''flag-default=1'' = 0"
  by (simp add: sub_args_def Let_def flag_def)

lemma count_list_concat: "count_list (concat xss) x = sum_list (map (\<lambda>xs. count_list xs x) xss)"
  by (induction xss) simp_all

lemma sum_indicator: "sum_list (map (\<lambda>i. if i = d then 1 else (0::nat)) [0..<n]) = (if d < n then 1 else 0)"
  by (induction n) auto

lemma enumerate_default:
  "count_list (enumerate_map (audio_args ser deflt) al) ''flag-default=1'' = (if deflt < length al then 1 else 0)"
proof -
  have "map ((\<lambda>xs. count_list xs ''flag-default=1'') \<circ> (\<lambda>(i, d). audio_args ser deflt i d)) (zip [0..<length al] al)
      = map (\<lambda>i. if i = deflt then 1 else 0) [0..<length al]"
    by (rule nth_equalityI) (simp_all add: audio_args_default)
  then show ?thesis by (simp add: enumerate_map_def count_list_concat sum_indicator)
qed

lemma enumerate_subs_default: "count_list (enumerate_map sub_args subs) ''flag-default=1'' = 0"
  by (auto simp: enumerate_map_def count_list_concat sum_list_eq_0_iff sub_args_default)

text \<open>The arguments make exactly one audio track the default one when the encode has as
  many audio tracks as the scan and at least one, and none otherwise; no subtitle track is ever.\<close>

theorem propedit_one_default:
  "count_list (propedit_args ser mkvmerge hb_title subs title) ''flag-default=1'' =
     (if length (filter (\<lambda>t. jget t ''type'' = JStr ''audio'') (array_or_empty (jget mkvmerge ''tracks'')))
           = length (array_or_empty (jget hb_title ''AudioList''))
         \<and> array_or_empty (jget hb_title ''AudioList'') \<noteq> [] then 1 else 0)"
  using default_audio_bound [of "array_or_empty (jget hb_title ''AudioList'')"]
  by (auto simp: propedit_args_def Let_def enumerate_default enumerate_subs_default)

section \<open>A scan\<close>

definition sample_sub :: "int \<Rightarrow> string \<Rightarrow> string \<Rightarrow> json" where
  "sample_sub n code variant_name =
     JObj [(''TrackNumber'', JInt n), (''LanguageCode'', JStr code),
           (''Attributes'', JObj [(variant_name, JBool True)])]"

definition sample_scan :: json where
  "sample_scan = JObj [(''SubtitleList'', JArr
     [sample_sub 1 ''eng'' ''Letterbox'', sample_sub 2 ''fra'' ''Wide'', sample_sub 3 ''eng'' ''Wide''])]"

theorem select_subs_one_per_kind_witness:
  "select_subs sample_scan = [sample_sub 2 ''fra'' ''Wide'', sample_sub 3 ''eng'' ''Wide'']
   \<and> variant (sample_sub 3 ''eng'' ''Wide'') \<le> variant (hd (array_or_empty (jget sample_scan ''SubtitleList'')))"
proof -
  let ?t = "hd (array_or_empty (jget sample_scan ''SubtitleList''))"
  have 1: "select_subs sample_scan = [sample_sub 2 ''fra'' ''Wide'', sample_sub 3 ''eng'' ''Wide'']" by code_simp
  have "?t \<in> set (array_or_empty (jget sample_scan ''SubtitleList''))" "sub_key ?t = sub_key (sample_sub 3 ''eng'' ''Wide'')"
    by code_simp+
  moreover from 1 have "sample_sub 3 ''eng'' ''Wide'' \<in> set (select_subs sample_scan)" by simp
  ultimately show ?thesis using 1 select_subs_one_per_kind [of sample_scan] by blast
qed

end
