(* ===== verification/Makemkv.thy ===== *)
theory Makemkv
  imports Prelude
begin

text \<open>
  \<^verbatim>\<open>apps/dvdrip/src/makemkv.rs\<close>: what makemkvcon's robot output says about drives, titles and the
  backup, and \<^verbatim>\<open>lsdvd.rs\<close>: lsdvd's XML cleaned up and turned into JSON. The XML reader is not part of
  the repository: \<open>to_json\<close> takes the events it reports, or its error.
\<close>

section \<open>Robot lines\<close>

fun fields_loop :: "string list \<Rightarrow> string \<Rightarrow> bool \<Rightarrow> string \<Rightarrow> string list" where
  "fields_loop out cur quoted [] = out @ [cur]"
| "fields_loop out cur quoted (c # cs) =
     (if c = quote then fields_loop out cur (\<not> quoted) cs
      else if c = CHR '','' \<and> \<not> quoted then fields_loop (out @ [cur]) [] quoted cs
      else fields_loop out (cur @ [c]) quoted cs)"

definition robot_fields :: "string \<Rightarrow> string list" where
  "robot_fields rest = fields_loop [] [] False rest"

text \<open>\<^verbatim>\<open>find_map\<close>.\<close>

fun find_map :: "('a \<Rightarrow> 'b option) \<Rightarrow> 'a list \<Rightarrow> 'b option" where
  "find_map f [] = None"
| "find_map f (x # xs) = (case f x of Some y \<Rightarrow> Some y | None \<Rightarrow> find_map f xs)"

definition drive_index :: "string \<Rightarrow> string \<Rightarrow> nat option" where
  "drive_index info device =
     find_map (\<lambda>l. case strip_prefix ''DRV:'' l of
                     None \<Rightarrow> None
                   | Some r \<Rightarrow> let f = robot_fields r in if last f = device then parse_uint 32 (hd f) else None)
       (lines info)"

record mkv_title =
  mk_id :: nat
  mk_seconds :: f64
  mk_file :: string

definition hms :: "rounding \<Rightarrow> string \<Rightarrow> f64 option" where
  "hms fl v =
     (case map (parse_f64 fl) (split_char (CHR '':'') v) of
        [Some h, Some m, Some s] \<Rightarrow> Some (fl (fl (fl (h * 3600) + fl (m * 60)) + s))
      | _ \<Rightarrow> None)"

text \<open>The map of titles is the list of its entries by index.\<close>

fun upd_title :: "nat \<Rightarrow> (mkv_title \<Rightarrow> mkv_title) \<Rightarrow> mkv_title list \<Rightarrow> mkv_title list" where
  "upd_title i f [] = [f \<lparr>mk_id = i, mk_seconds = 0, mk_file = []\<rparr>]"
| "upd_title i f (t # ts) =
     (if mk_id t = i then f t # ts
      else if i < mk_id t then f \<lparr>mk_id = i, mk_seconds = 0, mk_file = []\<rparr> # t # ts
      else t # upd_title i f ts)"

definition title_line :: "rounding \<Rightarrow> string \<Rightarrow> mkv_title list \<Rightarrow> mkv_title list" where
  "title_line fl l ts =
     (case strip_prefix ''TINFO:'' l of
        None \<Rightarrow> ts
      | Some rest \<Rightarrow>
          let f = robot_fields rest
          in case parse_uint 32 (hd f) of
               None \<Rightarrow> ts
             | Some i \<Rightarrow>
                 if length f < 3 then ts
                 else let value = join '','' (drop 3 f)
                      in upd_title i (\<lambda>t. if f ! 1 = ''9'' then t\<lparr>mk_seconds := (case hms fl value of Some s \<Rightarrow> s | None \<Rightarrow> 0)\<rparr>
                                          else if f ! 1 = ''27'' then t\<lparr>mk_file := value\<rparr> else t) ts)"

definition titles :: "rounding \<Rightarrow> string \<Rightarrow> mkv_title list" where
  "titles fl info = fold (title_line fl) (lines info) []"

text \<open>\<^verbatim>\<open>min_by\<close> with \<^verbatim>\<open>total_cmp\<close>: the first of the closest.\<close>

fun closest_loop :: "rounding \<Rightarrow> f64 \<Rightarrow> mkv_title list \<Rightarrow> mkv_title option" where
  "closest_loop fl want [] = None"
| "closest_loop fl want (t # ts) =
     (let d = \<bar>fl (mk_seconds t - of_int \<lfloor>want\<rfloor>)\<bar>
      in if d \<le> 2
         then (case closest_loop fl want ts of
                 None \<Rightarrow> Some t
               | Some u \<Rightarrow> if d \<le> \<bar>fl (mk_seconds u - of_int \<lfloor>want\<rfloor>)\<bar> then Some t else Some u)
         else closest_loop fl want ts)"

definition closest :: "rounding \<Rightarrow> mkv_title list \<Rightarrow> f64 \<Rightarrow> mkv_title option" where
  "closest fl ts want = closest_loop fl want ts"

definition messages :: "string \<Rightarrow> string list" where
  "messages mk_log =
     List.map_filter (\<lambda>l. case strip_prefix ''MSG:'' l of
                            None \<Rightarrow> None
                          | Some r \<Rightarrow> let f = robot_fields r in if 3 < length f then Some (f ! 3) else None) (lines mk_log)"

definition backup_failed :: "string \<Rightarrow> bool" where
  "backup_failed mk_log \<longleftrightarrow> contains mk_log ([quote] @ ''Backup failed'')"

definition backup_done :: "string \<Rightarrow> bool" where
  "backup_done mk_log \<longleftrightarrow> list_ex (\<lambda>l. starts_with l ''MSG:5081,'' \<and> contains l ([quote] @ ''Backup done'')) (lines mk_log)"

definition medium_error :: "string \<Rightarrow> bool" where
  "medium_error mk_log \<longleftrightarrow> contains mk_log ''MEDIUM ERROR''"

definition read_errors :: "string \<Rightarrow> nat" where
  "read_errors mk_log =
     length (filter (\<lambda>m. let l = map to_lower m
                         in (contains l ''error'' \<or> contains l ''fail'')
                            \<and> \<not> contains l ''scrambled sector without authentication'') (messages mk_log))"

definition progress :: "rounding \<Rightarrow> string \<Rightarrow> f64 option" where
  "progress fl line =
     (case strip_prefix ''PRGV:'' line of
        None \<Rightarrow> None
      | Some r \<Rightarrow>
          let f = robot_fields r
          in case parse_f64 fl (hd f) of
               None \<Rightarrow> None
             | Some cur \<Rightarrow>
                 if length f \<le> 2 then None
                 else case parse_f64 fl (f ! 2) of
                        None \<Rightarrow> None
                      | Some mx \<Rightarrow> if mx > 0 then Some (fl (cur / mx)) else None)"

section \<open>lsdvd's XML\<close>

definition printable :: "char \<Rightarrow> char" where
  "printable c =
     (let n = (of_char c :: int) in if n = 9 \<or> n = 10 \<or> (32 \<le> n \<and> n \<le> 126) then c else CHR ''?'')"

fun xml_start :: "nat \<Rightarrow> string list \<Rightarrow> nat option" where
  "xml_start pos [] = None"
| "xml_start pos (l # ls) = (if starts_with l ''<?xml'' then Some pos else xml_start (pos + length l + 1) ls)"

definition sanitize :: "string \<Rightarrow> string" where
  "sanitize raw =
     (let text = map printable raw;
          start = (case xml_start 0 (lines text) of Some p \<Rightarrow> p | None \<Rightarrow> length text)
      in replace_char (CHR ''&'') ''&amp;'' (drop start text))"

datatype xml_event = Start string | Empty string | Text string | GeneralRef string | End | Other

datatype xml_error = ReaderError | Unbalanced | NoXml

fun insert_child :: "(string \<times> json) list \<Rightarrow> string \<Rightarrow> json \<Rightarrow> (string \<times> json) list" where
  "insert_child [] name v = [(name, v)]"
| "insert_child ((k, old) # ms) name v =
     (if k = name then (k, case old of JArr items \<Rightarrow> JArr (items @ [v]) | first \<Rightarrow> JArr [first, v]) # ms
      else (k, old) # insert_child ms name v)"

definition entity :: "string \<Rightarrow> string" where
  "entity name =
     (if name = ''amp'' then ''&'' else if name = ''lt'' then ''<'' else if name = ''gt'' then ''>''
      else if name = ''quot'' then [quote] else if name = ''apos'' then [CHR 0x27] else ''?'')"

type_synonym open_element = "string \<times> (string \<times> json) list \<times> string"

definition element_value :: "(string \<times> json) list \<Rightarrow> string \<Rightarrow> json" where
  "element_value children text =
     (if children \<noteq> [] then JObj children else if text = [] then JNull else JStr text)"

fun close_element ::
  "open_element list \<Rightarrow> (string \<times> json) option \<Rightarrow> string \<Rightarrow> json \<Rightarrow> open_element list \<times> (string \<times> json) option" where
  "close_element [] topmost name v = ([], Some (name, v))"
| "close_element ((n, children, text) # stack) topmost name v = ((n, insert_child children name v, text) # stack, topmost)"

text \<open>The stack of open elements has the innermost first.\<close>

fun json_loop ::
  "open_element list \<Rightarrow> (string \<times> json) option \<Rightarrow> xml_event list \<Rightarrow> xml_error + (string \<times> json) option" where
  "json_loop stack topmost [] = Inr topmost"
| "json_loop stack topmost (Start name # es) = json_loop ((name, [], []) # stack) topmost es"
| "json_loop stack topmost (Empty name # es) =
     (case close_element stack topmost name JNull of (stack, topmost) \<Rightarrow> json_loop stack topmost es)"
| "json_loop stack topmost (Text t # es) =
     (case stack of [] \<Rightarrow> json_loop stack topmost es
      | (n, children, text) # rest \<Rightarrow> json_loop ((n, children, text @ t) # rest) topmost es)"
| "json_loop stack topmost (GeneralRef r # es) =
     (case stack of [] \<Rightarrow> json_loop stack topmost es
      | (n, children, text) # rest \<Rightarrow> json_loop ((n, children, text @ entity r) # rest) topmost es)"
| "json_loop stack topmost (End # es) =
     (case stack of
        [] \<Rightarrow> Inl Unbalanced
      | (name, children, text) # rest \<Rightarrow>
          (case close_element rest topmost name (element_value children text) of
             (stack, topmost) \<Rightarrow> json_loop stack topmost es))"
| "json_loop stack topmost (Other # es) = json_loop stack topmost es"

definition to_json :: "xml_event list option \<Rightarrow> xml_error + json" where
  "to_json events =
     (case events of
        None \<Rightarrow> Inl ReaderError
      | Some es \<Rightarrow>
          (case json_loop [] None es of
             Inl e \<Rightarrow> Inl e
           | Inr None \<Rightarrow> Inl NoXml
           | Inr (Some (name, v)) \<Rightarrow> Inr (JObj [(name, v)])))"

section \<open>Fields\<close>

lemma fields_loop_quoted:
  "quote \<notin> set x \<Longrightarrow> fields_loop out cur True (x @ cs) = fields_loop out (cur @ x) True cs"
  by (induction x arbitrary: cur) auto

lemma fields_loop_word:
  "quote \<notin> set x \<Longrightarrow> fields_loop out [] False ([quote] @ x @ [quote] @ cs) = fields_loop out x False cs"
  by (simp add: fields_loop_quoted)

text \<open>Quoting and splitting are inverse: a line of quoted fields with any characters but
  quotes in them, commas included, splits into those fields.\<close>

theorem fields_roundtrip:
  assumes "xs \<noteq> []" and "list_all (\<lambda>x. quote \<notin> set x) xs"
  shows "robot_fields (join '','' (map (\<lambda>x. [quote] @ x @ [quote]) xs)) = xs"
proof -
  have "fields_loop out [] False (join '','' (map (\<lambda>x. [quote] @ x @ [quote]) xs)) = out @ xs" for out
    using assms
  proof (induction xs arbitrary: out)
    case (Cons x xs)
    show ?case
    proof (cases "xs = []")
      case True
      with Cons.prems fields_loop_word [of x out "[]"] show ?thesis by simp
    next
      case False
      with Cons fields_loop_word [of x out "CHR '','' # join '','' (map (\<lambda>x. [quote] @ x @ [quote]) xs)"]
      show ?thesis by (simp add: join_Cons quote_def)
    qed
  qed simp
  then show ?thesis by (simp add: robot_fields_def)
qed

theorem fields_roundtrip_witness:
  "robot_fields (join '','' (map (\<lambda>x. [quote] @ x @ [quote]) [''a,b'', [], ''c''])) = [''a,b'', [], ''c'']"
  by (rule fields_roundtrip) code_simp+

section \<open>Titles\<close>

lemma upd_title_set:
  "(\<And>t. mk_id (f t) = mk_id t) \<Longrightarrow> mk_id ` set (upd_title i f ts) = insert i (mk_id ` set ts)"
  by (induction i f ts rule: upd_title.induct) auto

lemma upd_title_sorted:
  "sorted_wrt (<) (map mk_id ts) \<Longrightarrow> (\<And>t. mk_id (f t) = mk_id t) \<Longrightarrow>
   sorted_wrt (<) (map mk_id (upd_title i f ts))"
proof (induction i f ts rule: upd_title.induct)
  case (2 i f t ts)
  have "mk_id x = i \<or> mk_id x \<in> mk_id ` set ts" if "x \<in> set (upd_title i f ts)" for x
    using imageI [OF that, of mk_id] upd_title_set [of f i ts] 2(3) by simp
  with 2 show ?case by fastforce
qed simp

lemma closest_loop_spec:
  "closest_loop fl want ts = Some t \<Longrightarrow> t \<in> set ts \<and> \<bar>fl (mk_seconds t - of_int \<lfloor>want\<rfloor>)\<bar> \<le> 2
     \<and> (\<forall>u \<in> set ts. \<bar>fl (mk_seconds t - of_int \<lfloor>want\<rfloor>)\<bar> \<le> \<bar>fl (mk_seconds u - of_int \<lfloor>want\<rfloor>)\<bar>)"
proof (induction ts arbitrary: t)
  case (Cons a ts)
  show ?case
  proof (cases "closest_loop fl want ts")
    case None
    have "\<forall>u \<in> set ts. 2 < \<bar>fl (mk_seconds u - of_int \<lfloor>want\<rfloor>)\<bar>"
      using None by (induction ts) (auto simp: Let_def split: if_splits option.splits)
    with None Cons.prems show ?thesis by (fastforce simp: Let_def split: if_splits)
  next
    case (Some z)
    from Cons.IH [OF this] Cons.prems Some show ?thesis by (fastforce simp: Let_def split: if_splits)
  qed
qed simp

lemma title_line_ids:
  "sorted_wrt (<) (map mk_id ts) \<Longrightarrow> sorted_wrt (<) (map mk_id (title_line fl l ts))"
proof -
  assume ts: "sorted_wrt (<) (map mk_id ts)"
  have "sorted_wrt (<) (map mk_id (upd_title i f ts))" if "\<And>t. mk_id (f t) = mk_id t" for i f
    using upd_title_sorted [OF ts] that by blast
  with ts show ?thesis by (simp add: title_line_def Let_def split: option.split)
qed

lemma titles_sorted: "sorted_wrt (<) (map mk_id (titles fl info))"
proof -
  have "sorted_wrt (<) (map mk_id ts) \<Longrightarrow> sorted_wrt (<) (map mk_id (fold (title_line fl) ls ts))" for ls ts
    by (induction ls arbitrary: ts) (simp_all add: title_line_ids)
  then show ?thesis by (simp add: titles_def)
qed

text \<open>The titles of MakeMKV's listing come in order, one for each index, and the one that is
  matched to a runtime is among them, within two seconds, and no other is closer.\<close>

theorem closest_title:
  "sorted_wrt (<) (map mk_id (titles fl info))
   \<and> (closest fl (titles fl info) want = Some t \<longrightarrow>
        t \<in> set (titles fl info) \<and> \<bar>fl (mk_seconds t - of_int \<lfloor>want\<rfloor>)\<bar> \<le> 2
        \<and> (\<forall>u \<in> set (titles fl info).
             \<bar>fl (mk_seconds t - of_int \<lfloor>want\<rfloor>)\<bar> \<le> \<bar>fl (mk_seconds u - of_int \<lfloor>want\<rfloor>)\<bar>))"
  using titles_sorted closest_loop_spec [of fl want "titles fl info" t] by (simp add: closest_def)

definition sample_info :: string where
  "sample_info =
     ''TINFO:1,9,0,'' @ [quote] @ ''0:01:40'' @ [quote] @ [newline]
     @ ''TINFO:0,9,0,'' @ [quote] @ ''1:31:56'' @ [quote] @ [newline]
     @ ''TINFO:0,27,0,'' @ [quote] @ ''a,b.mkv'' @ [quote] @ [newline]"

theorem closest_title_witness:
  "closest id (titles id sample_info) (5516 + 1/2) = Some \<lparr>mk_id = 0, mk_seconds = 5516, mk_file = ''a,b.mkv''\<rparr>
   \<and> \<lparr>mk_id = 0, mk_seconds = 5516, mk_file = ''a,b.mkv''\<rparr> \<in> set (titles id sample_info)"
proof -
  have 1: "closest id (titles id sample_info) (5516 + 1/2) = Some \<lparr>mk_id = 0, mk_seconds = 5516, mk_file = ''a,b.mkv''\<rparr>"
    by code_simp
  with closest_title [of id sample_info "5516 + 1/2"] show ?thesis by blast
qed

section \<open>The XML as JSON\<close>

text \<open>A document as a tree: an element with text, or with child elements.\<close>

datatype xml_tree = Leaf string string | Node string "xml_tree list"

fun xml_events :: "xml_tree \<Rightarrow> xml_event list" where
  "xml_events (Leaf name text) = (if text = [] then [Empty name] else [Start name, Text text, End])"
| "xml_events (Node name cs) = Start name # concat (map xml_events cs) @ [End]"

text \<open>The JSON xq gives: text is a string, children an object, repeated children an array, nothing null.\<close>

fun tree_name :: "xml_tree \<Rightarrow> string" where
  "tree_name (Leaf name text) = name"
| "tree_name (Node name cs) = name"

fun xq :: "xml_tree \<Rightarrow> json" where
  "xq (Leaf name text) = (if text = [] then JNull else JStr text)"
| "xq (Node name cs) = element_value (foldl (\<lambda>ms c. insert_child ms (tree_name c) (xq c)) [] cs) []"

lemma insert_child_not_Nil [simp]: "insert_child ms n v \<noteq> []"
  by (cases ms) (auto split: if_splits)

lemma json_loop_tree:
  "json_loop ((n, children, tx) # stack) topmost (xml_events t @ es)
     = json_loop ((n, insert_child children (tree_name t) (xq t), tx) # stack) topmost es"
proof (induction t arbitrary: n children tx stack es)
  case (Leaf name body)
  then show ?case by (simp add: element_value_def)
next
  case (Node name cs)
  have kids: "json_loop ((name, ms, []) # (n, children, tx) # stack) topmost (concat (map xml_events ts) @ es')
      = json_loop ((name, foldl (\<lambda>ms c. insert_child ms (tree_name c) (xq c)) ms ts, []) # (n, children, tx) # stack) topmost es'"
    if "set ts \<subseteq> set cs" for ts ms es'
    using that
  proof (induction ts arbitrary: ms)
    case (Cons t ts)
    then show ?case using Node [of t] by simp
  qed simp
  show ?case using kids [of cs "[]" "End # es"] by simp
qed

text \<open>The JSON that is built from the reader's events is, for every document, the one of
  the reference conversion of its tree.\<close>

theorem to_json_is_xq:
  "to_json (Some (xml_events t)) = Inr (JObj [(tree_name t, xq t)])"
proof (cases t)
  case (Leaf name body)
  then show ?thesis by (simp add: to_json_def element_value_def)
next
  case (Node name cs)
  have kids: "json_loop [(name, ms, [])] None (concat (map xml_events ts) @ es')
      = json_loop [(name, foldl (\<lambda>ms c. insert_child ms (tree_name c) (xq c)) ms ts, [])] None es'" for ts ms es'
    by (induction ts arbitrary: ms) (simp_all add: json_loop_tree)
  from Node kids [of "[]" cs "[End]"] show ?thesis by (simp add: to_json_def)
qed

end
