(* ===== verification/Encode.thy ===== *)
theory Encode
  imports Files Layout Tracks Makemkv
begin

text \<open>
  \<^verbatim>\<open>apps/dvdrip/src/encode.rs\<close>: the encode of every kept title into the work directory. The media
  tools are parameters (\<open>encode_tools\<close>): what HandBrake leaves at its output path and whether it
  succeeds, what ffprobe, mkvmerge and mkvpropedit make of a file, what MakeMKV lists, extracts and
  remuxes. The parallel tasks touch files of their own title only; they are run here in the order of
  the plan. Log files and log lines are left out.
\<close>

section \<open>Data\<close>

record settings =
  se_encoder :: string
  se_preset :: string
  se_quality :: string
  se_parallel :: nat
  se_extra_min :: nat

definition default_settings :: settings where
  "default_settings =
     \<lparr>se_encoder = ''nvenc_h264'', se_preset = ''slowest'', se_quality = ''19'', se_parallel = 4, se_extra_min = 30\<rparr>"

definition preset :: "settings \<Rightarrow> string" where
  "preset s =
     (if starts_with (se_encoder s) ''nvenc'' then se_preset s
      else if se_preset s = ''slowest'' then ''slow'' else se_preset s)"

datatype encode_error =
    EncIo io_error
  | ToolFailed string
  | UnreadableOutput
  | EndedEarly f64 f64
  | NoListing
  | NoSuchTitle f64
  | NotExtracted
  | NoMkvFile
  | NoRemux
  | BadJson
  | NoTitles
  | NoScan
  | Fatal "(nat \<times> encode_error list) list"

datatype outcome = WasEncoded f64 | Duplicate | OutcomeFailed "encode_error list"

record work =
  wk_dir :: string
  wk_master :: string

record encode_tools =
  tl_fl :: rounding
  tl_ser :: "json \<Rightarrow> string"
  tl_handbrake :: "string list \<Rightarrow> string \<Rightarrow> bool \<times> string option"
  tl_duration :: "string \<Rightarrow> f64"
  tl_mkvmerge :: "string \<Rightarrow> json option"
  tl_mkvpropedit :: "string list \<Rightarrow> string \<Rightarrow> bool \<times> string"
  tl_listing :: "string option"
  tl_extract :: "nat \<Rightarrow> (string \<times> string) list option"
  tl_remux :: "(string \<times> string) list option"

type_synonym 'a enc = "(encode_error, 'a) io"

definition wpath :: "work \<Rightarrow> string \<Rightarrow> string" where
  "wpath k rel = wk_dir k @ ''/'' @ rel"

text \<open>\<^verbatim>\<open>with_extension\<close> on a path that ends in \<^verbatim>\<open>.mkv\<close>.\<close>

definition part_path :: "string \<Rightarrow> string" where
  "part_path out = (case strip_suffix ''.mkv'' out of Some s \<Rightarrow> s @ ''.part.mkv'' | None \<Rightarrow> out @ ''.part.mkv'')"

definition hb_common :: "settings \<Rightarrow> string list" where
  "hb_common s =
     [''--format'', ''av_mkv'', ''--markers'', ''--encoder'', se_encoder s, ''--encoder-preset'', preset s,
      ''--quality'', se_quality s, ''--auto-anamorphic'', ''--comb-detect'', ''--decomb'', ''--all-audio'',
      ''--aencoder'', ''copy'', ''--audio-fallback'', ''ac3'', ''--subtitle-burned=none'',
      ''--subtitle-default=none'']"

section \<open>Tools that write\<close>

text \<open>A run of HandBrake leaves what it leaves at its output path, then reports.\<close>

definition run_handbrake :: "encode_tools \<Rightarrow> string list \<Rightarrow> string \<Rightarrow> string \<Rightarrow> unit enc" where
  "run_handbrake tools args input tmp = (\<lambda>w.
     case tl_handbrake tools args input of (good, left) \<Rightarrow>
       let w' = (case left of None \<Rightarrow> w | Some c \<Rightarrow> put Work tmp (File c) w)
       in (if good then Inr () else Inl (ToolFailed ''HandBrakeCLI''), w'))"

definition content :: "world \<Rightarrow> string \<Rightarrow> string option" where
  "content w p = (case lookup w Work p of Some (File c) \<Rightarrow> Some c | _ \<Rightarrow> None)"

text \<open>\<^verbatim>\<open>tool::duration\<close>: 0 when the file cannot be read.\<close>

definition duration :: "encode_tools \<Rightarrow> string \<Rightarrow> f64 enc" where
  "duration tools p = gets (\<lambda>w. case content w p of Some c \<Rightarrow> tl_duration tools c | None \<Rightarrow> 0)"

fun put_files :: "string \<Rightarrow> (string \<times> string) list \<Rightarrow> world \<Rightarrow> world" where
  "put_files dir [] w = w"
| "put_files dir ((n, c) # fs) w = put_files dir fs (put Work (dir @ ''/'' @ n) (File c) w)"

section \<open>One title\<close>

definition scan_title :: "json \<Rightarrow> nat \<Rightarrow> json" where
  "scan_title scan n =
     (case as_array (jget scan ''TitleList'') of
        None \<Rightarrow> JNull
      | Some l \<Rightarrow> (case find (\<lambda>x. jget x ''Index'' = JInt (int n)) l of Some x \<Rightarrow> x | None \<Rightarrow> JNull))"

definition sub_selection :: "json list \<Rightarrow> string" where
  "sub_selection subs =
     (let sel = join '','' (map int_str (List.map_filter (\<lambda>x. as_i64 (jget x ''TrackNumber'')) subs))
      in if sel = [] then ''none'' else sel)"

definition check_fail :: "string \<Rightarrow> encode_error \<Rightarrow> 'a enc" where
  "check_fail tmp e = andthen (ignore (remove_file Work tmp)) (\<lambda>_. throw e)"

definition main_or_alt :: "role \<Rightarrow> bool" where
  "main_or_alt r \<longleftrightarrow> r = Main \<or> r = Alt"

definition ended_early :: "rounding \<Rightarrow> f64 \<Rightarrow> f64 \<Rightarrow> bool" where
  "ended_early fl got want \<longleftrightarrow> got < fl (of_int \<lfloor>want\<rfloor> * fl (9 / 10))"

text \<open>An error of a tool after which the temporary file is removed.\<close>

definition or_remove :: "string \<Rightarrow> unit enc \<Rightarrow> unit enc" where
  "or_remove tmp m = (\<lambda>w. case m w of
     (Inl e, w') \<Rightarrow> check_fail tmp e w'
   | (Inr u, w') \<Rightarrow> (Inr (), w'))"

definition tag_tracks :: "encode_tools \<Rightarrow> string \<Rightarrow> string list \<Rightarrow> unit enc" where
  "tag_tracks tools tmp args = (\<lambda>w.
     case content w tmp of
       None \<Rightarrow> (Inr (), w)
     | Some c \<Rightarrow> (Inr (), put Work tmp (File (snd (tl_mkvpropedit tools args c))) w))"

definition from_dvd :: "encode_tools \<Rightarrow> work \<Rightarrow> title \<Rightarrow> json \<Rightarrow> string \<Rightarrow> settings \<Rightarrow> f64 enc" where
  "from_dvd tools k t scan out s =
     (let hb = scan_title scan (t_title t);
          subs = select_subs hb;
          sel = sub_selection subs;
          tmp = part_path out;
          args = [''-i'', wk_master k, ''--title'', nat_str (t_title t), ''--min-duration'', ''0'', ''-o'', wpath k tmp]
                 @ hb_common s @ [''--subtitle'', sel]
      in andthen (or_remove tmp (run_handbrake tools args [] tmp))
         (\<lambda>_. andthen (duration tools tmp)
         (\<lambda>seconds.
            if seconds < 1 then check_fail tmp UnreadableOutput
            else if main_or_alt (t_role t) \<and> ended_early (tl_fl tools) seconds (t_seconds t)
            then check_fail tmp (EndedEarly seconds (t_seconds t))
            else andthen (gets (\<lambda>w. Option.bind (content w tmp) (tl_mkvmerge tools)))
              (\<lambda>j. case j of
                 None \<Rightarrow> throw BadJson
               | Some mkvmerge \<Rightarrow>
                   andthen (tag_tracks tools tmp (wpath k tmp # propedit_args (tl_ser tools) mkvmerge hb subs
                              (''Title '' @ nat_str (t_title t))))
                   (\<lambda>_. andthen (wrap EncIo (rename Work tmp out)) (\<lambda>_. ret seconds))))))"

definition from_mkv :: "encode_tools \<Rightarrow> work \<Rightarrow> string \<Rightarrow> string \<Rightarrow> settings \<Rightarrow> f64 enc" where
  "from_mkv tools k src out s =
     (let tmp = part_path out;
          args = [''-i'', wpath k src, ''-o'', wpath k tmp] @ hb_common s @ [''--all-subtitles'']
      in andthen (gets (\<lambda>w. case content w src of Some c \<Rightarrow> c | None \<Rightarrow> []))
         (\<lambda>input. andthen (or_remove tmp (run_handbrake tools args input tmp))
         (\<lambda>_. andthen (duration tools tmp)
         (\<lambda>seconds. if seconds < 1 then check_fail tmp UnreadableOutput
                    else andthen (wrap EncIo (rename Work tmp out)) (\<lambda>_. ret seconds)))))"

definition repair :: "encode_tools \<Rightarrow> work \<Rightarrow> title \<Rightarrow> string \<Rightarrow> settings \<Rightarrow> f64 enc" where
  "repair tools k t out s =
     (case tl_listing tools of
        None \<Rightarrow> throw NoListing
      | Some info \<Rightarrow>
          (case closest (tl_fl tools) (titles (tl_fl tools) info) (t_seconds t) of
             None \<Rightarrow> throw (NoSuchTitle (t_seconds t))
           | Some m \<Rightarrow>
               let dir = ''repair/t'' @ nat_str (t_title t) in
               andthen (ignore (remove_dir_all Work dir))
               (\<lambda>_. andthen (wrap EncIo (create_dir_all Work dir))
               (\<lambda>_. case tl_extract tools (mk_id m) of
                  None \<Rightarrow> throw (ToolFailed ''makemkvcon'')
                | Some fs \<Rightarrow>
                    andthen (\<lambda>w. (Inr (), put_files dir fs w))
                    (\<lambda>_. andthen (wrap EncIo (read_dir Work dir))
                    (\<lambda>es. case find (\<lambda>(p, n). ends_with p ''.mkv'' \<and> (case n of File c \<Rightarrow> c \<noteq> [] | Dir \<Rightarrow> False)) es of
                       None \<Rightarrow> throw NotExtracted
                     | Some (src, _) \<Rightarrow>
                         andthen (from_mkv tools k src out s)
                         (\<lambda>seconds. andthen (ignore (remove_dir_all Work dir)) (\<lambda>_. ret seconds))))))))"

text \<open>\<^verbatim>\<open>match first\<close>: the error as a value.\<close>

definition attempt :: "'a enc \<Rightarrow> (encode_error, encode_error + 'a) io" where
  "attempt m = (\<lambda>w. case m w of (r, w') \<Rightarrow> (Inr r, w'))"

definition one :: "encode_tools \<Rightarrow> work \<Rightarrow> json \<Rightarrow> bool \<Rightarrow> settings \<Rightarrow> title \<Rightarrow> outcome enc" where
  "one tools k scan protected s t =
     (let out = encode_path (t_title t) in
      if protected then
        (case t_file t of
           None \<Rightarrow> ret (OutcomeFailed [NoMkvFile])
         | Some file \<Rightarrow>
             andthen (exists_path Work (''remux/'' @ file))
             (\<lambda>there. if \<not> there then ret Duplicate
                else andthen (attempt (from_mkv tools k (''remux/'' @ file) out s))
                     (\<lambda>r. case r of Inr seconds \<Rightarrow> ret (WasEncoded seconds) | Inl e \<Rightarrow> ret (OutcomeFailed [e]))))
      else
        andthen (attempt (from_dvd tools k t scan out s))
        (\<lambda>r. case r of
           Inr seconds \<Rightarrow> ret (WasEncoded seconds)
         | Inl e \<Rightarrow> andthen (attempt (repair tools k t out s))
                    (\<lambda>r. case r of Inr seconds \<Rightarrow> ret (WasEncoded seconds)
                                 | Inl e' \<Rightarrow> ret (OutcomeFailed [e, e']))))"

section \<open>The disc\<close>

definition encode_plan :: "title list \<Rightarrow> title list" where
  "encode_plan ts = sort_key (\<lambda>t. (t_role t \<noteq> Main, t_title t)) (filter (\<lambda>t. encoded (t_role t)) ts)"

definition remux_all :: "encode_tools \<Rightarrow> unit enc" where
  "remux_all tools =
     andthen (wrap EncIo (create_dir_all Work ''remux''))
     (\<lambda>_. andthen (wrap EncIo (read_dir Work ''remux''))
     (\<lambda>es. if es \<noteq> [] then ret ()
           else case tl_remux tools of
                  None \<Rightarrow> throw (ToolFailed ''makemkvcon'')
                | Some fs \<Rightarrow> (\<lambda>w. (Inr (), put_files ''remux'' fs w))))"

definition sweep_entry :: "encode_tools \<Rightarrow> string \<times> node \<Rightarrow> unit enc" where
  "sweep_entry tools e =
     (let p = fst e; name = file_name p in
      if ends_with name ''.part.mkv'' then ignore (remove_file Work p)
      else if ends_with name ''.mkv''
      then andthen (duration tools p)
           (\<lambda>d. if d < 1
                then andthen (wrap EncIo (create_dir_all Work ''.broken-stubs''))
                     (\<lambda>_. wrap EncIo (rename Work p (''.broken-stubs/'' @ name)))
                else ret ())
      else ret ())"

definition sweep :: "encode_tools \<Rightarrow> unit enc" where
  "sweep tools = andthen (wrap EncIo (read_dir Work ''encodes'')) (\<lambda>es. for_each es (sweep_entry tools))"

definition lost_features :: "rounding \<Rightarrow> title list \<Rightarrow> (nat \<times> outcome) list \<Rightarrow> nat list" where
  "lost_features fl ts results =
     (let secs = List.map_filter (\<lambda>(_, o'). case o' of WasEncoded s \<Rightarrow> Some s | _ \<Rightarrow> None) results
      in map t_title (filter (\<lambda>t. main_or_alt (t_role t) \<and> \<not> list_ex (\<lambda>s. \<not> ended_early fl s (t_seconds t)) secs)
           (List.map_filter (\<lambda>(n, _). find (\<lambda>t. t_title t = n) ts)
             (filter (\<lambda>(_, o'). o' = Duplicate) results))))"

definition encode_title ::
  "encode_tools \<Rightarrow> work \<Rightarrow> json \<Rightarrow> bool \<Rightarrow> settings \<Rightarrow> title \<Rightarrow> (nat \<times> role \<times> outcome) enc" where
  "encode_title tools k scan protected s t =
     andthen (exists_path Work (encode_path (t_title t)))
     (\<lambda>there. if there
        then andthen (duration tools (encode_path (t_title t))) (\<lambda>d. ret (t_title t, t_role t, WasEncoded d))
        else andthen (one tools k scan protected s t) (\<lambda>r. ret (t_title t, t_role t, r)))"

definition collect_outcomes :: "title list \<Rightarrow> (title \<Rightarrow> (nat \<times> role \<times> outcome) enc) \<Rightarrow> (nat \<times> role \<times> outcome) list enc" where
  "collect_outcomes ts f = fold_sem ts (\<lambda>t rs. andthen (f t) (\<lambda>r. ret (rs @ [r]))) []"

definition fatal_outcomes :: "(nat \<times> role \<times> outcome) list \<Rightarrow> (nat \<times> encode_error list) list" where
  "fatal_outcomes rs =
     List.map_filter (\<lambda>(n, r, o'). case o' of
        OutcomeFailed why \<Rightarrow> if main_or_alt r then Some (n, why) else None | _ \<Rightarrow> None) rs"

text \<open>\<^verbatim>\<open>iter_mut().find\<close>: the first result of the title.\<close>

fun fail_first :: "nat \<Rightarrow> (nat \<times> outcome) list \<Rightarrow> (nat \<times> outcome) list" where
  "fail_first n [] = []"
| "fail_first n ((m, o') # rs) = (if m = n then (m, OutcomeFailed [NoRemux]) # rs else (m, o') # fail_first n rs)"

definition mark_lost :: "nat list \<Rightarrow> (nat \<times> outcome) list \<Rightarrow> (nat \<times> outcome) list" where
  "mark_lost lost results = fold fail_first lost results"

definition encode ::
  "encode_tools \<Rightarrow> work \<Rightarrow> title list \<Rightarrow> json \<Rightarrow> bool \<Rightarrow> settings \<Rightarrow> (nat \<times> outcome) list enc" where
  "encode tools k ts scan protected s =
     andthen (wrap EncIo (create_dir_all Work ''encodes''))
     (\<lambda>_. andthen (whenever protected (remux_all tools))
     (\<lambda>_. andthen (collect_outcomes (encode_plan ts) (encode_title tools k scan protected s))
     (\<lambda>rs. let results = sort_key fst (map (\<lambda>(n, _, o'). (n, o')) rs);
               lost = lost_features (tl_fl tools) ts results;
               fatal = fatal_outcomes rs @ map (\<lambda>n. (n, [NoRemux])) lost;
               results = mark_lost lost results
           in andthen (sweep tools)
              (\<lambda>_. andthen (ignore (remove_dir_all Work ''repair''))
              (\<lambda>_. andthen (whenever (lost \<noteq> []) (ignore (remove_dir_all Work ''remux'')))
              (\<lambda>_. if fatal = [] then andthen (ignore (remove_dir_all Work ''remux'')) (\<lambda>_. ret results)
                   else throw (Fatal fatal)))))))"

section \<open>The speed\<close>

text \<open>\<^verbatim>\<open>rfind\<close> and the number after it, of a HandBrake log.\<close>

definition fps :: "rounding \<Rightarrow> string \<Rightarrow> nat option" where
  "fps fl log_text =
     (case rsplit_once_str ''average encoding speed for job is '' log_text of
        None \<Rightarrow> None
      | Some (_, rest) \<Rightarrow>
          (case split_whitespace rest of
             [] \<Rightarrow> None
           | x # _ \<Rightarrow> map_option (cast_uint 32) (parse_f64 fl x)))"

section \<open>What an encode that succeeds has done\<close>

lemma encode_title_ok:
  "encode_title tools k scan pr s t w = (Inr (n, r, o'), w') \<Longrightarrow> n = t_title t \<and> r = t_role t"
  by (auto simp: encode_title_def andthen_Inr_iff ret_def split: if_splits)

lemma collect_outcomes_ok:
  assumes "collect_outcomes ts (encode_title tools k scan pr s) w = (Inr rs, w')"
  shows "map (\<lambda>(n, r, o'). (n, r)) rs = map (\<lambda>t. (t_title t, t_role t)) ts"
proof -
  have "fold_sem ts (\<lambda>t rs. andthen (encode_title tools k scan pr s t) (\<lambda>r. ret (rs @ [r]))) acc w = (Inr rs, w')
      \<Longrightarrow> map (\<lambda>(n, r, o'). (n, r)) rs = map (\<lambda>(n, r, o'). (n, r)) acc @ map (\<lambda>t. (t_title t, t_role t)) ts" for acc w
  proof (induction ts arbitrary: acc w)
    case (Cons t ts)
    then obtain n r o' w1 where 1: "encode_title tools k scan pr s t w = (Inr (n, r, o'), w1)"
      and 2: "fold_sem ts (\<lambda>t rs. andthen (encode_title tools k scan pr s t) (\<lambda>r. ret (rs @ [r])))
                (acc @ [(n, r, o')]) w1 = (Inr rs, w')"
      by (auto simp: andthen_Inr_iff ret_def)
    from Cons.IH [OF 2] encode_title_ok [OF 1] show ?case by simp
  qed (simp add: ret_def)
  from this [of "[]" w] assms show ?thesis by (simp add: collect_outcomes_def)
qed

lemma in_map_filter: "y \<in> set (List.map_filter f xs) \<longleftrightarrow> (\<exists>x \<in> set xs. f x = Some y)"
  by (force simp: List.map_filter_def)

lemma lost_features_empty:
  assumes "lost_features fl ts results = []" and "(t_title t, Duplicate) \<in> set results"
    and "distinct (map t_title ts)" and "t \<in> set ts" and "main_or_alt (t_role t)"
  shows "\<exists>n s. (n, WasEncoded s) \<in> set results \<and> \<not> ended_early fl s (t_seconds t)"
proof -
  let ?secs = "List.map_filter (\<lambda>(_, o'). case o' of WasEncoded s \<Rightarrow> Some s | _ \<Rightarrow> None) results"
  have "find (\<lambda>u. t_title u = t_title t) ts = Some t"
  proof -
    have "\<exists>u. find (\<lambda>u. t_title u = t_title t) ts = Some u"
      using assms(4) by (induction ts) auto
    then obtain u where u: "find (\<lambda>u. t_title u = t_title t) ts = Some u" by blast
    then have "u \<in> set ts" "t_title u = t_title t" by (auto simp: find_Some_iff)
    with assms(3,4) u show ?thesis by (auto simp: distinct_map inj_on_def)
  qed
  with assms(2) have "t \<in> set (List.map_filter (\<lambda>(n, _). find (\<lambda>t. t_title t = n) ts)
      (filter (\<lambda>(_, o'). o' = Duplicate) results))"
    by (force simp: List.map_filter_def)
  with assms(1,5) have "list_ex (\<lambda>s. \<not> ended_early fl s (t_seconds t)) ?secs"
    by (auto simp: lost_features_def Let_def filter_empty_conv)
  then obtain d n o' where "(n, o') \<in> set results" "\<not> ended_early fl d (t_seconds t)"
    "(case o' of WasEncoded s \<Rightarrow> Some s | _ \<Rightarrow> None) = Some d"
    by (auto simp: list_ex_iff in_map_filter)
  then show ?thesis by (cases o') auto
qed

lemma encode_run:
  assumes "encode tools k ts scan pr s w = (Inr results, w')"
  obtains rs where "map (\<lambda>(n, r, o'). (n, r)) rs = map (\<lambda>t. (t_title t, t_role t)) (encode_plan ts)"
    and "fatal_outcomes rs = []"
    and "lost_features (tl_fl tools) ts results = []"
    and "results = sort_key fst (map (\<lambda>(n, _, o'). (n, o')) rs)"
proof -
  from assms obtain rs w1 w2 where
    "collect_outcomes (encode_plan ts) (encode_title tools k scan pr s) w1 = (Inr rs, w2)"
    "fatal_outcomes rs = []"
    "lost_features (tl_fl tools) ts (sort_key fst (map (\<lambda>(n, _, o'). (n, o')) rs)) = []"
    "results = sort_key fst (map (\<lambda>(n, _, o'). (n, o')) rs)"
    by (auto simp: encode_def andthen_Inr_iff Let_def mark_lost_def ret_def throw_def split: if_splits)
  then show ?thesis using that [of rs] collect_outcomes_ok by blast
qed

lemma encode_results:
  assumes "encode tools k ts scan pr s w = (Inr results, w')" and "distinct (map t_title ts)"
  shows "distinct (map fst results) \<and> fst ` set results \<subseteq> t_title ` set ts"
proof -
  from assms(1) obtain rs where ids: "map (\<lambda>(n, r, o'). (n, r)) rs = map (\<lambda>t. (t_title t, t_role t)) (encode_plan ts)"
    and results: "results = sort_key fst (map (\<lambda>(n, _, o'). (n, o')) rs)" by (rule encode_run)
  have "map fst rs = map fst (map (\<lambda>(n, r, o'). (n, r)) rs)" by (simp add: comp_def case_prod_beta)
  also have "\<dots> = map t_title (encode_plan ts)" by (simp add: ids comp_def)
  finally have rs: "map fst rs = map t_title (encode_plan ts)" .
  have "mset (map t_title (encode_plan ts)) = mset (map t_title (filter (\<lambda>t. encoded (t_role t)) ts))"
    by (simp add: encode_plan_def)
  moreover have "distinct (map t_title (filter (\<lambda>t. encoded (t_role t)) ts))" using assms(2) by (rule distinct_map_filter)
  ultimately have "distinct (map fst rs)" unfolding rs by (metis mset_eq_imp_distinct_iff)
  moreover have "map fst (map (\<lambda>(n, _, o'). (n, o')) rs) = map fst rs" by (simp add: comp_def case_prod_beta)
  then have "mset (map fst results) = mset (map fst rs)"
    unfolding results mset_map mset_sort by (metis mset_map)
  moreover have "set (map fst rs) \<subseteq> t_title ` set ts" unfolding rs by (auto simp: encode_plan_def)
  ultimately show ?thesis by (metis mset_eq_imp_distinct_iff mset_eq_setD set_map)
qed

lemma encode_features:
  assumes run: "encode tools k ts scan pr s w = (Inr results, w')"
    and ts: "distinct (map t_title ts)" "t \<in> set ts" "main_or_alt (t_role t)"
  shows "(\<exists>d. (t_title t, WasEncoded d) \<in> set results)
       \<or> ((t_title t, Duplicate) \<in> set results
          \<and> (\<exists>n d. (n, WasEncoded d) \<in> set results \<and> \<not> ended_early (tl_fl tools) d (t_seconds t)))"
proof -
  from run obtain rs where
    ids: "map (\<lambda>(n, r, o'). (n, r)) rs = map (\<lambda>t. (t_title t, t_role t)) (encode_plan ts)"
    and fatal: "fatal_outcomes rs = []" and lost: "lost_features (tl_fl tools) ts results = []"
    and results: "results = sort_key fst (map (\<lambda>(n, _, o'). (n, o')) rs)"
    by (rule encode_run)
  have "t \<in> set (encode_plan ts)" using ts by (auto simp: encode_plan_def main_or_alt_def encoded_def)
  then have "(t_title t, t_role t) \<in> set (map (\<lambda>(n, r, o'). (n, r)) rs)" unfolding ids by auto
  then obtain o' where o': "(t_title t, t_role t, o') \<in> set rs" by auto
  then have mem: "(t_title t, o') \<in> set results" by (force simp: results)
  show ?thesis
  proof (cases o')
    case (OutcomeFailed why)
    with o' ts(3) have "(t_title t, why) \<in> set (fatal_outcomes rs)"
      by (force simp: fatal_outcomes_def List.map_filter_def)
    with fatal show ?thesis by simp
  next
    case Duplicate
    with mem lost_features_empty [OF lost _ ts] show ?thesis by blast
  qed (use mem in blast)
qed

text \<open>Property C16: an encode that returns has every feature. Each main title and alternate of the disc
  is encoded, or was dropped by MakeMKV as a duplicate while an encoded title has at least nine
  tenths of its runtime.\<close>

theorem encode_has_every_feature:
  assumes "encode tools k ts scan pr s w = (Inr results, w')"
    and "distinct (map t_title ts)" and "t \<in> set ts" and "main_or_alt (t_role t)"
  shows "(\<exists>d. (t_title t, WasEncoded d) \<in> set results)
       \<or> ((t_title t, Duplicate) \<in> set results
          \<and> (\<exists>n d. (n, WasEncoded d) \<in> set results \<and> \<not> ended_early (tl_fl tools) d (t_seconds t)))"
  using assms by (rule encode_features)

lemma part_path_not: "part_path (encode_path n) \<noteq> encode_path n" "encode_path n \<noteq> []"
proof -
  have "strip_suffix ''.mkv'' (encode_path n) = Some (''encodes/'' @ nat_str n)"
    by (simp add: strip_suffix_Some_iff encode_path_def)
  then have "part_path (encode_path n) = (''encodes/'' @ nat_str n) @ ''.part.mkv''" by (simp add: part_path_def)
  then show "part_path (encode_path n) \<noteq> encode_path n" by (simp add: encode_path_def)
  show "encode_path n \<noteq> []" by (simp add: encode_path_def)
qed

definition in_place :: "world \<Rightarrow> nat \<Rightarrow> bool" where
  "in_place w n \<longleftrightarrow> (\<exists>c. lookup w Work (encode_path n) = Some (File c))"

lemma rename_in_place:
  "rename Work (part_path (encode_path n)) (encode_path n) w = (Inr u, w') \<Longrightarrow> in_place w' n"
  using rename_ok [of Work "part_path (encode_path n)" "encode_path n" w u w'] part_path_not [of n]
  by (auto simp: in_place_def lookup_put)

lemma from_mkv_ok:
  "from_mkv tools k src (encode_path n) s w = (Inr d, w') \<Longrightarrow> 1 \<le> d \<and> in_place w' n"
  by (auto simp: from_mkv_def Let_def andthen_Inr_iff wrap_Inr_iff check_fail_def throw_def ret_def
      split: if_splits dest: rename_in_place)

lemma from_dvd_ok:
  "from_dvd tools k t scan (encode_path n) s w = (Inr d, w') \<Longrightarrow>
     1 \<le> d \<and> in_place w' n \<and> (main_or_alt (t_role t) \<longrightarrow> \<not> ended_early (tl_fl tools) d (t_seconds t))"
  by (auto simp: from_dvd_def Let_def andthen_Inr_iff wrap_Inr_iff check_fail_def throw_def ret_def
      split: if_splits option.splits dest: rename_in_place)

lemma remove_dir_all_in_place:
  "\<not> below p (encode_path n) \<Longrightarrow> in_place w n \<Longrightarrow> in_place (snd (remove_dir_all Work p w)) n"
proof -
  assume "\<not> below p (encode_path n)" "in_place w n"
  then obtain c where c: "map_of (w_vols w Work) (encode_path n) = Some (File c)" and keep: "\<not> below p (encode_path n)"
    by (auto simp: in_place_def lookup_def split: if_splits)
  let ?xs = "filter (\<lambda>(q, n). \<not> below p q) (w_vols w Work)"
  have "map_of ?xs (encode_path n) = Some (File c)"
    using keep c by (subst map_of_filter_key) simp
  then show "in_place (snd (remove_dir_all Work p w)) n"
    using c by (auto simp: in_place_def remove_dir_all_def io_call_def lookup_def tick_def part_path_not)
qed

lemma repair_ok:
  "repair tools k t (encode_path n) s w = (Inr d, w') \<Longrightarrow> 1 \<le> d \<and> in_place w' n"
proof -
  assume "repair tools k t (encode_path n) s w = (Inr d, w')"
  then obtain src w1 w2 where 1: "from_mkv tools k src (encode_path n) s w1 = (Inr d, w2)"
    and 2: "w' = snd (remove_dir_all Work (''repair/t'' @ nat_str (t_title t)) w2)"
    by (auto simp: repair_def Let_def andthen_Inr_iff ret_def throw_def ignore_def split: option.splits prod.splits)
  have "\<not> below (''repair/t'' @ nat_str (t_title t)) (encode_path n)"
    by (auto simp: below_def encode_path_def starts_with_iff)
  from from_mkv_ok [OF 1] remove_dir_all_in_place [OF this] show ?thesis unfolding 2 by blast
qed

lemma attempt_iff: "attempt m w = (Inr r, w') \<longleftrightarrow> m w = (r, w')"
  by (auto simp: attempt_def split: prod.splits)

lemma case_sum_iff:
  "(case r of Inl e \<Rightarrow> f e | Inr x \<Rightarrow> g x) s = y \<longleftrightarrow> (\<exists>e. r = Inl e \<and> f e s = y) \<or> (\<exists>x. r = Inr x \<and> g x s = y)"
  by (cases r) auto

text \<open>A title that this run encoded is there. Whichever way it was encoded (from the disc,
  from MakeMKV's remux, or by the repair) the outcome names a runtime of at least a second and the
  file is at its path.\<close>

theorem encoded_title_is_in_place:
  assumes "one tools k scan pr s t w = (Inr (WasEncoded d), w')"
  shows "1 \<le> d \<and> in_place w' (t_title t)"
proof (cases pr)
  case True
  with assms show ?thesis
    by (cases "t_file t")
       (auto simp: one_def Let_def andthen_Inr_iff attempt_iff case_sum_iff ret_def split: if_splits dest!: from_mkv_ok)
next
  case False
  with assms show ?thesis
    by (auto simp: one_def Let_def andthen_Inr_iff attempt_iff case_sum_iff ret_def dest!: from_dvd_ok repair_ok)
qed

section \<open>A small disc\<close>

definition sample_tools :: encode_tools where
  "sample_tools =
     \<lparr>tl_fl = id, tl_ser = (\<lambda>_. ''2''), tl_handbrake = (\<lambda>args input. (True, Some ''good'')),
      tl_duration = (\<lambda>c. if c = ''bad'' then 0 else 100), tl_mkvmerge = (\<lambda>_. Some JNull),
      tl_mkvpropedit = (\<lambda>args c. (True, c)), tl_listing = None, tl_extract = (\<lambda>_. None), tl_remux = None\<rparr>"

definition sample_feature :: title where
  "sample_feature = (read_title id JNull)\<lparr>t_title := 1, t_seconds := 100, t_role := Main\<rparr>"

definition encode_world :: "volume \<Rightarrow> world" where
  "encode_world files = \<lparr>w_vols = (\<lambda>v. case v of Work \<Rightarrow> files | _ \<Rightarrow> []), w_tick = 0, w_ok = (\<lambda>_. True),
     w_medium = (\<lambda>_ c. c)\<rparr>"

definition sample_encode :: "volume \<Rightarrow> (encode_error + (nat \<times> outcome) list) \<times> world" where
  "sample_encode files =
     encode sample_tools \<lparr>wk_dir = ''/w'', wk_master = ''/w/m''\<rparr> [sample_feature] JNull False default_settings
       (encode_world files)"

theorem encode_has_every_feature_witness:
  "\<exists>w'. sample_encode [] = (Inr [(1, WasEncoded 100)], w')
     \<and> ((\<exists>d. (1, WasEncoded d) \<in> set [(1, WasEncoded 100)])
        \<or> (\<exists>n d. (n, WasEncoded d) \<in> set [(1, WasEncoded 100)] \<and> \<not> ended_early id d 100))"
proof -
  have "fst (sample_encode []) = Inr [(1, WasEncoded 100)]" by code_simp
  then have run: "sample_encode [] = (Inr [(1, WasEncoded 100)], snd (sample_encode []))" by (metis prod.collapse)
  have t: "t_title sample_feature = 1" "t_seconds sample_feature = 100" "main_or_alt (t_role sample_feature)"
    by code_simp+
  have "tl_fl sample_tools = id" by (simp add: sample_tools_def)
  note t = t this
  from encode_has_every_feature [OF run [unfolded sample_encode_def], of sample_feature] t run show ?thesis by auto
qed

theorem encoded_title_is_in_place_witness:
  "\<exists>w'. one sample_tools \<lparr>wk_dir = ''/w'', wk_master = ''/w/m''\<rparr> JNull False default_settings sample_feature
          (encode_world [(''encodes'', Dir)]) = (Inr (WasEncoded 100), w') \<and> in_place w' 1"
proof -
  let ?run = "one sample_tools \<lparr>wk_dir = ''/w'', wk_master = ''/w/m''\<rparr> JNull False default_settings sample_feature
          (encode_world [(''encodes'', Dir)])"
  have "fst ?run = Inr (WasEncoded 100)" by code_simp
  then have run: "?run = (Inr (WasEncoded 100), snd ?run)" by (metis prod.collapse)
  have "t_title sample_feature = 1" by code_simp
  with encoded_title_is_in_place [OF run] run show ?thesis by auto
qed

text \<open>An unreadable output of an earlier run is reported as encoded and then set aside. It
  is not encoded again because the file exists, its runtime reads as 0, the sweep moves it away, and
  the run succeeds with an outcome for a file that is no longer there.\<close>

theorem unreadable_output_is_reported_encoded:
  "case sample_encode [(''encodes'', Dir), (''encodes/1.mkv'', File ''bad'')] of (r, w) \<Rightarrow>
     r = Inr [(1, WasEncoded 0)] \<and> lookup w Work ''encodes/1.mkv'' = None
     \<and> lookup w Work ''.broken-stubs/1.mkv'' = Some (File ''bad'')"
  by code_simp

end
