(* ===== verification/Inspect.thy ===== *)
theory Inspect
  imports Encode
begin

text \<open>
  \<^verbatim>\<open>apps/dvdrip/src/inspect.rs\<close>: what a disc holds. The tools are parameters (\<open>inspect_tools\<close>): what
  lsdvd, HandBrake's scan and MakeMKV's listing print (None when the tool cannot be started), the
  XML reader, \<^verbatim>\<open>serde_json\<close>'s parser and printer. Text is taken as decoded. Logs of standard error
  and log lines are left out.
\<close>

section \<open>Operations\<close>

record inspect_tools =
  it_fl :: rounding
  it_lsdvd :: "string option"
  it_xml :: "string \<Rightarrow> xml_event list option"
  it_scan :: "string option"
  it_parse :: "string \<Rightarrow> json option"
  it_info :: "string option"
  it_json :: "json \<Rightarrow> string"
  it_titles :: "title list \<Rightarrow> string"

record inspected =
  in_titles :: "title list"
  in_protected :: bool
  in_scan :: json

text \<open>\<^verbatim>\<open>tool::stdout\<close> with a log: the log's directory is made first.\<close>

definition tool_stdout :: "string \<Rightarrow> string option \<Rightarrow> string enc" where
  "tool_stdout program out =
     andthen (wrap EncIo (create_dir_all Work ''logs''))
     (\<lambda>_. case out of None \<Rightarrow> throw (ToolFailed program) | Some o' \<Rightarrow> ret o')"

fun count :: "json \<Rightarrow> nat" where
  "count JNull = 0"
| "count (JArr a) = length a"
| "count v = 1"

definition scan_json :: "(string \<Rightarrow> json option) \<Rightarrow> string \<Rightarrow> json option" where
  "scan_json parse out =
     (case split_once_str ''JSON Title Set: '' out of None \<Rightarrow> None | Some (_, rest) \<Rightarrow> parse rest)"

definition write_json :: "string \<Rightarrow> string \<Rightarrow> unit enc" where
  "write_json p c =
     andthen (wrap EncIo (overwrite Work (p @ ''.part'') c)) (\<lambda>_. wrap EncIo (rename Work (p @ ''.part'') p))"

definition max_seconds :: "mkv_title list \<Rightarrow> f64" where
  "max_seconds mkv = fold (\<lambda>t m. max m (mk_seconds t)) mkv 0"

definition main_id :: "mkv_title list \<Rightarrow> nat option" where
  "main_id mkv = map_option mk_id (find (\<lambda>t. mk_seconds t = max_seconds mkv) mkv)"

definition protected_role :: "rounding \<Rightarrow> mkv_title list \<Rightarrow> thresholds \<Rightarrow> mkv_title \<Rightarrow> role" where
  "protected_role fl mkv th t =
     (if Some (mk_id t) = main_id mkv then Main
      else if \<bar>fl (mk_seconds t - max_seconds mkv)\<bar> < fl (max_seconds mkv * fl (2 / 100)) then Alt
      else if mk_seconds t < th_extra th then Short else Extra)"

text \<open>The title number is a \<^verbatim>\<open>u32\<close> sum.\<close>

definition title_number :: "nat \<Rightarrow> nat" where
  "title_number i = nat ((int i + 1) mod 2 ^ 32)"

lemma title_number: "title_number i = (i + 1) mod 2 ^ 32"
  by (simp add: title_number_def nat_mod_distrib nat_add_distrib)

definition protected_titles :: "rounding \<Rightarrow> mkv_title list \<Rightarrow> thresholds \<Rightarrow> title list" where
  "protected_titles fl mkv th =
     map (\<lambda>t. \<lparr>t_title = title_number (mk_id t), t_seconds = mk_seconds t, t_vts = 0, t_ttn = 0, t_aspect = JStr [],
               t_fps = 0, t_angles = 0, t_chapters = [], t_cells = [], t_audio = [], t_subs = [],
               t_role = protected_role fl mkv th t, t_part_of = None, t_playall_of = None,
               t_mkv = Some (mk_id t), t_file = Some (mk_file t)\<rparr>) mkv"

definition inspect_protected :: "inspect_tools \<Rightarrow> thresholds \<Rightarrow> inspected enc" where
  "inspect_protected tools th =
     andthen (tool_stdout ''makemkvcon'' (it_info tools))
     (\<lambda>out. andthen (wrap EncIo (overwrite Work ''logs/makemkv-info.log'' out))
     (\<lambda>_. let mkv = titles (it_fl tools) out in
       if mkv = [] then throw NoTitles
       else let ts = protected_titles (it_fl tools) mkv th
            in andthen (write_json ''titles.json'' (it_titles tools ts))
               (\<lambda>_. ret \<lparr>in_titles = ts, in_protected = True, in_scan = JNull\<rparr>)))"

definition readable_disc :: "inspect_tools \<Rightarrow> string \<Rightarrow> json option" where
  "readable_disc tools raw =
     (case to_json (it_xml tools (sanitize raw)) of
        Inl e \<Rightarrow> None
      | Inr d \<Rightarrow> let n = count (jget (jget d ''lsdvd'') ''track'') in if n < 90 \<and> 0 < n then Some d else None)"

definition main_pick :: "inspect_tools \<Rightarrow> nat option \<Rightarrow> json \<Rightarrow> json \<Rightarrow> nat" where
  "main_pick tools main_override scan d =
     (case main_override of
        Some m \<Rightarrow> m
      | None \<Rightarrow> (case main_feature (it_fl tools) scan d of Some m \<Rightarrow> m | None \<Rightarrow> 0))"

definition inspect :: "inspect_tools \<Rightarrow> nat option \<Rightarrow> bool \<Rightarrow> thresholds \<Rightarrow> inspected enc" where
  "inspect tools main_override force_protected th =
     (if force_protected then inspect_protected tools th
      else andthen (tool_stdout ''lsdvd'' (it_lsdvd tools))
      (\<lambda>raw. case readable_disc tools raw of
         None \<Rightarrow> andthen (ignore (overwrite Work ''disc.lsdvd-failed.xml'' raw)) (\<lambda>_. inspect_protected tools th)
       | Some d \<Rightarrow>
           andthen (tool_stdout ''HandBrakeCLI'' (it_scan tools))
           (\<lambda>out. case scan_json (it_parse tools) out of
              None \<Rightarrow> throw NoScan
            | Some scan \<Rightarrow>
                let ts = classify (it_fl tools) d (main_pick tools main_override scan d) th
                in andthen (write_json ''disc.json'' (it_json tools d))
                   (\<lambda>_. andthen (write_json ''scan.json'' (it_json tools scan))
                   (\<lambda>_. andthen (write_json ''titles.json'' (it_titles tools ts))
                   (\<lambda>_. ret \<lparr>in_titles = ts, in_protected = False, in_scan = scan\<rparr>))))))"

section \<open>Protected discs\<close>

lemma fold_max:
  "(\<forall>t \<in> set mkv. mk_seconds t \<le> fold (\<lambda>t m. max m (mk_seconds t)) mkv m0)
   \<and> m0 \<le> fold (\<lambda>t m. max m (mk_seconds t)) mkv m0
   \<and> (fold (\<lambda>t m. max m (mk_seconds t)) mkv m0 = m0
      \<or> (\<exists>t \<in> set mkv. mk_seconds t = fold (\<lambda>t m. max m (mk_seconds t)) mkv m0))"
proof (induction mkv arbitrary: m0)
  case (Cons t mkv)
  from Cons.IH [of "max m0 (mk_seconds t)"] show ?case by (auto simp: max_def split: if_splits)
qed simp

lemma max_seconds_ge: "t \<in> set mkv \<Longrightarrow> mk_seconds t \<le> max_seconds mkv"
  using fold_max [of mkv 0] by (simp add: max_seconds_def)

lemma max_seconds_in: "max_seconds mkv = 0 \<or> (\<exists>t \<in> set mkv. mk_seconds t = max_seconds mkv)"
  using fold_max [of mkv 0] unfolding max_seconds_def by blast

lemma main_id_exists:
  assumes "mkv \<noteq> []" and "\<forall>t \<in> set mkv. 0 \<le> mk_seconds t"
  shows "\<exists>t \<in> set mkv. main_id mkv = Some (mk_id t) \<and> mk_seconds t = max_seconds mkv"
proof -
  from assms(1) obtain a where "a \<in> set mkv" by (cases mkv) auto
  then have "\<exists>t \<in> set mkv. mk_seconds t = max_seconds mkv"
    using max_seconds_in [of mkv] max_seconds_ge [of a mkv] assms(2) order_antisym by fastforce
  then have "find (\<lambda>t. mk_seconds t = max_seconds mkv) mkv \<noteq> None" by (auto simp: find_None_iff)
  then obtain t where "find (\<lambda>t. mk_seconds t = max_seconds mkv) mkv = Some t" by blast
  moreover from this have "t \<in> set mkv" "mk_seconds t = max_seconds mkv" by (auto simp: find_Some_iff)
  ultimately show ?thesis by (auto simp: main_id_def)
qed

lemma title_line_cases:
  "title_line fl l ts = ts
   \<or> (\<exists>x i f. parse_uint 32 x = Some i \<and> (\<forall>t. mk_id (f t) = mk_id t) \<and> title_line fl l ts = upd_title i f ts)"
proof (cases "strip_prefix ''TINFO:'' l")
  case (Some rest)
  show ?thesis
  proof (cases "parse_uint 32 (hd (robot_fields rest))")
    case None
    with Some show ?thesis by (simp add: title_line_def Let_def)
  next
    case (Some i)
    let ?f = "robot_fields rest" let ?v = "join '','' (drop 3 ?f)"
    define u where "u = (\<lambda>t. if ?f ! 1 = ''9'' then (t::mkv_title)\<lparr>mk_seconds := (case hms fl ?v of Some s \<Rightarrow> s | None \<Rightarrow> 0)\<rparr>
                     else if ?f ! 1 = ''27'' then t\<lparr>mk_file := ?v\<rparr> else t)"
    have u: "\<forall>t. mk_id (u t) = mk_id t" by (simp add: u_def)
    have line: "title_line fl l ts = (if length ?f < 3 then ts else upd_title i u ts)"
      using \<open>strip_prefix ''TINFO:'' l = Some rest\<close> Some by (simp only: title_line_def Let_def option.case u_def)
    show ?thesis
    proof (cases "length ?f < 3")
      case False
      with u Some line have "parse_uint 32 (hd ?f) = Some i \<and> (\<forall>t. mk_id (u t) = mk_id t) \<and> title_line fl l ts = upd_title i u ts"
        by simp
      then show ?thesis by blast
    qed (use line in simp)
  qed
qed (simp add: title_line_def)

lemma titles_ids_bound: "\<forall>t \<in> set (titles fl info). mk_id t < 2 ^ 32"
proof -
  have line: "\<forall>n \<in> mk_id ` set (title_line fl l ts). n < 2 ^ 32" if "\<forall>n \<in> mk_id ` set ts. n < 2 ^ 32" for l ts
    using title_line_cases [of fl l ts]
  proof
    assume "\<exists>x i f. parse_uint 32 x = Some i \<and> (\<forall>t. mk_id (f t) = mk_id t) \<and> title_line fl l ts = upd_title i f ts"
    then obtain x i f where i: "parse_uint 32 x = Some i" and f: "\<And>t. mk_id (f t) = mk_id t"
      and line: "title_line fl l ts = upd_title i f ts" by blast
    show ?thesis unfolding line upd_title_set [OF f] using parse_uint_bound [OF i] that by simp
  qed (use that in simp)
  have "\<forall>n \<in> mk_id ` set ts. n < 2 ^ 32 \<Longrightarrow> \<forall>n \<in> mk_id ` set (fold (title_line fl) ls ts). n < 2 ^ 32" for ls ts
  proof (induction ls arbitrary: ts)
    case (Cons l ls)
    from Cons.IH [OF line [OF Cons.prems]] show ?case by (simp only: fold_simps comp_apply)
  qed (simp only: fold_simps id_apply)
  from this [of "[]"] show ?thesis by (simp add: titles_def)
qed

lemma protected_titles_distinct:
  assumes "distinct (map mk_id mkv)" and "\<forall>t \<in> set mkv. mk_id t < 2 ^ 32"
  shows "distinct (map t_title (protected_titles fl mkv th))"
proof -
  have "inj_on (\<lambda>t. title_number (mk_id t)) (set mkv)"
  proof (rule inj_onI)
    fix t u assume tu: "t \<in> set mkv" "u \<in> set mkv" "title_number (mk_id t) = title_number (mk_id u)"
    then have "mk_id t mod 2 ^ 32 = mk_id u mod 2 ^ 32" by (simp add: title_number mod_Suc split: if_splits)
    with assms tu show "t = u" by (simp add: distinct_map inj_on_def)
  qed
  moreover from assms(1) have "distinct mkv" by (simp add: distinct_map)
  moreover have "map t_title (protected_titles fl mkv th) = map (\<lambda>t. title_number (mk_id t)) mkv"
    by (simp add: protected_titles_def)
  ultimately show ?thesis by (simp add: distinct_map)
qed

lemma filter_eq_single: "distinct xs \<Longrightarrow> x \<in> set xs \<Longrightarrow> filter (\<lambda>y. y = x) xs = [x]"
  by (induction xs) (auto simp: filter_empty_conv)

text \<open>Of the titles of a copy-protected disc one is the main feature: the first of those
  with the longest runtime. The titles are numbered apart, whatever MakeMKV printed.\<close>

theorem protected_titles_one_main:
  assumes "titles fl info \<noteq> []" and "\<forall>t \<in> set (titles fl info). 0 \<le> mk_seconds t"
  shows "distinct (map t_title (protected_titles fl (titles fl info) th))
    \<and> (\<exists>m. filter (\<lambda>t. t_role t = Main) (protected_titles fl (titles fl info) th) = [m]
         \<and> (\<forall>t \<in> set (protected_titles fl (titles fl info) th). t_seconds t \<le> t_seconds m))"
proof -
  let ?mkv = "titles fl info"
  have dist: "distinct (map mk_id ?mkv)" using titles_sorted [of fl info] by (simp add: strict_sorted_iff)
  obtain m where m: "m \<in> set ?mkv" "main_id ?mkv = Some (mk_id m)" "mk_seconds m = max_seconds ?mkv"
    using main_id_exists [OF assms] by blast
  have role: "protected_role fl ?mkv th t = Main \<longleftrightarrow> mk_id t = mk_id m" for t
    using m(2) by (simp add: protected_role_def)
  have "filter (\<lambda>t. mk_id t = mk_id m) ?mkv = [m]"
  proof -
    from dist have "distinct ?mkv" "inj_on mk_id (set ?mkv)" by (simp_all add: distinct_map)
    then have "filter (\<lambda>t. mk_id t = mk_id m) ?mkv = filter (\<lambda>t. t = m) ?mkv"
      using m(1) by (intro filter_cong) (auto dest: inj_onD)
    also from \<open>distinct ?mkv\<close> m(1) have "\<dots> = [m]" by (rule filter_eq_single)
    finally show ?thesis .
  qed
  then show ?thesis
    using protected_titles_distinct [OF dist titles_ids_bound] max_seconds_ge [of _ ?mkv] m(3)
    by (auto simp: protected_titles_def filter_map comp_def role)
qed

theorem protected_titles_one_main_witness:
  "\<exists>m. filter (\<lambda>t. t_role t = Main) (protected_titles id (titles id sample_info) default_thresholds) = [m]"
proof -
  have "titles id sample_info \<noteq> []" "\<forall>t \<in> set (titles id sample_info). 0 \<le> mk_seconds t" by code_simp+
  from protected_titles_one_main [OF this] show ?thesis by blast
qed

section \<open>What an inspection returns\<close>

definition tracks_distinct :: "inspect_tools \<Rightarrow> bool" where
  "tracks_distinct tools \<longleftrightarrow>
     (case it_lsdvd tools of
        None \<Rightarrow> True
      | Some raw \<Rightarrow>
          (case readable_disc tools raw of
             None \<Rightarrow> True
           | Some d \<Rightarrow> distinct (map t_title (read_titles (it_fl tools) d))))"

lemma tool_stdout_ok: "tool_stdout p out w = (Inr x, w') \<Longrightarrow> out = Some x"
  by (auto simp: tool_stdout_def andthen_Inr_iff throw_def ret_def split: option.splits)

lemma inspect_protected_ok:
  "inspect_protected tools th w = (Inr ins, w') \<Longrightarrow>
     distinct (map t_title (in_titles ins)) \<and> in_protected ins \<and> in_titles ins \<noteq> []"
proof -
  assume "inspect_protected tools th w = (Inr ins, w')"
  then obtain out where "titles (it_fl tools) out \<noteq> []" "in_protected ins"
    and ins: "in_titles ins = protected_titles (it_fl tools) (titles (it_fl tools) out) th"
    by (auto simp: inspect_protected_def Let_def andthen_Inr_iff throw_def ret_def split: if_splits)
  moreover have "distinct (map mk_id (titles (it_fl tools) out))"
    using titles_sorted [of "it_fl tools" out] by (simp add: strict_sorted_iff)
  ultimately show ?thesis
    using protected_titles_distinct [OF _ titles_ids_bound] by (simp add: protected_titles_def)
qed

lemma inspect_ok:
  assumes "inspect tools main_override forced th w = (Inr ins, w')" and "tracks_distinct tools"
  shows "distinct (map t_title (in_titles ins))"
proof (cases forced)
  case True
  with assms(1) inspect_protected_ok show ?thesis by (simp add: inspect_def)
next
  case False
  then obtain raw w1 where raw: "it_lsdvd tools = Some raw"
    and rest: "(case readable_disc tools raw of
         None \<Rightarrow> andthen (ignore (overwrite Work ''disc.lsdvd-failed.xml'' raw)) (\<lambda>_. inspect_protected tools th)
       | Some d \<Rightarrow>
           andthen (tool_stdout ''HandBrakeCLI'' (it_scan tools))
           (\<lambda>out. case scan_json (it_parse tools) out of
              None \<Rightarrow> throw NoScan
            | Some scan \<Rightarrow>
                let ts = classify (it_fl tools) d (main_pick tools main_override scan d) th
                in andthen (write_json ''disc.json'' (it_json tools d))
                   (\<lambda>_. andthen (write_json ''scan.json'' (it_json tools scan))
                   (\<lambda>_. andthen (write_json ''titles.json'' (it_titles tools ts))
                   (\<lambda>_. ret \<lparr>in_titles = ts, in_protected = False, in_scan = scan\<rparr>))))) w1 = (Inr ins, w')"
    using assms(1) by (auto simp: inspect_def andthen_Inr_iff dest: tool_stdout_ok)
  show ?thesis
  proof (cases "readable_disc tools raw")
    case None
    with rest inspect_protected_ok show ?thesis by (auto simp: andthen_Inr_iff)
  next
    case (Some d)
    with rest obtain scan where "in_titles ins = classify (it_fl tools) d (main_pick tools main_override scan d) th"
      by (auto simp: andthen_Inr_iff Let_def throw_def ret_def split: option.splits)
    with assms(2) Some raw show ?thesis by (simp add: classify_titles tracks_distinct_def)
  qed
qed

end
