(* ===== verification/Damage.thy ===== *)
theory Damage
  imports Files Layout
begin

text \<open>
  \<^verbatim>\<open>apps/dvdrip/src/damage.rs\<close>: decoder errors grouped into glitches, the chapters that mark them,
  and the note beside the main feature. The tools are parameters of \<open>mark\<close>: the lines ffmpeg prints
  for a title, the chapters mkvextract reads from a file, what mkvpropedit makes of a file, and the
  rendering of \<^verbatim>\<open>damage.json\<close>.
\<close>

section \<open>Operations\<close>

definition WARN :: string where
  "WARN = [CHR 0xE2, CHR 0x9A, CHR 0xA0] @ '' Disc damage''"

definition MARKER :: string where
  "MARKER = WARN @ '' (brief glitch)''"

record glitch =
  g_title :: nat
  g_start :: int
  g_end :: int
  g_errors :: nat

definition is_decoder :: "string \<Rightarrow> bool" where
  "is_decoder l \<longleftrightarrow> list_ex (starts_with l)
     [''[mpeg2video @'', ''[mpegvideo @'', ''[ac3 @'', ''[eac3 @'', ''[dca @'', ''[mp2 @'']"

text \<open>The last glitch is grown when the error comes within ten seconds of its end (\<^verbatim>\<open>saturating_sub\<close>).\<close>

definition add_error :: "int \<Rightarrow> (int \<times> int \<times> nat) list \<Rightarrow> (int \<times> int \<times> nat) list" where
  "add_error now out =
     (if out \<noteq> [] \<and> max 0 (now - fst (snd (last out))) \<le> 10
      then butlast out @ [(fst (last out), now, Suc (snd (snd (last out))))]
      else out @ [(now, now, 1)])"

fun glitches_loop :: "int \<Rightarrow> (int \<times> int \<times> nat) list \<Rightarrow> string list \<Rightarrow> (int \<times> int \<times> nat) list" where
  "glitches_loop now out [] = out"
| "glitches_loop now out (l # ls) =
     (case strip_prefix ''out_time_us='' l of
        Some us \<Rightarrow>
          glitches_loop (case parse_unsigned 64 (trim us) of Some n \<Rightarrow> n div 1000000 | None \<Rightarrow> now) out ls
      | None \<Rightarrow> glitches_loop now (if is_decoder l then add_error now out else out) ls)"

definition glitches :: "string list \<Rightarrow> (int \<times> int \<times> nat) list" where
  "glitches ls = glitches_loop 0 [] ls"

definition ts :: "int \<Rightarrow> string" where
  "ts s = int_str (s div 3600) @ '':'' @ pad0 2 (nat (s mod 3600 div 60)) @ '':'' @ pad0 2 (nat (s mod 60))"

text \<open>The chapter file: times and names, and its rewriting.\<close>

fun chapter_fields :: "string list \<Rightarrow> string list \<Rightarrow> string list \<Rightarrow> string list \<times> string list" where
  "chapter_fields tms names [] = (tms, names)"
| "chapter_fields tms names (l # ls) =
     (case split_once (CHR ''='') l of
        None \<Rightarrow> chapter_fields tms names ls
      | Some (k, v) \<Rightarrow>
          if ends_with k ''NAME'' then chapter_fields tms (names @ [v]) ls
          else if starts_with k ''CHAPTER'' then chapter_fields (tms @ [v]) names ls
          else chapter_fields tms names ls)"

definition parse_chapters :: "string \<Rightarrow> (string \<times> string) list" where
  "parse_chapters existing = (case chapter_fields [] [] (lines existing) of (tms, names) \<Rightarrow> zip tms names)"

definition chapter_time :: "int \<Rightarrow> string" where
  "chapter_time s = pad0 2 (nat (s div 3600)) @ '':'' @ pad0 2 (nat (s mod 3600 div 60)) @ '':''
     @ pad0 2 (nat (s mod 60)) @ ''.000''"

fun render_chapters :: "nat \<Rightarrow> (string \<times> string) list \<Rightarrow> string" where
  "render_chapters i [] = []"
| "render_chapters i ((t, n) # cs) =
     ''CHAPTER'' @ pad0 2 i @ ''='' @ t @ [newline] @ ''CHAPTER'' @ pad0 2 i @ ''NAME='' @ n @ [newline]
     @ render_chapters (Suc i) cs"

definition chapters :: "string \<Rightarrow> int list \<Rightarrow> string" where
  "chapters existing starts =
     render_chapters 1 (sort (filter (\<lambda>(t, n). \<not> starts_with n WARN) (parse_chapters existing)
                              @ map (\<lambda>s. (chapter_time s, MARKER)) starts))"

definition nfo :: "int list \<Rightarrow> string option" where
  "nfo starts =
     (if starts = [] then None
      else Some (''<?xml version='' @ [quote] @ ''1.0'' @ [quote] @ '' encoding='' @ [quote] @ ''utf-8'' @ [quote]
         @ '' standalone='' @ [quote] @ ''yes'' @ [quote] @ ''?>'' @ [newline] @ ''<movie>'' @ [newline]
         @ ''  <tagline>Note: this copy has a brief glitch from disc damage at '' @ join '', '' (map ts starts)
         @ '' (marked as a chapter)</tagline>'' @ [newline] @ ''  <tag>Disc damage</tag>'' @ [newline]
         @ ''</movie>'' @ [newline]))"

section \<open>Marking the encodes\<close>

record damage_tools =
  scan_lines :: "nat \<Rightarrow> string list option"
  mkvextract :: "string \<Rightarrow> string option"
  mkvpropedit :: "string \<Rightarrow> string \<Rightarrow> string option"
  glitches_json :: "glitch list \<Rightarrow> string"

datatype damage_error = DamageIo io_error | ScanFailed nat | EditFailed nat

definition file_content :: "world \<Rightarrow> vol \<Rightarrow> string \<Rightarrow> string" where
  "file_content w v p = (case lookup w v p of Some (File c) \<Rightarrow> c | _ \<Rightarrow> [])"

definition mark_title ::
  "damage_tools \<Rightarrow> nat \<Rightarrow> title \<Rightarrow> glitch list \<Rightarrow> (damage_error, glitch list) io" where
  "mark_title tools max_glitches t found =
     andthen (exists_path Work (encode_path (t_title t)))
       (\<lambda>there. if \<not> there then ret found else
          case scan_lines tools (t_title t) of
            None \<Rightarrow> throw (ScanFailed (t_title t))
          | Some ls \<Rightarrow>
              let g = glitches ls in
              if length g > max_glitches then ret found else
              andthen (gets (\<lambda>w. case mkvextract tools (file_content w Work (encode_path (t_title t))) of
                                   Some c \<Rightarrow> c | None \<Rightarrow> []))
                (\<lambda>existing. if g = [] \<and> \<not> contains existing WARN then ret found else
                   let chap = ''logs/chapters-t'' @ nat_str (t_title t) @ ''.txt'';
                       text = chapters existing (map fst g) in
                   andthen (wrap DamageIo (overwrite Work chap text))
                     (\<lambda>_. andthen (gets (\<lambda>w. mkvpropedit tools text (file_content w Work (encode_path (t_title t)))))
                       (\<lambda>r. case r of
                              None \<Rightarrow> throw (EditFailed (t_title t))
                            | Some c \<Rightarrow>
                                andthen (wrap DamageIo (write_file Work (encode_path (t_title t)) c))
                                  (\<lambda>_. ret (found @ map (\<lambda>(s, e, n). \<lparr>g_title = t_title t, g_start = s,
                                                              g_end = e, g_errors = n\<rparr>) g))))))"

definition mark ::
  "damage_tools \<Rightarrow> title list \<Rightarrow> nat \<Rightarrow> (damage_error, glitch list) io" where
  "mark tools titles max_glitches =
     andthen (fold_sem (filter (\<lambda>t. encoded (t_role t)) titles) (mark_title tools max_glitches) [])
       (\<lambda>found. andthen (wrap DamageIo (overwrite Work ''damage.json'' (glitches_json tools found)))
          (\<lambda>_. ret found))"

section \<open>Glitches\<close>

lemma glitches_loop_count:
  "sum_list (map (snd \<circ> snd) (glitches_loop now out ls)) =
     sum_list (map (snd \<circ> snd) out)
     + length (filter (\<lambda>l. strip_prefix ''out_time_us='' l = None \<and> is_decoder l) ls)"
proof (induction now out ls rule: glitches_loop.induct)
  case (2 now out l ls)
  have "sum_list (map (snd \<circ> snd) (add_error now out)) = Suc (sum_list (map (snd \<circ> snd) out))"
  proof (cases "out = []")
    case False
    then obtain gs x where "out = gs @ [x]" by (metis append_butlast_last_id)
    then show ?thesis by (simp add: add_error_def)
  qed (simp add: add_error_def)
  with 2 show ?case by (auto simp: comp_def split: option.splits)
qed simp

text \<open>Glitches in order: each ends no earlier than it starts, at most \<open>now\<close>, and more than ten seconds
  lie between one and the next.\<close>

fun separated :: "(int \<times> int \<times> nat) list \<Rightarrow> bool" where
  "separated ((s, e, n) # (s', e', n') # gs) \<longleftrightarrow>
     s \<le> e \<and> 0 < n \<and> e + 10 < s' \<and> separated ((s', e', n') # gs)"
| "separated [(s, e, n)] \<longleftrightarrow> s \<le> e \<and> 0 < n"
| "separated [] \<longleftrightarrow> True"

fun clock_runs :: "int \<Rightarrow> string list \<Rightarrow> bool" where
  "clock_runs now [] \<longleftrightarrow> True"
| "clock_runs now (l # ls) \<longleftrightarrow>
     (case strip_prefix ''out_time_us='' l of
        Some us \<Rightarrow> (case parse_unsigned 64 (trim us) of
                      Some n \<Rightarrow> now \<le> n div 1000000 \<and> clock_runs (n div 1000000) ls
                    | None \<Rightarrow> clock_runs now ls)
      | None \<Rightarrow> clock_runs now ls)"

lemma separated_snoc:
  "separated (gs @ [(s, e, n)]) \<longleftrightarrow>
     separated gs \<and> s \<le> e \<and> 0 < n \<and> (gs \<noteq> [] \<longrightarrow> fst (snd (last gs)) + 10 < s)"
  by (induction gs rule: separated.induct) auto

lemma add_error_separated:
  assumes "separated out" and "out \<noteq> [] \<Longrightarrow> fst (snd (last out)) \<le> now"
  shows "separated (add_error now out) \<and> add_error now out \<noteq> [] \<and> fst (snd (last (add_error now out))) \<le> now"
proof (cases "out = []")
  case False
  then obtain gs s e n where out: "out = gs @ [(s, e, n)]" by (metis append_butlast_last_id prod.exhaust)
  with assms separated_snoc [of "gs @ [(s, e, n)]" now now 1] show ?thesis
    by (auto simp: add_error_def separated_snoc)
qed (simp add: add_error_def)

lemma glitches_loop_separated:
  "separated out \<Longrightarrow> (out \<noteq> [] \<Longrightarrow> fst (snd (last out)) \<le> now) \<Longrightarrow> clock_runs now ls \<Longrightarrow>
   separated (glitches_loop now out ls)"
proof (induction now out ls rule: glitches_loop.induct)
  case (2 now out l ls)
  show ?case
  proof (cases "strip_prefix ''out_time_us='' l")
    case None
    with 2 add_error_separated [of out now] show ?thesis by auto
  next
    case (Some us)
    with 2 show ?thesis by (fastforce split: option.splits)
  qed
qed simp

text \<open>Every decoder error ffmpeg reports is counted in exactly one glitch, and while the
  clock of the scan runs forward the glitches are disjoint, in order and more than ten seconds apart.\<close>

lemma glitches_partition_errors:
  "sum_list (map (snd \<circ> snd) (glitches ls)) =
     length (filter (\<lambda>l. strip_prefix ''out_time_us='' l = None \<and> is_decoder l) ls)
   \<and> (clock_runs 0 ls \<longrightarrow> separated (glitches ls))"
  using glitches_loop_count [of 0 "[]" ls] glitches_loop_separated [of "[]" 0 ls]
  by (simp add: glitches_def)

lemma glitches_partition_errors_witness:
  "clock_runs 0 [''out_time_us=1000000'', ''[mpeg2video @ 0x1] ac-tex damaged'', ''out_time_us=5000000'',
      ''[ac3 @ 0x2] error'', ''out_time_us=60000000'', ''[mpeg2video @ 0x1] x'']
   \<and> separated (glitches [''out_time_us=1000000'', ''[mpeg2video @ 0x1] ac-tex damaged'', ''out_time_us=5000000'',
      ''[ac3 @ 0x2] error'', ''out_time_us=60000000'', ''[mpeg2video @ 0x1] x''])"
proof -
  have "clock_runs 0 [''out_time_us=1000000'', ''[mpeg2video @ 0x1] ac-tex damaged'', ''out_time_us=5000000'',
      ''[ac3 @ 0x2] error'', ''out_time_us=60000000'', ''[mpeg2video @ 0x1] x'']" by code_simp
  with glitches_partition_errors show ?thesis by blast
qed

section \<open>Chapters\<close>

lemma split_char_line: "c \<notin> set l \<Longrightarrow> split_char c (l @ c # r) = l # split_char c r"
  by (induction l) auto

definition plain :: "string \<Rightarrow> bool" where
  "plain s \<longleftrightarrow> newline \<notin> set s \<and> carriage \<notin> set s"

lemma split_char_lines:
  "list_all plain ls \<Longrightarrow> split_char newline (concat (map (\<lambda>l. l @ [newline]) ls)) = ls @ [[]]"
  by (induction ls) (auto simp: plain_def split_char_line)

lemma plain_no_cr: "plain l \<Longrightarrow> (case strip_suffix [carriage] l of Some r \<Rightarrow> r | None \<Rightarrow> l) = l"
  by (auto simp: plain_def strip_suffix_Some_iff split: option.split)

lemma lines_of_lines: "list_all plain ls \<Longrightarrow> lines (concat (map (\<lambda>l. l @ [newline]) ls)) = ls"
  by (simp add: lines_def split_char_lines Let_def)
     (auto intro!: map_idI simp: plain_no_cr list_all_iff)

lemma digit_plain: "is_digit c \<Longrightarrow> c \<noteq> newline \<and> c \<noteq> carriage \<and> c \<noteq> CHR ''='' \<and> c \<noteq> CHR ''E''"
  by (auto simp: is_digit_def newline_def carriage_def)

lemma pad0_digits: "c \<in> set (pad0 w n) \<Longrightarrow> is_digit c"
  by (auto simp: pad0_def is_digit_nat_str) (simp add: is_digit_def)

lemma pad0_plain: "plain (pad0 w n)" "CHR ''='' \<notin> set (pad0 w n)" "CHR ''E'' \<notin> set (pad0 w n)"
  using pad0_digits digit_plain unfolding plain_def by blast+

lemma plain_append [simp]: "plain (a @ b) \<longleftrightarrow> plain a \<and> plain b"
  by (auto simp: plain_def)

lemma plain_Cons [simp]: "plain (c # s) \<longleftrightarrow> c \<noteq> newline \<and> c \<noteq> carriage \<and> plain s"
  by (auto simp: plain_def)

lemma plain_Nil [simp]: "plain []"
  by (simp add: plain_def)

fun chapter_lines :: "nat \<Rightarrow> (string \<times> string) list \<Rightarrow> string list" where
  "chapter_lines i [] = []"
| "chapter_lines i ((t, n) # cs) =
     (''CHAPTER'' @ pad0 2 i @ ''='' @ t) # (''CHAPTER'' @ pad0 2 i @ ''NAME='' @ n) # chapter_lines (Suc i) cs"

lemma render_chapters_lines: "render_chapters i cs = concat (map (\<lambda>l. l @ [newline]) (chapter_lines i cs))"
  by (induction i cs rule: render_chapters.induct) simp_all

lemma chapter_lines_plain:
  "list_all (\<lambda>(t, n). plain t \<and> plain n) cs \<Longrightarrow> list_all plain (chapter_lines i cs)"
  by (induction i cs rule: chapter_lines.induct) (auto simp: pad0_plain newline_def carriage_def)

lemma pad0_not_Nil: "pad0 w n \<noteq> []"
  by (simp add: pad0_def)

lemma split_time_line: "split_once (CHR ''='') (''CHAPTER'' @ pad0 2 i @ ''='' @ t) = Some (''CHAPTER'' @ pad0 2 i, t)"
  using split_once_append [of "CHR ''=''" "''CHAPTER'' @ pad0 2 i" t] pad0_plain(2) by simp

lemma split_name_line:
  "split_once (CHR ''='') (''CHAPTER'' @ pad0 2 i @ ''NAME='' @ n) = Some (''CHAPTER'' @ pad0 2 i @ ''NAME'', n)"
  using split_once_append [of "CHR ''=''" "''CHAPTER'' @ pad0 2 i @ ''NAME''" n] pad0_plain(2) by simp

lemma time_key: "\<not> ends_with (''CHAPTER'' @ pad0 2 i) ''NAME''"
proof
  assume "ends_with (''CHAPTER'' @ pad0 2 i) ''NAME''"
  then obtain r where "''CHAPTER'' @ pad0 2 i = r @ ''NAME''" by (auto simp: ends_with_iff)
  then have "last (''CHAPTER'' @ pad0 2 i) = last (r @ ''NAME'')" by simp
  then have "last (pad0 2 i) = CHR ''E''" using pad0_not_Nil by simp
  with pad0_plain(3) show False using pad0_not_Nil by (metis last_in_set)
qed

lemma chapter_fields_lines:
  "chapter_fields tms names (chapter_lines i cs) = (tms @ map fst cs, names @ map snd cs)"
proof (induction i cs arbitrary: tms names rule: chapter_lines.induct)
  case (2 i t n cs)
  have "ends_with (''CHAPTER'' @ pad0 2 i @ ''NAME'') ''NAME''"
    using ends_with_append [of "''CHAPTER'' @ pad0 2 i" "''NAME''"] by simp
  moreover have "starts_with (''CHAPTER'' @ pad0 2 i) ''CHAPTER''" by (simp add: starts_with_iff)
  ultimately show ?case
    using 2 by (simp del: append_Cons add: split_time_line split_name_line time_key)
qed simp

lemma parse_render:
  "list_all (\<lambda>(t, n). plain t \<and> plain n) cs \<Longrightarrow> parse_chapters (render_chapters i cs) = cs"
  by (simp add: parse_chapters_def render_chapters_lines lines_of_lines chapter_lines_plain
      chapter_fields_lines zip_map_fst_snd)

lemma split_on_plain: "carriage \<notin> set s \<Longrightarrow> l \<in> set (split_char newline s) \<Longrightarrow> plain l"
  unfolding plain_def using split_on_pieces [of l "\<lambda>x. x = newline" s] by blast

lemma lines_plain:
  assumes cr: "carriage \<notin> set s" and l: "l \<in> set (lines s)"
  shows "plain l"
proof -
  let ?ps = "split_char newline s"
  let ?cut = "\<lambda>l. case strip_suffix [carriage] l of Some r \<Rightarrow> r | None \<Rightarrow> l"
  have sub: "set (if last xs = [] then butlast xs else xs) \<subseteq> set xs" for xs :: "string list"
    by (auto dest: in_set_butlastD)
  have "l \<in> ?cut ` set (if last ?ps = [] then butlast ?ps else ?ps)"
    using l unfolding lines_def Let_def set_map .
  then obtain m where m: "l = ?cut m" "m \<in> set (if last ?ps = [] then butlast ?ps else ?ps)"
    by (rule imageE)
  from split_on_plain [OF cr subsetD [OF sub m(2)]] have "plain m" .
  with plain_no_cr [OF this] m(1) show ?thesis by simp
qed

lemma chapter_fields_plain:
  "list_all plain ls \<Longrightarrow> list_all plain tms \<Longrightarrow> list_all plain names \<Longrightarrow>
   chapter_fields tms names ls = (tms', names') \<Longrightarrow> list_all plain tms' \<and> list_all plain names'"
  by (induction tms names ls rule: chapter_fields.induct)
     (auto split: option.splits if_splits dest!: split_once_SomeD)

lemma parse_chapters_plain:
  assumes "carriage \<notin> set s"
  shows "list_all (\<lambda>(t, n). plain t \<and> plain n) (parse_chapters s)"
proof -
  obtain tms names where f: "chapter_fields [] [] (lines s) = (tms, names)" by fastforce
  have "list_all plain (lines s)" using lines_plain [OF assms] by (simp add: list_all_iff)
  from chapter_fields_plain [OF this _ _ f] have "list_all plain tms" "list_all plain names" by simp_all
  with f show ?thesis
    by (auto simp: parse_chapters_def list_all_iff dest: set_zip_leftD set_zip_rightD)
qed

lemma marker_warn: "starts_with MARKER WARN"
  by (simp add: MARKER_def starts_with_iff)

lemma marks_plain: "plain (chapter_time s)" "plain MARKER"
  by (simp_all add: chapter_time_def pad0_plain, simp_all add: MARKER_def WARN_def newline_def carriage_def)

text \<open>Property C33: the rewritten chapter file reads back as the old chapters without their old marks
  and one mark for each glitch, sorted; so marking again with the same glitches changes nothing.\<close>

theorem chapters_roundtrip:
  assumes "carriage \<notin> set existing"
  shows "mset (parse_chapters (chapters existing starts)) =
           mset (filter (\<lambda>(t, n). \<not> starts_with n WARN) (parse_chapters existing))
           + mset (map (\<lambda>s. (chapter_time s, MARKER)) starts)
       \<and> sorted (parse_chapters (chapters existing starts))
       \<and> chapters (chapters existing starts) starts = chapters existing starts"
proof -
  define kept where "kept = filter (\<lambda>(t, n). \<not> starts_with n WARN) (parse_chapters existing)"
  define new where "new = map (\<lambda>s. (chapter_time s, MARKER)) starts"
  have ch: "chapters existing starts = render_chapters 1 (sort (kept @ new))"
    by (simp add: chapters_def kept_def new_def)
  have "list_all (\<lambda>(t, n). plain t \<and> plain n) (sort (kept @ new))"
    using parse_chapters_plain [OF assms] marks_plain by (auto simp: list_all_iff kept_def new_def)
  from parse_render [OF this] have p: "parse_chapters (chapters existing starts) = sort (kept @ new)"
    unfolding ch .
  have "filter (\<lambda>(t, n). \<not> starts_with n WARN) (sort (kept @ new))
      = sort (filter (\<lambda>(t, n). \<not> starts_with n WARN) (kept @ new))"
    by (simp add: filter_sort)
  also have "filter (\<lambda>(t, n). \<not> starts_with n WARN) (kept @ new) = kept"
    using marker_warn by (auto simp: kept_def new_def filter_map comp_def)
  finally have "filter (\<lambda>(t, n). \<not> starts_with n WARN) (sort (kept @ new)) = sort kept" .
  then have "chapters (chapters existing starts) starts = render_chapters 1 (sort (sort kept @ new))"
    by (simp add: chapters_def [of "chapters existing starts"] p new_def)
  also have "sort (sort kept @ new) = sort (kept @ new)"
    by (rule properties_for_sort) simp_all
  finally have "chapters (chapters existing starts) starts = chapters existing starts" unfolding ch .
  with p show ?thesis by (simp add: kept_def new_def)
qed

definition sample_chapters :: string where
  "sample_chapters = ''CHAPTER01=00:00:00.000'' @ [newline] @ ''CHAPTER01NAME=Chapter 1'' @ [newline]
     @ ''CHAPTER02=00:01:00.000'' @ [newline] @ ''CHAPTER02NAME='' @ MARKER @ [newline]"

theorem chapters_roundtrip_witness:
  "carriage \<notin> set sample_chapters
   \<and> parse_chapters (chapters sample_chapters [3725]) = [(''00:00:00.000'', ''Chapter 1''), (''01:02:05.000'', MARKER)]
   \<and> chapters (chapters sample_chapters [3725]) [3725] = chapters sample_chapters [3725]"
proof -
  have 1: "carriage \<notin> set sample_chapters" by code_simp
  have 2: "parse_chapters (chapters sample_chapters [3725])
      = [(''00:00:00.000'', ''Chapter 1''), (''01:02:05.000'', MARKER)]" by code_simp
  from chapters_roundtrip [OF 1, of "[3725]"] 1 2 show ?thesis by blast
qed

end
