(* ===== verification/Review.thy ===== *)
theory Review
  imports Encode Naming
begin

text \<open>
  \<^verbatim>\<open>apps/dvdrip/src/review.rs\<close>: the contact sheets and the page that shows them. ffmpeg and ffprobe
  are parameters: the sheet ffmpeg leaves for its arguments, if any, and whether it reports success,
  and what ffprobe prints of a file's tracks. Log files and log lines are left out.
\<close>

section \<open>Operations\<close>

definition esc :: "string \<Rightarrow> string" where
  "esc s =
     replace_char quote ''&quot;'' (replace_char (CHR ''>'') ''&gt;'' (replace_char (CHR ''<'') ''&lt;''
       (replace_char (CHR ''&'') ''&amp;'' s)))"

record review_tools =
  rv_enc :: encode_tools
  rv_f64 :: "f64 \<Rightarrow> string"
  rv_ffmpeg :: "string list \<Rightarrow> bool \<times> string option"
  rv_tracks :: "string \<Rightarrow> string"

text \<open>The derived \<^verbatim>\<open>Debug\<close> of a role.\<close>

definition role_debug :: "role \<Rightarrow> string" where
  "role_debug r = (case r of Main \<Rightarrow> ''Main'' | Alt \<Rightarrow> ''Alt'' | Extra \<Rightarrow> ''Extra'' | Short \<Rightarrow> ''Short''
     | Dup \<Rightarrow> ''Dup'' | Part \<Rightarrow> ''Part'' | Playall \<Rightarrow> ''Playall'' | Stub \<Rightarrow> ''Stub'')"

definition run_ffmpeg :: "review_tools \<Rightarrow> string list \<Rightarrow> string \<Rightarrow> bool enc" where
  "run_ffmpeg tools args dest = (\<lambda>w.
     case rv_ffmpeg tools args of (good, left) \<Rightarrow>
       (Inr good, case left of None \<Rightarrow> w | Some c \<Rightarrow> put Work dest (File c) w))"

definition html_head :: "string \<Rightarrow> string" where
  "html_head heading =
     ''<!doctype html><meta charset=utf-8><title>'' @ esc heading @ '' extras</title><style>'' @
     ''body{font:14px system-ui;margin:16px;background:#111;color:#eee}figure{margin:0 0 24px}'' @
     ''img{max-width:100%}code{color:#9cf}</style><h1>'' @ esc heading @ ''</h1>'' @ [newline]"

definition html_figure :: "rounding \<Rightarrow> string \<Rightarrow> role \<Rightarrow> f64 \<Rightarrow> string \<Rightarrow> string" where
  "html_figure fl stem r secs tracks =
     ''<figure><h3>'' @ esc stem @ '' <small>('' @ role_debug r @ '', '' @ dur fl secs @ '')</small></h3><code>''
     @ esc tracks @ ''</code><br><img src='' @ [quote] @ esc (stem @ ''.jpg'') @ [quote] @ ''></figure>'' @ [newline]"

definition track_list :: "string \<Rightarrow> string" where
  "track_list out =
     join ''; '' (map (replace_char (CHR ''|'') '' '') (filter (\<lambda>l. \<not> starts_with l ''video'') (lines out)))"

definition sheet_args :: "review_tools \<Rightarrow> work \<Rightarrow> string \<Rightarrow> string \<Rightarrow> f64 \<Rightarrow> string list" where
  "sheet_args tools k src sheet secs =
     [''-nostdin'', ''-v'', ''error'', ''-y'', ''-i'', wpath k src, ''-vf'',
      ''fps=16/'' @ rv_f64 tools secs @ '',scale=360:-2,tile=4x4:padding=4'', ''-frames:v'', ''1'', wpath k sheet]"

text \<open>One title: its sheet, made when it is missing, and its figure.\<close>

definition review_title ::
  "review_tools \<Rightarrow> work \<Rightarrow> title \<Rightarrow> string \<times> (nat \<times> string) list \<Rightarrow> (string \<times> (nat \<times> string) list) enc" where
  "review_title tools k t acc =
     (let src = encode_path (t_title t); fl = tl_fl (rv_enc tools) in
      andthen (exists_path Work src)
      (\<lambda>there. if \<not> there then ret acc else
         andthen (duration (rv_enc tools) src)
         (\<lambda>secs. if secs \<le> 0 then ret acc else
            let stem = title_stem fl (t_title t) (t_seconds t); sheet = ''review/'' @ stem @ ''.jpg'' in
            andthen (exists_path Work sheet)
            (\<lambda>made. andthen (if made then ret True else run_ffmpeg tools (sheet_args tools k src sheet secs) sheet)
            (\<lambda>good. if \<not> good then ret acc else
               andthen (gets (\<lambda>w. case content w src of Some c \<Rightarrow> rv_tracks tools c | None \<Rightarrow> []))
               (\<lambda>out. ret (fst acc @ html_figure fl stem (t_role t) secs (track_list out),
                           if t_role t = Extra then snd acc @ [(t_title t, stem)] else snd acc)))))))"

definition is_old_page :: "string \<Rightarrow> bool" where
  "is_old_page n \<longleftrightarrow> n = ''extras.jpg'' \<or> starts_with n ''extras-'' \<and> ends_with n ''.jpg''"

text \<open>\<^verbatim>\<open>chunks(n)\<close>, for a positive \<open>n\<close>.\<close>

function chunks :: "nat \<Rightarrow> 'a list \<Rightarrow> 'a list list" where
  "chunks n xs = (if n = 0 \<or> xs = [] then [] else take n xs # chunks n (drop n xs))"
  by pat_completeness auto
termination by (relation "measure (\<lambda>(n, xs). length xs)") auto

declare chunks.simps [simp del]

definition div_ceil :: "nat \<Rightarrow> nat \<Rightarrow> nat" where
  "div_ceil n m = (n + m - 1) div m"

definition tile_label :: "string \<Rightarrow> string" where
  "tile_label l = replace_char (CHR '':'') [CHR 0x5C, CHR '':''] (replace_char (CHR 0x27) [] l)"

definition tile :: "nat \<Rightarrow> string \<Rightarrow> string" where
  "tile i l =
     ''['' @ nat_str i @ '']scale=480:360,setsar=1,drawtext=text='' @ [CHR 0x27] @ tile_label l @ [CHR 0x27]
     @ '':x=6:y=6:fontsize=28:fontcolor=yellow:box=1:boxcolor=black@0.7[v'' @ nat_str i @ ''];''"

definition pad_tile :: "nat \<Rightarrow> string" where
  "pad_tile i = ''color=black:s=480x360:d=1[v'' @ nat_str i @ ''];''"

definition slot :: "nat \<Rightarrow> string" where
  "slot i = ''[v'' @ nat_str i @ '']''"

text \<open>The labels are not empty where this is called.\<close>

definition montage_filter :: "string list \<Rightarrow> string" where
  "montage_filter labels =
     (let n = length labels; cols = min n 4; rows = div_ceil n cols;
          filter_s = concat (map (\<lambda>(i, l). tile i l) (enumerate 0 labels));
          stack = concat (map slot [0..<n])
      in if n = 1 then filter_s @ stack @ ''null''
         else filter_s @ concat (map pad_tile [n..<cols * rows]) @ stack @ concat (map slot [n..<cols * rows])
              @ ''xstack=inputs='' @ nat_str (cols * rows) @ '':grid='' @ nat_str cols @ ''x'' @ nat_str rows)"

text \<open>\<^verbatim>\<open>split(" - ").nth(1)\<close>.\<close>

definition second_part :: "string \<Rightarrow> string" where
  "second_part stem =
     (case split_once_str '' - '' stem of
        None \<Rightarrow> []
      | Some (_, rest) \<Rightarrow> (case split_once_str '' - '' rest of None \<Rightarrow> rest | Some (x, _) \<Rightarrow> x))"

definition montage :: "review_tools \<Rightarrow> work \<Rightarrow> (nat \<times> string) list \<Rightarrow> string \<Rightarrow> unit enc" where
  "montage tools k page dest =
     andthen (gets (\<lambda>w. filter (\<lambda>(n, stem). lookup w Work (''review/'' @ stem @ ''.jpg'') \<noteq> None) page))
     (\<lambda>have. if have = [] then ret () else
        let inputs = concat (map (\<lambda>(n, stem). [''-i'', wpath k (''review/'' @ stem @ ''.jpg'')]) have);
            labels = map (\<lambda>(n, stem). ''T'' @ nat_str n @ '' '' @ second_part stem) have;
            args = [''-nostdin'', ''-v'', ''error'', ''-y''] @ inputs
                   @ [''-filter_complex'', montage_filter labels, ''-frames:v'', ''1'', wpath k dest]
        in ignore (run_ffmpeg tools args dest))"

definition page_name :: "nat \<Rightarrow> nat \<Rightarrow> string" where
  "page_name pages i = (if pages = 1 then ''extras.jpg'' else ''extras-'' @ nat_str (i + 1) @ ''.jpg'')"

definition review :: "review_tools \<Rightarrow> work \<Rightarrow> title list \<Rightarrow> string \<Rightarrow> unit enc" where
  "review tools k ts heading =
     andthen (wrap EncIo (create_dir_all Work ''review''))
     (\<lambda>_. andthen (fold_sem (filter (\<lambda>t. encoded (t_role t)) ts) (review_title tools k) (html_head heading, []))
     (\<lambda>(html, extras). andthen (wrap EncIo (overwrite Work ''review/index.html'' html))
     (\<lambda>_. andthen (wrap EncIo (read_dir Work ''review''))
     (\<lambda>es. andthen (for_each (filter (\<lambda>(p, n). is_old_page (file_name p)) es) (\<lambda>(p, n). ignore (remove_file Work p)))
     (\<lambda>_. let pages = chunks 16 extras
          in for_each (enumerate 0 pages)
               (\<lambda>(i, page). montage tools k page (''review/'' @ page_name (length pages) i)))))))"

section \<open>Escaping\<close>

lemma replace_char_Nil [simp]: "replace_char c t [] = []"
  by (simp add: replace_char_def)

lemma replace_char_Cons [simp]: "replace_char c t (x # s) = (if x = c then t else [x]) @ replace_char c t s"
  by (simp add: replace_char_def)

lemma replace_char_append [simp]: "replace_char c t (a @ b) = replace_char c t a @ replace_char c t b"
  by (simp add: replace_char_def)

definition esc1 :: "char \<Rightarrow> string" where
  "esc1 c = (if c = CHR ''&'' then ''&amp;'' else if c = CHR ''<'' then ''&lt;'' else if c = CHR ''>'' then ''&gt;''
     else if c = quote then ''&quot;'' else [c])"

lemma esc_concat: "esc s = concat (map esc1 s)"
  by (induction s) (simp_all add: esc_def esc1_def quote_def)

text \<open>Reading a page back: the five references of the page's text.\<close>

fun unesc :: "string \<Rightarrow> string" where
  "unesc [] = []"
| "unesc (c # s) =
     (if c \<noteq> CHR ''&'' then c # unesc s
      else case split_once (CHR '';'') s of
             None \<Rightarrow> c # unesc s
           | Some (name, rest) \<Rightarrow> if length rest < length s then entity name @ unesc rest else [])"

lemma unesc_esc1: "unesc (esc1 c @ s) = c # unesc s"
proof -
  have "split_once (CHR '';'') (''amp;'' @ s) = Some (''amp'', s)" "split_once (CHR '';'') (''lt;'' @ s) = Some (''lt'', s)"
    "split_once (CHR '';'') (''gt;'' @ s) = Some (''gt'', s)" "split_once (CHR '';'') (''quot;'' @ s) = Some (''quot'', s)"
    by simp_all
  then show ?thesis by (auto simp: esc1_def entity_def)
qed

lemma unesc_esc [simp]: "unesc (esc s) = s"
  by (induction s) (simp_all add: esc_concat unesc_esc1)

lemma esc_no_markup: "c \<in> {CHR ''<'', CHR ''>'', quote} \<Longrightarrow> c \<notin> set (esc s)"
  by (auto simp: esc_concat esc1_def quote_def)

text \<open>What a page shows is what the disc says and never markup: the escaped text has no
  angle bracket and no quote, and reading its references back gives the text.\<close>

theorem esc_shows_the_text:
  "CHR ''<'' \<notin> set (esc s) \<and> CHR ''>'' \<notin> set (esc s) \<and> quote \<notin> set (esc s) \<and> unesc (esc s) = s"
  by (simp add: esc_no_markup)

section \<open>Pages\<close>

lemma concat_chunks: "0 < n \<Longrightarrow> concat (chunks n xs) = xs"
  by (induction n xs rule: chunks.induct) (subst chunks.simps, auto)

lemma chunks_size: "p \<in> set (chunks n xs) \<Longrightarrow> p \<noteq> [] \<and> length p \<le> n"
proof (induction n xs rule: chunks.induct)
  case (1 n xs)
  from 1(2) have "n \<noteq> 0 \<and> xs \<noteq> []" "p = take n xs \<or> p \<in> set (chunks n (drop n xs))"
    by (subst (asm) chunks.simps; auto split: if_splits)+
  with 1(1) show ?case by auto
qed

lemma div_ceil_bounds:
  assumes "0 < c"
  shows "n \<le> c * div_ceil n c" and "c * div_ceil n c < n + c"
proof -
  define q r where "q = (n + c - 1) div c" and "r = (n + c - 1) mod c"
  then have "c * q + r = n + c - 1" "r < c" using assms by simp_all
  moreover have "div_ceil n c = q" by (simp add: div_ceil_def q_def)
  ultimately show "n \<le> c * div_ceil n c" "c * div_ceil n c < n + c" using assms by simp_all
qed

lemma page_name_inject: "page_name n i = page_name n j \<Longrightarrow> n \<noteq> 1 \<Longrightarrow> i = j"
  by (simp add: page_name_def)

lemma page_name_is_swept: "is_old_page (page_name n i)"
  by (auto simp: page_name_def is_old_page_def starts_with_iff ends_with_iff)

text \<open>The grid of a page has a slot for every label, fewer than a row of black ones, and the filter
  names as many inputs as it stacks.\<close>

lemma montage_filter_grid:
  assumes "2 \<le> length labels"
  shows "\<exists>n rows. montage_filter labels =
      concat (map (\<lambda>(i, l). tile i l) (enumerate 0 labels)) @ concat (map pad_tile [length labels..<n])
      @ concat (map slot [0..<n]) @ ''xstack=inputs='' @ nat_str n @ '':grid='' @ nat_str (min (length labels) 4)
      @ ''x'' @ nat_str rows
      \<and> n = min (length labels) 4 * rows \<and> length labels \<le> n \<and> n < length labels + min (length labels) 4"
proof -
  let ?c = "min (length labels) 4"
  let ?n = "?c * div_ceil (length labels) ?c"
  from assms have "0 < ?c" by auto
  from div_ceil_bounds [OF this] have n: "length labels \<le> ?n" "?n < length labels + ?c" .
  then have "[0..<?n] = [0..<length labels] @ [length labels..<?n]"
    using upt_add_eq_append [of 0 "length labels" "?n - length labels"] by simp
  then show ?thesis using n assms
    by (intro exI [of _ ?n] exI [of _ "div_ceil (length labels) ?c"]) (simp add: montage_filter_def Let_def)
qed

end
