(* ===== verification/Publish.thy ===== *)
theory Publish
  imports Damage
begin

text \<open>
  \<^verbatim>\<open>apps/dvdrip/src/publish.rs\<close>: the libraries brought to what a disc's spec says. The work
  directory of the disc is the volume \<^term>\<open>Work\<close>, the libraries \<^term>\<open>Dvd\<close> and \<^term>\<open>Movies\<close>. What
  the code does not contain itself is in \<open>env\<close>: the digest, the encoding of the journal and
  mkvpropedit (whether it succeeds, and the bytes it leaves in the file). Copying in chunks is one
  read and one write.
\<close>

section \<open>Data\<close>

record env =
  e_sha256 :: "string \<Rightarrow> string"
  e_to_vec :: "string list \<Rightarrow> string"
  e_from_slice :: "string \<Rightarrow> string list option"
  e_retitle :: "string \<Rightarrow> string \<Rightarrow> bool \<times> string"
  e_fl :: rounding

record options =
  o_retitle :: bool
  o_master_sha256 :: "string option"

datatype publish_error =
    PubIo io_error
  | PubLayout layout_error
  | WrongMaster string string
  | NotAsWritten string string
  | RetitleFailed string
  | Stranger vol string
  | Strangers string string
  | IsoGone string
  | NoMaster
  | FileGone string
  | NoEncode nat

type_synonym 'a pub = "(publish_error, 'a) io"

section \<open>Files\<close>

definition part_of :: "string \<Rightarrow> string" where
  "part_of p = p @ ''.part''"

definition sha256 :: "env \<Rightarrow> vol \<Rightarrow> string \<Rightarrow> string pub" where
  "sha256 env v p = andthen (wrap PubIo (read_file v p)) (\<lambda>c. ret (e_sha256 env c))"

definition copy_verified ::
  "env \<Rightarrow> vol \<Rightarrow> string \<Rightarrow> vol \<Rightarrow> string \<Rightarrow> string option \<Rightarrow> string pub" where
  "copy_verified env sv src dv dst expect =
     (let part = part_of dst in
      andthen (wrap PubIo (create_dir_all dv (parent dst)))
       (\<lambda>_. andthen (wrap PubIo (read_file sv src))
       (\<lambda>c. andthen (wrap PubIo (create_file dv part))
       (\<lambda>_. andthen (wrap PubIo (write_file dv part c))
       (\<lambda>_. andthen (wrap PubIo sync_all)
       (\<lambda>_. let sum = e_sha256 env c in
        case (case expect of Some e \<Rightarrow> if e \<noteq> sum then Some e else None | None \<Rightarrow> None) of
          Some e \<Rightarrow> andthen (ignore (remove_file dv part)) (\<lambda>_. throw (WrongMaster sum e))
        | None \<Rightarrow>
            andthen (sha256 env dv part)
              (\<lambda>written. if written \<noteq> sum
                 then andthen (ignore (remove_file dv part)) (\<lambda>_. throw (NotAsWritten written sum))
                 else andthen (wrap PubIo (rename dv part dst)) (\<lambda>_. ret sum))))))))"

definition retitle :: "env \<Rightarrow> vol \<Rightarrow> string \<Rightarrow> string \<Rightarrow> unit pub" where
  "retitle env v p title = (\<lambda>w.
     case lookup w v p of
       Some (File c) \<Rightarrow>
         let (good, c') = e_retitle env title c
         in (if good then Inr () else Inl (RetitleFailed p), put v p (File c') w)
     | _ \<Rightarrow> (Inl (RetitleFailed p), w))"

definition relocate :: "vol \<Rightarrow> string \<Rightarrow> string \<Rightarrow> unit pub" where
  "relocate v from to =
     andthen (exists_path v to)
       (\<lambda>there. if there then throw (Stranger v to)
          else andthen (wrap PubIo (create_dir_all v (parent to)))
                 (\<lambda>_. wrap PubIo (rename v from to)))"

definition kept_both_name :: "string \<Rightarrow> string" where
  "kept_both_name path =
     (case rsplit_once (CHR ''.'') path of
        Some (stem, ext) \<Rightarrow>
          if stem \<noteq> [] \<and> \<not> ends_with stem ''/'' then stem @ '' - dvdrip.'' @ ext else path @ '' - dvdrip''
      | None \<Rightarrow> path @ '' - dvdrip'')"

definition kept_note :: "string \<Rightarrow> string \<Rightarrow> string" where
  "kept_note dest alt =
     dest @ '' already exists (not from the disc rip); kept it and published the rip as '' @ alt"

text \<open>The path and the notes.\<close>

definition target :: "string \<Rightarrow> string list \<Rightarrow> string list \<Rightarrow> (string \<times> string list) pub" where
  "target dest ours notes =
     andthen (exists_path Movies dest)
       (\<lambda>there. if \<not> there \<or> dest \<in> set ours then ret (dest, notes)
          else let alt = kept_both_name dest in
               andthen (exists_path Movies alt)
                 (\<lambda>taken. if taken \<and> alt \<notin> set ours then throw (Strangers dest alt)
                    else ret (alt, if kept_note dest alt \<in> set notes then notes
                                   else notes @ [kept_note dest alt])))"

function prune :: "vol \<Rightarrow> string \<Rightarrow> unit pub" where
  "prune v dir = (\<lambda>w.
     if dir = [] then (Inr (), w)
     else case remove_dir v dir w of
            (Inl e, w') \<Rightarrow> (Inr (), w')
          | (Inr u, w') \<Rightarrow> prune v (parent dir) w')"
  by pat_completeness auto
termination
  by (relation "measure (\<lambda>(v, dir). length dir)") (auto simp: parent_shorter)

declare prune.simps [simp del]

section \<open>The run\<close>

definition JOURNAL :: string where "JOURNAL = ''publish-journal.json''"
definition MASTER :: string where "MASTER = ''master.iso''"

definition read_journal :: "env \<Rightarrow> string list pub" where
  "read_journal env = (\<lambda>w.
     case read_file Work JOURNAL w of
       (Inl e, w') \<Rightarrow> (Inr [], w')
     | (Inr b, w') \<Rightarrow> (Inr (case e_from_slice env b of Some l \<Rightarrow> l | None \<Rightarrow> []), w'))"

text \<open>The closure \<open>note\<close>: the journal with one more path.\<close>

definition note_path :: "env \<Rightarrow> string list \<Rightarrow> string \<Rightarrow> string list pub" where
  "note_path env journal path =
     (let journal' = journal @ [path]
      in andthen (wrap PubIo (overwrite Work JOURNAL (e_to_vec env journal'))) (\<lambda>_. ret journal'))"

definition publish_iso ::
  "env \<Rightarrow> options \<Rightarrow> string \<Rightarrow> string option \<Rightarrow> string list \<Rightarrow> string list \<Rightarrow> string list pub" where
  "publish_iso env opts disc_iso old_iso ours journal =
     andthen (exists_path Work MASTER)
       (\<lambda>master. if master then
          andthen (exists_path Dvd disc_iso)
            (\<lambda>there. if there \<and> \<not> (old_iso = Some disc_iso \<or> ''dvd:'' @ disc_iso \<in> set ours) then throw (Stranger Dvd disc_iso)
               else andthen (copy_verified env Work MASTER Dvd disc_iso (o_master_sha256 opts))
                 (\<lambda>_. andthen (note_path env journal (''dvd:'' @ disc_iso))
                 (\<lambda>journal. case old_iso of
                    Some old \<Rightarrow>
                      if old \<noteq> disc_iso
                      then andthen (ignore (remove_file Dvd old))
                             (\<lambda>_. andthen (prune Dvd (parent old)) (\<lambda>_. ret journal))
                      else ret journal
                  | None \<Rightarrow> ret journal)))
        else
          case old_iso of
            Some old \<Rightarrow>
              if old = disc_iso
              then andthen (exists_path Dvd disc_iso) (\<lambda>there. if there then ret journal else throw (IsoGone disc_iso))
              else andthen (relocate Dvd old disc_iso) (\<lambda>_. andthen (prune Dvd (parent old)) (\<lambda>_. ret journal))
          | None \<Rightarrow>
              andthen (exists_path Dvd disc_iso)
                (\<lambda>there. if ''dvd:'' @ disc_iso \<in> set ours \<and> there then ret journal else throw NoMaster))"

text \<open>What the loop over the placements carries: the new records, the notes, the journal.\<close>

type_synonym progress = "published_file list \<times> string list \<times> string list"

definition by_title :: "published_file list \<Rightarrow> nat \<Rightarrow> published_file option" where
  "by_title prev_files t = find (\<lambda>f. pf_title f > 0 \<and> pf_title f = t) (rev prev_files)"

definition publish_file ::
  "env \<Rightarrow> options \<Rightarrow> published_file list \<Rightarrow> string list \<Rightarrow> placement \<Rightarrow> progress \<Rightarrow> progress pub" where
  "publish_file env opts prev_files ours p = (\<lambda>(out, notes, journal).
     andthen (target (p_dest p) ours notes)
       (\<lambda>(dest, notes).
        let record = \<lparr>pf_title = p_title p, pf_path = dest, pf_segment_title = p_segment_title p\<rparr>;
            old = by_title prev_files (p_title p) in
        andthen (exists_path Work (p_source p))
          (\<lambda>fresh. if fresh then
             let part = part_of dest in
             andthen (copy_verified env Work (p_source p) Movies part None)
               (\<lambda>_. andthen (whenever (o_retitle opts) (retitle env Movies part (p_segment_title p)))
               (\<lambda>_. andthen (wrap PubIo (rename Movies part dest))
               (\<lambda>_. andthen (note_path env journal dest)
               (\<lambda>journal. andthen
                  (case old of
                     Some o' \<Rightarrow> whenever (pf_path o' \<noteq> dest) (ignore (remove_file Movies (pf_path o')))
                   | None \<Rightarrow> ret ())
                  (\<lambda>_. ret (out @ [record], notes, journal))))))
           else
             case old of
               Some o' \<Rightarrow>
                 andthen
                   (if pf_path o' \<noteq> dest then relocate Movies (pf_path o') dest
                    else andthen (exists_path Movies dest) (\<lambda>there. if_err (\<not> there) (FileGone dest)))
                   (\<lambda>_. andthen (whenever (o_retitle opts \<and> pf_segment_title o' \<noteq> p_segment_title p)
                                  (retitle env Movies dest (p_segment_title p)))
                     (\<lambda>_. ret (out @ [record], notes, journal)))
             | None \<Rightarrow> throw (NoEncode (p_title p)))))"

definition main_glitches :: "title_status list \<Rightarrow> int list" where
  "main_glitches titles = concat (map tt_glitches (filter (\<lambda>t. tt_role t = Main) titles))"

definition publish_nfo ::
  "env \<Rightarrow> disc_spec \<Rightarrow> title_status list \<Rightarrow> string list \<Rightarrow> progress \<Rightarrow> progress pub" where
  "publish_nfo env spec titles ours = (\<lambda>(out, notes, journal).
     if sp_disc spec = 1 then
       (case nfo (main_glitches titles) of
          None \<Rightarrow> ret (out, notes, journal)
        | Some text \<Rightarrow>
            let name = trim (sp_name spec); path = name @ ''/'' @ name @ ''.nfo'' in
            andthen (exists_path Movies path)
              (\<lambda>there. if there \<and> path \<notin> set ours
                 then ret (out, notes @ [path @ '' already exists (not from the disc rip); the damage note was not written''], journal)
                 else andthen (wrap PubIo (overwrite Movies path text))
                        (\<lambda>_. andthen (note_path env journal path)
                        (\<lambda>journal. ret (out @ [\<lparr>pf_title = 0, pf_path = path, pf_segment_title = []\<rparr>], notes, journal)))))
     else ret (out, notes, journal))"

definition remove_old :: "string list \<Rightarrow> published_file \<Rightarrow> unit pub" where
  "remove_old keep f =
     whenever (pf_path f \<notin> set keep)
       (andthen (exists_path Movies (pf_path f))
         (\<lambda>there. andthen (whenever there (wrap PubIo (remove_file Movies (pf_path f))))
           (\<lambda>_. prune Movies (parent (pf_path f)))))"

definition ours_of :: "published option \<Rightarrow> string list \<Rightarrow> string list" where
  "ours_of prev journal = map pf_path (case prev of Some p \<Rightarrow> pb_files p | None \<Rightarrow> []) @ journal"

definition publish ::
  "env \<Rightarrow> disc_spec \<Rightarrow> string \<Rightarrow> title_status list \<Rightarrow> published option \<Rightarrow> int \<Rightarrow> options \<Rightarrow> published pub" where
  "publish env spec label titles prev generation opts =
     (case layout (e_fl env) spec label titles of
        Inl e \<Rightarrow> throw (PubLayout e)
      | Inr l \<Rightarrow>
          let prev_files = (case prev of Some p \<Rightarrow> pb_files p | None \<Rightarrow> []) in
          andthen (read_journal env)
            (\<lambda>journal. let ours = ours_of prev journal in
              andthen (publish_iso env opts (l_iso l) (Option.bind prev pb_iso) ours journal)
              (\<lambda>journal. andthen (fold_sem (l_files l) (publish_file env opts prev_files ours) ([], [], journal))
              (\<lambda>progress. andthen (publish_nfo env spec titles ours progress)
              (\<lambda>(out, notes, journal). andthen (for_each prev_files (remove_old (map pf_path out)))
              (\<lambda>_. ret \<lparr>pb_iso = Some (l_iso l), pb_files = out, pb_generation = generation, pb_notes = notes\<rparr>))))))"

definition finish :: "published \<Rightarrow> unit pub" where
  "finish pb =
     andthen (for_each (filter (\<lambda>f. pf_title f > 0) (pb_files pb))
               (\<lambda>f. ignore (remove_file Work (encode_path (pf_title f)))))
       (\<lambda>_. andthen (ignore (remove_file Work MASTER)) (\<lambda>_. ignore (remove_file Work JOURNAL)))"

section \<open>Files of others\<close>

text \<open>\<open>fs\<close>: files that are there and stay there. First the operations that take a place as given.\<close>

lemma keeps_retitle: "clear_of fs v p \<Longrightarrow> keeps (holds fs) (retitle env v p t) (\<lambda>_. True)"
  by (auto simp: keeps_def retitle_def holds_put split: option.splits node.splits prod.splits)

lemma keeps_prune: "keeps (holds fs) (prune v dir) (\<lambda>_. True)"
proof -
  have "holds fs w \<Longrightarrow> holds fs (snd (prune v dir w))" for w
  proof (induction "length dir" arbitrary: dir w rule: less_induct)
    case less
    have "holds fs (snd (remove_dir v dir w))"
      using held.keeps_remove_dir [of "\<lambda>_. True" fs v dir] less.prems by (auto simp: keeps_def)
    with less show ?case
      by (subst prune.simps) (auto simp: parent_shorter split: prod.splits sum.splits)
  qed
  then show ?thesis by (simp add: keeps_def)
qed

lemma keeps_copy_verified:
  "clear_of fs dv dst \<Longrightarrow> clear_of fs dv (part_of dst) \<Longrightarrow>
   keeps (holds fs) (copy_verified env sv src dv dst expect) (\<lambda>_. True)"
  unfolding copy_verified_def sha256_def Let_def
  by (intro keeps_intros held.keeps_calls TrueI; assumption)

lemma keeps_relocate:
  assumes "clear_of fs v from"
  shows "keeps (holds fs) (relocate v from to) (\<lambda>_. True)"
  unfolding relocate_def
proof (rule keeps_andthen [OF keeps_exists_clear])
  show "b \<or> clear_of fs v to \<Longrightarrow> b \<or> clear_of fs v to" for b .
  show "keeps (holds fs) (if b then throw (Stranger v to)
      else andthen (wrap PubIo (create_dir_all v (parent to))) (\<lambda>_. wrap PubIo (rename v from to))) (\<lambda>_. True)"
    if "b \<or> clear_of fs v to" for b
    using that assms by (auto intro!: keeps_intros held.keeps_calls)
qed

lemma keeps_note:
  "clear_of fs Work JOURNAL \<Longrightarrow> keeps (holds fs) (note_path env journal p) (\<lambda>_. True)"
  unfolding note_path_def Let_def by (intro keeps_intros held.keeps_calls TrueI)

text \<open>A place of someone else: in a library and not recorded, or in the work directory and not the
  journal; not a temporary name.\<close>

definition foreign :: "published option \<Rightarrow> string list \<Rightarrow> vol \<Rightarrow> string \<Rightarrow> bool" where
  "foreign prev ours v x \<longleftrightarrow>
     \<not> ends_with x ''.part''
     \<and> (case v of
          Work \<Rightarrow> x \<noteq> JOURNAL
        | Dvd \<Rightarrow> Option.bind prev pb_iso \<noteq> Some x \<and> ''dvd:'' @ x \<notin> set ours
        | Movies \<Rightarrow> x \<notin> set ours
        | _ \<Rightarrow> True)"

lemma foreign_clear:
  assumes "foreign prev ours v x"
  shows "clear_of [(v, x, c)] Work JOURNAL" and "clear_of [(v, x, c)] u (part_of p)"
    and "p \<in> set ours \<Longrightarrow> clear_of [(v, x, c)] Movies p"
  using assms by (auto simp: foreign_def part_of_def split: vol.splits)

lemma keeps_target:
  assumes "foreign prev ours v x"
  shows "keeps (holds [(v, x, c)]) (target dest ours notes) (\<lambda>(d, _). clear_of [(v, x, c)] Movies d)"
proof -
  let ?fs = "[(v, x, c)]"
  have alt: "keeps (holds ?fs) (andthen (exists_path Movies a)
       (\<lambda>taken. if taken \<and> a \<notin> set ours then throw e else ret (a, ns))) (\<lambda>(d, _). clear_of ?fs Movies d)"
    for a e ns
  proof (rule keeps_andthen [OF keeps_exists_clear, of _ _ _ "\<lambda>b. b \<or> clear_of ?fs Movies a"])
    fix b
    assume b: "b \<or> clear_of ?fs Movies a"
    then show "keeps (holds ?fs) (if b \<and> a \<notin> set ours then throw e else ret (a, ns))
        (\<lambda>(d, _). clear_of ?fs Movies d)"
      using foreign_clear(3) [OF assms] by (intro keeps_if keeps_throw keeps_ret) blast
  qed
  show ?thesis
    unfolding target_def Let_def
  proof (rule keeps_andthen [OF keeps_exists_clear, of _ _ _ "\<lambda>b. b \<or> clear_of ?fs Movies dest"])
    fix b
    assume b: "b \<or> clear_of ?fs Movies dest"
    then have "\<not> b \<or> dest \<in> set ours \<Longrightarrow> clear_of ?fs Movies dest"
      using foreign_clear(3) [OF assms] by blast
    then show "keeps (holds ?fs) (if \<not> b \<or> dest \<in> set ours then ret (dest, notes)
        else andthen (exists_path Movies (kept_both_name dest))
         (\<lambda>taken. if taken \<and> kept_both_name dest \<notin> set ours then throw (Strangers dest (kept_both_name dest))
            else ret (kept_both_name dest, if kept_note dest (kept_both_name dest) \<in> set notes then notes
                        else notes @ [kept_note dest (kept_both_name dest)])))
        (\<lambda>(d, _). clear_of ?fs Movies d)"
      by (intro keeps_if keeps_ret alt) (simp del: clear_of_simps)
  qed
qed

lemma find_in: "find Q xs = Some y \<Longrightarrow> y \<in> set xs \<and> Q y"
  by (induction xs) (auto split: if_splits)

lemma by_title_in: "by_title fs t = Some f \<Longrightarrow> f \<in> set fs \<and> pf_title f = t"
  by (auto simp: by_title_def dest: find_in)

lemma keeps_publish_file:
  assumes f: "foreign prev ours v x" and prev: "\<And>o'. o' \<in> set prev_files \<Longrightarrow> pf_path o' \<in> set ours"
  shows "keeps (holds [(v, x, c)]) (publish_file env opts prev_files ours p a) (\<lambda>_. True)"
proof -
  let ?fs = "[(v, x, c)]"
  obtain out ns journal where a: "a = (out, ns, journal)" by (cases a)
  note clear = foreign_clear [OF f]
  have old: "clear_of ?fs Movies (pf_path o')" if "by_title prev_files t = Some o'" for t o'
    using by_title_in [OF that] prev [of o'] clear(3) by blast
  show ?thesis
    unfolding a publish_file_def prod.case Let_def
    apply (rule keeps_andthen [OF keeps_target [OF f]])
    apply (clarsimp split del: if_split simp del: clear_of_simps)
    apply (intro keeps_intros held.keeps_calls keeps_copy_verified keeps_retitle keeps_relocate keeps_note
        TrueI clear(1,2) old)
    apply (simp_all del: clear_of_simps)
    done
qed

lemma keeps_publish_iso:
  assumes f: "foreign prev ours v x"
  shows "keeps (holds [(v, x, c)]) (publish_iso env opts p (Option.bind prev pb_iso) ours journal) (\<lambda>_. True)"
proof -
  let ?fs = "[(v, x, c)]" and ?old = "Option.bind prev pb_iso"
  note clear = foreign_clear [OF f]
  have old: "clear_of ?fs Dvd q" if "?old = Some q" for q
    using f that by (auto simp: foreign_def split: vol.splits)
  have mine: "clear_of ?fs Dvd p" if "?old = Some p \<or> ''dvd:'' @ p \<in> set ours"
    using f that by (auto simp: foreign_def split: vol.splits)
  show ?thesis
    unfolding publish_iso_def
    apply (rule keeps_andthen_any [OF held.keeps_exists [OF TrueI TrueI]])
    apply (rule keeps_if)
     apply (rule keeps_andthen [OF keeps_exists_clear, of _ _ _ "\<lambda>b. b \<or> clear_of ?fs Dvd p"])
      apply assumption
     apply (intro keeps_intros held.keeps_calls keeps_copy_verified keeps_note keeps_prune TrueI clear(1,2))
      apply (use mine in blast)
     apply (erule old)
    apply (intro keeps_intros held.keeps_calls keeps_relocate keeps_prune TrueI)
    apply (erule old)
    done
qed

lemma keeps_publish_nfo:
  assumes f: "foreign prev ours v x"
  shows "keeps (holds [(v, x, c)]) (publish_nfo env spec titles ours a) (\<lambda>_. True)"
proof -
  let ?fs = "[(v, x, c)]"
  obtain out ns journal where a: "a = (out, ns, journal)" by (cases a)
  note clear = foreign_clear [OF f]
  have put_nfo: "keeps (holds ?fs) (andthen (exists_path Movies path)
      (\<lambda>there. if there \<and> path \<notin> set ours then ret r
         else andthen (wrap PubIo (overwrite Movies path body))
                (\<lambda>_. andthen (note_path env journal path) (\<lambda>journal. ret (s journal))))) (\<lambda>_. True)"
    for path body r and s :: "string list \<Rightarrow> progress"
  proof (rule keeps_andthen [OF keeps_exists_clear, of _ _ _ "\<lambda>b. b \<or> clear_of ?fs Movies path"])
    fix b
    assume "b \<or> clear_of ?fs Movies path"
    then have "\<not> (b \<and> path \<notin> set ours) \<Longrightarrow> clear_of ?fs Movies path" using clear(3) by blast
    then show "keeps (holds ?fs) (if b \<and> path \<notin> set ours then ret r
       else andthen (wrap PubIo (overwrite Movies path body))
              (\<lambda>_. andthen (note_path env journal path) (\<lambda>journal. ret (s journal)))) (\<lambda>_. True)"
      by (intro keeps_intros held.keeps_calls keeps_note clear(1) TrueI)
  qed
  show ?thesis
    unfolding a publish_nfo_def prod.case Let_def
    by (intro keeps_if keeps_case_option keeps_ret put_nfo TrueI)
qed

text \<open>The journal as a run finds it.\<close>

definition journal_at :: "env \<Rightarrow> world \<Rightarrow> string list" where
  "journal_at env w =
     (case lookup w Work JOURNAL of
        Some (File b) \<Rightarrow> (case e_from_slice env b of Some l \<Rightarrow> l | None \<Rightarrow> [])
      | _ \<Rightarrow> [])"

lemma read_journal_result:
  "read_journal env w = (r, w') \<Longrightarrow> w' = tick w \<and> (r = Inr (journal_at env w) \<or> r = Inr [])"
  by (auto simp: read_journal_def read_file_def io_call_def journal_at_def
      split: if_splits option.splits node.splits)

lemma foreign_less:
  "foreign prev (ours_of prev j) v x \<Longrightarrow> foreign prev (ours_of prev []) v x"
  by (auto simp: foreign_def ours_of_def split: vol.splits)

lemma publish_keeps_file:
  assumes "lookup w v x = Some (File c)" and f: "foreign prev (ours_of prev (journal_at env w)) v x"
  shows "lookup (snd (publish env spec label titles prev generation opts w)) v x = Some (File c)"
proof (cases "layout (e_fl env) spec label titles")
  case (Inl e)
  with assms show ?thesis by (simp add: publish_def throw_def)
next
  case (Inr l)
  let ?fs = "[(v, x, c)]" and ?files = "case prev of Some p \<Rightarrow> pb_files p | None \<Rightarrow> []"
  define rest where "rest = (\<lambda>journal. let ours = ours_of prev journal in
      andthen (publish_iso env opts (l_iso l) (Option.bind prev pb_iso) ours journal)
      (\<lambda>journal. andthen (fold_sem (l_files l) (publish_file env opts ?files ours) ([], [], journal))
      (\<lambda>progress. andthen (publish_nfo env spec titles ours progress)
      (\<lambda>(out, notes, journal). andthen (for_each ?files (remove_old (map pf_path out)))
      (\<lambda>_. ret \<lparr>pb_iso = Some (l_iso l), pb_files = out, pb_generation = generation, pb_notes = notes\<rparr>)))))"
  have rest: "keeps (holds ?fs) (rest j) (\<lambda>_. True)" if j: "foreign prev (ours_of prev j) v x" for j
  proof -
    have mem: "o' \<in> set ?files \<Longrightarrow> pf_path o' \<in> set (ours_of prev j)" for o'
      by (auto simp: ours_of_def split: option.splits)
    have "keeps (holds ?fs) (remove_old keep o') (\<lambda>_. True)" if "o' \<in> set ?files" for keep o'
      unfolding remove_old_def using foreign_clear(3) [OF j mem [OF that]]
      by (intro keeps_intros held.keeps_calls keeps_prune TrueI)
    then show ?thesis
      unfolding rest_def Let_def
      by (auto intro!: keeps_andthen_any keeps_publish_iso [OF j] keeps_fold_sem [of _ "\<lambda>_. True"]
          keeps_publish_file [OF j mem] keeps_publish_nfo [OF j] keeps_for_each keeps_ret
          simp del: holds_simps split: prod.splits)
  qed
  obtain r w1 where j: "read_journal env w = (r, w1)" by fastforce
  from read_journal_result [OF j] foreign_less [OF f] f obtain journal where
    r: "r = Inr journal" "w1 = tick w" and fj: "foreign prev (ours_of prev journal) v x" by blast
  have "publish env spec label titles prev generation opts w = rest journal (tick w)"
    unfolding publish_def Inr sum.case Let_def rest_def
    by (simp add: andthen_def [of "read_journal env"] j r)
  with keepsD [OF rest [OF fj], of "tick w"] assms(1) show ?thesis by simp
qed


section \<open>Verified copies\<close>

text \<open>What a copy that returns has done, whatever the device made of the bytes.\<close>

lemma copy_verified_ok:
  assumes "copy_verified env sv src dv dst expect w = (Inr digest, w')" and "(sv, src) \<noteq> (dv, part_of dst)"
  shows "\<exists>c c'. lookup w sv src = Some (File c) \<and> digest = e_sha256 env c
           \<and> lookup w' dv dst = Some (File c') \<and> e_sha256 env c' = digest
           \<and> (\<forall>e. expect = Some e \<longrightarrow> e = digest)"
proof -
  let ?part = "part_of dst"
  have part: "?part \<noteq> dst" "?part \<noteq> []" by (simp_all add: part_of_def)
  from assms(1) obtain w1 c w2 w3 w4 w5 where
    1: "create_dir_all dv (parent dst) w = (Inr (), w1)"
    and 2: "w2 = tick w1" "lookup w1 sv src = Some (File c)"
    and 3: "create_file dv ?part w2 = (Inr (), w3)"
    and 4: "write_file dv ?part c w3 = (Inr (), w4)" and 5: "sync_all w4 = (Inr (), w5)"
    and rest: "(case (case expect of Some e \<Rightarrow> if e \<noteq> e_sha256 env c then Some e else None | None \<Rightarrow> None) of
          Some e \<Rightarrow> andthen (ignore (remove_file dv ?part)) (\<lambda>_. throw (WrongMaster (e_sha256 env c) e))
        | None \<Rightarrow> andthen (sha256 env dv ?part)
              (\<lambda>written. if written \<noteq> e_sha256 env c
                 then andthen (ignore (remove_file dv ?part)) (\<lambda>_. throw (NotAsWritten written (e_sha256 env c)))
                 else andthen (wrap PubIo (rename dv ?part dst)) (\<lambda>_. ret (e_sha256 env c)))) w5 = (Inr digest, w')"
    unfolding copy_verified_def Let_def by (auto simp: io_ok)
  from rest have expect: "\<forall>e. expect = Some e \<longrightarrow> e = e_sha256 env c"
    by (auto simp: andthen_def ignore_def throw_def split: option.splits if_splits)
  then have "(case expect of Some e \<Rightarrow> if e \<noteq> e_sha256 env c then Some e else None | None \<Rightarrow> None) = None"
    by (auto split: option.splits)
  from rest [unfolded this option.case] obtain d w6 where
    6: "lookup w5 dv ?part = Some (File d)" "w6 = tick w5" and
    tail: "(if e_sha256 env d \<noteq> e_sha256 env c
       then andthen (ignore (remove_file dv ?part)) (\<lambda>_. throw (NotAsWritten (e_sha256 env d) (e_sha256 env c)))
       else andthen (wrap PubIo (rename dv ?part dst)) (\<lambda>_. ret (e_sha256 env c))) w6 = (Inr digest, w')"
    by (auto simp: sha256_def io_ok ret_def)
  have same: "e_sha256 env d = e_sha256 env c"
  proof (rule ccontr)
    assume "e_sha256 env d \<noteq> e_sha256 env c"
    with tail show False by (simp add: andthen_def ignore_def throw_def)
  qed
  with tail have 7: "rename dv ?part dst w6 = (Inr (), w')" and digest: "digest = e_sha256 env c"
    by (auto simp: io_ok ret_def)
  from rename_ok [OF 7] 6 part have "lookup w' dv dst = Some (File d)"
    by (auto simp: lookup_put split: if_splits)
  moreover from create_dir_all_file_iff [OF 1] 2 have "lookup w sv src = Some (File c)" by simp
  ultimately show ?thesis using same digest expect by blast
qed

text \<open>Property C34: a copy that succeeds is a copy. Whatever the device stored of the bytes it was given,
  the file at the destination has the digest of the source, which is the expected one when one was
  recorded.\<close>

theorem copy_verified_is_verified:
  assumes "copy_verified env sv src dv dst expect w = (Inr digest, w')" and "(sv, src) \<noteq> (dv, part_of dst)"
  shows "\<exists>c c'. lookup w sv src = Some (File c) \<and> digest = e_sha256 env c
           \<and> lookup w' dv dst = Some (File c') \<and> e_sha256 env c' = digest
           \<and> (\<forall>e. expect = Some e \<longrightarrow> e = digest)"
  using assms by (rule copy_verified_ok)

section \<open>A first publish\<close>

text \<open>A disc that published nothing before, and no run of it was interrupted: nothing is ours.\<close>

definition titled :: "env \<Rightarrow> options \<Rightarrow> string \<Rightarrow> string \<Rightarrow> string" where
  "titled env opts title c = (if o_retitle opts then snd (e_retitle env title c) else c)"

lemma kept_both_not_part:
  "ends_with d ''.mkv'' \<Longrightarrow> \<not> ends_with d ''.part'' \<and> \<not> ends_with (kept_both_name d) ''.part''"
proof -
  assume "ends_with d ''.mkv''"
  then obtain r where r: "d = r @ ''.mkv''" by (auto simp: ends_with_iff)
  have "rsplit_once (CHR ''.'') (r @ CHR ''.'' # ''mkv'') = Some (r, ''mkv'')"
    by (rule rsplit_once_append) simp
  then have alt: "kept_both_name d = r @ '' - dvdrip.mkv'' \<or> kept_both_name d = d @ '' - dvdrip''"
    by (simp add: kept_both_name_def r)
  have "last x = CHR ''t''" if "ends_with x ''.part''" for x using that by (auto simp: ends_with_iff)
  moreover have "last d = CHR ''v''" by (simp add: r)
  moreover have "last (kept_both_name d) \<in> {CHR ''v'', CHR ''p''}" using alt by auto
  ultimately show ?thesis by fastforce
qed

lemma target_ok:
  "target dest ours notes w = (Inr (d, ns), w') \<Longrightarrow> w' = w \<and> (d = dest \<or> d = kept_both_name dest)"
  by (auto simp: target_def andthen_def exists_path_def gets_def ret_def throw_def Let_def split: if_splits)

lemma retitle_ok:
  "whenever (o_retitle opts) (retitle env v p t) w = (Inr (), w') \<Longrightarrow> lookup w v p = Some (File c) \<Longrightarrow>
   p \<noteq> [] \<Longrightarrow> lookup w' v p = Some (File (titled env opts t c))"
  by (auto simp: whenever_def retitle_def titled_def ret_def lookup_put Let_def
      split: if_splits prod.splits)

lemma publish_file_fresh:
  assumes run: "publish_file env opts [] [] p (out, ns, j) w = (Inr (out', ns', j'), w')"
    and src: "lookup w Work (p_source p) = Some (File c)" "p_source p \<noteq> JOURNAL"
    and mkv: "ends_with (p_dest p) ''.mkv''"
  shows "\<exists>r c'. out' = out @ [r] \<and> pf_title r = p_title p \<and> \<not> ends_with (pf_path r) ''.part''
           \<and> e_sha256 env c' = e_sha256 env c
           \<and> lookup w' Movies (pf_path r) = Some (File (titled env opts (p_segment_title p) c'))"
proof -
  have there: "exists_path Work (p_source p) w = (Inr True, w)"
    using src by (simp add: exists_path_def gets_def)
  from run obtain dest ns1 w1 where t: "target (p_dest p) [] ns w = (Inr (dest, ns1), w1)"
    by (auto simp: publish_file_def andthen_Inr_iff split: prod.splits)
  from target_ok [OF t] kept_both_not_part [OF mkv] have w1: "w1 = w" and part: "\<not> ends_with dest ''.part''"
    by auto
  let ?r = "\<lparr>pf_title = p_title p, pf_path = dest, pf_segment_title = p_segment_title p\<rparr>"
  from run t w1 obtain d w2 w3 w4 w5 j1 where
    2: "copy_verified env Work (p_source p) Movies (part_of dest) None w = (Inr d, w2)"
    and 3: "whenever (o_retitle opts) (retitle env Movies (part_of dest) (p_segment_title p)) w2 = (Inr (), w3)"
    and 4: "rename Movies (part_of dest) dest w3 = (Inr (), w4)"
    and 5: "note_path env j dest w4 = (Inr j1, w5)" and out: "out' = out @ [?r]" "w' = w5"
    by (auto simp: publish_file_def Let_def andthen_def [of "target _ _ _"] andthen_def [of "exists_path _ _"]
        there by_title_def wrap_Inr_iff andthen_Inr_iff ret_def)
  from copy_verified_ok [OF 2] src obtain c' where c': "e_sha256 env c' = e_sha256 env c"
    "lookup w2 Movies (part_of dest) = Some (File c')" by (auto simp: part_of_def)
  from retitle_ok [OF 3 this(2)] have "lookup w3 Movies (part_of dest) = Some (File (titled env opts (p_segment_title p) c'))"
    by (simp add: part_of_def)
  with rename_ok [OF 4] have "lookup w4 Movies dest = Some (File (titled env opts (p_segment_title p) c'))"
    by (auto simp: part_of_def lookup_put)
  then have "lookup w5 Movies dest = Some (File (titled env opts (p_segment_title p) c'))"
    using keepsD [OF keeps_note [of "[(Movies, dest, titled env opts (p_segment_title p) c')]" env j dest], of w4] 5
    by simp
  with out c' part show ?thesis by auto
qed

definition installed :: "env \<Rightarrow> options \<Rightarrow> world \<Rightarrow> world \<Rightarrow> placement \<Rightarrow> published_file \<Rightarrow> bool" where
  "installed env opts w w' p r \<longleftrightarrow>
     pf_title r = p_title p
     \<and> (\<exists>c c'. lookup w Work (p_source p) = Some (File c) \<and> e_sha256 env c' = e_sha256 env c
          \<and> lookup w' Movies (pf_path r) = Some (File (titled env opts (p_segment_title p) c')))"

definition publishable :: "world \<Rightarrow> placement \<Rightarrow> bool" where
  "publishable w p \<longleftrightarrow> (\<exists>c. lookup w Work (p_source p) = Some (File c)) \<and> p_source p \<noteq> JOURNAL
     \<and> \<not> ends_with (p_source p) ''.part'' \<and> ends_with (p_dest p) ''.mkv''"

lemma keeps_fold_publish:
  assumes "foreign prev ours v x" and "\<And>o'. o' \<in> set prev_files \<Longrightarrow> pf_path o' \<in> set ours"
  shows "keeps (holds [(v, x, c)]) (fold_sem ps (publish_file env opts prev_files ours) a) (\<lambda>_. True)"
  by (rule keeps_fold_sem) (auto intro!: keeps_publish_file [OF assms] simp del: holds_simps)

lemma fold_publish_fresh:
  assumes "fold_sem ps (publish_file env opts [] []) (out, ns, j) w = (Inr (out', ns', j'), w')"
    and "\<And>p. p \<in> set ps \<Longrightarrow> publishable w p"
  shows "\<exists>recs. out' = out @ recs \<and> list_all2 (installed env opts w w') ps recs
           \<and> list_all (\<lambda>r. \<not> ends_with (pf_path r) ''.part'') recs"
  using assms
proof (induction ps arbitrary: out ns j w)
  case Nil
  then show ?case by (auto simp: ret_def)
next
  case (Cons p ps)
  from Cons.prems(1) obtain out1 ns1 j1 w1 where
    1: "publish_file env opts [] [] p (out, ns, j) w = (Inr (out1, ns1, j1), w1)"
    and 2: "fold_sem ps (publish_file env opts [] []) (out1, ns1, j1) w1 = (Inr (out', ns', j'), w')"
    by (auto simp: andthen_Inr_iff)
  from Cons.prems(2) [of p] obtain c where c: "lookup w Work (p_source p) = Some (File c)"
    "p_source p \<noteq> JOURNAL" "ends_with (p_dest p) ''.mkv''" by (auto simp: publishable_def)
  from publish_file_fresh [OF 1 c] obtain r c' where r: "out1 = out @ [r]" "pf_title r = p_title p"
    "\<not> ends_with (pf_path r) ''.part''" "e_sha256 env c' = e_sha256 env c"
    "lookup w1 Movies (pf_path r) = Some (File (titled env opts (p_segment_title p) c'))" by blast
  have stays: "lookup w1 Work x = Some (File d)"
    if "lookup w Work x = Some (File d)" "x \<noteq> JOURNAL" "\<not> ends_with x ''.part''" for x d
    using keepsD [OF keeps_publish_file [of None "[]" Work x "[]" d env opts p "(out, ns, j)"], of w] that 1
    by (simp add: foreign_def)
  have ok: "publishable w1 q" if "q \<in> set ps" for q
    using Cons.prems(2) [of q] that stays by (auto simp: publishable_def)
  have "installed env opts w1 w' q s \<Longrightarrow> q \<in> set ps \<Longrightarrow> installed env opts w w' q s" for q s
    using Cons.prems(2) [of q] stays by (fastforce simp: installed_def publishable_def)
  moreover from Cons.IH [OF 2 ok] obtain recs where recs: "out' = out1 @ recs"
    "list_all2 (installed env opts w1 w') ps recs" "list_all (\<lambda>r. \<not> ends_with (pf_path r) ''.part'') recs" by blast
  ultimately have "list_all2 (installed env opts w w') ps recs"
    by (auto simp: list_all2_conv_all_nth)
  moreover have keep: "keeps (holds [(Movies, pf_path r, titled env opts (p_segment_title p) c')])
      (fold_sem ps (publish_file env opts [] []) (out1, ns1, j1)) (\<lambda>_. True)"
    by (rule keeps_fold_publish [of None]) (use r in \<open>simp_all add: foreign_def\<close>)
  have "lookup w' Movies (pf_path r) = Some (File (titled env opts (p_segment_title p) c'))"
    using keepsD [OF keep, of w1] r 2 by simp
  then have "installed env opts w w' p r" using r c by (auto simp: installed_def)
  ultimately show ?case using r recs by (intro exI [of _ "r # recs"]) simp
qed

lemma publish_iso_fresh:
  assumes "publish_iso env opts p None [] j w = (Inr j', w')"
  shows "\<exists>c c'. lookup w Work MASTER = Some (File c) \<and> lookup w' Dvd p = Some (File c')
           \<and> e_sha256 env c' = e_sha256 env c"
proof -
  from assms obtain d w1 where
    1: "copy_verified env Work MASTER Dvd p (o_master_sha256 opts) w = (Inr d, w1)"
    and 2: "note_path env j (''dvd:'' @ p) w1 = (Inr j', w')"
    by (auto simp: publish_iso_def andthen_def exists_path_def gets_def ret_def throw_def
        split: if_splits prod.splits sum.splits)
  from copy_verified_ok [OF 1] obtain c c' where c: "lookup w Work MASTER = Some (File c)"
    "lookup w1 Dvd p = Some (File c')" "e_sha256 env c' = e_sha256 env c" by auto
  with keepsD [OF keeps_note [of "[(Dvd, p, c')]" env j "''dvd:'' @ p"], of w1] 2 show ?thesis by simp
qed

lemma ends_with_appendI: "ends_with b p \<Longrightarrow> ends_with (a @ b) p"
  by (auto simp: ends_with_iff)

lemma placement_paths:
  assumes "layout fl spec label titles = Inr l" and "p \<in> set (l_files l)"
  shows "ends_with (p_dest p) ''.mkv''" and "p_source p \<noteq> JOURNAL" and "\<not> ends_with (p_source p) ''.part''"
proof -
  from assms obtain t where t: "place fl spec label titles t = Some p"
    by (auto simp: layout_Inr_iff placements_elem)
  from placeD [OF t] obtain folder stem where p: "p_dest p = dest_of spec folder stem"
    "p_source p = encode_path (tt_title t)" by blast
  show "ends_with (p_dest p) ''.mkv''"
    unfolding p dest_of_def Let_def
    by (cases folder; simp only: option.case) ((rule ends_with_appendI)+, simp add: ends_with_iff)+
  show "p_source p \<noteq> JOURNAL" by (simp add: p encode_path_def JOURNAL_def)
  have "last (p_source p) = CHR ''v''" by (simp add: p encode_path_def)
  then show "\<not> ends_with (p_source p) ''.part''" by (auto simp: ends_with_iff)
qed

text \<open>Property C17: a first publish that succeeds has installed everything. With every placed encode in
  the work directory, the record lists one file for each placement, in order; each is in the movie
  library with the digest of its encode (and then retitled when asked), and the ISO is in the DVD
  library with the digest of the master, whatever the devices and the other calls did.\<close>

theorem first_publish_installs:
  assumes run: "publish env spec label titles None generation opts w = (Inr pb, w')"
    and l: "layout (e_fl env) spec label titles = Inr l" and j: "lookup w Work JOURNAL = None"
    and src: "\<And>p. p \<in> set (l_files l) \<Longrightarrow> \<exists>c. lookup w Work (p_source p) = Some (File c)"
  shows "(\<exists>recs extra. pb_files pb = recs @ extra \<and> list_all2 (installed env opts w w') (l_files l) recs)
       \<and> pb_iso pb = Some (l_iso l)
       \<and> (\<exists>c c'. lookup w Work MASTER = Some (File c) \<and> lookup w' Dvd (l_iso l) = Some (File c')
            \<and> e_sha256 env c' = e_sha256 env c)"
proof -
  have "read_journal env w = (Inr [], tick w)"
    using j by (auto simp: read_journal_def read_file_def io_call_def)
  with run l obtain j1 w1 out2 ns2 j2 w2 out3 ns3 j3 where
    1: "publish_iso env opts (l_iso l) None [] [] (tick w) = (Inr j1, w1)"
    and 2: "fold_sem (l_files l) (publish_file env opts [] []) ([], [], j1) w1 = (Inr (out2, ns2, j2), w2)"
    and 3: "publish_nfo env spec titles [] (out2, ns2, j2) w2 = (Inr (out3, ns3, j3), w')"
    and pb: "pb_files pb = out3" "pb_iso pb = Some (l_iso l)"
    by (auto simp: publish_def Let_def andthen_def [of "read_journal env"] andthen_Inr_iff ours_of_def ret_def
        split: prod.splits)
  have stays1: "lookup w1 Work x = Some (File d)"
    if "lookup w Work x = Some (File d)" "x \<noteq> JOURNAL" "\<not> ends_with x ''.part''" for x d
    using keepsD [OF keeps_publish_iso [of None "[]" Work x d env opts "l_iso l" "[]"], of "tick w"] that 1
    by (simp add: foreign_def)
  have ok: "publishable w1 p" if "p \<in> set (l_files l)" for p
    using src [OF that] placement_paths [OF l that] stays1 by (auto simp: publishable_def)
  from fold_publish_fresh [OF 2 ok] obtain recs where recs: "out2 = recs"
    "list_all2 (installed env opts w1 w2) (l_files l) recs" "list_all (\<lambda>r. \<not> ends_with (pf_path r) ''.part'') recs"
    by auto
  have stays3: "lookup w' v x = Some (File d)" if "lookup w2 v x = Some (File d)" "foreign None [] v x" for v x d
    using keepsD [OF keeps_publish_nfo [OF that(2), of d env spec titles "(out2, ns2, j2)"], of w2] that 3 by simp
  have "installed env opts w w' p r"
    if "installed env opts w1 w2 p r" "p \<in> set (l_files l)" "\<not> ends_with (pf_path r) ''.part''" for p r
    using that src [OF that(2)] placement_paths [OF l that(2)] stays1 stays3 [of Movies "pf_path r"]
    by (fastforce simp: installed_def foreign_def)
  with recs have "list_all2 (installed env opts w w') (l_files l) recs"
    by (auto simp: list_all2_conv_all_nth list_all_length)
  moreover have "\<exists>extra. out3 = out2 @ extra"
    using 3 by (auto simp: publish_nfo_def Let_def andthen_Inr_iff ret_def split: if_splits option.splits)
  moreover from publish_iso_fresh [OF 1] obtain c c' where c: "lookup w Work MASTER = Some (File c)"
    "lookup w1 Dvd (l_iso l) = Some (File c')" "e_sha256 env c' = e_sha256 env c" by auto
  moreover have "foreign None [] Dvd (l_iso l)"
    by (auto simp: foreign_def iso_of_def layout_Inr_iff [THEN iffD1, OF l] Let_def ends_with_iff)
  then have "lookup w' Dvd (l_iso l) = Some (File c')"
    using keepsD [OF keeps_fold_publish [of None "[]" Dvd "l_iso l" "[]" c' "l_files l" env opts "([], [], j1)"], of w1]
      stays3 [of Dvd "l_iso l" c'] c 2 by simp
  ultimately show ?thesis using pb recs by auto
qed

section \<open>Small libraries\<close>

definition sample_env :: env where
  "sample_env =
     \<lparr>e_sha256 = id, e_to_vec = (\<lambda>ps. concat (map (\<lambda>p. p @ [newline]) ps)), e_from_slice = (\<lambda>b. Some (lines b)),
      e_retitle = (\<lambda>t c. (True, t @ c)), e_fl = id\<rparr>"

definition sample_world :: "(nat \<Rightarrow> bool) \<Rightarrow> volume \<Rightarrow> volume \<Rightarrow> volume \<Rightarrow> world" where
  "sample_world good work discs movies =
     \<lparr>w_vols = (\<lambda>v. case v of Work \<Rightarrow> work | Dvd \<Rightarrow> discs | Movies \<Rightarrow> movies | _ \<Rightarrow> []), w_tick = 0, w_ok = good,
      w_medium = (\<lambda>_ c. c)\<rparr>"

text \<open>One title to publish, and someone else's cut of the film already in the library.\<close>

definition film_spec :: disc_spec where
  "film_spec = default_disc_spec\<lparr>sp_name := ''E'', sp_disc := 1\<rparr>"

definition film_titles :: "title_status list" where
  "film_titles = [sample_title 1 Main 5516 (Some ''16/9'')]"

definition film_opts :: options where
  "film_opts = \<lparr>o_retitle = True, o_master_sha256 = Some ''I''\<rparr>"

definition film_world :: "(nat \<Rightarrow> bool) \<Rightarrow> world" where
  "film_world good = sample_world good
     [(''encodes'', Dir), (''encodes/1.mkv'', File ''V''), (''master.iso'', File ''I'')] []
     [(''E'', Dir), (''E/E.mkv'', File ''theirs'')]"


theorem copy_verified_is_verified_witness:
  "\<exists>w'. copy_verified sample_env Work ''master.iso'' Dvd ''E/E.iso'' (Some ''I'') (film_world (\<lambda>_. True)) = (Inr ''I'', w')
     \<and> lookup w' Dvd ''E/E.iso'' = Some (File ''I'')"
proof -
  let ?run = "copy_verified sample_env Work ''master.iso'' Dvd ''E/E.iso'' (Some ''I'') (film_world (\<lambda>_. True))"
  have "fst ?run = Inr ''I''" by code_simp
  then have run: "?run = (Inr ''I'', snd ?run)" by (metis prod.collapse)
  have "e_sha256 sample_env = id" by (simp add: sample_env_def)
  with copy_verified_is_verified [OF run] run show ?thesis by auto
qed

theorem first_publish_installs_witness:
  "\<exists>pb w'. publish sample_env film_spec ''E'' film_titles None 1 film_opts (film_world (\<lambda>_. True)) = (Inr pb, w')
     \<and> (\<exists>recs extra. pb_files pb = recs @ extra \<and> length recs = 1)"
proof -
  let ?run = "publish sample_env film_spec ''E'' film_titles None 1 film_opts (film_world (\<lambda>_. True))"
  let ?l = "\<lparr>l_iso = ''E/E.iso'', l_files = [\<lparr>p_title = 1, p_source = ''encodes/1.mkv'', p_dest = ''E/E.mkv'',
              p_segment_title = ''E''\<rparr>]\<rparr>"
  have "\<not> isl (fst ?run)" by code_simp
  then obtain pb where run: "?run = (Inr pb, snd ?run)" by (metis isl_def sum.exhaust prod.collapse)
  have l: "layout (e_fl sample_env) film_spec ''E'' film_titles = Inr ?l" by code_simp
  have j: "lookup (film_world (\<lambda>_. True)) Work JOURNAL = None" by code_simp
  have "lookup (film_world (\<lambda>_. True)) Work ''encodes/1.mkv'' = Some (File ''V'')" by code_simp
  then have src: "\<exists>c. lookup (film_world (\<lambda>_. True)) Work (p_source p) = Some (File c)" if "p \<in> set (l_files ?l)" for p
    using that by simp
  from first_publish_installs [OF run l j src] obtain recs extra where "pb_files pb = recs @ extra"
    "list_all2 (installed sample_env film_opts (film_world (\<lambda>_. True)) (snd ?run)) (l_files ?l) recs" by blast
  then have "pb_files pb = recs @ extra \<and> length recs = 1" by (auto dest: list_all2_lengthD)
  with run show ?thesis by blast
qed

section \<open>Where a run can go wrong\<close>

text \<open>The ISO is renamed into place before the journal names it. A run that stops in between leaves an ISO
  the next run takes for a stranger's.\<close>

definition iso_world :: "(nat \<Rightarrow> bool) \<Rightarrow> world" where
  "iso_world good = sample_world good [(''master.iso'', File ''I'')] [] []"

definition publish_film :: "world \<Rightarrow> (publish_error + published) \<times> world" where
  "publish_film = publish sample_env film_spec ''E'' [] None 1 film_opts"

definition mended :: "world \<Rightarrow> world" where
  "mended w = w\<lparr>w_ok := (\<lambda>_. True)\<rparr>"


text \<open>Two extras were published as A and B; their names are swapped and both are encoded again.\<close>

definition swap_spec :: disc_spec where
  "swap_spec = film_spec\<lparr>sp_titles := [(''3'', \<lparr>ts_folder = None, ts_name = Some ''B''\<rparr>),
                                     (''4'', \<lparr>ts_folder = None, ts_name = Some ''A''\<rparr>)]\<rparr>"

definition swap_prev :: published where
  "swap_prev = \<lparr>pb_iso = Some ''E/E.iso'',
     pb_files = [\<lparr>pf_title = 3, pf_path = ''E/extras/A.mkv'', pf_segment_title = ''A''\<rparr>,
                 \<lparr>pf_title = 4, pf_path = ''E/extras/B.mkv'', pf_segment_title = ''B''\<rparr>],
     pb_generation = 1, pb_notes = []\<rparr>"

definition swap_world :: world where
  "swap_world = sample_world (\<lambda>_. True)
     [(''encodes'', Dir), (''encodes/3.mkv'', File ''3''), (''encodes/4.mkv'', File ''4'')]
     [(''E'', Dir), (''E/E.iso'', File ''I'')]
     [(''E'', Dir), (''E/extras'', Dir), (''E/extras/A.mkv'', File ''old 3''), (''E/extras/B.mkv'', File ''old 4'')]"

definition swap_run :: "(publish_error + published) \<times> world" where
  "swap_run = publish sample_env swap_spec ''E'' [sample_title 3 Extra 60 None, sample_title 4 Extra 60 None]
     (Some swap_prev) 2 (film_opts\<lparr>o_retitle := False\<rparr>) swap_world"

text \<open>Swapping the names of two extras that are both encoded again loses one. The second
  title's old path is the first one's new path, and is removed after the first was written there: the
  run succeeds and records a file that is not there.\<close>

theorem swapped_names_lose_a_file:
  "case swap_run of (r, w) \<Rightarrow>
     map_sum (\<lambda>e. e) (\<lambda>pb. map (\<lambda>f. (pf_title f, pf_path f)) (pb_files pb)) r
       = Inr [(3, ''E/extras/B.mkv''), (4, ''E/extras/A.mkv'')]
     \<and> lookup w Movies ''E/extras/B.mkv'' = None
     \<and> lookup w Movies ''E/extras/A.mkv'' = Some (File ''4'')"
  by code_simp

end
