(* ===== verification/Controller.thy ===== *)
theory Controller
  imports Crd
begin

text \<open>
  \<^verbatim>\<open>apps/dvdrip/src/controller.rs\<close> and \<^verbatim>\<open>kubeapi.rs\<close>: the phase machine of a disc, against the
  part of the Kubernetes API it uses. A \<open>cluster\<close> holds the objects the API server stores; every
  request is one \<open>call\<close>, which can be answered, lost before it takes effect, or answered with an
  error after it took effect. A merge patch of a status is the function that updates the fields it
  names. What the code reads from elsewhere is in \<open>ctx\<close>: the arguments, the clock (\<open>cx_now\<close>, and
  \<open>cx_age\<close>, the seconds since a timestamp or None when it does not parse), \<^verbatim>\<open>serde_json\<close>'s
  rendering and the environment. Metrics and trace spans are left out.
\<close>

section \<open>Data\<close>

record controller_args =
  a_namespace :: string
  a_image :: string
  a_max_encodes :: nat
  a_encoder :: string
  a_cpu_encoder :: string
  a_gpu_wait_minutes :: int
  a_work_pvc :: string
  a_dvd_pvc :: string
  a_movies_pvc :: string
  a_job_service_account :: string
  a_jellyfin_url :: "string option"
  a_jellyfin_secret :: string

record ctx =
  cx_a :: controller_args
  cx_now :: string
  cx_age :: "string \<Rightarrow> f64 option"
  cx_ser :: "json \<Rightarrow> string"
  cx_env :: "string \<Rightarrow> string option"
  cx_fl :: rounding

datatype next_step =
    Wait int
  | SetPhase phase "string option"
  | StartEncode
  | StartPublish
  | Fail string

datatype job_state_t = JobMissing | JobRunning | JobSucceeded | JobFailed

record job_status =
  js_succeeded :: "int option"
  js_conditions :: "(string \<times> string) list option"

record job =
  jb_name :: string
  jb_labels :: "(string \<times> string) list"
  jb_owner :: string
  jb_spec :: json
  jb_status :: "job_status option"

record pod =
  pd_job_name :: string
  pd_phase :: "string option"
  pd_age :: "f64 option"

datatype call_fault = Fine | Lost | Late

datatype api_error = Unreachable | NotFound | Conflict | Rejected | Panicked

datatype message = Sent string string | SentMedia string

record cluster =
  k_discs :: "(string \<times> disc) list"
  k_jobs :: "job list"
  k_pods :: "pod list"
  k_sent :: "message list"
  k_calls :: nat
  k_faults :: "nat \<Rightarrow> call_fault"

type_synonym 'a api = "(cluster, api_error, 'a) sem"

definition DISC_LABEL :: string where "DISC_LABEL = ''dvd.trdos.me/disc''"
definition STAGE_LABEL :: string where "STAGE_LABEL = ''dvd.trdos.me/stage''"
definition ENCODER_LABEL :: string where "ENCODER_LABEL = ''dvd.trdos.me/encoder''"
definition LEASE :: f64 where "LEASE = 300"

section \<open>The decision\<close>

definition failed_message :: "string \<Rightarrow> disc_status \<Rightarrow> string" where
  "failed_message what st =
     (case st_message st of
        Some m \<Rightarrow> if starts_with m (what @ '' failed'') then m
                  else what @ '' failed (see the Job's log)''
      | None \<Rightarrow> what @ '' failed (see the Job's log)'')"

definition decide ::
  "(json \<Rightarrow> string) \<Rightarrow> disc_spec \<Rightarrow> disc_status \<Rightarrow> job_state_t \<Rightarrow> bool \<Rightarrow> next_step" where
  "decide ser spec st job lease_expired =
     (case st_phase st of
        Detected \<Rightarrow> Wait 60
      | BackingUp \<Rightarrow>
          if lease_expired
          then Fail (''interrupted: ''
                     @ (case st_drive st of Some d \<Rightarrow> d | None \<Rightarrow> ''the drive'')
                     @ '' stopped reporting; reinsert the disc to retry'')
          else Wait 60
      | BackedUp \<Rightarrow>
          if sp_hold spec then SetPhase Held (Some ''held (spec.hold)'') else StartEncode
      | Held \<Rightarrow> if \<not> sp_hold spec then SetPhase BackedUp None else Wait 300
      | Encoding \<Rightarrow>
          (case job of
             JobRunning \<Rightarrow> Wait 60
           | JobSucceeded \<Rightarrow> SetPhase Encoded None
           | JobFailed \<Rightarrow> Fail (failed_message ''encode'' st)
           | JobMissing \<Rightarrow> SetPhase BackedUp (Some ''encode Job vanished; starting again''))
      | Encoded \<Rightarrow> StartPublish
      | Publishing \<Rightarrow>
          (case job of
             JobRunning \<Rightarrow> Wait 30
           | JobSucceeded \<Rightarrow> SetPhase Done None
           | JobFailed \<Rightarrow> Fail (failed_message ''publish'' st)
           | JobMissing \<Rightarrow> SetPhase Encoded None)
      | Done \<Rightarrow>
          if st_encode_key st \<noteq> Some (encode_key ser spec)
          then SetPhase BackedUp (Some ''spec changed: encoding again'')
          else if st_publish_key st \<noteq> Some (publish_key ser spec)
          then SetPhase Encoded (Some ''spec changed: publishing again'')
          else Wait 3600
      | Failed \<Rightarrow> Wait 3600)"

definition job_state :: "job option \<Rightarrow> job_state_t" where
  "job_state job =
     (case job of
        None \<Rightarrow> JobMissing
      | Some j \<Rightarrow>
          (case jb_status j of
             None \<Rightarrow> JobRunning
           | Some s \<Rightarrow>
               if (case js_succeeded s of Some n \<Rightarrow> n | None \<Rightarrow> 0) > 0 then JobSucceeded
               else if (''Failed'', ''True'') \<in> set (case js_conditions s of Some cs \<Rightarrow> cs | None \<Rightarrow> [])
               then JobFailed else JobRunning))"

definition job_name :: "disc \<Rightarrow> string \<Rightarrow> disc_status \<Rightarrow> nat \<Rightarrow> string" where
  "job_name disc stage st n =
     (if is_test disc then ''e2e-'' else []) @ ''dvd-'' @ stage @ ''-'' @ st_fingerprint st @ ''-'' @ nat_str n"

section \<open>Requests\<close>

definition call :: "'a api \<Rightarrow> 'a api" where
  "call m = (\<lambda>k. let k' = k\<lparr>k_calls := Suc (k_calls k)\<rparr>
                 in case k_faults k (k_calls k) of
                      Fine \<Rightarrow> m k'
                    | Lost \<Rightarrow> (Inl Unreachable, k')
                    | Late \<Rightarrow> (Inl Unreachable, snd (m k')))"

definition get_job :: "string \<Rightarrow> job option api" where
  "get_job name = call (gets (\<lambda>k. find (\<lambda>j. jb_name j = name) (k_jobs k)))"

definition create_job :: "job \<Rightarrow> unit api" where
  "create_job j =
     call (\<lambda>k. if jb_name j \<in> set (map jb_name (k_jobs k)) then (Inl Conflict, k)
               else (Inr (), k\<lparr>k_jobs := k_jobs k @ [j]\<rparr>))"

definition delete_job :: "string \<Rightarrow> unit api" where
  "delete_job name =
     call (\<lambda>k. if name \<in> set (map jb_name (k_jobs k))
               then (Inr (), k\<lparr>k_jobs := filter (\<lambda>j. jb_name j \<noteq> name) (k_jobs k)\<rparr>)
               else (Inl NotFound, k))"

definition list_jobs :: "string \<Rightarrow> job list api" where
  "list_jobs stage =
     call (gets (\<lambda>k. filter (\<lambda>j. map_of (jb_labels j) STAGE_LABEL = Some stage) (k_jobs k)))"

definition list_pods :: "string \<Rightarrow> pod list api" where
  "list_pods name = call (gets (\<lambda>k. filter (\<lambda>p. pd_job_name p = name) (k_pods k)))"

text \<open>A patch of an object without a status would leave out required fields: rejected.\<close>

definition patch_disc_status :: "string \<Rightarrow> (disc_status \<Rightarrow> disc_status) \<Rightarrow> unit api" where
  "patch_disc_status name f =
     call (\<lambda>k. case map_of (k_discs k) name of
                 None \<Rightarrow> (Inl NotFound, k)
               | Some d \<Rightarrow>
                   (case d_status d of
                      None \<Rightarrow> (Inl Rejected, k)
                    | Some st \<Rightarrow>
                        (Inr (), k\<lparr>k_discs := AList.update name (d\<lparr>d_status := Some (f st)\<rparr>) (k_discs k)\<rparr>)))"

definition notify_send :: "message \<Rightarrow> unit api" where
  "notify_send m = (\<lambda>k. (Inr (), k\<lparr>k_sent := k_sent k @ [m]\<rparr>))"

section \<open>Timestamps\<close>

definition since_secs :: "ctx \<Rightarrow> string option \<Rightarrow> f64" where
  "since_secs cx t = (case t of None \<Rightarrow> 0 | Some t' \<Rightarrow> (case cx_age cx t' of None \<Rightarrow> 0 | Some a \<Rightarrow> a))"

definition stale :: "ctx \<Rightarrow> string option \<Rightarrow> bool" where
  "stale cx t \<longleftrightarrow> since_secs cx t > LEASE"

section \<open>Jobs\<close>

definition running :: "string \<Rightarrow> nat api" where
  "running stage =
     andthen (list_jobs stage) (\<lambda>l. ret (length (filter (\<lambda>j. job_state (Some j) = JobRunning) l)))"

text \<open>An error of the pod list is "not starved".\<close>

definition gpu_starved :: "ctx \<Rightarrow> job \<Rightarrow> bool api" where
  "gpu_starved cx job =
     (if \<not> starts_with (a_encoder (cx_a cx)) ''nvenc''
         \<or> (case map_of (jb_labels job) ENCODER_LABEL of
              Some e \<Rightarrow> \<not> starts_with e ''nvenc'' | None \<Rightarrow> False)
      then ret False
      else (\<lambda>k. case list_pods (jb_name job) k of
                  (Inl e, k') \<Rightarrow> (Inr False, k')
                | (Inr l, k') \<Rightarrow>
                    (Inr (list_ex (\<lambda>p. pd_phase p = Some ''Pending''
                             \<and> (case pd_age p of Some a \<Rightarrow> a | None \<Rightarrow> 0)
                               > cx_fl cx (of_int ((a_gpu_wait_minutes (cx_a cx) * 60) mod 2 ^ 64))) l), k')))"

definition env_var :: "string \<Rightarrow> string \<Rightarrow> json" where
  "env_var k v = JObj [(''name'', JStr k), (''value'', JStr v)]"

definition job_env :: "ctx \<Rightarrow> string \<Rightarrow> string \<Rightarrow> json list" where
  "job_env cx stage encoder =
     [env_var ''OTEL_SERVICE_NAME'' (''dvdrip-'' @ (if stage = ''e'' then ''encode'' else ''publish''))]
     @ concat (map (\<lambda>k. case cx_env cx k of Some v \<Rightarrow> [env_var k v] | None \<Rightarrow> [])
         [''OTEL_EXPORTER_OTLP_ENDPOINT'', ''RUST_LOG''])
     @ [env_var ''DVDRIP_ENCODER'' encoder]
     @ (if stage = ''p''
        then (case a_jellyfin_url (cx_a cx) of
                None \<Rightarrow> []
              | Some u \<Rightarrow>
                  [env_var ''JELLYFIN_URL'' u,
                   JObj [(''name'', JStr ''JELLYFIN_ADMIN_PASSWORD''),
                         (''valueFrom'', JObj [(''secretKeyRef'',
                            JObj [(''name'', JStr (a_jellyfin_secret (cx_a cx))), (''key'', JStr ''password''),
                                  (''optional'', JBool True)])])]])
        else [])"

definition pvc_volume :: "string \<Rightarrow> (string \<times> json) list \<Rightarrow> json" where
  "pvc_volume name claim = JObj [(''name'', JStr name), (''persistentVolumeClaim'', JObj claim)]"

definition job_volumes :: "controller_args \<Rightarrow> string \<Rightarrow> json list" where
  "job_volumes a stage =
     [pvc_volume ''work'' [(''claimName'', JStr (a_work_pvc a))],
      JObj [(''name'', JStr ''tmp''), (''emptyDir'', JObj [])],
      pvc_volume ''dvd'' [(''claimName'', JStr (a_dvd_pvc a)), (''readOnly'', JBool (stage = ''e''))]]
     @ (if stage = ''p'' then [pvc_volume ''movies'' [(''claimName'', JStr (a_movies_pvc a))]] else [])"

definition volume_mount :: "string \<Rightarrow> string \<Rightarrow> (string \<times> json) list \<Rightarrow> json" where
  "volume_mount name path opts = JObj ([(''name'', JStr name), (''mountPath'', JStr path)] @ opts)"

definition job_mounts :: "string \<Rightarrow> json list" where
  "job_mounts stage =
     [volume_mount ''work'' ''/work'' [], volume_mount ''tmp'' ''/tmp'' [],
      volume_mount ''dvd'' ''/media/dvd'' [(''readOnly'', JBool (stage = ''e''))]]
     @ (if stage = ''p'' then [volume_mount ''movies'' ''/media/movies'' []] else [])"

definition job_resources :: "string \<Rightarrow> bool \<Rightarrow> json" where
  "job_resources stage gpu =
     (let requests = JObj [(''cpu'', JStr (if stage = ''e'' then ''4'' else ''250m'')),
                           (''memory'', JStr (if stage = ''e'' then ''4Gi'' else ''256Mi''))]
      in if gpu
         then JObj [(''requests'', jset requests ''nvidia.com/gpu'' (JStr ''1'')),
                    (''limits'', JObj [(''nvidia.com/gpu'', JStr ''1'')])]
         else JObj [(''requests'', requests)])"

definition job_tolerations :: "bool \<Rightarrow> json list" where
  "job_tolerations gpu =
     (if gpu then [JObj [(''key'', JStr ''nvidia.com/gpu''), (''operator'', JStr ''Exists''),
                         (''effect'', JStr ''NoSchedule'')]] else [])
     @ [JObj [(''key'', JStr ''node.trdos.me/class''), (''operator'', JStr ''Equal''),
              (''value'', JStr ''desktop''), (''effect'', JStr ''PreferNoSchedule'')]]"

text \<open>The owner reference needs the object's uid: its \<^verbatim>\<open>unwrap\<close> panics without one (None).\<close>

definition job_spec :: "ctx \<Rightarrow> disc \<Rightarrow> disc_status \<Rightarrow> string \<Rightarrow> nat \<Rightarrow> bool \<Rightarrow> job option" where
  "job_spec cx disc st stage n cpu =
     (let a = cx_a cx;
          disc_ref = (case d_namespace disc of Some ns \<Rightarrow> ns | None \<Rightarrow> a_namespace a) @ ''/'' @ d_name disc;
          encoder = (if cpu then a_cpu_encoder a else a_encoder a);
          gpu = (stage = ''e'' \<and> starts_with encoder ''nvenc'');
          command = (if stage = ''e'' then ''encode'' else ''publish'');
          container = JObj
            [(''name'', JStr command), (''image'', JStr (a_image a)),
             (''args'', JArr [JStr command, JStr ''--disc'', JStr disc_ref]),
             (''env'', JArr (job_env cx stage encoder)), (''resources'', job_resources stage gpu),
             (''securityContext'', JObj [(''allowPrivilegeEscalation'', JBool False)]),
             (''volumeMounts'', JArr (job_mounts stage))];
          pod_spec = JObj
            ([(''restartPolicy'', JStr ''Never''), (''serviceAccountName'', JStr (a_job_service_account a)),
              (''nodeSelector'', JObj (if gpu then [(''nvidia.com/gpu.present'', JStr ''true'')] else [])),
              (''tolerations'', JArr (job_tolerations gpu)),
              (''hostAliases'', JArr [JObj [(''ip'', JStr ''100.64.0.1''),
                 (''hostnames'', JArr [JStr ''ntfy.trdos.me''])]]),
              (''containers'', JArr [container]), (''volumes'', JArr (job_volumes a stage))]
             @ (if gpu then [(''runtimeClassName'', JStr ''nvidia'')] else []));
          spec = JObj
            [(''backoffLimit'', JInt 0), (''ttlSecondsAfterFinished'', JInt 86400),
             (''template'', JObj
               [(''metadata'', JObj [(''labels'', JObj [(DISC_LABEL, JStr (d_name disc)), (STAGE_LABEL, JStr stage)])]),
                (''spec'', pod_spec)])]
      in case d_uid disc of
           None \<Rightarrow> None
         | Some uid \<Rightarrow> Some
             \<lparr>jb_name = job_name disc stage st n,
              jb_labels = [(DISC_LABEL, d_name disc), (STAGE_LABEL, stage),
                           (ENCODER_LABEL, if stage = ''e'' then encoder else ''none'')],
              jb_owner = uid, jb_spec = spec, jb_status = None\<rparr>)"

definition start_job :: "ctx \<Rightarrow> disc \<Rightarrow> disc_status \<Rightarrow> string \<Rightarrow> nat \<Rightarrow> bool \<Rightarrow> unit api" where
  "start_job cx disc st stage n cpu =
     (case job_spec cx disc st stage n cpu of
        None \<Rightarrow> throw Panicked
      | Some j \<Rightarrow> (\<lambda>k. case create_job j k of
                         (Inl Conflict, k') \<Rightarrow> (Inr (), k')
                       | r \<Rightarrow> r))"

section \<open>One pass over a disc\<close>

definition retry_phase :: "disc_status \<Rightarrow> phase" where
  "retry_phase st =
     (if st_phase st \<noteq> Failed then st_phase st
      else if st_backup st \<noteq> None then BackedUp else Detected)"

text \<open>What a change of phase patches, and what it tells people first.\<close>

definition phase_patch ::
  "ctx \<Rightarrow> disc \<Rightarrow> disc_status \<Rightarrow> phase \<Rightarrow> string option \<Rightarrow> disc_status \<Rightarrow> disc_status" where
  "phase_patch cx disc st p msg s =
     (let s = s\<lparr>st_phase := p, st_since := Some (cx_now cx)\<rparr>;
          s = (case msg of Some m \<Rightarrow> s\<lparr>st_message := Some m\<rparr> | None \<Rightarrow> s)
      in case p of
           Encoded \<Rightarrow> s\<lparr>st_encode_key := Some (encode_key (cx_ser cx) (d_spec disc))\<rparr>
         | Done \<Rightarrow>
             let s = s\<lparr>st_publish_key := Some (publish_key (cx_ser cx) (d_spec disc))\<rparr>
             in (case st_summary st of Some m \<Rightarrow> s\<lparr>st_message := Some m\<rparr> | None \<Rightarrow> s)
         | _ \<Rightarrow> s)"

definition announce :: "disc \<Rightarrow> disc_status \<Rightarrow> phase \<Rightarrow> unit api" where
  "announce disc st p =
     whenever (p = Done)
       (andthen (case st_summary st of Some m \<Rightarrow> notify_send (Sent m ''done'') | None \<Rightarrow> ret ())
         (\<lambda>_. for_each (case st_published st of Some pb \<Rightarrow> pb_notes pb | None \<Rightarrow> [])
                (\<lambda>note. notify_send (SentMedia (sp_name (d_spec disc) @ '': '' @ note)))))"

definition act :: "ctx \<Rightarrow> disc \<Rightarrow> disc_status \<Rightarrow> next_step \<Rightarrow> int api" where
  "act cx disc st nx =
     (case nx of
        Wait d \<Rightarrow> ret d
      | SetPhase p msg \<Rightarrow>
          andthen (announce disc st p)
            (\<lambda>_. andthen (patch_disc_status (d_name disc) (phase_patch cx disc st p msg)) (\<lambda>_. ret 1))
      | StartEncode \<Rightarrow>
          andthen (running ''e'')
            (\<lambda>r. if r \<ge> a_max_encodes (cx_a cx) then ret 30
                 else let n = st_attempts st + 1
                      in andthen (start_job cx disc (st\<lparr>st_attempts := n\<rparr>) ''e'' n False)
                           (\<lambda>_. andthen (patch_disc_status (d_name disc)
                                  (\<lambda>s. s\<lparr>st_phase := Encoding, st_attempts := n,
                                         st_message := Some ''encoding'', st_since := Some (cx_now cx)\<rparr>))
                                  (\<lambda>_. ret 60)))
      | StartPublish \<Rightarrow>
          let n = st_attempts st + 1
          in andthen (start_job cx disc (st\<lparr>st_attempts := n\<rparr>) ''p'' n False)
               (\<lambda>_. andthen (patch_disc_status (d_name disc)
                      (\<lambda>s. s\<lparr>st_phase := Publishing, st_attempts := n, st_since := Some (cx_now cx)\<rparr>))
                      (\<lambda>_. ret 30))
      | Fail msg \<Rightarrow>
          andthen (notify_send (Sent (sp_name (d_spec disc) @ '': '' @ msg) ''failed''))
            (\<lambda>_. andthen (patch_disc_status (d_name disc)
                   (\<lambda>s. s\<lparr>st_phase := Failed, st_message := Some msg, st_since := Some (cx_now cx)\<rparr>))
                   (\<lambda>_. ret 3600)))"

definition fall_back_to_cpu :: "ctx \<Rightarrow> disc \<Rightarrow> disc_status \<Rightarrow> job \<Rightarrow> int api" where
  "fall_back_to_cpu cx disc st job =
     andthen (ignore (delete_job (jb_name job)))
       (\<lambda>_. andthen (start_job cx disc st ''e'' (st_attempts st + 1) True)
         (\<lambda>_. andthen (patch_disc_status (d_name disc)
                (\<lambda>s. s\<lparr>st_attempts := st_attempts st + 1,
                       st_message := Some (''no GPU free for '' @ int_str (a_gpu_wait_minutes (cx_a cx))
                          @ '' min: encoding with '' @ a_cpu_encoder (cx_a cx))\<rparr>))
                (\<lambda>_. ret 60)))"

definition stage_of :: "phase \<Rightarrow> string" where
  "stage_of p = (case p of Encoding \<Rightarrow> ''e'' | Publishing \<Rightarrow> ''p'' | _ \<Rightarrow> [])"

definition apply_disc :: "ctx \<Rightarrow> disc \<Rightarrow> int api" where
  "apply_disc cx disc =
     (case d_status disc of
        None \<Rightarrow> ret 60
      | Some st \<Rightarrow>
          if sp_retry (d_spec disc) > st_observed_retry st
          then andthen (patch_disc_status (d_name disc)
                 (\<lambda>s. s\<lparr>st_observed_retry := sp_retry (d_spec disc), st_phase := retry_phase st,
                        st_message := Some ''retrying'', st_since := Some (cx_now cx)\<rparr>))
                 (\<lambda>_. ret 1)
          else
            andthen (if stage_of (st_phase st) = [] then ret None
                     else get_job (job_name disc (stage_of (st_phase st)) st (st_attempts st)))
              (\<lambda>job.
                let lease_expired = (st_phase st = BackingUp
                      \<and> stale cx (if st_heartbeat st \<noteq> None then st_heartbeat st else st_since st));
                    go = act cx disc st (decide (cx_ser cx) (d_spec disc) st (job_state job) lease_expired)
                in case job of
                     Some j \<Rightarrow>
                       if st_phase st = Encoding \<and> job_state job = JobRunning
                       then andthen (gpu_starved cx j)
                              (\<lambda>starved. if starved then fall_back_to_cpu cx disc st j else go)
                       else go
                   | None \<Rightarrow> go))"

section \<open>What a request keeps\<close>

definition status_at :: "cluster \<Rightarrow> string \<Rightarrow> disc_status option" where
  "status_at k n = Option.bind (map_of (k_discs k) n) d_status"

lemma status_at_frame [simp]:
  "status_at (k\<lparr>k_calls := c\<rparr>) n = status_at k n" "status_at (k\<lparr>k_sent := l\<rparr>) n = status_at k n"
  "status_at (k\<lparr>k_jobs := js\<rparr>) n = status_at k n"
  by (simp_all add: status_at_def)

lemma keeps_call [keeps_intros]:
  assumes "\<And>k c. P (k\<lparr>k_calls := c\<rparr>) = P k" and "keeps P m Q"
  shows "keeps P (call m) Q"
  using assms by (auto simp: keeps_def call_def Let_def split: call_fault.splits)

lemma keeps_notify [keeps_intros]:
  "(\<And>k l. P (k\<lparr>k_sent := l\<rparr>) = P k) \<Longrightarrow> Q () \<Longrightarrow> keeps P (notify_send m) Q"
  by (simp add: keeps_def notify_send_def)

text \<open>A predicate on the discs alone, and one on the jobs alone.\<close>

lemma keeps_reads:
  assumes "\<And>k c. P (k\<lparr>k_calls := c\<rparr>) = P k"
  shows "keeps P (get_job n) (\<lambda>_. True)" "keeps P (list_jobs g) (\<lambda>_. True)"
    "keeps P (list_pods n) (\<lambda>_. True)"
  unfolding get_job_def list_jobs_def list_pods_def using assms by (auto intro!: keeps_intros)

lemma keeps_patch:
  assumes "\<And>st. Q st \<Longrightarrow> Q (f st)"
  shows "keeps (\<lambda>k. (\<exists>st. status_at k n = Some st \<and> Q st)
                  \<and> (\<forall>m. m \<noteq> n \<longrightarrow> map_of (k_discs k) m = map_of ds m))
           (patch_disc_status n f) (\<lambda>_. True)"
  unfolding patch_disc_status_def
proof (intro keeps_call)
  let ?P = "\<lambda>k. (\<exists>st. status_at k n = Some st \<and> Q st)
                \<and> (\<forall>m. m \<noteq> n \<longrightarrow> map_of (k_discs k) m = map_of ds m)"
  show "keeps ?P (\<lambda>k. case map_of (k_discs k) n of None \<Rightarrow> (Inl NotFound, k)
      | Some d \<Rightarrow> (case d_status d of None \<Rightarrow> (Inl Rejected, k)
         | Some st \<Rightarrow> (Inr (), k\<lparr>k_discs := AList.update n (d\<lparr>d_status := Some (f st)\<rparr>) (k_discs k)\<rparr>)))
      (\<lambda>_. True)"
    using assms by (auto simp: keeps_def status_at_def update_conv' split: option.splits)
qed (simp add: status_at_def)

lemma keeps_jobs_call:
  "keeps (\<lambda>k. P (k_discs k)) (create_job j) (\<lambda>_. True)"
  "keeps (\<lambda>k. P (k_discs k)) (delete_job x) (\<lambda>_. True)"
  unfolding create_job_def delete_job_def
  by (rule keeps_call; simp add: keeps_def)+

lemma keeps_start_job:
  "keeps (\<lambda>k. P (k_discs k)) (start_job cx d st g n c) (\<lambda>_. True)"
proof (cases "job_spec cx d st g n c")
  case None
  then show ?thesis by (simp add: start_job_def keeps_throw)
next
  case (Some j)
  have "keeps (\<lambda>k. P (k_discs k)) (create_job j) (\<lambda>_. True)" by (rule keeps_jobs_call)
  with Some show ?thesis
    by (auto simp: start_job_def keeps_def split: prod.splits sum.splits api_error.splits)
qed

lemma keeps_gpu_starved:
  assumes "\<And>k c. P (k\<lparr>k_calls := c\<rparr>) = P k"
  shows "keeps P (gpu_starved cx j) (\<lambda>_. True)"
  using keeps_reads (3) [OF assms, of "jb_name j"]
  by (auto simp: gpu_starved_def keeps_def ret_def split: prod.splits sum.splits)

section \<open>The transitions of a phase\<close>

definition successors :: "phase \<Rightarrow> phase set" where
  "successors p =
     (case p of
        Detected \<Rightarrow> {}
      | BackingUp \<Rightarrow> {Failed}
      | BackedUp \<Rightarrow> {Held, Encoding}
      | Held \<Rightarrow> {BackedUp}
      | Encoding \<Rightarrow> {BackedUp, Encoded, Failed}
      | Encoded \<Rightarrow> {Publishing}
      | Publishing \<Rightarrow> {Encoded, Done, Failed}
      | Done \<Rightarrow> {BackedUp, Encoded}
      | Failed \<Rightarrow> {})"

lemma decide_successors:
  "decide ser spec st js le = SetPhase p msg \<Longrightarrow> p \<in> successors (st_phase st)"
  "decide ser spec st js le = StartEncode \<Longrightarrow> Encoding \<in> successors (st_phase st)"
  "decide ser spec st js le = StartPublish \<Longrightarrow> Publishing \<in> successors (st_phase st)"
  "decide ser spec st js le = Fail why \<Longrightarrow> Failed \<in> successors (st_phase st)"
  by (auto simp: decide_def successors_def split: phase.splits if_splits job_state_t.splits)

lemma phase_patch_phase [simp]: "st_phase (phase_patch cx d st p msg s) = p"
  by (cases p) (auto simp: phase_patch_def Let_def split: option.splits)

text \<open>The shape of the statements below: the patched disc's status satisfies \<open>Q\<close>, no other disc is
  touched.\<close>

abbreviation only_status :: "string \<Rightarrow> (string \<times> disc) list \<Rightarrow> (disc_status \<Rightarrow> bool) \<Rightarrow> cluster \<Rightarrow> bool" where
  "only_status n ds Q k \<equiv> (\<exists>st. status_at k n = Some st \<and> Q st)
                         \<and> (\<forall>m. m \<noteq> n \<longrightarrow> map_of (k_discs k) m = map_of ds m)"

lemma keeps_start_job_only:
  "keeps (only_status n ds Q) (start_job cx d st g i c) (\<lambda>_. True)"
  using keeps_start_job [of "\<lambda>l. (\<exists>st. Option.bind (map_of l n) d_status = Some st \<and> Q st)
          \<and> (\<forall>m. m \<noteq> n \<longrightarrow> map_of l m = map_of ds m)"]
  by (simp add: status_at_def)

lemma keeps_delete_only: "keeps (only_status n ds Q) (delete_job x) (\<lambda>_. True)"
  using keeps_jobs_call (2) [of "\<lambda>l. (\<exists>st. Option.bind (map_of l n) d_status = Some st \<and> Q st)
          \<and> (\<forall>m. m \<noteq> n \<longrightarrow> map_of l m = map_of ds m)"]
  by (simp add: status_at_def)

lemma keeps_announce: "keeps (only_status n ds Q) (announce d st p) (\<lambda>_. True)"
  unfolding announce_def by (intro keeps_intros) (simp_all add: status_at_def)

lemma only_status_calls [simp]:
  "only_status n ds Q (k\<lparr>k_calls := c\<rparr>) = only_status n ds Q k"
  by (simp add: status_at_def)

lemma keeps_act:
  assumes "\<And>p msg. nx = SetPhase p msg \<Longrightarrow> p \<in> S" and "nx = StartEncode \<Longrightarrow> Encoding \<in> S"
    and "nx = StartPublish \<Longrightarrow> Publishing \<in> S" and "\<And>m. nx = Fail m \<Longrightarrow> Failed \<in> S"
  shows "keeps (only_status (d_name d) ds (\<lambda>s. st_phase s \<in> insert p0 S)) (act cx d st nx) (\<lambda>_. True)"
  using assms unfolding act_def running_def
  by (cases nx)
     (auto intro!: keeps_intros keeps_patch keeps_announce keeps_start_job_only keeps_reads
           simp: Let_def)

lemma keeps_fall_back:
  assumes "\<And>s a m. Q s \<Longrightarrow> Q (s\<lparr>st_attempts := a, st_message := m\<rparr>)"
  shows "keeps (only_status (d_name d) ds Q) (fall_back_to_cpu cx d st j) (\<lambda>_. True)"
  using assms unfolding fall_back_to_cpu_def
  by (auto intro!: keeps_intros keeps_patch keeps_delete_only keeps_start_job_only)

lemma keeps_apply:
  assumes "d_status d = Some st"
  shows "keeps (only_status (d_name d) ds (\<lambda>s. st_phase s \<in> insert (st_phase st) (successors (st_phase st)
             \<union> (if sp_retry (d_spec d) > st_observed_retry st \<and> st_phase st = Failed
                then {BackedUp, Detected} else {})))) (apply_disc cx d) (\<lambda>_. True)"
proof (cases "sp_retry (d_spec d) > st_observed_retry st")
  case True
  with assms show ?thesis
    by (auto simp: apply_disc_def retry_phase_def intro!: keeps_intros keeps_patch)
next
  case False
  define P where
    "P = only_status (d_name d) ds (\<lambda>s. st_phase s \<in> insert (st_phase st) (successors (st_phase st)))"
  have act: "keeps P (act cx d st (decide (cx_ser cx) (d_spec d) st js le)) (\<lambda>_. True)" for js le
    unfolding P_def by (rule keeps_act) (auto dest: decide_successors)
  have fallback: "keeps P (fall_back_to_cpu cx d st j) (\<lambda>_. True)" for j
    unfolding P_def by (rule keeps_fall_back) simp
  have calls: "P (k\<lparr>k_calls := c\<rparr>) = P k" for k c by (simp add: P_def)
  have "keeps P (apply_disc cx d) (\<lambda>_. True)"
    unfolding apply_disc_def assms option.case Let_def if_not_P [OF False]
    by (intro keeps_andthen_any keeps_if keeps_case_option keeps_reads keeps_gpu_starved
        keeps_ret act fallback calls TrueI)
  with False show ?thesis by (simp add: P_def)
qed

section \<open>Properties\<close>

text \<open>Property C12: whatever requests fail, a pass of the controller over a disc changes no other disc,
  and moves this one along an edge of the phase machine or leaves its phase alone; a failed disc
  moves only when its spec asks for a retry.\<close>

theorem pass_transitions:
  assumes "map_of (k_discs k) (d_name d) = Some d" and "d_status d = Some st"
    and k': "k' = snd (apply_disc cx d k)"
  shows "(\<exists>st'. status_at k' (d_name d) = Some st'
            \<and> st_phase st' \<in> insert (st_phase st) (successors (st_phase st)
                 \<union> (if sp_retry (d_spec d) > st_observed_retry st \<and> st_phase st = Failed
                    then {BackedUp, Detected} else {})))
         \<and> (\<forall>m. m \<noteq> d_name d \<longrightarrow> map_of (k_discs k') m = map_of (k_discs k) m)"
  unfolding k'
  using keepsD [OF keeps_apply [OF assms (2), of "k_discs k" cx], of k] assms (1,2)
  by (simp add: status_at_def)

text \<open>A disc that is done is left alone exactly when no field the encode or the publish
  depends on differs from the one recorded; a change to the encode's fields wins over one to the
  layout's.\<close>

theorem done_waits_iff_unchanged:
  assumes "inj ser" and "st_phase st = Done"
    and "st_encode_key st = Some (encode_key ser used)" and "st_publish_key st = Some (publish_key ser laid)"
  shows "decide ser spec st js le =
     (if sp_main_title spec \<noteq> sp_main_title used \<or> sp_protected spec \<noteq> sp_protected used
      then SetPhase BackedUp (Some ''spec changed: encoding again'')
      else if sp_name spec \<noteq> sp_name laid \<or> sp_disc spec \<noteq> sp_disc laid \<or> sp_titles spec \<noteq> sp_titles laid
      then SetPhase Encoded (Some ''spec changed: publishing again'')
      else Wait 3600)"
  using assms (2-4) encode_key_eq_iff [OF assms (1)] publish_key_eq_iff [OF assms (1)]
  by (auto simp: decide_def)

text \<open>A failed disc costs the API nothing and stays as it is until the spec's retry
  counter passes the one that was seen.\<close>

theorem failed_waits_for_retry:
  assumes "d_status d = Some st" and "st_phase st = Failed" and "sp_retry (d_spec d) \<le> st_observed_retry st"
  shows "apply_disc cx d k = (Inr 3600, k)"
  using assms by (simp add: apply_disc_def stage_of_def decide_def act_def ret_apply)

section \<open>Starting a job exactly once\<close>

text \<open>A pass over the stored object, and any number of them: each reads the disc as it is stored.\<close>

definition pass :: "ctx \<Rightarrow> string \<Rightarrow> cluster \<Rightarrow> cluster" where
  "pass cx n k = (case map_of (k_discs k) n of None \<Rightarrow> k | Some d \<Rightarrow> snd (apply_disc cx d k))"

definition passes :: "ctx list \<Rightarrow> string \<Rightarrow> cluster \<Rightarrow> cluster" where
  "passes cxs n k = foldl (\<lambda>k cx. pass cx n k) k cxs"

text \<open>How far the start of an encode has come: before it, with the Job created, with the status
  patched.\<close>

definition encoding_next :: "disc \<Rightarrow> disc_status \<Rightarrow> disc \<Rightarrow> bool" where
  "encoding_next d st d' \<longleftrightarrow>
     d' = d\<lparr>d_status := d_status d'\<rparr>
     \<and> (case d_status d' of
          None \<Rightarrow> False
        | Some s \<Rightarrow> st_phase s = Encoding \<and> st_attempts s = st_attempts st + 1
            \<and> st_fingerprint s = st_fingerprint st \<and> st_observed_retry s = st_observed_retry st)"

definition starting :: "job list \<Rightarrow> disc \<Rightarrow> disc_status \<Rightarrow> cluster \<Rightarrow> bool" where
  "starting jobs d st k \<longleftrightarrow>
     list_all (\<lambda>p. pd_phase p \<noteq> Some ''Pending'') (k_pods k)
     \<and> (\<exists>new d'. k_jobs k = jobs @ new
          \<and> list_all (\<lambda>j. jb_name j = job_name d ''e'' st (st_attempts st + 1) \<and> jb_status j = None) new
          \<and> length new \<le> 1 \<and> map_of (k_discs k) (d_name d) = Some d'
          \<and> (d' = d \<or> new \<noteq> [] \<and> encoding_next d st d'))"

lemma job_name_status [simp]:
  "job_name (d\<lparr>d_status := s\<rparr>) g st n = job_name d g st n"
  "job_name d g (st\<lparr>st_attempts := a\<rparr>) g' = job_name d g st g'"
  by (simp_all add: job_name_def is_test_def)

lemma job_spec_name:
  "job_spec cx d st g n c = Some j \<Longrightarrow> jb_name j = job_name d g st n \<and> jb_status j = None"
  by (auto simp: job_spec_def Let_def split: option.splits)

lemma starting_calls: "starting jobs d st (k\<lparr>k_calls := c\<rparr>) = starting jobs d st k"
  by (simp add: starting_def)

lemma start_encode_starting:
  assumes st: "d_status d = Some st" "st_phase st = BackedUp" and hold: "\<not> sp_hold (d_spec d)"
    and retry: "sp_retry (d_spec d) \<le> st_observed_retry st"
    and fresh: "job_name d ''e'' st (st_attempts st + 1) \<notin> set (map jb_name jobs)"
    and k: "starting jobs d st k" "map_of (k_discs k) (d_name d) = Some d"
  shows "starting jobs d st (snd (apply_disc cx d k))"
proof -
  let ?n = "st_attempts st + 1"
  let ?patch = "\<lambda>s. s\<lparr>st_phase := Encoding, st_attempts := ?n, st_message := Some ''encoding'',
                       st_since := Some (cx_now cx)\<rparr>"
  have pass: "apply_disc cx d = act cx d st StartEncode"
    using st hold retry by (simp add: apply_disc_def stage_of_def decide_def)
  have patch: "starting jobs d st (snd (patch_disc_status (d_name d) ?patch k1))"
    if "starting jobs d st k1" "map_of (k_discs k1) (d_name d) = Some d" "k_jobs k1 \<noteq> jobs" for k1
    using that st (1)
    by (auto simp: patch_disc_status_def call_def Let_def starting_def encoding_next_def update_conv'
        split: call_fault.splits)
  have start: "case start_job cx d (st\<lparr>st_attempts := ?n\<rparr>) ''e'' ?n False k1 of
      (r, k2) \<Rightarrow> starting jobs d st k2 \<and> map_of (k_discs k2) (d_name d) = Some d
                 \<and> (r = Inr () \<longrightarrow> k_jobs k2 \<noteq> jobs)"
    if k1: "starting jobs d st k1" "map_of (k_discs k1) (d_name d) = Some d" for k1
  proof (cases "job_spec cx d (st\<lparr>st_attempts := ?n\<rparr>) ''e'' ?n False")
    case None
    with k1 show ?thesis by (simp add: start_job_def throw_apply)
  next
    case (Some j)
    from job_spec_name [OF this] have j: "jb_name j = job_name d ''e'' st ?n" "jb_status j = None" by simp_all
    from k1 obtain new where new: "k_jobs k1 = jobs @ new" "length new \<le> 1"
      "list_all (\<lambda>j. jb_name j = job_name d ''e'' st ?n \<and> jb_status j = None) new"
      by (auto simp: starting_def)
    then have "new = [] \<or> (\<exists>j0. new = [j0] \<and> jb_name j0 = job_name d ''e'' st ?n)" by (cases new) auto
    with Some k1 fresh j new show ?thesis
      by (auto simp: start_job_def create_job_def call_def Let_def starting_def
          split: call_fault.splits if_splits)
  qed
  show ?thesis
  proof (cases "running ''e'' k")
    case (Pair r k1)
    then have k1: "starting jobs d st k1" "map_of (k_discs k1) (d_name d) = Some d"
      using k
      by (auto simp: starting_calls running_def list_jobs_def call_def andthen_def gets_def ret_def Let_def
          split: call_fault.splits)
    obtain r2 k2 where k2: "start_job cx d (st\<lparr>st_attempts := ?n\<rparr>) ''e'' ?n False k1 = (r2, k2)"
      by fastforce
    with start [OF k1] patch [of k2] k1 Pair show ?thesis
      unfolding pass act_def
      by (cases r; cases r2) (auto simp: andthen_def ret_def Let_def split: prod.splits sum.splits)
  qed
qed

lemma encoding_starting:
  assumes k: "starting jobs d st k" and d': "map_of (k_discs k) (d_name d) = Some d'" "d' \<noteq> d"
    and retry: "sp_retry (d_spec d) \<le> st_observed_retry st"
    and fresh: "job_name d ''e'' st (st_attempts st + 1) \<notin> set (map jb_name jobs)"
  shows "starting jobs d st (snd (apply_disc cx d' k))"
proof -
  from k d' obtain s new where s: "d' = d\<lparr>d_status := Some s\<rparr>" "st_phase s = Encoding"
      "st_attempts s = st_attempts st + 1" "st_fingerprint s = st_fingerprint st"
      "st_observed_retry s = st_observed_retry st"
    and new: "k_jobs k = jobs @ new" "new \<noteq> []" "length new \<le> 1"
      "list_all (\<lambda>j. jb_name j = job_name d ''e'' st (st_attempts st + 1) \<and> jb_status j = None) new"
    and pods: "list_all (\<lambda>p. pd_phase p \<noteq> Some ''Pending'') (k_pods k)"
    by (auto simp: starting_def encoding_next_def split: option.splits)
  let ?name = "job_name d ''e'' st (st_attempts st + 1)"
  from new obtain j where j: "new = [j]" "jb_name j = ?name" "jb_status j = None"
    by (cases new) auto
  have name: "job_name d' ''e'' s (st_attempts s) = ?name"
    using s by (simp add: job_name_def is_test_def)
  have "find (\<lambda>j. jb_name j = ?name) (jobs @ [j]) = Some j"
    using fresh j by (induction jobs) auto
  then have get: "get_job ?name k \<in> {(Inr (Some j), k\<lparr>k_calls := Suc (k_calls k)\<rparr>),
      (Inl Unreachable, k\<lparr>k_calls := Suc (k_calls k)\<rparr>)}"
    using new j by (auto simp: get_job_def call_def gets_def Let_def split: call_fault.splits)
  have starved: "gpu_starved cx j k1 = (Inr False, k1\<lparr>k_calls := k_calls (snd (gpu_starved cx j k1))\<rparr>)"
    if "k_pods k1 = k_pods k" for k1
    using pods that
    by (auto simp: gpu_starved_def list_pods_def call_def gets_def Let_def ret_def list_ex_iff list_all_iff
        split: call_fault.splits prod.splits sum.splits)
  have "snd (apply_disc cx d' k) = k\<lparr>k_calls := k_calls (snd (apply_disc cx d' k))\<rparr>"
    using s get retry j starved [of "k\<lparr>k_calls := Suc (k_calls k)\<rparr>"] name
    by (auto simp: apply_disc_def stage_of_def andthen_def job_state_def decide_def act_def ret_def
        split: prod.splits)
  then have "starting jobs d st (snd (apply_disc cx d' k)) = starting jobs d st k"
    by (metis (no_types) starting_calls)
  with k show ?thesis by simp
qed

text \<open>An invariant of a step carries over any sequence of steps.\<close>

locale invariant_step =
  fixes step :: "'x \<Rightarrow> 's \<Rightarrow> 's" and inv :: "'s \<Rightarrow> bool"
  assumes step_inv: "inv s \<Longrightarrow> inv (step x s)"
begin

lemma steps_inv: "inv s \<Longrightarrow> inv (foldl (\<lambda>s x. step x s) s xs)"
  by (induction xs arbitrary: s) (simp_all add: step_inv)

end

text \<open>A disc that is ready to be encoded, with no Job of the next number yet.\<close>

definition startable :: "job list \<Rightarrow> disc \<Rightarrow> disc_status \<Rightarrow> bool" where
  "startable jobs d st \<longleftrightarrow>
     d_status d = Some st \<and> st_phase st = BackedUp \<and> \<not> sp_hold (d_spec d)
     \<and> sp_retry (d_spec d) \<le> st_observed_retry st
     \<and> job_name d ''e'' st (st_attempts st + 1) \<notin> set (map jb_name jobs)"

lemma pass_starting:
  assumes "startable jobs d st" and "starting jobs d st k"
  shows "starting jobs d st (pass cx (d_name d) k)"
proof -
  from assms obtain d' where d': "map_of (k_discs k) (d_name d) = Some d'"
    by (auto simp: starting_def)
  show ?thesis
  proof (cases "d' = d")
    case True
    with assms d' show ?thesis
      by (auto simp: pass_def startable_def intro: start_encode_starting)
  next
    case False
    with assms d' show ?thesis
      by (auto simp: pass_def startable_def intro: encoding_starting)
  qed
qed

interpretation start_encode: invariant_step "\<lambda>cx. pass cx (d_name d)"
    "\<lambda>k. startable jobs d st \<and> starting jobs d st k" for jobs d st
  by unfold_locales (auto intro: pass_starting)


section \<open>A run without faults\<close>

definition fine :: "cluster \<Rightarrow> bool" where
  "fine k \<longleftrightarrow> k_faults k = (\<lambda>_. Fine)"

text \<open>What others do to the cluster: a Job succeeds, a person edits the spec.\<close>

definition finish_job :: "string \<Rightarrow> cluster \<Rightarrow> cluster" where
  "finish_job name k =
     k\<lparr>k_jobs := map (\<lambda>j. if jb_name j = name
                         then j\<lparr>jb_status := Some \<lparr>js_succeeded = Some 1, js_conditions = None\<rparr>\<rparr>
                         else j) (k_jobs k)\<rparr>"

definition edit_spec :: "string \<Rightarrow> disc_spec \<Rightarrow> cluster \<Rightarrow> cluster" where
  "edit_spec n s k =
     (case map_of (k_discs k) n of
        None \<Rightarrow> k
      | Some d \<Rightarrow> k\<lparr>k_discs := AList.update n (d\<lparr>d_spec := s\<rparr>) (k_discs k)\<rparr>)"

text \<open>The stored disc and its status, on a cluster that answers.\<close>

definition stored :: "cluster \<Rightarrow> disc \<Rightarrow> disc_status \<Rightarrow> bool" where
  "stored k d st \<longleftrightarrow> fine k \<and> map_of (k_discs k) (d_name d) = Some d \<and> d_status d = Some st
     \<and> sp_retry (d_spec d) \<le> st_observed_retry st"

lemma call_fine: "fine k \<Longrightarrow> call m k = m (k\<lparr>k_calls := Suc (k_calls k)\<rparr>)"
  by (simp add: call_def fine_def)

lemma fine_frame [simp]:
  "fine (k\<lparr>k_calls := c\<rparr>) = fine k" "fine (k\<lparr>k_jobs := js\<rparr>) = fine k"
  "fine (k\<lparr>k_discs := ds\<rparr>) = fine k" "fine (k\<lparr>k_sent := l\<rparr>) = fine k"
  by (simp_all add: fine_def)

lemma patch_fine:
  assumes "stored k d st"
  shows "patch_disc_status (d_name d) f k = (Inr (), k\<lparr>k_calls := Suc (k_calls k),
           k_discs := AList.update (d_name d) (d\<lparr>d_status := Some (f st)\<rparr>) (k_discs k)\<rparr>)"
  using assms by (simp add: patch_disc_status_def call_fine stored_def)

lemma job_spec_some: "d_uid d = Some uid \<Longrightarrow> \<exists>j. job_spec cx d st g n c = Some j"
  by (auto simp: job_spec_def Let_def)

lemma start_job_fine:
  assumes "fine k" and "d_uid d = Some uid" and "job_name d g st n \<notin> set (map jb_name (k_jobs k))"
  shows "\<exists>j. jb_name j = job_name d g st n \<and> start_job cx d st g n c k =
    (Inr (), k\<lparr>k_calls := Suc (k_calls k), k_jobs := k_jobs k @ [j]\<rparr>)"
proof -
  obtain j where j: "job_spec cx d st g n c = Some j"
    using job_spec_some [OF assms (2)] by blast
  with job_spec_name [OF j] assms show ?thesis
    by (intro exI [of _ j]) (simp add: start_job_def create_job_def call_fine)
qed

lemma stored_update:
  "fine k \<Longrightarrow> k_discs k = AList.update (d_name d) d' ds \<Longrightarrow> d_name d' = d_name d \<Longrightarrow>
   d_status d' = Some st \<Longrightarrow> sp_retry (d_spec d') \<le> st_observed_retry st \<Longrightarrow> stored k d' st"
  by (simp add: stored_def update_conv')

lemma pass_stored: "stored k d st \<Longrightarrow> pass cx (d_name d) k = snd (apply_disc cx d k)"
  by (simp add: pass_def stored_def)

lemma stored_calls [simp]: "stored (k\<lparr>k_calls := c\<rparr>) d st = stored k d st"
    "stored (k\<lparr>k_jobs := js\<rparr>) d st = stored k d st" "stored (k\<lparr>k_sent := l\<rparr>) d st = stored k d st"
  by (simp_all add: stored_def)

lemma phase_patch_retry [simp]: "st_observed_retry (phase_patch cx d st p msg s) = st_observed_retry s"
  by (cases p) (simp_all add: phase_patch_def Let_def split: option.split)

definition with_status :: "disc \<Rightarrow> disc_status \<Rightarrow> disc" where
  "with_status d st = d\<lparr>d_status := Some st\<rparr>"

lemma with_status_simps [simp]:
  "d_name (with_status d st) = d_name d" "d_spec (with_status d st) = d_spec d"
  "d_status (with_status d st) = Some st" "d_uid (with_status d st) = d_uid d"
  "job_name (with_status d st) g s n = job_name d g s n"
  by (simp_all add: with_status_def)

lemma pass_start_encode:
  fixes cx :: ctx
  assumes k: "stored k d st" and st: "st_phase st = BackedUp" "\<not> sp_hold (d_spec d)"
    and limit: "length (filter (\<lambda>j. map_of (jb_labels j) STAGE_LABEL = Some ''e''
                                   \<and> job_state (Some j) = JobRunning) (k_jobs k)) < a_max_encodes (cx_a cx)"
    and uid: "d_uid d = Some uid" and e: "e = job_name d ''e'' st (st_attempts st + 1)"
    and fresh: "e \<notin> set (map jb_name (k_jobs k))"
  defines "st' \<equiv> st\<lparr>st_phase := Encoding, st_attempts := st_attempts st + 1,
                    st_message := Some ''encoding'', st_since := Some (cx_now cx)\<rparr>"
  shows "stored (pass cx (d_name d) k) (with_status d st') st'
    \<and> (\<exists>j. jb_name j = e \<and> k_jobs (pass cx (d_name d) k) = k_jobs k @ [j])"
proof -
  have fine: "fine k" using k by (simp add: stored_def)
  then have run: "running ''e'' k = (Inr (length (filter (\<lambda>j. map_of (jb_labels j) STAGE_LABEL = Some ''e''
       \<and> job_state (Some j) = JobRunning) (k_jobs k))), k\<lparr>k_calls := Suc (k_calls k)\<rparr>)"
    by (simp add: running_def list_jobs_def andthen_def call_fine gets_def ret_def conj_commute)
  let ?st = "st\<lparr>st_attempts := st_attempts st + 1\<rparr>"
  obtain j where j: "jb_name j = e" "start_job cx d ?st ''e'' (st_attempts st + 1) False
      (k\<lparr>k_calls := Suc (k_calls k)\<rparr>) = (Inr (), k\<lparr>k_calls := Suc (Suc (k_calls k)), k_jobs := k_jobs k @ [j]\<rparr>)"
    using start_job_fine [of "k\<lparr>k_calls := Suc (k_calls k)\<rparr>" d uid "''e''" ?st "st_attempts st + 1" cx False]
      fine uid e fresh by auto
  have "apply_disc cx d = act cx d st StartEncode"
    using k st by (simp add: apply_disc_def stored_def stage_of_def decide_def)
  with k fine limit j show ?thesis
    by (auto simp: pass_stored [OF k] act_def andthen_def run Let_def ret_def patch_fine
        st'_def with_status_def intro!: stored_update) (auto simp: stored_def)
qed

lemma pass_start_publish:
  fixes cx :: ctx
  assumes k: "stored k d st" and st: "st_phase st = Encoded" and uid: "d_uid d = Some uid"
    and p: "p = job_name d ''p'' st (st_attempts st + 1)" and fresh: "p \<notin> set (map jb_name (k_jobs k))"
  defines "st' \<equiv> st\<lparr>st_phase := Publishing, st_attempts := st_attempts st + 1, st_since := Some (cx_now cx)\<rparr>"
  shows "stored (pass cx (d_name d) k) (with_status d st') st'
    \<and> (\<exists>j. jb_name j = p \<and> k_jobs (pass cx (d_name d) k) = k_jobs k @ [j])"
proof -
  have fine: "fine k" using k by (simp add: stored_def)
  let ?st = "st\<lparr>st_attempts := st_attempts st + 1\<rparr>"
  obtain j where j: "jb_name j = p" "start_job cx d ?st ''p'' (st_attempts st + 1) False k
      = (Inr (), k\<lparr>k_calls := Suc (k_calls k), k_jobs := k_jobs k @ [j]\<rparr>)"
    using start_job_fine [OF fine uid, of "''p''" ?st "st_attempts st + 1" cx False] p fresh by auto
  have "apply_disc cx d = act cx d st StartPublish"
    using k st by (simp add: apply_disc_def stored_def stage_of_def decide_def)
  with k fine j show ?thesis
    by (auto simp: pass_stored [OF k] act_def andthen_def Let_def ret_def patch_fine
        st'_def with_status_def intro!: stored_update) (auto simp: stored_def)
qed

lemma notify_all:
  fixes k :: cluster
  shows "\<exists>l. for_each ns (\<lambda>n. notify_send (f n)) k = (Inr (), k\<lparr>k_sent := l\<rparr>)"
proof (induction ns arbitrary: k)
  case Nil
  show ?case by (intro exI [of _ "k_sent k"]) (simp add: ret_def)
next
  case (Cons n ns)
  from Cons [of "k\<lparr>k_sent := k_sent k @ [f n]\<rparr>"] show ?case
    by (auto simp: andthen_def notify_send_def)
qed

lemma announce_sent: "\<exists>l. announce d st p k = (Inr (), k\<lparr>k_sent := l\<rparr>)"
proof (cases "p = Done")
  case True
  let ?notes = "case st_published st of Some pb \<Rightarrow> pb_notes pb | None \<Rightarrow> []"
  let ?k = "case st_summary st of Some m \<Rightarrow> k\<lparr>k_sent := k_sent k @ [Sent m ''done'']\<rparr> | None \<Rightarrow> k"
  from True notify_all [of ?notes "\<lambda>n. SentMedia (sp_name (d_spec d) @ '': '' @ n)" ?k] show ?thesis
    by (auto simp: announce_def whenever_def andthen_def notify_send_def ret_def split: option.splits)
next
  case False
  then show ?thesis by (intro exI [of _ "k_sent k"]) (simp add: announce_def whenever_def ret_def)
qed

lemma pass_job_done:
  fixes cx :: ctx
  assumes k: "stored k d st" and st: "(st_phase st, g, p) \<in> {(Encoding, ''e'', Encoded), (Publishing, ''p'', Done)}"
    and j: "find (\<lambda>j. jb_name j = job_name d g st (st_attempts st)) (k_jobs k) = Some j"
      "job_state (Some j) = JobSucceeded"
  defines "st' \<equiv> phase_patch cx d st p None st"
  shows "stored (pass cx (d_name d) k) (with_status d st') st' \<and> k_jobs (pass cx (d_name d) k) = k_jobs k"
proof -
  have "fine k" and d: "d_status d = Some st" "sp_retry (d_spec d) \<le> st_observed_retry st"
    using k by (simp_all add: stored_def)
  then have get: "get_job (job_name d g st (st_attempts st)) k = (Inr (Some j), k\<lparr>k_calls := Suc (k_calls k)\<rparr>)"
    using j by (simp add: get_job_def call_fine gets_def)
  obtain l where l: "announce d st p (k\<lparr>k_calls := Suc (k_calls k)\<rparr>)
      = (Inr (), k\<lparr>k_calls := Suc (k_calls k), k_sent := l\<rparr>)"
    using announce_sent [of d st p "k\<lparr>k_calls := Suc (k_calls k)\<rparr>"] by auto
  have "stage_of (st_phase st) = g" "g \<noteq> []"
    "decide (cx_ser cx) (d_spec d) st JobSucceeded False = SetPhase p None" "st_phase st \<noteq> BackingUp"
    using st by (auto simp: stage_of_def decide_def)
  then have "apply_disc cx d k = act cx d st (SetPhase p None) (k\<lparr>k_calls := Suc (k_calls k)\<rparr>)"
    using d get j by (simp add: apply_disc_def andthen_def)
  with k \<open>fine k\<close> d show ?thesis
    by (auto simp: pass_stored [OF k] act_def andthen_def l patch_fine ret_def st'_def with_status_def
        intro!: stored_update)
qed

lemma find_finished:
  assumes "jb_name j = n" and "n \<notin> set (map jb_name js)"
  shows "\<exists>j'. find (\<lambda>j. jb_name j = n) (map (\<lambda>j. if jb_name j = n
      then j\<lparr>jb_status := Some \<lparr>js_succeeded = Some 1, js_conditions = None\<rparr>\<rparr> else j) (js @ [j])) = Some j'
      \<and> job_state (Some j') = JobSucceeded"
  using assms by (induction js) (auto simp: job_state_def)

lemma finish_job_stored [simp]: "stored (finish_job n k) d st = stored k d st"
  by (simp add: finish_job_def)

lemma finish_job_names [simp]: "map jb_name (k_jobs (finish_job n k)) = map jb_name (k_jobs k)"
  by (simp add: finish_job_def)

lemma finish_job_find:
  "k_jobs k = js @ [j] \<Longrightarrow> jb_name j = n \<Longrightarrow> n \<notin> set (map jb_name js) \<Longrightarrow>
   \<exists>j'. find (\<lambda>j. jb_name j = n) (k_jobs (finish_job n k)) = Some j' \<and> job_state (Some j') = JobSucceeded"
  using find_finished [of j n js] by (simp add: finish_job_def)

lemma edit_spec_stored:
  "stored k d st \<Longrightarrow> sp_retry s \<le> st_observed_retry st \<Longrightarrow>
   stored (edit_spec (d_name d) s k) (d\<lparr>d_spec := s\<rparr>) st \<and> k_jobs (edit_spec (d_name d) s k) = k_jobs k"
  by (simp add: edit_spec_def stored_def update_conv')

text \<open>The encode of a disc, with an edit of the spec while its Job runs; then the publish.\<close>

definition encode_run :: "ctx \<Rightarrow> string \<Rightarrow> string \<Rightarrow> disc_spec \<Rightarrow> cluster \<Rightarrow> cluster" where
  "encode_run cx n e s k = pass cx n (finish_job e (edit_spec n s (pass cx n k)))"

definition publish_run :: "ctx \<Rightarrow> string \<Rightarrow> string \<Rightarrow> cluster \<Rightarrow> cluster" where
  "publish_run cx n p k = pass cx n (finish_job p (pass cx n k))"

lemma encode_run_encoded:
  assumes k: "stored k d st" and st: "st_phase st = BackedUp" "\<not> sp_hold (d_spec d)"
    and limit: "length (filter (\<lambda>j. map_of (jb_labels j) STAGE_LABEL = Some ''e''
                                   \<and> job_state (Some j) = JobRunning) (k_jobs k)) < a_max_encodes (cx_a cx)"
    and uid: "d_uid d = Some uid"
    and e: "e = job_name d ''e'' st (st_attempts st + 1)" "e \<notin> set (map jb_name (k_jobs k))"
    and s: "sp_retry s \<le> st_observed_retry st"
  shows "\<exists>st'. stored (encode_run cx (d_name d) e s k) (with_status (d\<lparr>d_spec := s\<rparr>) st') st'
      \<and> st_phase st' = Encoded \<and> st_attempts st' = st_attempts st + 1 \<and> st_fingerprint st' = st_fingerprint st
      \<and> st_encode_key st' = Some (encode_key (cx_ser cx) s)
      \<and> map jb_name (k_jobs (encode_run cx (d_name d) e s k)) = map jb_name (k_jobs k) @ [e]"
proof -
  define st1 where "st1 = st\<lparr>st_phase := Encoding, st_attempts := st_attempts st + 1,
    st_message := Some ''encoding'', st_since := Some (cx_now cx)\<rparr>"
  define k1 where "k1 = pass cx (d_name d) k"
  obtain j where 1: "stored k1 (with_status d st1) st1" and j: "jb_name j = e" "k_jobs k1 = k_jobs k @ [j]"
    using pass_start_encode [OF k st limit uid e] unfolding k1_def st1_def by blast
  define d2 where "d2 = (with_status d st1)\<lparr>d_spec := s\<rparr>"
  define k2 where "k2 = finish_job e (edit_spec (d_name d) s k1)"
  have 2: "stored k2 d2 st1" and jobs: "k_jobs (edit_spec (d_name d) s k1) = k_jobs k @ [j]"
    using edit_spec_stored [OF 1, of s] s j by (simp_all add: k2_def d2_def st1_def)
  have d2: "d_name d2 = d_name d" "job_name d2 ''e'' st1 (st_attempts st1) = e"
    using e by (simp_all add: d2_def st1_def job_name_def is_test_def with_status_def)
  obtain j2 where j2: "find (\<lambda>j. jb_name j = job_name d2 ''e'' st1 (st_attempts st1)) (k_jobs k2) = Some j2"
    "job_state (Some j2) = JobSucceeded"
    using finish_job_find [OF jobs j (1) e (2)] unfolding d2 k2_def by blast
  have run: "encode_run cx (d_name d) e s k = pass cx (d_name d2) k2"
    by (simp add: encode_run_def k2_def k1_def d2)
  have "(st_phase st1, ''e'', Encoded) \<in> {(Encoding, ''e'', Encoded), (Publishing, ''p'', Done)}"
    by (simp add: st1_def)
  from pass_job_done [OF 2 this j2, of cx]
  have 3: "stored (encode_run cx (d_name d) e s k) (with_status d2 (phase_patch cx d2 st1 Encoded None st1))
         (phase_patch cx d2 st1 Encoded None st1)"
    and "k_jobs (encode_run cx (d_name d) e s k) = k_jobs k2" unfolding run by simp_all
  then have names: "map jb_name (k_jobs (encode_run cx (d_name d) e s k)) = map jb_name (k_jobs k) @ [e]"
    using jobs j by (simp add: k2_def)
  have "with_status d2 st' = with_status (d\<lparr>d_spec := s\<rparr>) st'" for st'
    by (simp add: d2_def with_status_def)
  with 3 names show ?thesis
    by (intro exI [of _ "phase_patch cx d2 st1 Encoded None st1"])
       (simp add: phase_patch_def d2_def st1_def)
qed

lemma publish_run_done:
  assumes k: "stored k d st" and st: "st_phase st = Encoded" and uid: "d_uid d = Some uid"
    and p: "p = job_name d ''p'' st (st_attempts st + 1)" "p \<notin> set (map jb_name (k_jobs k))"
  shows "\<exists>st'. stored (publish_run cx (d_name d) p k) (with_status d st') st' \<and> st_phase st' = Done
      \<and> st_encode_key st' = st_encode_key st
      \<and> st_publish_key st' = Some (publish_key (cx_ser cx) (d_spec d))
      \<and> map jb_name (k_jobs (publish_run cx (d_name d) p k)) = map jb_name (k_jobs k) @ [p]"
proof -
  define st1 where "st1 = st\<lparr>st_phase := Publishing, st_attempts := st_attempts st + 1,
    st_since := Some (cx_now cx)\<rparr>"
  define k1 where "k1 = pass cx (d_name d) k"
  define d1 where "d1 = with_status d st1"
  obtain j where 1: "stored (finish_job p k1) d1 st1" and j: "jb_name j = p" "k_jobs k1 = k_jobs k @ [j]"
    using pass_start_publish [OF k st uid p, of cx] unfolding k1_def st1_def d1_def by auto
  have d1: "d_name d1 = d_name d" "job_name d1 ''p'' st1 (st_attempts st1) = p"
    using p by (simp_all add: d1_def st1_def job_name_def is_test_def with_status_def)
  obtain j2 where j2: "find (\<lambda>j. jb_name j = job_name d1 ''p'' st1 (st_attempts st1))
      (k_jobs (finish_job p k1)) = Some j2" "job_state (Some j2) = JobSucceeded"
    using finish_job_find [OF j (2,1) p (2)] unfolding d1 by blast
  have run: "publish_run cx (d_name d) p k = pass cx (d_name d1) (finish_job p k1)"
    by (simp add: publish_run_def k1_def d1)
  have "(st_phase st1, ''p'', Done) \<in> {(Encoding, ''e'', Encoded), (Publishing, ''p'', Done)}"
    by (simp add: st1_def)
  from pass_job_done [OF 1 this j2, of cx]
  have 3: "stored (publish_run cx (d_name d) p k) (with_status d1 (phase_patch cx d1 st1 Done None st1))
         (phase_patch cx d1 st1 Done None st1)"
    and "k_jobs (publish_run cx (d_name d) p k) = k_jobs (finish_job p k1)" unfolding run by simp_all
  then have names: "map jb_name (k_jobs (publish_run cx (d_name d) p k)) = map jb_name (k_jobs k) @ [p]"
    using j by simp
  have "with_status d1 st' = with_status d st'" for st' by (simp add: d1_def with_status_def)
  with 3 names show ?thesis
    by (intro exI [of _ "phase_patch cx d1 st1 Done None st1"])
       (simp add: phase_patch_def d1_def st1_def Let_def split: option.splits)
qed

lemma done_pass_waits:
  assumes "stored k d st" and "st_phase st = Done"
    and "st_encode_key st = Some (encode_key (cx_ser cx) (d_spec d))"
    and "st_publish_key st = Some (publish_key (cx_ser cx) (d_spec d))"
  shows "pass cx (d_name d) k = k"
  using assms
  by (simp add: pass_stored [OF assms(1)] apply_disc_def stored_def stage_of_def decide_def act_def ret_def
      andthen_def)

lemma job_name_stages: "job_name d ''e'' st m \<noteq> job_name d ''p'' st n"
  by (simp add: job_name_def)

text \<open>A disc that can be encoded now: the limit leaves room, and the next two Job names are free.\<close>

definition encodable :: "ctx \<Rightarrow> cluster \<Rightarrow> disc \<Rightarrow> disc_status \<Rightarrow> bool" where
  "encodable cx k d st \<longleftrightarrow>
     st_phase st = BackedUp \<and> \<not> sp_hold (d_spec d) \<and> d_uid d \<noteq> None
     \<and> length (filter (\<lambda>j. map_of (jb_labels j) STAGE_LABEL = Some ''e''
                            \<and> job_state (Some j) = JobRunning) (k_jobs k)) < a_max_encodes (cx_a cx)
     \<and> job_name d ''e'' st (st_attempts st + 1) \<notin> set (map jb_name (k_jobs k))
     \<and> job_name d ''p'' st (st_attempts st + 2) \<notin> set (map jb_name (k_jobs k))"

lemma run_to_done:
  assumes k: "stored k d st" and en: "encodable cx k d st" and s: "sp_retry s \<le> st_observed_retry st"
  defines "e \<equiv> job_name d ''e'' st (st_attempts st + 1)" and "p \<equiv> job_name d ''p'' st (st_attempts st + 2)"
  defines "k' \<equiv> publish_run cx (d_name d) p (encode_run cx (d_name d) e s k)"
  shows "\<exists>st'. status_at k' (d_name d) = Some st' \<and> st_phase st' = Done
      \<and> st_encode_key st' = Some (encode_key (cx_ser cx) s)
      \<and> st_publish_key st' = Some (publish_key (cx_ser cx) s)
      \<and> map jb_name (k_jobs k') = map jb_name (k_jobs k) @ [e, p] \<and> pass cx (d_name d) k' = k'"
proof -
  from en obtain uid where uid: "d_uid d = Some uid" by (auto simp: encodable_def)
  let ?d = "d\<lparr>d_spec := s\<rparr>"
  obtain st1 where 1: "stored (encode_run cx (d_name d) e s k) (with_status ?d st1) st1"
      "st_phase st1 = Encoded" "st_attempts st1 = st_attempts st + 1" "st_fingerprint st1 = st_fingerprint st"
      "st_encode_key st1 = Some (encode_key (cx_ser cx) s)"
      "map jb_name (k_jobs (encode_run cx (d_name d) e s k)) = map jb_name (k_jobs k) @ [e]"
    using encode_run_encoded [OF k _ _ _ uid e_def [THEN meta_eq_to_obj_eq] _ s, of cx] en
    by (auto simp: encodable_def e_def)
  have p: "p = job_name (with_status ?d st1) ''p'' st1 (st_attempts st1 + 1)"
    using 1 by (simp add: p_def job_name_def is_test_def with_status_def)
  have "p \<notin> set (map jb_name (k_jobs (encode_run cx (d_name d) e s k)))"
    using en 1 job_name_stages [of d st, symmetric] unfolding encodable_def p_def e_def by auto
  from publish_run_done [OF 1(1,2) _ p this, of uid cx] uid 1 obtain st2 where
    2: "stored k' (with_status (with_status ?d st1) st2) st2" "st_phase st2 = Done"
      "st_encode_key st2 = Some (encode_key (cx_ser cx) s)" "st_publish_key st2 = Some (publish_key (cx_ser cx) s)"
      "map jb_name (k_jobs k') = map jb_name (k_jobs k) @ [e, p]"
    by (auto simp: k'_def)
  from done_pass_waits [OF 2(1,2)] 2 have "pass cx (d_name d) k' = k'" by simp
  moreover have "status_at k' (d_name d) = Some st2" using 2(1) by (auto simp: stored_def status_at_def)
  ultimately show ?thesis using 2 by blast
qed

text \<open>Property C14: a backed-up disc that is not held gets done. With an API that answers and Jobs that
  succeed, the passes start one encode Job, then one publish Job, record the keys of the spec and
  leave the disc alone from then on.\<close>

theorem backed_up_disc_gets_done:
  assumes "stored k d st" and "encodable cx k d st"
  shows "\<exists>st' e p. status_at (publish_run cx (d_name d) p (encode_run cx (d_name d) e (d_spec d) k)) (d_name d) = Some st'
      \<and> st_phase st' = Done
      \<and> st_encode_key st' = Some (encode_key (cx_ser cx) (d_spec d))
      \<and> st_publish_key st' = Some (publish_key (cx_ser cx) (d_spec d))
      \<and> map jb_name (k_jobs (publish_run cx (d_name d) p (encode_run cx (d_name d) e (d_spec d) k)))
        = map jb_name (k_jobs k) @ [e, p]
      \<and> pass cx (d_name d) (publish_run cx (d_name d) p (encode_run cx (d_name d) e (d_spec d) k))
        = publish_run cx (d_name d) p (encode_run cx (d_name d) e (d_spec d) k)"
proof -
  have "sp_retry (d_spec d) \<le> st_observed_retry st" using assms by (simp add: stored_def)
  from run_to_done [OF assms this] show ?thesis by blast
qed

text \<open>An edit of the main title or of the protection while the encode Job runs is lost.
  The key recorded when the Job succeeds is that of the spec at that moment, not of the spec the Job
  read: the disc ends done with the one encode Job of before the edit, and no pass encodes again.\<close>

theorem edit_while_encoding_is_lost:
  assumes "stored k d st" and "encodable cx k d st" and "inj (cx_ser cx)"
    and "sp_main_title s \<noteq> sp_main_title (d_spec d)" and "sp_retry s \<le> st_observed_retry st"
  shows "\<exists>st' e p. status_at (publish_run cx (d_name d) p (encode_run cx (d_name d) e s k)) (d_name d) = Some st'
      \<and> st_phase st' = Done
      \<and> st_encode_key st' \<noteq> Some (encode_key (cx_ser cx) (d_spec d))
      \<and> map jb_name (k_jobs (publish_run cx (d_name d) p (encode_run cx (d_name d) e s k)))
        = map jb_name (k_jobs k) @ [e, p]
      \<and> pass cx (d_name d) (publish_run cx (d_name d) p (encode_run cx (d_name d) e s k))
        = publish_run cx (d_name d) p (encode_run cx (d_name d) e s k)"
proof -
  have "encode_key (cx_ser cx) s \<noteq> encode_key (cx_ser cx) (d_spec d)"
    using encode_key_eq_iff [OF assms(3)] assms(4) by blast
  with run_to_done [OF assms(1,2,5)] show ?thesis by (metis option.inject)
qed

section \<open>The limit on encodes\<close>

abbreviation running_encodes :: "cluster \<Rightarrow> nat" where
  "running_encodes k \<equiv> length (filter (\<lambda>j. map_of (jb_labels j) STAGE_LABEL = Some ''e''
                                          \<and> job_state (Some j) = JobRunning) (k_jobs k))"

lemma patch_jobs [simp]: "k_jobs (snd (patch_disc_status n f k)) = k_jobs k"
  by (auto simp: patch_disc_status_def call_def Let_def split: call_fault.splits option.splits)

lemma patch_then_ret: "k_jobs (snd (andthen (patch_disc_status n f) (\<lambda>_. ret c) k)) = k_jobs k"
  by (auto simp: andthen_def ret_def split: prod.splits sum.splits dest: arg_cong [of _ _ snd]
      intro: patch_jobs [of n f k, THEN subst])

lemma running_result:
  "running ''e'' k = (r, k1) \<Longrightarrow> k_jobs k1 = k_jobs k \<and> (\<forall>n. r = Inr n \<longrightarrow> n = running_encodes k)"
  by (auto simp: running_def list_jobs_def andthen_def call_def gets_def ret_def Let_def conj_commute
      split: call_fault.splits)

lemma start_job_running:
  "start_job cx d st g n c k = (r, k1) \<Longrightarrow> running_encodes k1 \<le> Suc (running_encodes k)"
  by (auto simp: start_job_def create_job_def call_def throw_def Let_def
      split: option.splits call_fault.splits if_splits sum.splits api_error.splits prod.splits)

text \<open>A pass over a backed-up disc never takes the number of running encode Jobs above
  the limit (or above what it already was), whatever requests fail.\<close>

theorem encode_limit:
  assumes "d_status d = Some st" and "st_phase st = BackedUp"
  shows "running_encodes (snd (apply_disc cx d k)) \<le> max (a_max_encodes (cx_a cx)) (running_encodes k)"
proof -
  consider (retry) "sp_retry (d_spec d) > st_observed_retry st"
    | (hold) "\<not> sp_retry (d_spec d) > st_observed_retry st" "sp_hold (d_spec d)"
    | (go) "\<not> sp_retry (d_spec d) > st_observed_retry st" "\<not> sp_hold (d_spec d)" by blast
  then show ?thesis
  proof cases
    case retry
    with assms show ?thesis by (simp add: apply_disc_def patch_then_ret)
  next
    case hold
    with assms show ?thesis
      by (simp add: apply_disc_def stage_of_def decide_def act_def announce_def whenever_def patch_then_ret)
  next
    case go
    then have act: "apply_disc cx d = act cx d st StartEncode"
      using assms by (simp add: apply_disc_def stage_of_def decide_def)
    obtain r k1 where r: "running ''e'' k = (r, k1)" by fastforce
    obtain r2 k2 where s: "start_job cx d (st\<lparr>st_attempts := st_attempts st + 1\<rparr>) ''e'' (st_attempts st + 1) False k1
        = (r2, k2)" by fastforce
    from running_result [OF r] start_job_running [OF s] s show ?thesis
      by (cases r; cases r2) (auto simp: act act_def andthen_def [of "running ''e''"] r Let_def ret_def
          andthen_def [of "start_job _ _ _ _ _ _"] patch_then_ret [unfolded ret_def])
  qed
qed

text \<open>An encode Job cannot write the libraries: of its volume mounts only the work volume
  and the scratch volume are writable, and the movie library is not among its volumes.\<close>

theorem encode_job_cannot_write_libraries:
  assumes "job_spec cx d st ''e'' n cpu = Some j"
  shows "\<exists>pod mounts vols. pod = jget (jget (jb_spec j) ''template'') ''spec''
      \<and> map (\<lambda>c. jget c ''volumeMounts'') (arr (jget pod ''containers'')) = [JArr mounts]
      \<and> jget pod ''volumes'' = JArr vols
      \<and> map (\<lambda>m. jget m ''name'') mounts = map (\<lambda>v. jget v ''name'') vols
      \<and> map (\<lambda>m. jget m ''name'') (filter (\<lambda>m. jget m ''readOnly'' \<noteq> JBool True) mounts)
        = [JStr ''work'', JStr ''tmp'']
      \<and> JStr ''movies'' \<notin> set (map (\<lambda>v. jget v ''name'') vols)"
  using assms
  by (auto simp: job_spec_def Let_def job_mounts_def job_volumes_def volume_mount_def pvc_volume_def
      split: option.splits)

section \<open>A small cluster\<close>

definition sample_ctx :: ctx where
  "sample_ctx =
     \<lparr>cx_a = \<lparr>a_namespace = ''media'', a_image = ''img'', a_max_encodes = 2, a_encoder = ''nvenc_h264'',
        a_cpu_encoder = ''x264'', a_gpu_wait_minutes = 30, a_work_pvc = ''w'', a_dvd_pvc = ''d'',
        a_movies_pvc = ''m'', a_job_service_account = ''sa'', a_jellyfin_url = None,
        a_jellyfin_secret = ''j''\<rparr>,
      cx_now = ''t'', cx_age = (\<lambda>_. None), cx_ser = numbering, cx_env = (\<lambda>_. None), cx_fl = id\<rparr>"

definition sample_status :: "phase \<Rightarrow> disc_status" where
  "sample_status p = default_status\<lparr>st_phase := p, st_fingerprint := ''abc''\<rparr>"

definition sample_disc_object :: "phase \<Rightarrow> disc" where
  "sample_disc_object p =
     \<lparr>d_name = ''elf-abc'', d_namespace = Some ''media'', d_uid = Some ''u'', d_labels = None,
      d_generation = None, d_spec = default_disc_spec\<lparr>sp_name := ''Elf'', sp_disc := 1\<rparr>,
      d_status = Some (sample_status p)\<rparr>"

definition sample_cluster :: "phase \<Rightarrow> (nat \<Rightarrow> call_fault) \<Rightarrow> cluster" where
  "sample_cluster p faults =
     \<lparr>k_discs = [(''elf-abc'', sample_disc_object p)], k_jobs = [], k_pods = [], k_sent = [], k_calls = 0,
      k_faults = faults\<rparr>"

lemmas sample_cluster_defs = sample_ctx_def sample_status_def sample_disc_object_def sample_cluster_def
  default_status_def default_disc_spec_def

lemma sample_stored: "stored (sample_cluster BackedUp (\<lambda>_. Fine)) (sample_disc_object BackedUp) (sample_status BackedUp)"
  by (simp add: stored_def fine_def sample_cluster_defs)

lemma sample_encodable:
  "encodable sample_ctx (sample_cluster BackedUp (\<lambda>_. Fine)) (sample_disc_object BackedUp) (sample_status BackedUp)"
  by (simp add: encodable_def sample_cluster_defs)

theorem pass_transitions_witness:
  "\<exists>st'. status_at (snd (apply_disc sample_ctx (sample_disc_object Encoded)
            (sample_cluster Encoded (\<lambda>n. if n = 1 then Late else Fine)))) ''elf-abc'' = Some st'
      \<and> st_phase st' \<in> {Encoded, Publishing}"
  using pass_transitions [of "sample_cluster Encoded (\<lambda>n. if n = 1 then Late else Fine)"
      "sample_disc_object Encoded" "sample_status Encoded" _ sample_ctx, OF _ _ refl]
  by (simp add: sample_cluster_defs successors_def)

theorem done_waits_iff_unchanged_witness:
  "inj numbering
   \<and> decide numbering (default_disc_spec\<lparr>sp_name := ''Elf (2003)'', sp_disc := 1\<rparr>)
       (default_status\<lparr>st_phase := Done,
          st_encode_key := Some (encode_key numbering default_disc_spec),
          st_publish_key := Some (publish_key numbering (default_disc_spec\<lparr>sp_name := ''Elf'', sp_disc := 1\<rparr>))\<rparr>)
       JobMissing False
     = SetPhase Encoded (Some ''spec changed: publishing again'')"
  using inj_numbering by (subst done_waits_iff_unchanged [OF inj_numbering])
    (auto simp: default_disc_spec_def)

theorem failed_waits_for_retry_witness:
  "apply_disc sample_ctx (sample_disc_object Failed) (sample_cluster Failed (\<lambda>_. Lost))
     = (Inr 3600, sample_cluster Failed (\<lambda>_. Lost))"
  by (rule failed_waits_for_retry [of _ "sample_status Failed"]) (simp_all add: sample_cluster_defs)


theorem backed_up_disc_gets_done_witness:
  "\<exists>st' e p. status_at (publish_run sample_ctx ''elf-abc'' p (encode_run sample_ctx ''elf-abc'' e
      (d_spec (sample_disc_object BackedUp)) (sample_cluster BackedUp (\<lambda>_. Fine)))) ''elf-abc'' = Some st'
      \<and> st_phase st' = Done"
  using backed_up_disc_gets_done [OF sample_stored sample_encodable]
  by (auto simp: sample_disc_object_def)

theorem edit_while_encoding_is_lost_witness:
  "\<exists>st' e p. status_at (publish_run sample_ctx ''elf-abc'' p (encode_run sample_ctx ''elf-abc'' e
      (default_disc_spec\<lparr>sp_name := ''Elf'', sp_disc := 1, sp_main_title := Some 3\<rparr>)
      (sample_cluster BackedUp (\<lambda>_. Fine)))) ''elf-abc'' = Some st'
      \<and> st_phase st' = Done
      \<and> st_encode_key st' \<noteq> Some (encode_key numbering (d_spec (sample_disc_object BackedUp)))"
proof -
  let ?s = "default_disc_spec\<lparr>sp_name := ''Elf'', sp_disc := 1, sp_main_title := Some 3\<rparr>"
  have "inj (cx_ser sample_ctx)" "sp_main_title ?s \<noteq> sp_main_title (d_spec (sample_disc_object BackedUp))"
    "sp_retry ?s \<le> st_observed_retry (sample_status BackedUp)" "cx_ser sample_ctx = numbering"
    "d_name (sample_disc_object BackedUp) = ''elf-abc''"
    by (simp_all add: sample_cluster_defs inj_numbering)
  with edit_while_encoding_is_lost [OF sample_stored sample_encodable this(1-3)] show ?thesis by auto
qed

theorem encode_limit_witness:
  "running_encodes (snd (apply_disc sample_ctx (sample_disc_object BackedUp)
      (sample_cluster BackedUp (\<lambda>n. if n = 1 then Late else Fine)))) \<le> 2"
  using encode_limit [of "sample_disc_object BackedUp" "sample_status BackedUp" sample_ctx
      "sample_cluster BackedUp (\<lambda>n. if n = 1 then Late else Fine)"]
  by (simp add: sample_cluster_defs)

theorem encode_job_cannot_write_libraries_witness:
  "\<exists>j. job_spec sample_ctx (sample_disc_object BackedUp) (sample_status BackedUp) ''e'' 1 False = Some j
     \<and> jb_name j = ''dvd-e-abc-1''
     \<and> (\<exists>vols. jget (jget (jget (jb_spec j) ''template'') ''spec'') ''volumes'' = JArr vols
          \<and> JStr ''movies'' \<notin> set (map (\<lambda>v. jget v ''name'') vols))"
proof -
  obtain j where j: "job_spec sample_ctx (sample_disc_object BackedUp) (sample_status BackedUp) ''e'' 1 False = Some j"
    using job_spec_some [of "sample_disc_object BackedUp" "''u''"]
    by (metis (no_types) sample_disc_object_def disc.select_convs(3))
  have "job_name (sample_disc_object BackedUp) ''e'' (sample_status BackedUp) 1 = ''dvd-e-abc-1''" by code_simp
  with job_spec_name [OF j] have "jb_name j = ''dvd-e-abc-1''" by simp
  moreover from encode_job_cannot_write_libraries [OF j] obtain vols where
    "jget (jget (jget (jb_spec j) ''template'') ''spec'') ''volumes'' = JArr vols"
    "JStr ''movies'' \<notin> set (map (\<lambda>v. jget v ''name'') vols)" by blast
  ultimately show ?thesis using j by (intro exI [of _ j] conjI exI [of _ vols]) assumption+
qed

end
