(* ===== verification/Job.thy ===== *)
theory Job
  imports Inspect Damage Review Publish Controller
begin

text \<open>
  \<^verbatim>\<open>apps/dvdrip/src/job.rs\<close>: the two Jobs of a disc, \<^verbatim>\<open>dvdrip encode\<close> and \<^verbatim>\<open>dvdrip publish\<close>. A Job sees
  the volumes (\<open>world\<close>, with the disc's own work directory as the volume \<open>Work\<close>) and the API server's
  objects, a \<open>cluster\<close> for each namespace. \<open>job_tools\<close> collects the tools of the steps. The rescan
  request to Jellyfin is left out: it is best effort and touches neither.
\<close>

section \<open>The summary\<close>

record summary =
  sm_titles :: "title_status list"
  sm_warnings :: "string list"
  sm_message :: string
  sm_protected :: bool

text \<open>\<^verbatim>\<open>{:.0}\<close>: to the nearest integer, halves to the even one.\<close>

definition round_even :: "f64 \<Rightarrow> int" where
  "round_even x =
     (let f = \<lfloor>x\<rfloor>; r = x - of_int f
      in if r < 1 / 2 then f else if 1 / 2 < r then f + 1 else if even f then f else f + 1)"

definition fmt0 :: "f64 \<Rightarrow> string" where
  "fmt0 x = (if x < 0 then ''-'' else []) @ int_str (round_even \<bar>x\<bar>)"

definition outcome_of :: "(nat \<times> outcome) list \<Rightarrow> nat \<Rightarrow> outcome option" where
  "outcome_of results n = map_option snd (find (\<lambda>(m, _). m = n) results)"

definition encoded_seconds :: "(nat \<times> outcome) list \<Rightarrow> nat \<Rightarrow> f64 option" where
  "encoded_seconds results n = (case outcome_of results n of Some (WasEncoded s) \<Rightarrow> Some s | _ \<Rightarrow> None)"

definition failed_warning :: "(encode_error list \<Rightarrow> string) \<Rightarrow> (nat \<times> outcome) list \<Rightarrow> title \<Rightarrow> string list" where
  "failed_warning show_err results t =
     (case outcome_of results (t_title t) of
        Some (OutcomeFailed why) \<Rightarrow> [''title '' @ nat_str (t_title t) @ '' failed: '' @ show_err why]
      | _ \<Rightarrow> [])"

definition short_warning :: "rounding \<Rightarrow> (nat \<times> outcome) list \<Rightarrow> title \<Rightarrow> string list" where
  "short_warning fl results t =
     (case encoded_seconds results (t_title t) of
        Some got \<Rightarrow>
          if 10 < t_seconds t \<and> got < fl (of_int \<lfloor>t_seconds t\<rfloor> * fl (9 / 10))
          then [''title '' @ nat_str (t_title t) @ '': encoded '' @ fmt0 got @ ''s of '' @ fmt0 (t_seconds t)
                @ ''s on disc (still-frame gallery or read problem)'']
          else []
      | None \<Rightarrow> [])"

definition glitch_warning :: "glitch \<Rightarrow> string" where
  "glitch_warning g =
     ''glitch in title '' @ nat_str (g_title g) @ '' at '' @ int_str (g_start g div 60) @ ''m''
     @ int_str (g_start g mod 60) @ ''s ('' @ nat_str (g_errors g) @ '' decode errors), marked with a chapter''"

definition title_warnings ::
  "rounding \<Rightarrow> (encode_error list \<Rightarrow> string) \<Rightarrow> (nat \<times> outcome) list \<Rightarrow> glitch list \<Rightarrow> title \<Rightarrow> string list" where
  "title_warnings fl show_err results gs t =
     failed_warning show_err results t @ short_warning fl results t
     @ map glitch_warning (filter (\<lambda>g. g_title g = t_title t) gs)"

definition title_status_of :: "rounding \<Rightarrow> (nat \<times> outcome) list \<Rightarrow> glitch list \<Rightarrow> title \<Rightarrow> title_status" where
  "title_status_of fl results gs t =
     (let enc = encoded_seconds results (t_title t) in
      \<lparr>tt_title = t_title t, tt_role = t_role t, tt_seconds = t_seconds t,
       tt_output = map_option (\<lambda>_. encode_path (t_title t)) enc,
       tt_encoded_seconds = Option.bind enc (\<lambda>got. if 10 < \<bar>fl (got - t_seconds t)\<bar> then Some got else None),
       tt_aspect = Option.bind (as_str (t_aspect t)) (\<lambda>a. if a \<noteq> [] then Some a else None),
       tt_glitches = map g_start (filter (\<lambda>g. g_title g = t_title t) gs)\<rparr>)"

definition count_role :: "role \<Rightarrow> title_status list \<Rightarrow> nat" where
  "count_role r out = length (filter (\<lambda>t. tt_role t = r \<and> tt_output t \<noteq> None) out)"

definition summary_message :: "rounding \<Rightarrow> string \<Rightarrow> title_status list \<Rightarrow> nat \<Rightarrow> string" where
  "summary_message fl name out warnings =
     name @ '': main ''
     @ (case find (\<lambda>t. tt_role t = Main \<and> tt_output t \<noteq> None) out of
          None \<Rightarrow> ''?''
        | Some m \<Rightarrow> dur fl (case tt_encoded_seconds m of Some s \<Rightarrow> s | None \<Rightarrow> tt_seconds m))
     @ '', '' @ nat_str (count_role Extra out) @ '' extras, '' @ nat_str (count_role Short out) @ '' short, ''
     @ nat_str warnings @ '' warnings''"

definition summarize ::
  "rounding \<Rightarrow> (encode_error list \<Rightarrow> string) \<Rightarrow> string \<Rightarrow> title list \<Rightarrow> (nat \<times> outcome) list \<Rightarrow> glitch list \<Rightarrow> bool
     \<Rightarrow> summary" where
  "summarize fl show_err name tis results gs protected =
     (let warnings = concat (map (title_warnings fl show_err results gs) tis);
          out = map (title_status_of fl results gs) tis
      in \<lparr>sm_titles = out, sm_warnings = warnings, sm_message = summary_message fl name out (length warnings),
          sm_protected = protected\<rparr>)"

section \<open>The encode steps\<close>

record job_tools =
  jt_fl :: rounding
  jt_inspect :: inspect_tools
  jt_encode :: encode_tools
  jt_damage :: damage_tools
  jt_review :: review_tools
  jt_summary :: "string \<Rightarrow> summary \<Rightarrow> string"
  jt_error :: "encode_error list \<Rightarrow> string"

text \<open>A failed first encode of a disc that is not known to be protected is redone from MakeMKV's listing.\<close>

definition encode_or_redo ::
  "job_tools \<Rightarrow> work \<Rightarrow> nat option \<Rightarrow> settings \<Rightarrow> thresholds \<Rightarrow> inspected \<Rightarrow> (inspected \<times> (nat \<times> outcome) list) enc" where
  "encode_or_redo tools k main s th ins =
     andthen (attempt (encode (jt_encode tools) k (in_titles ins) (in_scan ins) (in_protected ins) s))
     (\<lambda>r. case r of
        Inr results \<Rightarrow> ret (ins, results)
      | Inl e \<Rightarrow>
          if in_protected ins then throw e
          else andthen (for_each (in_titles ins) (\<lambda>t. ignore (remove_file Work (encode_path (t_title t)))))
               (\<lambda>_. andthen (inspect (jt_inspect tools) main True th)
               (\<lambda>ins. andthen (encode (jt_encode tools) k (in_titles ins) (in_scan ins) True s)
               (\<lambda>results. ret (ins, results)))))"

definition mark_damage :: "job_tools \<Rightarrow> bool \<Rightarrow> title list \<Rightarrow> nat \<Rightarrow> glitch list enc" where
  "mark_damage tools damaged tis max_glitches =
     (if damaged
      then (\<lambda>w. case mark (jt_damage tools) tis max_glitches w of
              (Inl e, w') \<Rightarrow> (Inr [], w') | (Inr g, w') \<Rightarrow> (Inr g, w'))
      else ret [])"

definition run_encode ::
  "job_tools \<Rightarrow> work \<Rightarrow> nat option \<Rightarrow> bool \<Rightarrow> bool \<Rightarrow> settings \<Rightarrow> nat \<Rightarrow> string \<Rightarrow> summary enc" where
  "run_encode tools k main protected damaged s max_glitches name =
     andthen (inspect (jt_inspect tools) main protected default_thresholds)
     (\<lambda>ins. andthen (encode_or_redo tools k main s default_thresholds ins)
     (\<lambda>(ins, results). andthen (whenever (in_protected ins) (wrap EncIo (overwrite Work ''.protected'' [])))
     (\<lambda>_. andthen (mark_damage tools damaged (in_titles ins) max_glitches)
     (\<lambda>gs. andthen (ignore (review (jt_review tools) k (in_titles ins) name))
     (\<lambda>_. let sm = summarize (jt_fl tools) (jt_error tools) name (in_titles ins) results gs (in_protected ins)
          in andthen (write_json ''summary.json'' (jt_summary tools name sm)) (\<lambda>_. ret sm))))))"

section \<open>The commands\<close>

record job_sys =
  sy_files :: world
  sy_kube :: "string \<Rightarrow> cluster"
  sy_printed :: "summary list"

datatype job_error =
    JobEncode encode_error
  | JobPublish publish_error
  | JobApi api_error
  | NoSuchDisc
  | NoStatus
  | NoMasterAnywhere
  | NoDiscGiven

type_synonym 'a jobm = "(job_sys, job_error, 'a) sem"

definition on_files :: "('e \<Rightarrow> job_error) \<Rightarrow> ('e, 'a) io \<Rightarrow> 'a jobm" where
  "on_files g m = (\<lambda>y. case m (sy_files y) of
     (Inl e, w) \<Rightarrow> (Inl (g e), y\<lparr>sy_files := w\<rparr>) | (Inr x, w) \<Rightarrow> (Inr x, y\<lparr>sy_files := w\<rparr>))"

definition on_kube :: "string \<Rightarrow> 'a api \<Rightarrow> 'a jobm" where
  "on_kube ns m = (\<lambda>y. case m (sy_kube y ns) of
     (Inl e, k) \<Rightarrow> (Inl (JobApi e), y\<lparr>sy_kube := (sy_kube y)(ns := k)\<rparr>)
   | (Inr x, k) \<Rightarrow> (Inr x, y\<lparr>sy_kube := (sy_kube y)(ns := k)\<rparr>))"

definition split_ref :: "string \<Rightarrow> string \<Rightarrow> string \<times> string" where
  "split_ref r default_ns = (case split_once (CHR ''/'') r of Some p \<Rightarrow> p | None \<Rightarrow> (default_ns, r))"

definition get_disc :: "string \<Rightarrow> disc api" where
  "get_disc name = call (\<lambda>k. case map_of (k_discs k) name of None \<Rightarrow> (Inl NotFound, k) | Some d \<Rightarrow> (Inr d, k))"

record common_args =
  ca_disc :: "string option"
  ca_work_root :: string
  ca_dvd_root :: string
  ca_work_dir :: "string option"

record encode_args =
  ea_common :: common_args
  ea_master :: "string option"
  ea_main_title :: "nat option"
  ea_protected :: bool
  ea_damaged :: bool
  ea_encoder :: string
  ea_preset :: string
  ea_quality :: string
  ea_parallel :: nat
  ea_max_glitches :: nat

definition settings_of :: "encode_args \<Rightarrow> settings" where
  "settings_of a =
     \<lparr>se_encoder = ea_encoder a, se_preset = ea_preset a, se_quality = ea_quality a, se_parallel = ea_parallel a,
      se_extra_min = 30\<rparr>"

text \<open>What the steps of a spec change take away: encodes, the protection mark, the remux.\<close>

definition discard_old :: "unit enc" where
  "discard_old =
     andthen (ignore (remove_dir_all Work ''encodes''))
     (\<lambda>_. andthen (ignore (remove_file Work ''.protected'')) (\<lambda>_. ignore (remove_dir_all Work ''remux'')))"

definition encoded_patch :: "summary \<Rightarrow> int option \<Rightarrow> disc_status \<Rightarrow> disc_status" where
  "encoded_patch sm generation st =
     st\<lparr>st_titles := sm_titles sm, st_warnings := sm_warnings sm, st_message := Some (sm_message sm),
        st_summary := Some (sm_message sm), st_protected := sm_protected sm, st_encoded_generation := generation\<rparr>"

definition find_master :: "encode_args \<Rightarrow> disc_status \<Rightarrow> string \<Rightarrow> string jobm" where
  "find_master a st dir =
     andthen (on_files JobEncode (exists_path Work ''master.iso''))
     (\<lambda>there. if there then ret (dir @ ''/master.iso'')
        else case Option.bind (st_published st) pb_iso of
               None \<Rightarrow> throw NoMasterAnywhere
             | Some p \<Rightarrow> ret (ca_dvd_root (ea_common a) @ ''/'' @ p))"

definition encode_disc :: "job_tools \<Rightarrow> (json \<Rightarrow> string) \<Rightarrow> encode_args \<Rightarrow> disc \<Rightarrow> disc_status \<Rightarrow> work \<Rightarrow> summary enc" where
  "encode_disc tools ser a d st k =
     andthen (whenever (case st_encode_key st of Some key \<Rightarrow> key \<noteq> encode_key ser (d_spec d) | None \<Rightarrow> False) discard_old)
     (\<lambda>_. andthen (exists_path Work ''.protected'')
     (\<lambda>was. run_encode tools k (sp_main_title (d_spec d)) (sp_protected (d_spec d) \<or> was) (st_damage st \<noteq> None)
              (settings_of a) (ea_max_glitches a) (sp_name (d_spec d))))"

definition report_failure :: "string \<Rightarrow> string \<Rightarrow> string \<Rightarrow> unit jobm" where
  "report_failure ns name msg =
     ignore (on_kube ns (patch_disc_status name (\<lambda>st. st\<lparr>st_message := Some msg\<rparr>)))"

definition encode_cmd :: "job_tools \<Rightarrow> (json \<Rightarrow> string) \<Rightarrow> encode_args \<Rightarrow> unit jobm" where
  "encode_cmd tools ser a =
     (case ca_disc (ea_common a) of
        None \<Rightarrow>
          (case ca_work_dir (ea_common a) of
             None \<Rightarrow> throw NoDiscGiven
           | Some dir \<Rightarrow>
               let k = \<lparr>wk_dir = dir, wk_master = (case ea_master a of Some m \<Rightarrow> m | None \<Rightarrow> dir @ ''/master.iso'')\<rparr>
               in andthen (on_files JobEncode (run_encode tools k (ea_main_title a) (ea_protected a) (ea_damaged a)
                            (settings_of a) (ea_max_glitches a) (label_to_name (file_name dir))))
                  (\<lambda>sm y. (Inr (), y\<lparr>sy_printed := sy_printed y @ [sm]\<rparr>)))
      | Some r \<Rightarrow>
          (case split_ref r ''media'' of (ns, name) \<Rightarrow>
             andthen (on_kube ns (get_disc name))
             (\<lambda>d. case d_status d of
                None \<Rightarrow> throw NoStatus
              | Some st \<Rightarrow>
                  let dir = ca_work_root (ea_common a) @ ''/'' @ st_fingerprint st in
                  andthen (on_files (JobEncode \<circ> EncIo) (create_dir_all Work ''logs''))
                  (\<lambda>_. andthen (find_master a st dir)
                  (\<lambda>master y.
                     case on_files JobEncode (encode_disc tools ser a d st \<lparr>wk_dir = dir, wk_master = master\<rparr>) y of
                       (Inr sm, y') \<Rightarrow> on_kube ns (patch_disc_status name (encoded_patch sm (d_generation d))) y'
                     | (Inl e, y') \<Rightarrow>
                         andthen (report_failure ns name (''encode failed: '' @ jt_error tools
                                    (case e of JobEncode e' \<Rightarrow> [e'] | _ \<Rightarrow> [])))
                         (\<lambda>_. throw e) y')))))"

record publish_args =
  pa_common :: common_args
  pa_movies_root :: string

definition publish_options :: "disc_status \<Rightarrow> options" where
  "publish_options st =
     \<lparr>o_retitle = True,
      o_master_sha256 = Option.bind (st_backup st) (\<lambda>b. if bk_sha256 b \<noteq> [] then Some (bk_sha256 b) else None)\<rparr>"

definition publish_disc :: "env \<Rightarrow> disc \<Rightarrow> disc_status \<Rightarrow> published pub" where
  "publish_disc env d st =
     publish env (d_spec d) (st_label st) (st_titles st) (st_published st)
       (case d_generation d of Some g \<Rightarrow> g | None \<Rightarrow> 0) (publish_options st)"

definition publish_and_record :: "env \<Rightarrow> (publish_error \<Rightarrow> string) \<Rightarrow> string \<Rightarrow> string \<Rightarrow> disc \<Rightarrow> disc_status \<Rightarrow> unit jobm" where
  "publish_and_record env show_err ns name d st = (\<lambda>y.
     case publish_disc env d st (sy_files y) of
       (Inr p, w) \<Rightarrow>
         andthen (on_kube ns (patch_disc_status name (\<lambda>st. st\<lparr>st_published := Some p\<rparr>)))
         (\<lambda>_. on_files JobPublish (finish p)) (y\<lparr>sy_files := w\<rparr>)
     | (Inl e, w) \<Rightarrow>
         andthen (report_failure ns name (''publish failed: '' @ show_err e))
         (\<lambda>_. throw (JobPublish e)) (y\<lparr>sy_files := w\<rparr>))"

definition publish_cmd :: "env \<Rightarrow> (publish_error \<Rightarrow> string) \<Rightarrow> publish_args \<Rightarrow> unit jobm" where
  "publish_cmd env show_err a =
     (case ca_disc (pa_common a) of
        None \<Rightarrow> throw NoDiscGiven
      | Some r \<Rightarrow>
          (case split_ref r ''media'' of (ns, name) \<Rightarrow>
             andthen (on_kube ns (get_disc name))
             (\<lambda>d. case d_status d of
                None \<Rightarrow> throw NoStatus
              | Some st \<Rightarrow> publish_and_record env show_err ns name d st)))"

section \<open>What the summary says\<close>

lemma outcome_of_mem:
  assumes "distinct (map fst results)" and "(n, o') \<in> set results"
  shows "outcome_of results n = Some o'"
proof -
  have "find (\<lambda>(m, _). m = n) results = Some (n, o')" using assms by (induction results) force+
  then show ?thesis by (simp add: outcome_of_def)
qed

lemma summary_output:
  "(n, WasEncoded d) \<in> set results \<Longrightarrow> distinct (map fst results) \<Longrightarrow> t_title t = n \<Longrightarrow>
     tt_output (title_status_of fl results gs t) = Some (encode_path n)"
  by (auto simp: title_status_of_def Let_def encoded_seconds_def dest: outcome_of_mem)

lemma encode_or_redo_ok:
  assumes "encode_or_redo tools k main s th ins w = (Inr (ins', results), w')"
    and "distinct (map t_title (in_titles ins))" and "tracks_distinct (jt_inspect tools)"
  shows "\<exists>w1 w2. encode (jt_encode tools) k (in_titles ins') (in_scan ins') (in_protected ins \<or> ins' \<noteq> ins) s w1 = (Inr results, w2)
           \<and> distinct (map t_title (in_titles ins'))
       \<or> encode (jt_encode tools) k (in_titles ins') (in_scan ins') True s w1 = (Inr results, w2)
           \<and> distinct (map t_title (in_titles ins'))"
proof -
  from assms(1) consider (first) w1 where "ins' = ins" "encode (jt_encode tools) k (in_titles ins) (in_scan ins) (in_protected ins) s w = (Inr results, w1)"
    | (redo) w1 w2 w3 where "inspect (jt_inspect tools) main True th w1 = (Inr ins', w2)"
        "encode (jt_encode tools) k (in_titles ins') (in_scan ins') True s w2 = (Inr results, w3)"
    by (auto simp: encode_or_redo_def andthen_Inr_iff attempt_iff case_sum_iff ret_def throw_def split: if_splits)
  then show ?thesis
  proof cases
    case first
    with assms(2) show ?thesis by auto
  next
    case redo
    with inspect_ok [OF redo(1) assms(3)] show ?thesis by blast
  qed
qed


section \<open>What a publish Job keeps\<close>

lemma on_kube_files: "sy_files (snd (on_kube ns m y)) = sy_files y"
  by (simp add: on_kube_def split: prod.split sum.split)

lemma on_kube_Inr: "on_kube ns m y = (Inr x, y') \<Longrightarrow> m (sy_kube y ns) = (Inr x, sy_kube y' ns) \<and> sy_files y' = sy_files y"
  by (auto simp: on_kube_def split: prod.splits sum.splits)

lemma on_kube_Inl: "on_kube ns m y = (Inl e, y') \<Longrightarrow> sy_files y' = sy_files y"
  by (auto simp: on_kube_def split: prod.splits sum.splits)

lemma on_files_kube: "sy_kube (snd (on_files g m y)) = sy_kube y"
  by (simp add: on_files_def split: prod.split sum.split)

lemma report_failure_files: "sy_files (snd (report_failure ns name msg y)) = sy_files y"
  by (simp add: report_failure_def sem_simps on_kube_files)

lemma patch_published:
  "patch_disc_status name f k = (Inr u, k') \<Longrightarrow>
     \<exists>d st. map_of (k_discs k) name = Some d \<and> d_status d = Some st
          \<and> map_of (k_discs k') name = Some (d\<lparr>d_status := Some (f st)\<rparr>)"
  by (auto simp: patch_disc_status_def call_def Let_def update_conv
      split: call_fault.splits option.splits)

lemma get_disc_ok: "get_disc name k = (Inr d, k') \<Longrightarrow> map_of (k_discs k) name = Some d"
  by (auto simp: get_disc_def call_def Let_def split: call_fault.splits option.splits)

text \<open>The status of a disc names a publish.\<close>

definition on_record :: "job_sys \<Rightarrow> string \<Rightarrow> string \<Rightarrow> published \<Rightarrow> bool" where
  "on_record y ns name p \<longleftrightarrow>
     (case map_of (k_discs (sy_kube y ns)) name of
        None \<Rightarrow> False | Some d \<Rightarrow> Option.bind (d_status d) st_published = Some p)"

lemma work_file_is_foreign:
  "\<not> ends_with x ''.part'' \<Longrightarrow> x \<noteq> JOURNAL \<Longrightarrow> foreign prev ours Work x"
  by (simp add: foreign_def)

lemma publish_disc_keeps_work:
  assumes "lookup w Work x = Some (File c)" and "x \<noteq> JOURNAL" and "\<not> ends_with x ''.part''"
  shows "lookup (snd (publish_disc env d st w)) Work x = Some (File c)"
  unfolding publish_disc_def
  by (rule publish_keeps_file [OF assms(1) work_file_is_foreign]) (use assms in simp_all)

lemma publish_and_record_keeps:
  assumes "lookup (sy_files y) Work x = Some (File c)" and "x \<noteq> JOURNAL" and "\<not> ends_with x ''.part''"
    and run: "publish_and_record env show_err ns name d st y = (r, y')"
  shows "lookup (sy_files y') Work x = Some (File c)
       \<or> (\<exists>p w. publish_disc env d st (sy_files y) = (Inr p, w) \<and> on_record y' ns name p)"
proof -
  obtain p w where pub: "publish_disc env d st (sy_files y) = (p, w)" by fastforce
  have kept: "lookup w Work x = Some (File c)" using publish_disc_keeps_work [OF assms(1-3), of env d st] pub by simp
  show ?thesis
  proof (cases p)
    case (Inl e)
    with run pub have "sy_files y' = sy_files (snd (report_failure ns name (''publish failed: '' @ show_err e) (y\<lparr>sy_files := w\<rparr>)))"
      by (auto simp: publish_and_record_def andthen_def throw_def split: prod.splits sum.splits)
    with kept show ?thesis by (simp add: report_failure_files)
  next
    case (Inr pb)
    let ?patch = "patch_disc_status name (\<lambda>st. st\<lparr>st_published := Some pb\<rparr>)"
    obtain r2 y2 where patch: "on_kube ns ?patch (y\<lparr>sy_files := w\<rparr>) = (r2, y2)" by fastforce
    show ?thesis
    proof (cases r2)
      case (Inl e)
      with run pub Inr patch have "y' = y2" by (simp add: publish_and_record_def andthen_def)
      with on_kube_Inl [OF patch [unfolded Inl]] kept show ?thesis by simp
    next
      case (Inr u)
      with run pub \<open>p = Inr pb\<close> patch have "y' = snd (on_files JobPublish (finish pb) y2)"
        by (simp add: publish_and_record_def andthen_def)
      moreover have "?patch (sy_kube y ns) = (Inr u, sy_kube y2 ns)" using on_kube_Inr [OF patch [unfolded Inr]] by simp
      from patch_published [OF this] obtain d' st' where
        "map_of (k_discs (sy_kube y2 ns)) name = Some (d'\<lparr>d_status := Some (st'\<lparr>st_published := Some pb\<rparr>)\<rparr>)"
        by blast
      ultimately have "on_record y' ns name pb" by (simp add: on_record_def on_files_kube)
      with pub \<open>p = Inr pb\<close> show ?thesis by blast
    qed
  qed
qed

text \<open>Property C10: the rip is kept until the library's copy is on record. Whatever a publish Job meets
  (errors of the volumes, of the API server, a request that took effect and was not answered), a file
  of the work directory other than the journal is there after it, unless the Disc's status names what
  was published.\<close>

theorem publish_cmd_keeps_the_rip:
  assumes there: "lookup (sy_files y) Work x = Some (File c)" "x \<noteq> JOURNAL" "\<not> ends_with x ''.part''"
    and disc: "ca_disc (pa_common a) = Some r" "split_ref r ''media'' = (ns, name)"
    and run: "publish_cmd env show_err a y = (res, y')"
  shows "lookup (sy_files y') Work x = Some (File c)
       \<or> (\<exists>d st p w. map_of (k_discs (sy_kube y ns)) name = Some d \<and> d_status d = Some st
            \<and> publish_disc env d st (sy_files y) = (Inr p, w) \<and> on_record y' ns name p)"
proof -
  obtain r1 y1 where get: "on_kube ns (get_disc name) y = (r1, y1)" by fastforce
  then have y1: "sy_files y1 = sy_files y" using on_kube_files by (metis snd_conv)
  show ?thesis
  proof (cases r1)
    case (Inl e)
    with get disc run there y1 show ?thesis by (simp add: publish_cmd_def andthen_def)
  next
    case (Inr d)
    have d: "map_of (k_discs (sy_kube y ns)) name = Some d" using get Inr on_kube_Inr get_disc_ok by metis
    show ?thesis
    proof (cases "d_status d")
      case None
      with get Inr disc run there y1 show ?thesis by (simp add: publish_cmd_def andthen_def throw_def)
    next
      case (Some st)
      with get Inr disc run have "publish_and_record env show_err ns name d st y1 = (res, y')"
        by (simp add: publish_cmd_def andthen_def)
      from publish_and_record_keeps [OF there [folded y1] this] d Some y1 show ?thesis by auto
    qed
  qed
qed

section \<open>A disc through its Jobs\<close>

definition job_info :: string where
  "job_info =
     ''TINFO:0,9,0,'' @ [quote] @ ''0:01:40'' @ [quote] @ [newline]
     @ ''TINFO:0,27,0,'' @ [quote] @ ''a.mkv'' @ [quote] @ [newline]"

definition job_sample_tools :: job_tools where
  "job_sample_tools =
     \<lparr>jt_fl = id,
      jt_inspect = \<lparr>it_fl = id, it_lsdvd = Some [], it_xml = (\<lambda>_. None), it_scan = None, it_parse = (\<lambda>_. None),
                    it_info = Some job_info, it_json = (\<lambda>_. []), it_titles = (\<lambda>_. [])\<rparr>,
      jt_encode = sample_tools\<lparr>tl_remux := Some [(''a.mkv'', ''x'')]\<rparr>,
      jt_damage = \<lparr>scan_lines = (\<lambda>_. None), mkvextract = (\<lambda>_. None), mkvpropedit = (\<lambda>_ _. None), glitches_json = (\<lambda>_. [])\<rparr>,
      jt_review = \<lparr>rv_enc = sample_tools, rv_f64 = (\<lambda>_. []), rv_ffmpeg = (\<lambda>_. (True, None)), rv_tracks = (\<lambda>_. [])\<rparr>,
      jt_summary = (\<lambda>_ _. []), jt_error = (\<lambda>_. [])\<rparr>"

definition sample_job_run :: "(encode_error + summary) \<times> world" where
  "sample_job_run =
     run_encode job_sample_tools \<lparr>wk_dir = ''/w'', wk_master = ''/w/m''\<rparr> None True False default_settings 10 ''F''
       (encode_world [(''review'', File [])])"


definition sample_status :: disc_status where
  "sample_status = default_status\<lparr>st_phase := Publishing, st_label := ''E'', st_fingerprint := ''f'', st_titles := film_titles\<rparr>"

definition sample_disc :: disc where
  "sample_disc = \<lparr>d_name = ''e'', d_namespace = Some ''media'', d_uid = None, d_labels = None, d_generation = Some 1,
                  d_spec = film_spec, d_status = Some sample_status\<rparr>"

text \<open>The API server takes the first request and loses the next.\<close>

definition sample_sys :: job_sys where
  "sample_sys =
     \<lparr>sy_files = film_world (\<lambda>_. True),
      sy_kube = (\<lambda>_. \<lparr>k_discs = [(''e'', sample_disc)], k_jobs = [], k_pods = [], k_sent = [], k_calls = 0,
                      k_faults = (\<lambda>n. if n = 0 then Fine else Lost)\<rparr>),
      sy_printed = []\<rparr>"

definition sample_publish_args :: publish_args where
  "sample_publish_args =
     \<lparr>pa_common = \<lparr>ca_disc = Some ''e'', ca_work_root = ''/w'', ca_dvd_root = ''/d'', ca_work_dir = None\<rparr>, pa_movies_root = ''/m''\<rparr>"

theorem publish_cmd_keeps_the_rip_witness:
  "\<exists>res y'. publish_cmd sample_env (\<lambda>_. []) sample_publish_args sample_sys = (res, y')
     \<and> (lookup (sy_files y') Work MASTER = Some (File ''I'')
        \<or> (\<exists>p. on_record y' ''media'' ''e'' p))"
proof -
  obtain res y' where run: "publish_cmd sample_env (\<lambda>_. []) sample_publish_args sample_sys = (res, y')" by fastforce
  have "lookup (sy_files sample_sys) Work MASTER = Some (File ''I'')" "MASTER \<noteq> JOURNAL" "\<not> ends_with MASTER ''.part''"
    "ca_disc (pa_common sample_publish_args) = Some ''e''" "split_ref ''e'' ''media'' = (''media'', ''e'')" by code_simp+
  from publish_cmd_keeps_the_rip [OF this run] run show ?thesis by blast
qed

end
