(* ===== verification/Backup.thy ===== *)
theory Backup
  imports Files Crd Makemkv
begin

text \<open>
  \<^verbatim>\<open>apps/dvdrip/src/backup.rs\<close>: the copy of a disc into staging, by MakeMKV, dvdbackup, or ddrescue.
  The volume \<open>Staging\<close> is the disc's staging directory. The tools are parameters (\<open>backup_tools\<close>):
  what each prints and the file it leaves; None is a tool that cannot be started. A run of dvdbackup
  is the list of what the program sees of it every five seconds, and whether it made a
  \<^verbatim>\<open>VIDEO_TS\<close>; its mirror directory is not kept after any branch and is left out, as are the reports
  of progress and the log lines.
\<close>

section \<open>Data\<close>

record limits =
  lm_rescue :: nat
  lm_trim :: nat
  lm_max_read_errors :: nat
  lm_max_mirror_mb :: int

definition default_limits :: limits where
  "default_limits = \<lparr>lm_rescue = 60 * 60, lm_trim = 15 * 60, lm_max_read_errors = 3, lm_max_mirror_mb = 12000\<rparr>"

record backup_outcome =
  bo_method :: string
  bo_read_errors :: nat
  bo_damage :: "damage_info option"

record staging =
  sg_device :: string
  sg_label :: string

datatype backup_error =
    BkIo io_error
  | BkTool string
  | MirrorTooBig int
  | TooManyReadErrors nat
  | NoVideoTs
  | BadIsoImage
  | GenIsoFailed
  | ReadNothing
  | NeverRead "f64 option" int
  | RawUnreadable
  | Unreadable

text \<open>A directory as \<^verbatim>\<open>dir_size\<close> walks it.\<close>

datatype dir_entry = Size int | SubDir "dir_entry list" | NoMetadata

fun dir_size :: "dir_entry \<Rightarrow> int" where
  "dir_size (Size n) = n"
| "dir_size (SubDir es) = sum_list (map dir_size es)"
| "dir_size NoMetadata = 0"

record snapshot =
  sn_mirror :: dir_entry
  sn_log :: string

record backup_tools =
  bt_fl :: rounding
  bt_forced :: bool
  bt_drives :: string
  bt_makemkv :: "string \<Rightarrow> (string list \<times> string option) option"
  bt_lsdvd :: "string option \<Rightarrow> bool"
  bt_isoinfo :: "string option \<Rightarrow> string"
  bt_decrypt :: "string option \<Rightarrow> (string \<times> string option) option"
  bt_dvdbackup :: "string option \<Rightarrow> (snapshot list \<times> bool) option"
  bt_geniso :: "bool \<times> string option"
  bt_ddrescue :: "string list \<Rightarrow> string option \<Rightarrow> string option \<Rightarrow> (string option \<times> string option) option"
  bt_ddrescuelog :: "string option \<Rightarrow> string"

type_synonym 'a bkp = "(backup_error, 'a) io"

definition ISO :: string where "ISO = ''master.iso''"
definition RAW :: string where "RAW = ''raw.iso''"
definition MAP :: string where "MAP = ''raw.map''"

definition put_opt :: "string \<Rightarrow> string option \<Rightarrow> world \<Rightarrow> world" where
  "put_opt p c w = (case c of None \<Rightarrow> w | Some c \<Rightarrow> put Staging p (File c) w)"

section \<open>The rescue's map\<close>

record rescue_stats =
  rs_percent :: "f64 option"
  rs_missing :: int
  rs_non_tried :: int

definition unit_factor :: "string \<Rightarrow> f64" where
  "unit_factor u = (if u = ''kB'' then 1000 else if u = ''MB'' then 1000000 else if u = ''GB'' then 1000000000 else 1)"

definition amount :: "rounding \<Rightarrow> string list \<Rightarrow> f64" where
  "amount fl ws =
     (let n = (case ws of [] \<Rightarrow> 0 | w # _ \<Rightarrow> (case parse_f64 fl w of Some x \<Rightarrow> x | None \<Rightarrow> 0));
          u = (if 1 < length ws then trim_end_matches (\<lambda>c. c = CHR '','') (ws ! 1) else ''B'')
      in fl (n * unit_factor u))"

definition rescued_percent :: "rounding \<Rightarrow> string \<Rightarrow> f64 option" where
  "rescued_percent fl rest =
     (case rsplit_once (CHR ''('') rest of
        None \<Rightarrow> None
      | Some (_, p) \<Rightarrow> parse_f64 fl (trim (trim_end_matches (\<lambda>c. c = CHR ''%'')
                          (trim_end_matches (\<lambda>c. c = CHR '')'') (trim p)))))"

type_synonym tally = "f64 option \<times> f64 \<times> f64"

definition stat_line :: "rounding \<Rightarrow> string \<Rightarrow> tally \<Rightarrow> tally" where
  "stat_line fl l = (\<lambda>(pct, missing, non_tried).
     case split_once (CHR '':'') (trim l) of
       None \<Rightarrow> (pct, missing, non_tried)
     | Some (key, rest) \<Rightarrow>
         let b = amount fl (split_whitespace rest) in
         if key = ''rescued'' then (rescued_percent fl rest, missing, non_tried)
         else if key = ''non-tried'' then (pct, fl (missing + b), fl (non_tried + b))
         else if key = ''non-trimmed'' \<or> key = ''non-scraped'' \<or> key = ''bad-sector'' then (pct, fl (missing + b), non_tried)
         else (pct, missing, non_tried))"

text \<open>\<^verbatim>\<open>round() as u64\<close>.\<close>

definition as_u64 :: "f64 \<Rightarrow> int" where
  "as_u64 x = max 0 (min (2 ^ 64 - 1) (round_away x))"

definition rescue_stats_of :: "rounding \<Rightarrow> string \<Rightarrow> rescue_stats" where
  "rescue_stats_of fl t =
     (case fold (stat_line fl) (lines t) (None, 0, 0) of
        (pct, missing, non_tried) \<Rightarrow> \<lparr>rs_percent = pct, rs_missing = as_u64 missing, rs_non_tried = as_u64 non_tried\<rparr>)"

definition map_stats :: "backup_tools \<Rightarrow> rescue_stats bkp" where
  "map_stats tools = gets (\<lambda>w. rescue_stats_of (bt_fl tools) (bt_ddrescuelog tools (content_at w Staging MAP)))"

section \<open>Checks\<close>

definition lsdvd_ok :: "backup_tools \<Rightarrow> string \<Rightarrow> bool bkp" where
  "lsdvd_ok tools p = gets (\<lambda>w. bt_lsdvd tools (content_at w Staging p))"

text \<open>lsdvd can fail on a good image: then a report of MakeMKV that it is done, or the file listing.\<close>

definition listed :: "backup_tools \<Rightarrow> string option \<Rightarrow> string \<Rightarrow> bool \<Rightarrow> bool" where
  "listed tools img log_text raw \<longleftrightarrow>
     (let tree = bt_isoinfo tools img
      in (backup_done log_text \<and> contains tree ''VIDEO_TS'') \<or> (raw \<and> contains tree ''VIDEO_TS.IFO''))"

text \<open>\<^verbatim>\<open>read_to_string(..).unwrap_or_default()\<close>.\<close>

definition read_or_empty :: "string \<Rightarrow> string bkp" where
  "read_or_empty p = (\<lambda>w. case read_file Staging p w of (r, w') \<Rightarrow> (Inr (case r of Inr t \<Rightarrow> t | Inl e \<Rightarrow> []), w'))"

definition readable :: "backup_tools \<Rightarrow> string \<Rightarrow> string \<Rightarrow> bool \<Rightarrow> bool bkp" where
  "readable tools p makemkv_log raw =
     andthen (lsdvd_ok tools p)
     (\<lambda>fine. if fine then ret True
        else andthen (read_or_empty makemkv_log)
             (\<lambda>log_text. gets (\<lambda>w. listed tools (content_at w Staging p) log_text raw)))"

section \<open>The ways to copy a disc\<close>

text \<open>The lines that are not progress, as the log.\<close>

definition makemkv_log :: "rounding \<Rightarrow> string list \<Rightarrow> string" where
  "makemkv_log fl ls = concat (map (\<lambda>l. l @ [newline]) (filter (\<lambda>l. progress fl l = None) ls))"

definition makemkv_backup :: "backup_tools \<Rightarrow> string \<Rightarrow> string bkp" where
  "makemkv_backup tools src =
     (case bt_makemkv tools src of
        None \<Rightarrow> throw (BkTool ''makemkvcon'')
      | Some (ls, img) \<Rightarrow>
          andthen (\<lambda>w. (Inr (), put_opt ISO img w))
          (\<lambda>_. andthen (wrap BkIo (create_dir_all Staging ''logs''))
          (\<lambda>_. let log_text = makemkv_log (bt_fl tools) ls
               in andthen (wrap BkIo (overwrite Staging ''logs/backup.log'' log_text)) (\<lambda>_. ret log_text))))"

definition error_lines :: "string \<Rightarrow> nat" where
  "error_lines t = length (filter (\<lambda>l. starts_with l ''Error reading'') (lines t))"

text \<open>What the program sees of dvdbackup every five seconds: the first guard that fails stops the copy.\<close>

fun guard_loop :: "limits option \<Rightarrow> snapshot list \<Rightarrow> backup_error option" where
  "guard_loop g [] = None"
| "guard_loop g (sn # rest) =
     (case g of
        None \<Rightarrow> guard_loop g rest
      | Some l \<Rightarrow>
          if dir_size (sn_mirror sn) div 1000000 > lm_max_mirror_mb l then Some (MirrorTooBig (lm_max_mirror_mb l))
          else if error_lines (sn_log sn) \<ge> lm_max_read_errors l then Some (TooManyReadErrors (error_lines (sn_log sn)))
          else guard_loop g rest)"

definition mirror_to_iso :: "backup_tools \<Rightarrow> string option \<Rightarrow> limits option \<Rightarrow> unit bkp" where
  "mirror_to_iso tools src guards =
     andthen (wrap BkIo (create_dir_all Staging ''logs''))
     (\<lambda>_. case bt_dvdbackup tools src of
        None \<Rightarrow> throw (BkTool ''dvdbackup'')
      | Some (seen, video_ts) \<Rightarrow>
          (case guard_loop guards seen of
             Some e \<Rightarrow> throw e
           | None \<Rightarrow>
               if \<not> video_ts then throw NoVideoTs
               else case bt_geniso tools of (good, img) \<Rightarrow>
                 andthen (\<lambda>w. (if good then Inr () else Inl GenIsoFailed, put_opt ISO img w))
                 (\<lambda>_. andthen (lsdvd_ok tools ISO) (\<lambda>fine. if_err (\<not> fine) BadIsoImage))))"

definition dvdbackup_mirror :: "backup_tools \<Rightarrow> limits \<Rightarrow> unit bkp" where
  "dvdbackup_mirror tools l = mirror_to_iso tools None (Some l)"

text \<open>The log of the decryption is appended to.\<close>

definition decrypt_raw :: "backup_tools \<Rightarrow> unit bkp" where
  "decrypt_raw tools =
     andthen (ignore (remove_file Staging ISO))
     (\<lambda>_. andthen (wrap BkIo (create_dir_all Staging ''logs''))
     (\<lambda>_ w. case bt_decrypt tools (content_at w Staging RAW) of
        None \<Rightarrow> (Inl (BkTool ''makemkvcon''), w)
      | Some (printed, img) \<Rightarrow>
          let old = (case content_at w Staging ''logs/decrypt.log'' of Some t \<Rightarrow> t | None \<Rightarrow> [])
          in andthen (read_or_empty ''logs/decrypt.log'')
             (\<lambda>text. andthen (if backup_failed text then ret False else readable tools ISO ''logs/decrypt.log'' False)
             (\<lambda>fine. if fine then ret ()
                else andthen (ignore (remove_file Staging ISO))
                     (\<lambda>_. andthen (gets (\<lambda>w. content_at w Staging RAW)) (\<lambda>raw. mirror_to_iso tools raw None))))
             (put Staging ''logs/decrypt.log'' (File (old @ printed)) (put_opt ISO img w))))"

definition ddrescue :: "backup_tools \<Rightarrow> string list \<Rightarrow> unit bkp" where
  "ddrescue tools args = (\<lambda>w.
     case bt_ddrescue tools ([''-d'', ''-b'', ''2048''] @ args) (content_at w Staging RAW) (content_at w Staging MAP) of
       None \<Rightarrow> (Inl (BkTool ''ddrescue''), w)
     | Some (raw, mp) \<Rightarrow> (Inr (), put_opt MAP mp (put_opt RAW raw w)))"

definition record_rescue :: "backup_tools \<Rightarrow> damage_info option bkp" where
  "record_rescue tools =
     andthen (map_stats tools)
     (\<lambda>s. if rs_missing s = 0 then andthen (ignore (remove_file Staging RAW)) (\<lambda>_. ret None)
          else ret (Some \<lparr>dm_recovered_percent = (case rs_percent s of Some p \<Rightarrow> p | None \<Rightarrow> 0),
                          dm_missing_bytes = rs_missing s, dm_rescue_pending = True\<rparr>))"

definition ensure_all_tried :: "backup_tools \<Rightarrow> unit bkp" where
  "ensure_all_tried tools =
     andthen (map_stats tools)
     (\<lambda>s. if_err (rs_non_tried s > 0) (NeverRead (rs_percent s) (rs_non_tried s div 1000000)))"

text \<open>\<^verbatim>\<open>is_err()\<close> of a call.\<close>

definition failed :: "('s, 'e, 'a) sem \<Rightarrow> ('s, 'f, bool) sem" where
  "failed m = (\<lambda>s. case m s of (r, s') \<Rightarrow> (Inr (isl r), s'))"

definition link_or_copy :: "unit bkp" where
  "link_or_copy =
     andthen (ignore (remove_file Staging ISO))
     (\<lambda>_. andthen (failed (hard_link Staging RAW ISO))
     (\<lambda>bad. whenever bad (wrap BkIo (copy_file Staging RAW Staging ISO))))"

definition master_from_raw :: "backup_tools \<Rightarrow> unit bkp" where
  "master_from_raw tools =
     andthen (failed (decrypt_raw tools))
     (\<lambda>bad. andthen (whenever bad link_or_copy)
     (\<lambda>_. andthen (readable tools ISO ''logs/decrypt.log'' True) (\<lambda>fine. if_err (\<not> fine) RawUnreadable)))"

definition something_read :: "unit bkp" where
  "something_read = andthen (gets (\<lambda>w. content_at w Staging RAW)) (\<lambda>c. if_err (c = None \<or> c = Some []) ReadNothing)"

definition finish_rescue :: "backup_tools \<Rightarrow> string \<Rightarrow> backup_outcome bkp" where
  "finish_rescue tools method =
     andthen (ensure_all_tried tools)
     (\<lambda>_. andthen (master_from_raw tools)
     (\<lambda>_. andthen (record_rescue tools)
     (\<lambda>d. ret \<lparr>bo_method = method, bo_read_errors = 0, bo_damage = d\<rparr>)))"

definition rescue :: "backup_tools \<Rightarrow> backup_outcome bkp" where
  "rescue tools =
     andthen (ddrescue tools [''-n''])
     (\<lambda>_. andthen (ddrescue tools [''-r1'']) (\<lambda>_. andthen something_read (\<lambda>_. finish_rescue tools ''rescue'')))"

definition raw_image :: "backup_tools \<Rightarrow> backup_outcome bkp" where
  "raw_image tools =
     andthen (ignore (remove_file Staging ISO))
     (\<lambda>_. andthen (ddrescue tools [''-n'']) (\<lambda>_. andthen something_read (\<lambda>_. finish_rescue tools ''raw'')))"

definition resume_rescue :: "backup_tools \<Rightarrow> backup_outcome bkp" where
  "resume_rescue tools = andthen (ddrescue tools [''-r1'']) (\<lambda>_. finish_rescue tools ''rescue'')"

section \<open>The backup\<close>

definition makemkv_source :: "backup_tools \<Rightarrow> staging \<Rightarrow> string option" where
  "makemkv_source tools st =
     (if bt_forced tools \<or> \<not> starts_with (sg_device st) ''/dev/'' then None
      else map_option (\<lambda>i. ''disc:'' @ nat_str i) (drive_index (bt_drives tools) (sg_device st)))"

definition needs_rescue :: "string \<Rightarrow> bool" where
  "needs_rescue log_text \<longleftrightarrow> backup_failed log_text \<and> medium_error log_text"

definition needs_dvdbackup :: "backup_tools \<Rightarrow> string option \<Rightarrow> string \<Rightarrow> bool" where
  "needs_dvdbackup tools idx log_text \<longleftrightarrow>
     idx = None \<or> bt_forced tools \<or> backup_failed log_text \<or> contains log_text ''too old''"

definition copy_disc :: "backup_tools \<Rightarrow> limits \<Rightarrow> string option \<Rightarrow> string \<Rightarrow> backup_outcome bkp" where
  "copy_disc tools l idx log_text =
     (if needs_rescue log_text then rescue tools
      else if needs_dvdbackup tools idx log_text
      then andthen (failed (dvdbackup_mirror tools l))
           (\<lambda>bad. if bad then raw_image tools
                  else ret \<lparr>bo_method = ''dvdbackup'', bo_read_errors = read_errors log_text, bo_damage = None\<rparr>)
      else ret \<lparr>bo_method = ''makemkv'', bo_read_errors = read_errors log_text, bo_damage = None\<rparr>)"

definition is_raw :: "string \<Rightarrow> bool" where
  "is_raw method \<longleftrightarrow> method = ''rescue'' \<or> method = ''raw''"

definition backup :: "backup_tools \<Rightarrow> staging \<Rightarrow> limits \<Rightarrow> backup_outcome bkp" where
  "backup tools st l =
     andthen (wrap BkIo (create_dir_all Staging ''logs''))
     (\<lambda>_. andthen (ignore (remove_file Staging ISO))
     (\<lambda>_. let idx = makemkv_source tools st in
          andthen (case idx of Some src \<Rightarrow> makemkv_backup tools src | None \<Rightarrow> ret [])
          (\<lambda>log_text. andthen (copy_disc tools l idx log_text)
          (\<lambda>out. andthen (readable tools ISO ''logs/backup.log'' (is_raw (bo_method out)))
          (\<lambda>fine. if fine then ret out else throw Unreadable)))))"

section \<open>What a backup that succeeds has made\<close>

abbreviation map_is :: "string option \<Rightarrow> world \<Rightarrow> bool" where
  "map_is c \<equiv> \<lambda>w. content_at w Staging MAP = c"

lemma paths_differ [simp]: "ISO \<noteq> MAP" "RAW \<noteq> MAP" "''logs/decrypt.log'' \<noteq> MAP" "''logs/backup.log'' \<noteq> MAP"
  by (simp_all add: ISO_def RAW_def MAP_def)

lemmas paths_differ_sym [simp] = paths_differ [symmetric]

lemma content_at_put:
  "content_at (put v p n w) u q =
     (if u = v \<and> q = p \<and> q \<noteq> [] then (case n of File c \<Rightarrow> Some c | Dir \<Rightarrow> None) else content_at w u q)"
  by (auto simp: content_at_def lookup_put split: node.splits)

lemma map_is_put_opt: "p \<noteq> MAP \<Longrightarrow> map_is c w \<Longrightarrow> map_is c (put_opt p i w)"
  by (auto simp: put_opt_def content_at_def lookup_put split: option.splits)

lemma keeps_put_opt: "p \<noteq> MAP \<Longrightarrow> keeps (map_is c) (\<lambda>w. (f w, put_opt p i w)) (\<lambda>_. True)"
  using map_is_put_opt by (auto simp: keeps_def)

lemma keeps_failed: "keeps P m (\<lambda>_. True) \<Longrightarrow> keeps P (failed m) (\<lambda>_. True)"
  by (auto simp: keeps_def failed_def split: prod.splits)

lemma keeps_read_or_empty: "keeps (map_is c) (read_or_empty p) (\<lambda>_. True)"
proof -
  have "content_at (snd (read_file Staging p w)) Staging MAP = content_at w Staging MAP" for w
    using keepsD [OF same.keeps_read [of "\<lambda>_. True"]] by blast
  then show ?thesis by (auto simp: keeps_def read_or_empty_def split: prod.splits) (metis snd_conv)
qed

lemma keeps_readable: "keeps (map_is c) (readable tools i l raw) (\<lambda>_. True)"
  unfolding readable_def lsdvd_ok_def by (intro keeps_intros keeps_read_or_empty TrueI)

lemma keeps_mirror: "keeps (map_is c) (mirror_to_iso tools src g) (\<lambda>_. True)"
  unfolding mirror_to_iso_def lsdvd_ok_def
  by (intro keeps_intros same.keeps_calls keeps_put_opt TrueI paths_differ)

lemma keeps_decrypt: "keeps (map_is c) (decrypt_raw tools) (\<lambda>_. True)"
proof -
  have step: "map_is c (put Staging ''logs/decrypt.log'' n (put_opt ISO i w))" if "map_is c w" for n i w
    using map_is_put_opt [OF paths_differ(1) that] by (simp add: content_at_put)
  have run: "keeps (map_is c) (\<lambda>w. case bt_decrypt tools (content_at w Staging RAW) of
      None \<Rightarrow> (Inl (BkTool ''makemkvcon''), w)
    | Some (printed, img) \<Rightarrow> f w (put Staging ''logs/decrypt.log'' (File (g w printed)) (put_opt ISO img w))) (\<lambda>_. True)"
    if "\<And>w. keeps (map_is c) (f w) (\<lambda>_. True)" for f :: "world \<Rightarrow> unit bkp" and g
    using keepsD [OF that] step by (auto simp: keeps_def split: option.splits)
  show ?thesis
    unfolding decrypt_raw_def Let_def
    apply (intro keeps_andthen_any keeps_ignore same.keeps_calls TrueI keeps_wrap)
      apply simp
    apply (rule run)
    apply (intro keeps_intros same.keeps_calls keeps_read_or_empty keeps_readable keeps_mirror TrueI)
    apply simp
    done
qed

lemma keeps_master_from_raw: "keeps (map_is c) (master_from_raw tools) (\<lambda>_. True)"
  unfolding master_from_raw_def link_or_copy_def
  by (intro keeps_intros keeps_failed keeps_decrypt keeps_readable same.keeps_calls TrueI) simp_all

lemma keeps_record_rescue: "keeps (map_is c) (record_rescue tools) (\<lambda>_. True)"
  unfolding record_rescue_def map_stats_def by (intro keeps_intros same.keeps_calls TrueI) simp_all

definition stats_at :: "backup_tools \<Rightarrow> world \<Rightarrow> rescue_stats" where
  "stats_at tools w = rescue_stats_of (bt_fl tools) (bt_ddrescuelog tools (content_at w Staging MAP))"

lemma map_kept: "keeps (map_is (content_at w Staging MAP)) m Q \<Longrightarrow> m w = (r, w') \<Longrightarrow> stats_at tools w' = stats_at tools w"
  using keepsD [of "map_is (content_at w Staging MAP)" m Q w] by (simp add: stats_at_def)

lemma finish_rescue_ok:
  assumes "finish_rescue tools method w = (Inr out, w')"
  shows "bo_method out = method \<and> rs_non_tried (stats_at tools w') \<le> 0
       \<and> (bo_damage out = None \<longleftrightarrow> rs_missing (stats_at tools w') = 0)"
proof -
  from assms obtain w1 d where tried: "rs_non_tried (stats_at tools w) \<le> 0"
    and 1: "master_from_raw tools w = (Inr (), w1)" and 2: "record_rescue tools w1 = (Inr d, w')"
    and out: "out = \<lparr>bo_method = method, bo_read_errors = 0, bo_damage = d\<rparr>"
    by (auto simp: finish_rescue_def ensure_all_tried_def map_stats_def stats_at_def andthen_Inr_iff gets_def
        if_err_def ret_def throw_def split: if_splits)
  have "stats_at tools w1 = stats_at tools w" using keeps_master_from_raw 1 by (rule map_kept)
  moreover have "stats_at tools w' = stats_at tools w1" using keeps_record_rescue 2 by (rule map_kept)
  moreover from 2 have "d = None \<longleftrightarrow> rs_missing (stats_at tools w1) = 0"
    by (auto simp: record_rescue_def map_stats_def stats_at_def andthen_Inr_iff gets_def ret_def split: if_splits)
  ultimately show ?thesis using tried out by simp
qed

lemma rescue_ok:
  "rescue tools w = (Inr out, w') \<Longrightarrow> \<exists>w1. finish_rescue tools ''rescue'' w1 = (Inr out, w')"
  "raw_image tools w = (Inr out, w') \<Longrightarrow> \<exists>w1. finish_rescue tools ''raw'' w1 = (Inr out, w')"
  "resume_rescue tools w = (Inr out, w') \<Longrightarrow> \<exists>w1. finish_rescue tools ''rescue'' w1 = (Inr out, w')"
  by (auto simp: rescue_def raw_image_def resume_rescue_def andthen_Inr_iff)

lemma copy_disc_ok:
  assumes "copy_disc tools l idx log_text w = (Inr out, w')" and "is_raw (bo_method out)"
  shows "rs_non_tried (stats_at tools w') \<le> 0 \<and> (bo_damage out = None \<longleftrightarrow> rs_missing (stats_at tools w') = 0)"
proof -
  from assms obtain how w1 where "finish_rescue tools how w1 = (Inr out, w')"
    by (auto simp: copy_disc_def is_raw_def andthen_Inr_iff ret_def split: if_splits dest!: rescue_ok)
  from finish_rescue_ok [OF this] show ?thesis by blast
qed

lemma readable_ok:
  assumes "readable tools p l raw w = (Inr True, w')"
  shows "bt_lsdvd tools (content_at w' Staging p) \<or> (\<exists>t. listed tools (content_at w' Staging p) t raw)"
  using assms by (auto simp: readable_def lsdvd_ok_def andthen_Inr_iff gets_def ret_def split: if_splits)


text \<open>A home-burned disc that only ddrescue can copy, with a bad sector.\<close>

definition sample_bk_tools :: backup_tools where
  "sample_bk_tools =
     \<lparr>bt_fl = id, bt_forced = False, bt_drives = [], bt_makemkv = (\<lambda>_. None), bt_lsdvd = (\<lambda>_. False),
      bt_isoinfo = (\<lambda>c. if c = None then [] else ''VIDEO_TS.IFO''), bt_decrypt = (\<lambda>_. None), bt_dvdbackup = (\<lambda>_. None),
      bt_geniso = (False, None), bt_ddrescue = (\<lambda>_ _ _. Some (Some ''r'', Some ''m'')),
      bt_ddrescuelog = (\<lambda>_. ''rescued: 9 kB, (90%)'' @ [newline] @ ''bad-sector: 1 kB, errors: 1'')\<rparr>"

definition empty_world :: world where
  "empty_world = \<lparr>w_vols = (\<lambda>_. []), w_tick = 0, w_ok = (\<lambda>_. True), w_medium = (\<lambda>_ c. c)\<rparr>"

definition sample_backup :: "(backup_error + backup_outcome) \<times> world" where
  "sample_backup = backup sample_bk_tools \<lparr>sg_device = ''d'', sg_label = ''L''\<rparr> default_limits empty_world"


text \<open>Its record: a tenth is missing.\<close>

lemma sample_backup_damage:
  "fst sample_backup = Inr \<lparr>bo_method = ''raw'', bo_read_errors = 0,
     bo_damage = Some \<lparr>dm_recovered_percent = 90, dm_missing_bytes = 1000, dm_rescue_pending = True\<rparr>\<rparr>"
  by code_simp

end
