(* ===== verification/Agent.thy ===== *)
theory Agent
  imports Backup Publish Controller
begin

text \<open>
  \<^verbatim>\<open>apps/dvdrip/src/agent.rs\<close>: the task of one drive. The volumes \<open>Staging\<close> and \<open>Work\<close> are the disc's
  directories under the staging path and the work volume, \<open>Seed\<close> is the older pipeline's directory.
  What the node tells (udev, isoinfo, lsdvd, statvfs, the clock) is in \<open>agent_env\<close>. Requests for Drive
  objects have faults of their own; Disc objects live in the controller's \<open>cluster\<close>. Left out: sleeps,
  the wait for the tray, metrics, trace spans, and the tasks that renew the heartbeats every 30 s.
\<close>

section \<open>Data\<close>

record agent_args =
  aa_node :: string
  aa_staging :: string
  aa_min_free_gb :: int
  aa_rescue_minutes :: nat
  aa_trim_minutes :: nat
  aa_rerip :: "string list"
  aa_seed_dir :: bool
  aa_presets :: string

record preset =
  pr_name :: "string option"
  pr_disc :: "nat option"

datatype agent_error =
    AgIo io_error
  | AgBackup backup_error
  | AgCopy publish_error
  | AgApi api_error
  | UploadVanished

record agent_env =
  ae_backup :: backup_tools
  ae_env :: env
  ae_device :: string
  ae_udev :: "(string \<times> string) list"
  ae_isoinfo :: string
  ae_ifo :: string
  ae_lsdvd :: "nat \<Rightarrow> string"
  ae_paused :: bool
  ae_free_gb :: "vol \<Rightarrow> int option"
  ae_parse_presets :: "string \<Rightarrow> (string \<times> preset) list option"
  ae_now :: string
  ae_age :: "string \<Rightarrow> int option"
  ae_seconds :: int
  ae_show :: "agent_error \<Rightarrow> string"

record drive =
  dr_spec :: drive_spec
  dr_status :: "drive_status option"

type_synonym reported = "drive_state \<times> string option \<times> string option"

record agent =
  ag_files :: world
  ag_kube :: cluster
  ag_drives :: "(string \<times> drive) list"
  ag_drive_calls :: nat
  ag_drive_faults :: "nat \<Rightarrow> call_fault"
  ag_last :: "reported option"
  ag_handled :: "string option"
  ag_ejects :: nat

type_synonym 'a agm = "(agent, agent_error, 'a) sem"

definition on_disk :: "('e \<Rightarrow> agent_error) \<Rightarrow> ('e, 'a) io \<Rightarrow> 'a agm" where
  "on_disk g m = (\<lambda>s. case m (ag_files s) of
     (Inl e, w) \<Rightarrow> (Inl (g e), s\<lparr>ag_files := w\<rparr>) | (Inr x, w) \<Rightarrow> (Inr x, s\<lparr>ag_files := w\<rparr>))"

definition on_discs :: "'a api \<Rightarrow> 'a agm" where
  "on_discs m = (\<lambda>s. case m (ag_kube s) of
     (Inl e, k) \<Rightarrow> (Inl (AgApi e), s\<lparr>ag_kube := k\<rparr>) | (Inr x, k) \<Rightarrow> (Inr x, s\<lparr>ag_kube := k\<rparr>))"

definition drive_call :: "'a agm \<Rightarrow> 'a agm" where
  "drive_call m = (\<lambda>s. let s' = s\<lparr>ag_drive_calls := Suc (ag_drive_calls s)\<rparr>
     in case ag_drive_faults s (ag_drive_calls s) of
          Fine \<Rightarrow> m s'
        | Lost \<Rightarrow> (Inl (AgApi Unreachable), s')
        | Late \<Rightarrow> (Inl (AgApi Unreachable), snd (m s')))"

section \<open>What a disc says about itself\<close>

definition FINGERPRINT_LABEL :: string where "FINGERPRINT_LABEL = ''dvd.trdos.me/fingerprint''"

definition parse_label :: "string \<Rightarrow> string" where
  "parse_label isoinfo =
     (case find_map (strip_prefix ''Volume id: '') (lines isoinfo) of
        None \<Rightarrow> ''UNKNOWN''
      | Some l \<Rightarrow> if trim l = [] then ''UNKNOWN'' else trim l)"

definition short_sha :: "env \<Rightarrow> string \<Rightarrow> string" where
  "short_sha e b = take 12 (e_sha256 e b)"

definition lsdvd_text :: "string \<Rightarrow> string" where
  "lsdvd_text out = concat (map (\<lambda>l. l @ [newline]) (filter (\<lambda>l. \<not> starts_with l ''Disc Title'') (lines out)))"

definition fingerprint :: "agent_env \<Rightarrow> string option" where
  "fingerprint ae =
     (if ae_ifo ae \<noteq> [] then Some (short_sha (ae_env ae) (ae_ifo ae))
      else find_map (\<lambda>i. let t = lsdvd_text (ae_lsdvd ae i) in if t = [] then None else Some (short_sha (ae_env ae) t)) [0..<3])"

definition agent_limits :: "agent_args \<Rightarrow> limits" where
  "agent_limits a = default_limits\<lparr>lm_rescue := aa_rescue_minutes a * 60, lm_trim := aa_trim_minutes a * 60\<rparr>"

definition no_preset :: preset where
  "no_preset = \<lparr>pr_name = None, pr_disc = None\<rparr>"

definition preset_for :: "agent_env \<Rightarrow> agent_args \<Rightarrow> string \<Rightarrow> preset" where
  "preset_for ae a fp =
     (case ae_parse_presets ae (aa_presets a) of
        None \<Rightarrow> no_preset
      | Some m \<Rightarrow> (case map_of m fp of Some p \<Rightarrow> p | None \<Rightarrow> no_preset))"

definition listed_for_rerip :: "agent_args \<Rightarrow> string \<Rightarrow> bool" where
  "listed_for_rerip a fp \<longleftrightarrow> list_ex (\<lambda>f. trim f = fp) (aa_rerip a)"

definition was_imported :: "disc_status \<Rightarrow> bool" where
  "was_imported st \<longleftrightarrow> (case st_backup st of Some b \<Rightarrow> bk_method b = ''import'' | None \<Rightarrow> False)"

definition wants_rerip :: "agent_args \<Rightarrow> string \<Rightarrow> disc_status \<Rightarrow> bool" where
  "wants_rerip a fp st \<longleftrightarrow> listed_for_rerip a fp \<and> was_imported st"

section \<open>The Drive object\<close>

text \<open>\<^verbatim>\<open>trim_start_matches(p)\<close> for a non-empty string \<open>p\<close>.\<close>

function trim_start_str :: "string \<Rightarrow> string \<Rightarrow> string" where
  "trim_start_str p s = (if p = [] then s else case strip_prefix p s of Some r \<Rightarrow> trim_start_str p r | None \<Rightarrow> s)"
  by pat_completeness auto
termination by (relation "measure (\<lambda>(p, s). length s)") (auto simp: strip_prefix_Some_iff)

declare trim_start_str.simps [simp del]

definition drive_name :: "agent_args \<Rightarrow> agent_env \<Rightarrow> string" where
  "drive_name a ae = aa_node a @ ''-'' @ trim_start_str ''/dev/'' (ae_device ae)"

definition get_drive :: "string \<Rightarrow> drive option agm" where
  "get_drive name = drive_call (gets (\<lambda>s. map_of (ag_drives s) name))"

definition create_drive :: "string \<Rightarrow> drive \<Rightarrow> drive agm" where
  "create_drive name d =
     drive_call (\<lambda>s. if map_of (ag_drives s) name \<noteq> None then (Inl (AgApi Conflict), s)
                     else (Inr d, s\<lparr>ag_drives := AList.update name d (ag_drives s)\<rparr>))"

text \<open>A merge patch of a status. The status schema requires \<^verbatim>\<open>node\<close>, \<^verbatim>\<open>device\<close> and \<^verbatim>\<open>state\<close>: on an object
  without a status only a patch that has them (\<open>whole\<close>) is valid.\<close>

definition patch_drive_status :: "string \<Rightarrow> bool \<Rightarrow> (drive_status \<Rightarrow> drive_status) \<Rightarrow> unit agm" where
  "patch_drive_status name whole f =
     drive_call (\<lambda>s. case map_of (ag_drives s) name of
        None \<Rightarrow> (Inl (AgApi NotFound), s)
      | Some d \<Rightarrow>
          (case dr_status d of
             Some st \<Rightarrow> (Inr (), s\<lparr>ag_drives := AList.update name (d\<lparr>dr_status := Some (f st)\<rparr>) (ag_drives s)\<rparr>)
           | None \<Rightarrow>
               if \<not> whole then (Inl (AgApi Rejected), s)
               else (Inr (), s\<lparr>ag_drives := AList.update name (d\<lparr>dr_status := Some (f
                      \<lparr>dv_node = [], dv_device = [], dv_model = None, dv_serial = None, dv_state = Waiting, dv_disc = None,
                       dv_message = None, dv_heartbeat = None\<rparr>)\<rparr>) (ag_drives s)\<rparr>)))"

text \<open>An unchanged state is not sent again, and a failed send is tried again the next time.\<close>

definition report_state :: "string \<Rightarrow> drive_state \<Rightarrow> string option \<Rightarrow> string option \<Rightarrow> unit agm" where
  "report_state name ds d msg = (\<lambda>s.
     if ag_last s = Some (ds, d, msg) then (Inr (), s)
     else try_sem (patch_drive_status name False (\<lambda>st. st\<lparr>dv_state := ds, dv_disc := d, dv_message := msg\<rparr>))
            (\<lambda>e. ret ()) (\<lambda>_ s. (Inr (), s\<lparr>ag_last := Some (ds, d, msg)\<rparr>)) s)"

definition udev_model :: "agent_env \<Rightarrow> string" where
  "udev_model ae = join '' '' (List.map_filter (map_of (ae_udev ae)) [''ID_VENDOR'', ''ID_MODEL''])"

definition the_drive :: "agent_args \<Rightarrow> agent_env \<Rightarrow> drive agm" where
  "the_drive a ae =
     andthen (get_drive (drive_name a ae))
     (\<lambda>found. case found of
        Some d \<Rightarrow> ret d
      | None \<Rightarrow>
          andthen (create_drive (drive_name a ae) \<lparr>dr_spec = \<lparr>dr_enabled = True, dr_eject_unknown = True\<rparr>, dr_status = None\<rparr>)
          (\<lambda>d. andthen (patch_drive_status (drive_name a ae) True
                  (\<lambda>st. st\<lparr>dv_node := aa_node a, dv_device := ae_device ae,
                           dv_model := Some (replace_char (CHR ''_'') '' '' (udev_model ae)),
                           dv_serial := map_of (ae_udev ae) ''ID_SERIAL_SHORT'', dv_state := Waiting\<rparr>))
               (\<lambda>_. ret d)))"

definition media :: "agent_env \<Rightarrow> bool \<times> bool" where
  "media ae = (map_of (ae_udev ae) ''ID_CDROM_MEDIA'' = Some ''1'', map_of (ae_udev ae) ''ID_CDROM_MEDIA_DVD'' = Some ''1'')"

definition eject :: "string \<Rightarrow> string option \<Rightarrow> unit agm" where
  "eject name d = andthen (report_state name Ejecting d None) (\<lambda>_ s. (Inr (), s\<lparr>ag_ejects := ag_ejects s + 1\<rparr>))"

text \<open>Is the drive that holds a disc alive: a heartbeat, not from the future, within the lease.\<close>

definition drive_alive :: "agent_env \<Rightarrow> string option \<Rightarrow> bool agm" where
  "drive_alive ae d =
     (case d of
        None \<Rightarrow> ret False
      | Some name \<Rightarrow>
          try_sem (get_drive name) (\<lambda>e. ret False)
            (\<lambda>found. ret (case Option.bind (Option.bind (Option.bind found dr_status) dv_heartbeat) (ae_age ae) of
                            None \<Rightarrow> False | Some age \<Rightarrow> 0 \<le> age \<and> of_int age < LEASE)))"

section \<open>Requests for Disc objects\<close>

definition existing_disc :: "string \<Rightarrow> disc option api" where
  "existing_disc fp =
     call (gets (\<lambda>k. map_option snd
       (find (\<lambda>(n, d). Option.bind (d_labels d) (\<lambda>l. map_of l FINGERPRINT_LABEL) = Some fp) (k_discs k))))"

definition create_disc :: "disc \<Rightarrow> unit api" where
  "create_disc d =
     call (\<lambda>k. if d_name d \<in> fst ` set (k_discs k) then (Inl Conflict, k)
               else (Inr (), k\<lparr>k_discs := k_discs k @ [(d_name d, d)]\<rparr>))"

definition get_status :: "string \<Rightarrow> disc_status api" where
  "get_status name =
     call (\<lambda>k. case map_of (k_discs k) name of
                 None \<Rightarrow> (Inl NotFound, k)
               | Some d \<Rightarrow> (Inr (case d_status d of Some st \<Rightarrow> st | None \<Rightarrow> default_status), k))"

text \<open>A status patch that has the fields the schema requires, valid on a Disc without a status.\<close>

definition patch_whole_status :: "string \<Rightarrow> (disc_status \<Rightarrow> disc_status) \<Rightarrow> unit api" where
  "patch_whole_status name f =
     call (\<lambda>k. case map_of (k_discs k) name of
                 None \<Rightarrow> (Inl NotFound, k)
               | Some d \<Rightarrow>
                   (Inr (), k\<lparr>k_discs := AList.update name
                      (d\<lparr>d_status := Some (f (case d_status d of Some st \<Rightarrow> st | None \<Rightarrow> default_status))\<rparr>) (k_discs k)\<rparr>))"

definition patch_spec :: "string \<Rightarrow> (disc_spec \<Rightarrow> disc_spec) \<Rightarrow> unit api" where
  "patch_spec name f =
     call (\<lambda>k. case map_of (k_discs k) name of
                 None \<Rightarrow> (Inl NotFound, k)
               | Some d \<Rightarrow> (Inr (), k\<lparr>k_discs := AList.update name (d\<lparr>d_spec := f (d_spec d)\<rparr>) (k_discs k)\<rparr>))"

section \<open>An image to continue\<close>

definition is_file :: "world \<Rightarrow> vol \<Rightarrow> string \<Rightarrow> bool" where
  "is_file w v p \<longleftrightarrow> (\<exists>c. lookup w v p = Some (File c))"

lemma is_file_code [code]: "is_file w v p = (content_at w v p \<noteq> None)"
  by (auto simp: is_file_def content_at_def split: option.splits node.splits)

definition under :: "string \<Rightarrow> string \<Rightarrow> string" where
  "under dir n = dir @ ''/'' @ n"

definition seed_matches :: "string \<Rightarrow> string \<Rightarrow> (io_error, bool) io" where
  "seed_matches fp dir = (\<lambda>w.
     case read_file Seed (under dir ''.discid'') w of
       (Inl e, w') \<Rightarrow> (Inr False, w')
     | (Inr t, w') \<Rightarrow> (Inr (trim t = fp \<and> is_file w' Seed (under dir RAW) \<and> is_file w' Seed (under dir MAP)), w'))"

fun seed_loop :: "string \<Rightarrow> string list \<Rightarrow> (io_error, bool) io" where
  "seed_loop fp [] = ret False"
| "seed_loop fp (dir # dirs) =
     andthen (seed_matches fp dir)
     (\<lambda>here. if here
        then andthen (create_dir_all Staging [])
             (\<lambda>_. andthen (copy_file Seed (under dir RAW) Staging RAW)
             (\<lambda>_. andthen (copy_file Seed (under dir MAP) Staging MAP) (\<lambda>_. ret True)))
        else seed_loop fp dirs)"

definition seed_from :: "string \<Rightarrow> (io_error, bool) io" where
  "seed_from fp = andthen (read_dir Seed []) (\<lambda>es. seed_loop fp (map fst es))"

definition have_image :: "world \<Rightarrow> bool" where
  "have_image w \<longleftrightarrow> is_file w Staging RAW \<and> is_file w Staging MAP"

definition partial_image :: "agent_args \<Rightarrow> string \<Rightarrow> (io_error, bool) io" where
  "partial_image a fp =
     andthen (\<lambda>w. if have_image w \<or> \<not> aa_seed_dir a then (Inr (), w)
                  else case seed_from fp w of
                         (Inr seeded, w') \<Rightarrow> (Inr (), w')
                       | (Inl e, w') \<Rightarrow> ignore (remove_file Staging MAP) w')
     (\<lambda>_. gets have_image)"

section \<open>The copy and its upload\<close>

definition fetch :: "string \<Rightarrow> (io_error, unit) io" where
  "fetch f = andthen (exists_path Staging f) (\<lambda>there. whenever (\<not> there) (copy_file Work f Staging f))"

definition read_disc :: "agent_args \<Rightarrow> agent_env \<Rightarrow> string \<Rightarrow> bool \<Rightarrow> backup_outcome agm" where
  "read_disc a ae label resume =
     (if resume
      then andthen (on_disk AgIo (for_each [RAW, MAP] fetch)) (\<lambda>_. on_disk AgBackup (resume_rescue (ae_backup ae)))
      else on_disk AgBackup (backup (ae_backup ae) \<lparr>sg_device = ae_device ae, sg_label = label\<rparr> (agent_limits a)))"

definition master_bytes :: "(io_error, int) io" where
  "master_bytes = io_call (\<lambda>w. case lookup w Staging ISO of
     None \<Rightarrow> (Inl Missing, w) | Some Dir \<Rightarrow> (Inr 0, w) | Some (File c) \<Rightarrow> (Inr (int (length c)), w))"

text \<open>What was made from an older master is removed.\<close>

definition drop_derived :: "('e, unit) io" where
  "drop_derived = for_each [''remux'', ''encodes'', ''repair''] (\<lambda>d. ignore (remove_dir_all Work d))"

definition keep_image :: "env \<Rightarrow> damage_info option \<Rightarrow> unit pub" where
  "keep_image e damage =
     (case damage of
        Some d \<Rightarrow>
          whenever (dm_rescue_pending d)
            (for_each [RAW, MAP] (\<lambda>f. andthen (copy_verified e Staging f Work f None) (\<lambda>_. ret ())))
      | None \<Rightarrow> for_each [RAW, MAP] (\<lambda>f. ignore (remove_file Work f)))"

definition upload_logs :: "('e, unit) io" where
  "upload_logs =
     try_sem (read_dir Staging ''logs'') (\<lambda>e. ret ())
       (\<lambda>es. for_each es (\<lambda>(p, n). ignore (copy_file Staging p Work (''logs/'' @ file_name p))))"

definition clear_volume :: "vol \<Rightarrow> (io_error, unit) io" where
  "clear_volume v = io_call (\<lambda>w. (Inr (), w\<lparr>w_vols := (w_vols w)(v := [])\<rparr>))"

definition upload :: "env \<Rightarrow> damage_info option \<Rightarrow> string pub" where
  "upload e damage =
     andthen (copy_verified e Staging ISO Work MASTER None)
     (\<lambda>sha. andthen drop_derived
     (\<lambda>_. andthen (keep_image e damage)
     (\<lambda>_. andthen upload_logs (\<lambda>_. andthen (ignore (clear_volume Staging)) (\<lambda>_. ret sha)))))"

definition backup_and_upload ::
  "agent_args \<Rightarrow> agent_env \<Rightarrow> string \<Rightarrow> string \<Rightarrow> bool \<Rightarrow> (backup_info \<times> damage_info option \<times> string) agm" where
  "backup_and_upload a ae label name resume =
     andthen (on_disk AgIo (create_dir_all Work ''logs''))
     (\<lambda>_. andthen (on_disk AgIo (create_dir_all Staging ''logs''))
     (\<lambda>_. andthen (report_state (drive_name a ae) DriveBackingUp (Some name) None)
     (\<lambda>_. andthen (read_disc a ae label resume)
     (\<lambda>out. andthen (on_disk AgIo master_bytes)
     (\<lambda>bytes. andthen (report_state (drive_name a ae) Uploading (Some name) None)
     (\<lambda>_. andthen (on_disk AgCopy (upload (ae_env ae) (bo_damage out)))
     (\<lambda>sha. andthen (on_disk AgIo (exists_path Work MASTER))
     (\<lambda>there. if \<not> there then throw UploadVanished
        else ret (\<lparr>bk_method = bo_method out, bk_bytes = bytes, bk_seconds = ae_seconds ae, bk_read_errors = bo_read_errors out,
                   bk_sha256 = sha\<rparr>, bo_damage out,
                  int_str (bytes div 1000000) @ '' MB in '' @ dur (bt_fl (ae_backup ae)) (of_int (ae_seconds ae)) @ '' (''
                  @ bo_method out @ '')'')))))))))"

section \<open>A disc in the drive\<close>

definition backing_up_patch :: "agent_args \<Rightarrow> agent_env \<Rightarrow> string \<Rightarrow> string \<Rightarrow> bool \<Rightarrow> nat \<Rightarrow> disc_status \<Rightarrow> disc_status" where
  "backing_up_patch a ae label fp resume attempts st =
     st\<lparr>st_phase := BackingUp, st_label := label, st_fingerprint := fp, st_drive := Some (drive_name a ae),
        st_attempts := attempts,
        st_message := Some (if resume then ''re-reading the missing sectors'' else ''copying the disc''),
        st_since := Some (ae_now ae)\<rparr>"

definition backed_up_patch ::
  "agent_args \<Rightarrow> agent_env \<Rightarrow> backup_info \<times> damage_info option \<times> string \<Rightarrow> disc_status \<Rightarrow> disc_status" where
  "backed_up_patch a ae r st =
     (case r of (b, d, msg) \<Rightarrow>
        st\<lparr>st_phase := BackedUp, st_message := Some msg, st_backup := Some b, st_damage := d,
           st_drive := Some (drive_name a ae), st_since := Some (ae_now ae)\<rparr>)"

definition failed_patch :: "agent_env \<Rightarrow> string \<Rightarrow> disc_status \<Rightarrow> disc_status" where
  "failed_patch ae msg st = st\<lparr>st_phase := Failed, st_message := Some msg, st_since := Some (ae_now ae)\<rparr>"

definition set_aside :: "agent_args \<Rightarrow> agent_env \<Rightarrow> string \<Rightarrow> string \<Rightarrow> unit agm" where
  "set_aside a ae name msg =
     andthen (eject (drive_name a ae) (Some name)) (\<lambda>_. report_state (drive_name a ae) Waiting None (Some msg))"

text \<open>What to do with a disc that has an object: nothing (None), or back it up, with a flag for a resume.\<close>

definition known_disc :: "agent_args \<Rightarrow> agent_env \<Rightarrow> string \<Rightarrow> string \<Rightarrow> disc \<Rightarrow> (string \<times> bool) option agm" where
  "known_disc a ae label fp d =
     (let name = d_name d; st = (case d_status d of Some st \<Rightarrow> st | None \<Rightarrow> default_status); rerip = wants_rerip a fp st in
      andthen (on_disk AgIo (exists_path Work MAP))
      (\<lambda>map_there.
        if (case st_damage st of Some x \<Rightarrow> dm_rescue_pending x | None \<Rightarrow> False) \<and> map_there then ret (Some (name, True))
        else if st_backup st \<noteq> None \<and> \<not> rerip
        then andthen (on_discs (notify_send (Sent (label @ '': already ripped ('' @ sp_name (d_spec d) @ '')'') ''duplicate'')))
             (\<lambda>_. andthen (set_aside a ae name (label @ '' was already ripped'')) (\<lambda>_. ret None))
        else andthen (if st_phase st = BackingUp \<and> st_drive st \<noteq> Some (drive_name a ae) then drive_alive ae (st_drive st) else ret False)
        (\<lambda>busy. if busy
           then andthen (set_aside a ae name (label @ '' is being backed up on '' @ (case st_drive st of Some o' \<Rightarrow> o' | None \<Rightarrow> [])))
                (\<lambda>_. ret None)
           else andthen (whenever rerip (on_discs (notify_send
                  (Sent (label @ '': ripping again on request (the imported copy was not good)'') ''new''))))
                (\<lambda>_. andthen (on_disk AgIo (partial_image a fp)) (\<lambda>p. ret (Some (name, p)))))))"

definition new_disc :: "agent_args \<Rightarrow> agent_env \<Rightarrow> string \<Rightarrow> string \<Rightarrow> disc" where
  "new_disc a ae label fp =
     (let p = preset_for ae a fp in
      \<lparr>d_name = disc_object_name label fp, d_namespace = None, d_uid = None, d_labels = Some [(FINGERPRINT_LABEL, fp)],
       d_generation = None,
       d_spec = default_disc_spec\<lparr>sp_name := (case pr_name p of Some n \<Rightarrow> n | None \<Rightarrow> label_to_name label),
                                  sp_disc := (case pr_disc p of Some n \<Rightarrow> n | None \<Rightarrow> 1)\<rparr>,
       d_status = None\<rparr>)"

definition unknown_disc :: "agent_args \<Rightarrow> agent_env \<Rightarrow> string \<Rightarrow> string \<Rightarrow> (string \<times> bool) option agm" where
  "unknown_disc a ae label fp =
     (let d = new_disc a ae label fp; name = d_name d in
      try_sem (on_discs (create_disc d))
        (\<lambda>e. if e = AgApi Conflict
             then andthen (set_aside a ae name (label @ '' is being handled by another drive'')) (\<lambda>_. ret None)
             else throw e)
        (\<lambda>_. andthen (on_discs (notify_send (Sent (label @ '': new disc, backing up on '' @ drive_name a ae) ''new'')))
             (\<lambda>_. andthen (on_disk AgIo (partial_image a fp)) (\<lambda>p. ret (Some (name, p))))))"

definition release_hold :: "agent_args \<Rightarrow> agent_env \<Rightarrow> string \<Rightarrow> disc_spec \<Rightarrow> disc_spec" where
  "release_hold a ae fp sp =
     (let p = preset_for ae a fp in
      sp\<lparr>sp_hold := False, sp_name := (case pr_name p of Some n \<Rightarrow> n | None \<Rightarrow> sp_name sp),
         sp_disc := (case pr_disc p of Some n \<Rightarrow> n | None \<Rightarrow> sp_disc sp)\<rparr>)"

definition take_disc :: "agent_args \<Rightarrow> agent_env \<Rightarrow> string \<Rightarrow> string \<Rightarrow> string \<Rightarrow> bool \<Rightarrow> unit agm" where
  "take_disc a ae label fp name resume =
     andthen (on_discs (get_status name))
     (\<lambda>prev. andthen (on_discs (patch_whole_status name (backing_up_patch a ae label fp resume (st_attempts prev + 1))))
     (\<lambda>_. whenever (was_imported prev \<and> listed_for_rerip a fp) (ignore (on_discs (patch_spec name (release_hold a ae fp))))))"

definition copy_and_record :: "agent_args \<Rightarrow> agent_env \<Rightarrow> string \<Rightarrow> string \<Rightarrow> bool \<Rightarrow> unit agm" where
  "copy_and_record a ae label name resume =
     try_sem (backup_and_upload a ae label name resume)
       (\<lambda>e. let msg = ''backup failed: '' @ ae_show ae e in
            andthen (ignore (on_discs (patch_disc_status name (failed_patch ae msg))))
            (\<lambda>_. andthen (on_discs (notify_send (Sent (label @ '': '' @ msg) ''failed'')))
            (\<lambda>_. set_aside a ae name (label @ '': '' @ msg))))
       (\<lambda>r. andthen (on_discs (patch_disc_status name (backed_up_patch a ae r)))
            (\<lambda>_. andthen (on_discs (notify_send (Sent (label @ '': '' @ snd (snd r)) ''backed-up'')))
            (\<lambda>_. set_aside a ae name (label @ '': '' @ snd (snd r)))))"

definition handle :: "agent_args \<Rightarrow> agent_env \<Rightarrow> string \<Rightarrow> string \<Rightarrow> unit agm" where
  "handle a ae label fp =
     andthen (on_discs (existing_disc fp))
     (\<lambda>found. andthen (case found of Some d \<Rightarrow> known_disc a ae label fp d | None \<Rightarrow> unknown_disc a ae label fp)
     (\<lambda>todo. case todo of
        None \<Rightarrow> ret ()
      | Some (name, resume) \<Rightarrow>
          andthen (take_disc a ae label fp name resume) (\<lambda>_. copy_and_record a ae label name resume)))"

definition set_handled :: "string option \<Rightarrow> unit agm" where
  "set_handled h = (\<lambda>s. (Inr (), s\<lparr>ag_handled := h\<rparr>))"

definition low_space :: "agent_args \<Rightarrow> agent_env \<Rightarrow> string option" where
  "low_space a ae =
     find_map (\<lambda>(what, v). case ae_free_gb ae v of
        Some gb \<Rightarrow> if gb < aa_min_free_gb a
                   then Some (''only '' @ int_str gb @ '' GB free on the '' @ what @ ''; waiting for space'') else None
      | None \<Rightarrow> None) [(''staging'', Staging), (''work volume'', Work)]"

definition read_and_handle :: "agent_args \<Rightarrow> agent_env \<Rightarrow> drive \<Rightarrow> unit agm" where
  "read_and_handle a ae dr =
     (let name = drive_name a ae in
      andthen (report_state name Reading None None)
      (\<lambda>_. if \<not> snd (media ae)
        then andthen (set_handled (Some ''not-a-dvd''))
             (\<lambda>_. andthen (whenever (dr_eject_unknown (dr_spec dr)) (eject name None))
             (\<lambda>_. report_state name Waiting None (Some ''the last disc was not a DVD (CD or Blu-ray?)'')))
        else
          let label = parse_label (ae_isoinfo ae) in
          case fingerprint ae of
            None \<Rightarrow>
              andthen (set_handled (Some ''unreadable''))
              (\<lambda>_. andthen (whenever (dr_eject_unknown (dr_spec dr)) (eject name None))
              (\<lambda>_. report_state name Waiting None
                     (Some (label @ '': can''@ [CHR 0x27] @ ''t read VIDEO_TS (not a video DVD, or dirty/scratched)''))))
          | Some fp \<Rightarrow> andthen (set_handled (Some fp)) (\<lambda>_. ignore (handle a ae label fp))))"

definition step :: "agent_args \<Rightarrow> agent_env \<Rightarrow> unit agm" where
  "step a ae =
     (let name = drive_name a ae in
      andthen (the_drive a ae)
      (\<lambda>dr. if \<not> dr_enabled (dr_spec dr) then report_state name Disabled None (Some ''disabled (spec.enabled=false)'')
        else if ae_paused ae then report_state name Paused None (Some (''paused ('' @ aa_staging a @ ''/.pause exists)''))
        else if \<not> fst (media ae) then andthen (set_handled None) (\<lambda>_. report_state name Waiting None None)
        else andthen (gets ag_handled)
        (\<lambda>h. if h \<noteq> None then ret ()
           else case low_space a ae of
                  Some msg \<Rightarrow> report_state name Paused None (Some msg)
                | None \<Rightarrow> read_and_handle a ae dr)))"

section \<open>The uploaded master\<close>

lemma content_at_remove_dir_all:
  "\<not> below d p \<Longrightarrow> p \<noteq> [] \<Longrightarrow> content_at (snd (remove_dir_all u d w)) v p = content_at w v p"
proof -
  assume keep: "\<not> below d p" "p \<noteq> []"
  let ?xs = "filter (\<lambda>(q, n). \<not> below d q) (w_vols w u)"
  have "map_of ?xs p = map_of (w_vols w u) p" using keep by (subst map_of_filter_key) simp
  then show ?thesis using keep
    by (auto simp: content_at_def remove_dir_all_def io_call_def lookup_def tick_def)
qed

lemma keeps_remove_dir_all:
  "\<not> below d p \<Longrightarrow> p \<noteq> [] \<Longrightarrow> keeps (\<lambda>w. content_at w v p = c) (remove_dir_all u d) (\<lambda>_. True)"
  by (simp add: keeps_def content_at_remove_dir_all)

lemma keeps_copy_verified_same:
  assumes "(dv, dst) \<noteq> (v, p)" "(dv, part_of dst) \<noteq> (v, p)"
  shows "keeps (\<lambda>w. content_at w v p = c) (copy_verified e sv src dv dst ex) (\<lambda>_. True)"
  unfolding copy_verified_def sha256_def
  using assms by (intro keeps_intros same.keeps_calls TrueI) auto

lemma keeps_drop_derived: "p \<in> {MASTER, RAW, MAP} \<Longrightarrow> keeps (\<lambda>w. content_at w Work p = c) drop_derived (\<lambda>_. True)"
  unfolding drop_derived_def
  by (intro keeps_for_each keeps_ignore keeps_remove_dir_all)
     (auto simp: below_def starts_with_iff MASTER_def RAW_def MAP_def)

lemma keeps_upload_logs: "p \<in> {MASTER, RAW, MAP} \<Longrightarrow> keeps (\<lambda>w. content_at w Work p = c) upload_logs (\<lambda>_. True)"
  unfolding upload_logs_def
  by (intro keeps_intros same.keeps_calls TrueI) (auto simp: MASTER_def RAW_def MAP_def)

lemma keeps_clear: "u \<noteq> v \<Longrightarrow> keeps (\<lambda>w. content_at w v p = c) (clear_volume u) (\<lambda>_. True)"
  by (auto simp: keeps_def clear_volume_def io_call_def content_at_def lookup_def tick_def)

lemma file_paths_distinct [simp]:
  "MASTER \<noteq> RAW" "MASTER \<noteq> MAP" "RAW \<noteq> MASTER" "MAP \<noteq> MASTER" "MASTER \<noteq> []" "RAW \<noteq> []" "MAP \<noteq> []"
  "part_of RAW \<noteq> MASTER" "part_of MAP \<noteq> MASTER" "part_of MAP \<noteq> RAW" "part_of RAW \<noteq> MAP" "part_of MASTER \<noteq> MASTER"
  by (simp_all add: MASTER_def RAW_def MAP_def part_of_def)

lemma keeps_keep_image: "keeps (\<lambda>w. content_at w Work MASTER = c) (keep_image e d) (\<lambda>_. True)"
  unfolding keep_image_def
  by (intro keeps_intros same.keeps_calls keeps_copy_verified_same TrueI) auto

lemma keep_image_ok:
  assumes "keep_image e (Some d) w = (Inr u, w')" and "dm_rescue_pending d"
  shows "content_at w' Work RAW \<noteq> None \<and> content_at w' Work MAP \<noteq> None"
proof -
  from assms obtain x y w1 where 1: "copy_verified e Staging RAW Work RAW None w = (Inr x, w1)"
    and 2: "copy_verified e Staging MAP Work MAP None w1 = (Inr y, w')"
    by (auto simp: keep_image_def whenever_def andthen_Inr_iff ret_def)
  from copy_verified_ok [OF 1] obtain c where "content_at w1 Work RAW = Some c" by (auto simp: content_at_def)
  then have "content_at w' Work RAW = Some c"
    using keepsD [OF keeps_copy_verified_same, of Work MAP Work RAW w1 "Some c" e Staging MAP None] 2 by simp
  moreover from copy_verified_ok [OF 2] have "content_at w' Work MAP \<noteq> None" by (auto simp: content_at_def)
  ultimately show ?thesis by simp
qed

lemma kept: "keeps (\<lambda>w. content_at w v p = content_at w0 v p) m Q \<Longrightarrow> m w0 = (r, w1) \<Longrightarrow> content_at w1 v p = content_at w0 v p"
  using keepsD [of "\<lambda>w. content_at w v p = content_at w0 v p" m Q w0] by simp

lemma upload_ok:
  assumes "upload e d w = (Inr sha, w')"
  shows "(\<exists>c. content_at w' Work MASTER = Some c \<and> e_sha256 e c = sha)
       \<and> (\<forall>x. d = Some x \<longrightarrow> dm_rescue_pending x \<longrightarrow> content_at w' Work RAW \<noteq> None \<and> content_at w' Work MAP \<noteq> None)"
proof -
  from assms obtain w1 w2 w3 w4 where 1: "copy_verified e Staging ISO Work MASTER None w = (Inr sha, w1)"
    and 2: "(drop_derived :: unit pub) w1 = (Inr (), w2)" and 3: "keep_image e d w2 = (Inr (), w3)"
    and 4: "(upload_logs :: unit pub) w3 = (Inr (), w4)" and 5: "(ignore (clear_volume Staging) :: unit pub) w4 = (Inr (), w')"
    by (auto simp: upload_def andthen_Inr_iff ret_def)
  have late: "content_at w' Work p = content_at w3 Work p" if "p \<in> {MASTER, RAW, MAP}" for p
    using kept [OF keeps_upload_logs [OF that] 4]
      kept [OF keeps_ignore [OF keeps_clear [of Staging Work]] 5] by simp
  have "content_at w3 Work MASTER = content_at w1 Work MASTER"
    using kept [OF keeps_drop_derived 2] kept [OF keeps_keep_image 3] by simp
  moreover from copy_verified_ok [OF 1] obtain c where "content_at w1 Work MASTER = Some c" "e_sha256 e c = sha"
    by (auto simp: content_at_def)
  ultimately show ?thesis using late keep_image_ok [of e _ w2 "()" w3] 3 by auto
qed

lemma record_rescue_pending: "record_rescue tools w = (Inr (Some d), w') \<Longrightarrow> dm_rescue_pending d"
  by (auto simp: record_rescue_def andthen_Inr_iff ret_def split: if_splits)

lemma finish_rescue_pending: "finish_rescue tools m w = (Inr out, w') \<Longrightarrow> bo_damage out = Some d \<Longrightarrow> dm_rescue_pending d"
  by (auto simp: finish_rescue_def andthen_Inr_iff ret_def dest: record_rescue_pending)

lemma backup_pending: "backup tools st l w = (Inr out, w') \<Longrightarrow> bo_damage out = Some d \<Longrightarrow> dm_rescue_pending d"
  by (auto simp: backup_def Let_def copy_disc_def andthen_Inr_iff ret_def throw_def split: if_splits
      dest!: rescue_ok intro: finish_rescue_pending)

lemma on_disk_Inr: "on_disk g m s = (Inr x, s') \<longleftrightarrow> (\<exists>w. m (ag_files s) = (Inr x, w) \<and> s' = s\<lparr>ag_files := w\<rparr>)"
  by (auto simp: on_disk_def split: prod.splits sum.splits)

lemma read_disc_pending: "read_disc a ae label resume s = (Inr out, s') \<Longrightarrow> bo_damage out = Some d \<Longrightarrow> dm_rescue_pending d"
  by (auto simp: read_disc_def andthen_Inr_iff on_disk_Inr split: if_splits
      dest!: rescue_ok intro: finish_rescue_pending backup_pending)


section \<open>Discs that are left alone\<close>

text \<open>What a report to the Drive object does not touch.\<close>

definition same_but_drives :: "agent \<Rightarrow> agent \<Rightarrow> bool" where
  "same_but_drives s s' \<longleftrightarrow> ag_files s' = ag_files s \<and> ag_kube s' = ag_kube s \<and> ag_ejects s' = ag_ejects s"

lemma same_but_drives_trans [trans]: "same_but_drives s t \<Longrightarrow> same_but_drives t u \<Longrightarrow> same_but_drives s u"
  by (simp add: same_but_drives_def)

lemma drive_call_same:
  "(\<And>t. same_but_drives t (snd (m t))) \<Longrightarrow> same_but_drives s (snd (drive_call m s))"
  by (simp add: drive_call_def Let_def same_but_drives_def split: call_fault.split)

lemma patch_drive_same: "same_but_drives s (snd (patch_drive_status name whole f s))"
  unfolding patch_drive_status_def
  by (rule drive_call_same) (simp add: same_but_drives_def split: option.split)

lemma get_drive_same: "same_but_drives s (snd (get_drive name s))"
  unfolding get_drive_def by (rule drive_call_same) (simp add: same_but_drives_def gets_def)

lemma report_state_same: "fst (report_state name ds d msg s) = Inr () \<and> same_but_drives s (snd (report_state name ds d msg s))"
  using patch_drive_same [of s name False "\<lambda>st. st\<lparr>dv_state := ds, dv_disc := d, dv_message := msg\<rparr>"]
  by (auto simp: report_state_def try_sem_def ret_def same_but_drives_def split: prod.splits sum.splits)

lemma report_state_run: obtains s' where "report_state name ds d msg s = (Inr (), s')" "same_but_drives s s'"
  using report_state_same [of name ds d msg s] by (metis prod.collapse)

lemma set_aside_run:
  obtains s' where "set_aside a ae name msg s = (Inr (), s')" "ag_files s' = ag_files s" "ag_kube s' = ag_kube s"
    "ag_ejects s' = ag_ejects s + 1"
proof -
  obtain s1 where 1: "report_state (drive_name a ae) Ejecting (Some name) None s = (Inr (), s1)" "same_but_drives s s1"
    by (rule report_state_run)
  obtain s2 where 2: "report_state (drive_name a ae) Waiting None (Some msg) (s1\<lparr>ag_ejects := ag_ejects s1 + 1\<rparr>) = (Inr (), s2)"
    "same_but_drives (s1\<lparr>ag_ejects := ag_ejects s1 + 1\<rparr>) s2" by (rule report_state_run)
  from 1 2 have "set_aside a ae name msg s = (Inr (), s2)" by (simp add: set_aside_def eject_def andthen_def)
  with 1(2) 2(2) show ?thesis by (intro that [of s2]) (simp_all add: same_but_drives_def)
qed

lemma existing_disc_keeps: "existing_disc fp k = (r, k') \<Longrightarrow> k_discs k' = k_discs k"
  by (auto simp: existing_disc_def call_def Let_def gets_def split: call_fault.splits)

text \<open>Another drive holds the disc and is alive: its Drive object has a heartbeat within the lease.\<close>

definition held_elsewhere :: "agent_args \<Rightarrow> agent_env \<Rightarrow> agent \<Rightarrow> disc_status \<Rightarrow> bool" where
  "held_elsewhere a ae s st \<longleftrightarrow>
     st_phase st = BackingUp \<and> st_drive st \<noteq> Some (drive_name a ae)
     \<and> ag_drive_faults s (ag_drive_calls s) = Fine
     \<and> (case Option.bind (Option.bind (Option.bind (Option.bind (st_drive st) (map_of (ag_drives s))) dr_status) dv_heartbeat) (ae_age ae) of
          Some age \<Rightarrow> 0 \<le> age \<and> age < 300 | None \<Rightarrow> False)"

lemma drive_alive_held:
  assumes "held_elsewhere a ae s st"
  obtains s' where "drive_alive ae (st_drive st) s = (Inr True, s')" "same_but_drives s s'"
proof -
  from assms obtain name dr where n: "st_drive st = Some name" "map_of (ag_drives s) name = Some dr"
    by (auto simp: held_elsewhere_def split: option.splits Option.bind_splits)
  with assms have "get_drive name s = (Inr (Some dr), s\<lparr>ag_drive_calls := Suc (ag_drive_calls s)\<rparr>)"
    by (simp add: get_drive_def drive_call_def Let_def gets_def held_elsewhere_def)
  with assms n have "drive_alive ae (st_drive st) s = (Inr True, s\<lparr>ag_drive_calls := Suc (ag_drive_calls s)\<rparr>)"
    by (auto simp: drive_alive_def try_sem_def ret_def held_elsewhere_def LEASE_def split: option.splits)
  then show ?thesis by (rule that) (simp add: same_but_drives_def)
qed

text \<open>A disc that was ripped, or that a live drive is reading, is given back untouched. No
  file and no Disc object changes; the tray opens once. (A disc whose rescue is pending, with its map
  on the work volume, and one listed to be ripped again are not left alone.)\<close>

theorem known_disc_is_left_alone:
  assumes found: "existing_disc fp (ag_kube s) = (Inr (Some d), k')"
    and st: "d_status d = Some st"
    and no_rescue: "st_damage st = None \<or> lookup (ag_files s) Work MAP = None" and no_rerip: "\<not> wants_rerip a fp st"
    and why: "st_backup st \<noteq> None \<or> held_elsewhere a ae s st"
  shows "\<exists>s'. handle a ae label fp s = (Inr (), s') \<and> ag_files s' = ag_files s
           \<and> k_discs (ag_kube s') = k_discs (ag_kube s) \<and> ag_ejects s' = ag_ejects s + 1"
proof -
  let ?s = "s\<lparr>ag_kube := k'\<rparr>"
  have list: "on_discs (existing_disc fp) s = (Inr (Some d), ?s)" using found by (simp add: on_discs_def)
  have pending: "\<not> ((case st_damage st of Some x \<Rightarrow> dm_rescue_pending x | None \<Rightarrow> False) \<and> lookup (ag_files s) Work MAP \<noteq> None)"
    using no_rescue by auto
  have "\<exists>s'. known_disc a ae label fp d ?s = (Inr None, s') \<and> ag_files s' = ag_files s
      \<and> k_discs (ag_kube s') = k_discs k' \<and> ag_ejects s' = ag_ejects s + 1"
  proof (cases "st_backup st = None")
    case False
    let ?t = "?s\<lparr>ag_kube := k'\<lparr>k_sent := k_sent k' @ [Sent (label @ '': already ripped ('' @ sp_name (d_spec d) @ '')'') ''duplicate'']\<rparr>\<rparr>"
    obtain s' where "set_aside a ae (d_name d) (label @ '' was already ripped'') ?t = (Inr (), s')" "ag_files s' = ag_files s"
      "k_discs (ag_kube s') = k_discs k'" "ag_ejects s' = ag_ejects s + 1"
      by (rule set_aside_run [of a ae "d_name d" "label @ '' was already ripped''" ?t]) simp
    with False pending no_rerip st show ?thesis
      by (auto simp: known_disc_def Let_def andthen_def on_disk_def exists_path_def gets_def on_discs_def notify_send_def ret_def)
  next
    case True
    with why have held: "held_elsewhere a ae s st" by simp
    then have held': "held_elsewhere a ae ?s st" by (simp add: held_elsewhere_def)
    obtain s1 where 1: "drive_alive ae (st_drive st) ?s = (Inr True, s1)" "same_but_drives ?s s1" using held' by (rule drive_alive_held)
    let ?msg = "label @ '' is being backed up on '' @ (case st_drive st of Some o' \<Rightarrow> o' | None \<Rightarrow> [])"
    obtain s' where "set_aside a ae (d_name d) ?msg s1 = (Inr (), s')" "ag_files s' = ag_files s1"
      "ag_kube s' = ag_kube s1" "ag_ejects s' = ag_ejects s1 + 1" by (rule set_aside_run)
    with True pending 1 held st show ?thesis
      by (auto simp: known_disc_def Let_def andthen_def on_disk_def exists_path_def gets_def ret_def held_elsewhere_def same_but_drives_def)
  qed
  with list existing_disc_keeps [OF found] show ?thesis by (auto simp: handle_def andthen_def ret_def)
qed

section \<open>A drive that never registers\<close>

text \<open>The Drive object is there and has no status.\<close>

definition unregistered :: "string \<Rightarrow> agent \<Rightarrow> bool" where
  "unregistered name s \<longleftrightarrow> (case map_of (ag_drives s) name of Some d \<Rightarrow> dr_status d = None | None \<Rightarrow> False)"

lemma unregistered_upd [simp]:
  "unregistered n (s\<lparr>ag_files := x1\<rparr>) = unregistered n s" "unregistered n (s\<lparr>ag_kube := x2\<rparr>) = unregistered n s"
  "unregistered n (s\<lparr>ag_last := x3\<rparr>) = unregistered n s" "unregistered n (s\<lparr>ag_handled := x4\<rparr>) = unregistered n s"
  "unregistered n (s\<lparr>ag_ejects := x5\<rparr>) = unregistered n s" "unregistered n (s\<lparr>ag_drive_calls := x6\<rparr>) = unregistered n s"
  by (simp_all add: unregistered_def)

lemma keeps_drive_call:
  assumes "keeps (unregistered n) m Q"
  shows "keeps (unregistered n) (drive_call m) Q"
proof (rule keepsI)
  fix s x assume s: "unregistered n s"
  let ?s = "s\<lparr>ag_drive_calls := Suc (ag_drive_calls s)\<rparr>"
  have "unregistered n ?s" using s by simp
  with assms have m: "unregistered n (snd (m ?s))" "fst (m ?s) = Inr x \<Longrightarrow> Q x" unfolding keeps_def by blast+
  then show "unregistered n (snd (drive_call m s))" using s by (simp add: drive_call_def Let_def split: call_fault.split)
  show "Q x" if "fst (drive_call m s) = Inr x" using that m(2) by (simp add: drive_call_def Let_def split: call_fault.splits)
qed

lemma keeps_partial_patch: "keeps (unregistered n) (patch_drive_status n False f) (\<lambda>_. True)"
  unfolding patch_drive_status_def
  by (rule keeps_drive_call) (auto simp: keeps_def unregistered_def split: option.splits)

lemma keeps_get_drive: "keeps (unregistered n) (get_drive m) (\<lambda>x. m = n \<longrightarrow> x \<noteq> None)"
  unfolding get_drive_def
  by (rule keeps_drive_call) (auto simp: keeps_def gets_def unregistered_def split: option.splits)

lemma keeps_report: "keeps (unregistered n) (report_state n ds d msg) (\<lambda>_. True)"
proof -
  have "keeps (unregistered n)
      (try_sem (patch_drive_status n False f) (\<lambda>e. ret ()) (\<lambda>_ s. (Inr (), s\<lparr>ag_last := l\<rparr>)) :: unit agm) (\<lambda>_. True)" for f l
    by (intro keeps_intros keeps_partial_patch) (simp_all add: keeps_def)
  then show ?thesis unfolding keeps_def report_state_def by simp
qed

lemma keeps_on: "keeps (unregistered n) (on_disk g m) (\<lambda>_. True)" "keeps (unregistered n) (on_discs m') (\<lambda>_. True)"
  "keeps (unregistered n) (set_handled h) (\<lambda>_. True)"
  by (auto simp: keeps_def on_disk_def on_discs_def set_handled_def split: prod.splits sum.splits)

lemma keeps_eject: "keeps (unregistered n) (eject n d) (\<lambda>_. True)"
  unfolding eject_def by (intro keeps_andthen_any keeps_report) (auto simp: keeps_def)

lemma keeps_set_aside: "keeps (unregistered (drive_name a ae)) (set_aside a ae name msg) (\<lambda>_. True)"
  unfolding set_aside_def by (intro keeps_andthen_any keeps_eject keeps_report)

lemma keeps_drive_alive: "keeps (unregistered n) (drive_alive ae d) (\<lambda>_. True)"
  unfolding drive_alive_def by (intro keeps_intros keeps_True [OF keeps_get_drive] TrueI)

lemmas keeps_drive_ops = keeps_report keeps_on keeps_eject keeps_set_aside keeps_drive_alive

lemma keeps_handle: "keeps (unregistered (drive_name a ae)) (handle a ae label fp) (\<lambda>_. True)"
  unfolding handle_def known_disc_def unknown_disc_def take_disc_def copy_and_record_def backup_and_upload_def read_disc_def
  by (intro keeps_intros keeps_drive_ops TrueI)

lemma keeps_the_drive: "keeps (unregistered (drive_name a ae)) (the_drive a ae) (\<lambda>_. True)"
  unfolding the_drive_def
  by (rule keeps_andthen [OF keeps_get_drive]) (auto intro: keeps_ret)

text \<open>A drive whose first status was lost is never seen again. The agent registers a drive by
  creating its object and then patching in the node, the device and the state. When that patch fails,
  the object is found on the next pass and the patch is not repeated, and every later report lacks
  the required fields and is rejected: no step of the agent ever gives the drive a status.\<close>

theorem lost_registration_is_permanent:
  assumes "unregistered (drive_name a ae) s"
  shows "unregistered (drive_name a ae) (snd (step a ae s))"
proof -
  have "keeps (unregistered (drive_name a ae)) (step a ae) (\<lambda>_. True)"
    unfolding step_def read_and_handle_def Let_def
    by (intro keeps_intros keeps_the_drive keeps_handle keeps_drive_ops TrueI)
  then show ?thesis using assms by (rule keepsD)
qed

section \<open>A drive at work\<close>

definition sample_agent_args :: agent_args where
  "sample_agent_args = \<lparr>aa_node = ''n'', aa_staging = ''/s'', aa_min_free_gb = 1, aa_rescue_minutes = 1, aa_trim_minutes = 1,
     aa_rerip = [], aa_seed_dir = False, aa_presets = []\<rparr>"

definition sample_agent_env :: agent_env where
  "sample_agent_env = \<lparr>ae_backup = sample_bk_tools, ae_env = sample_env, ae_device = ''/dev/sr0'', ae_udev = [],
     ae_isoinfo = [], ae_ifo = ''i'', ae_lsdvd = (\<lambda>_. []), ae_paused = False, ae_free_gb = (\<lambda>_. None),
     ae_parse_presets = (\<lambda>_. None), ae_now = ''t'', ae_age = (\<lambda>_. Some 1), ae_seconds = 9, ae_show = (\<lambda>_. [])\<rparr>"

definition sample_agent :: "(nat \<Rightarrow> call_fault) \<Rightarrow> (string \<times> disc) list \<Rightarrow> agent" where
  "sample_agent faults discs = \<lparr>ag_files = empty_world,
     ag_kube = \<lparr>k_discs = discs, k_jobs = [], k_pods = [], k_sent = [], k_calls = 0, k_faults = (\<lambda>_. Fine)\<rparr>,
     ag_drives = [], ag_drive_calls = 0, ag_drive_faults = faults, ag_last = None, ag_handled = None, ag_ejects = 0\<rparr>"

text \<open>The third request, the patch after the object was created, is lost.\<close>

theorem lost_registration_is_permanent_witness:
  "unregistered ''n-sr0'' (snd (step sample_agent_args sample_agent_env (snd (step sample_agent_args sample_agent_env
     (sample_agent (\<lambda>n. if n = 2 then Lost else Fine) [])))))"
proof -
  have n: "drive_name sample_agent_args sample_agent_env = ''n-sr0''" by code_simp
  have "unregistered (drive_name sample_agent_args sample_agent_env) (snd (step sample_agent_args sample_agent_env
     (sample_agent (\<lambda>n. if n = 2 then Lost else Fine) [])))" by code_simp
  from lost_registration_is_permanent [OF this] show ?thesis by (simp only: n)
qed


definition ripped_disc :: disc where
  "ripped_disc = \<lparr>d_name = ''x'', d_namespace = None, d_uid = None, d_labels = Some [(FINGERPRINT_LABEL, ''f'')], d_generation = None,
     d_spec = default_disc_spec, d_status = Some (default_status\<lparr>st_backup := Some
       \<lparr>bk_method = ''makemkv'', bk_bytes = 1, bk_seconds = 1, bk_read_errors = 0, bk_sha256 = []\<rparr>\<rparr>)\<rparr>"

theorem known_disc_is_left_alone_witness:
  "\<exists>s'. handle sample_agent_args sample_agent_env ''L'' ''f'' (sample_agent (\<lambda>_. Fine) [(''x'', ripped_disc)]) = (Inr (), s')
     \<and> ag_ejects s' = 1"
proof -
  let ?s = "sample_agent (\<lambda>_. Fine) [(''x'', ripped_disc)]"
  have found: "existing_disc ''f'' (ag_kube ?s) = (Inr (Some ripped_disc), (ag_kube ?s)\<lparr>k_calls := 1\<rparr>)"
    by (simp add: existing_disc_def call_def gets_def sample_agent_def ripped_disc_def)
  have "ag_ejects ?s = 0" by (simp add: sample_agent_def)
  with known_disc_is_left_alone [OF found, of _ sample_agent_args sample_agent_env "''L''"] show ?thesis
    by (auto simp: ripped_disc_def default_status_def wants_rerip_def was_imported_def)
qed

end
