(* ===== verification/Orgparse.thy ===== *)
theory Orgparse
  imports Prelude "HOL-Library.Word"
begin

text \<open>
  \<^verbatim>\<open>org-bridge/src/orgparse.rs\<close> and the path tests of \<^verbatim>\<open>syncthing.rs\<close>: the TODO keywords, the entries
  of an org file and of a directory, and the paths that name one. The parser of org documents
  (\<^verbatim>\<open>orgize\<close>) and the directory walk (\<^verbatim>\<open>walkdir\<close>) are libraries: the first is a function from keywords
  and text to the tree of headlines, the second the list of paths it yields with what reading each
  gives. The numbers of a timestamp keep their widths.
\<close>

section \<open>Keywords\<close>

type_synonym kws = "string list \<times> string list"

definition keyword_words :: "string \<Rightarrow> string list" where
  "keyword_words part =
     filter (\<lambda>w. w \<noteq> [])
       (map (\<lambda>w. hd (split_char (CHR ''('') w)) (split_on (\<lambda>c. is_space c \<or> c = CHR '','') part))"

definition parse_keywords :: "string \<Rightarrow> kws" where
  "parse_keywords spec =
     (case split_once (CHR ''|'') spec of
        Some (opn, don) \<Rightarrow> (keyword_words opn, keyword_words don)
      | None \<Rightarrow>
          let ws = keyword_words spec
          in if ws = [] then ([], []) else (butlast ws, [last ws]))"

text \<open>\<^verbatim>\<open>KEYWORDS\<close> is set once, from the configuration, before anything reads it.\<close>

definition todo_keywords :: "string option \<Rightarrow> kws" where
  "todo_keywords spec = (case spec of Some s \<Rightarrow> parse_keywords s | None \<Rightarrow> ([''TODO''], [''DONE'']))"

definition is_done_state :: "kws \<Rightarrow> string \<Rightarrow> bool" where
  "is_done_state kw state = (state \<in> set (snd kw))"

section \<open>Entries\<close>

record timestamp =
  ts_year :: "16 word"
  ts_month :: "8 word"
  ts_day :: "8 word"
  ts_hour :: "8 word option"
  ts_minute :: "8 word option"
  ts_end_hour :: "8 word option"
  ts_end_minute :: "8 word option"

record org_entry =
  oe_title :: string
  oe_heading_path :: string
  oe_file :: string
  oe_todo_state :: "string option"
  oe_priority :: "char option"
  oe_tags :: "string list"
  oe_scheduled :: "timestamp list"
  oe_deadline :: "timestamp list"
  oe_active :: "timestamp list"

text \<open>A timestamp token of the document, by its parts; a headline with what is below it.\<close>

record org_ts =
  ot_year :: "string option"
  ot_month :: "string option"
  ot_day :: "string option"
  ot_hour :: "string option"
  ot_minute :: "string option"
  ot_end_hour :: "string option"
  ot_end_minute :: "string option"

datatype headline =
  Headline (title_raw: string) (todo_keyword: "string option") (priority: "string option")
    (tags: "string list") (scheduled: "org_ts option") (deadline: "org_ts option") (below: "headline list")

definition num8 :: "string option \<Rightarrow> 8 word option" where
  "num8 t = map_option of_nat (Option.bind t (parse_uint 8))"

definition num16 :: "string option \<Rightarrow> 16 word option" where
  "num16 t = map_option of_nat (Option.bind t (parse_uint 16))"

definition parse_orgize_timestamp :: "org_ts \<Rightarrow> timestamp option" where
  "parse_orgize_timestamp ts =
     (case (num16 (ot_year ts), num8 (ot_month ts), num8 (ot_day ts)) of
        (Some y, Some m, Some d) \<Rightarrow>
          Some \<lparr>ts_year = y, ts_month = m, ts_day = d, ts_hour = num8 (ot_hour ts), ts_minute = num8 (ot_minute ts),
                ts_end_hour = num8 (ot_end_hour ts), ts_end_minute = num8 (ot_end_minute ts)\<rparr>
      | _ \<Rightarrow> None)"

definition timestamps :: "org_ts option \<Rightarrow> timestamp list" where
  "timestamps t = (case Option.bind t parse_orgize_timestamp of Some ts \<Rightarrow> [ts] | None \<Rightarrow> [])"

text \<open>The headlines of the document in pre-order, each with the titles of the headlines above it, the
  nearest first.\<close>

fun headlines :: "string list \<Rightarrow> headline \<Rightarrow> (string list \<times> headline) list" where
  "headlines ups (Headline t k p g s d hs) =
     (ups, Headline t k p g s d hs) # concat (map (headlines (trim t # ups)) hs)"

definition build_heading_path :: "string list \<Rightarrow> headline \<Rightarrow> string" where
  "build_heading_path ups h = join ''/'' (rev (trim (title_raw h) # ups))"

definition extract_active_timestamps_from_section :: "headline \<Rightarrow> timestamp list" where
  "extract_active_timestamps_from_section h = []"

definition headline_entry :: "string \<Rightarrow> string list \<times> headline \<Rightarrow> org_entry option" where
  "headline_entry f = (\<lambda>(ups, h).
     let title = trim (title_raw h); sched = timestamps (scheduled h); dead = timestamps (deadline h);
         active = extract_active_timestamps_from_section h
     in if title = [] then None
        else if sched = [] \<and> dead = [] \<and> active = [] \<and> todo_keyword h = None then None
        else Some \<lparr>oe_title = title, oe_heading_path = build_heading_path ups h, oe_file = f,
                   oe_todo_state = todo_keyword h,
                   oe_priority = Option.bind (priority h) (\<lambda>p. case p of c # _ \<Rightarrow> Some c | [] \<Rightarrow> None),
                   oe_tags = tags h, oe_scheduled = sched, oe_deadline = dead, oe_active = active\<rparr>)"

type_synonym orgize = "kws \<Rightarrow> string \<Rightarrow> headline list"

definition parse_org_content :: "orgize \<Rightarrow> kws \<Rightarrow> string \<Rightarrow> string \<Rightarrow> org_entry list" where
  "parse_org_content orgize kw content f =
     List.map_filter (headline_entry f) (concat (map (headlines []) (orgize kw content)))"

section \<open>Paths\<close>

definition is_hidden :: "string \<Rightarrow> bool" where
  "is_hidden path = list_ex (\<lambda>c. starts_with c ''.'') (split_char (CHR ''/'') path)"

definition is_org_file :: "string \<Rightarrow> bool" where
  "is_org_file path \<longleftrightarrow> ends_with path ''.org'' \<and> \<not> is_hidden path"

text \<open>\<^verbatim>\<open>Path::extension\<close>: what follows the last dot of the last component, unless nothing precedes it.\<close>

definition extension :: "string \<Rightarrow> string option" where
  "extension path =
     (case rsplit_once (CHR ''.'') (last (split_char (CHR ''/'') path)) of
        Some (stem, ext) \<Rightarrow> if stem = [] then None else Some ext
      | None \<Rightarrow> None)"

text \<open>\<^verbatim>\<open>Path::join\<close> and \<^verbatim>\<open>strip_prefix\<close> with its fallback, for a directory named without a final slash.\<close>

definition in_dir :: "string \<Rightarrow> string \<Rightarrow> string" where
  "in_dir dir path = (if starts_with path ''/'' then path else dir @ ''/'' @ path)"

definition relative :: "string \<Rightarrow> string \<Rightarrow> string" where
  "relative dir path = (case strip_prefix (dir @ ''/'') path of Some r \<Rightarrow> r | None \<Rightarrow> path)"

definition walked :: "string \<Rightarrow> (string \<times> string option) list \<Rightarrow> (string \<times> string option) list" where
  "walked dir scan = filter (\<lambda>(p, _). extension p = Some ''org'' \<and> \<not> is_hidden (relative dir p)) scan"

definition parse_directory :: "orgize \<Rightarrow> kws \<Rightarrow> string \<Rightarrow> (string \<times> string option) list \<Rightarrow> org_entry list" where
  "parse_directory orgize kw dir scan =
     concat (map (\<lambda>(p, content). case content of
         Some text \<Rightarrow> parse_org_content orgize kw text (relative dir p)
       | None \<Rightarrow> [])
       (walked dir scan))"

section \<open>Facts\<close>

lemma relative_in_dir: "\<not> starts_with path ''/'' \<Longrightarrow> relative dir (in_dir dir path) = path"
  using strip_prefix_append [of "dir @ ''/''" path] by (simp add: relative_def in_dir_def)

lemma parse_org_content_file: "e \<in> set (parse_org_content orgize kw text f) \<Longrightarrow> oe_file e = f"
  by (auto simp: parse_org_content_def List.map_filter_def headline_entry_def Let_def split: if_splits)

lemma parse_directory_iff:
  "e \<in> set (parse_directory orgize kw dir scan) \<longleftrightarrow>
     (\<exists>p text. (p, Some text) \<in> set scan \<and> extension p = Some ''org'' \<and> \<not> is_hidden (relative dir p)
        \<and> e \<in> set (parse_org_content orgize kw text (relative dir p)))"
  by (force simp: parse_directory_def walked_def split: option.splits)

text \<open>Every headline of the document is visited once, and its path spells out the titles from the root
  of the document down to it.\<close>

lemma headlines_above: "(up, h') \<in> set (headlines ups h) \<Longrightarrow> \<exists>zs. up = zs @ ups"
proof (induction ups h arbitrary: up h' rule: headlines.induct)
  case (1 ups t k p g s d hs)
  then consider "up = ups" | x where "x \<in> set hs" "(up, h') \<in> set (headlines (trim t # ups) x)" by auto
  then show ?case
  proof cases
    case 2
    from "1.IH" [OF 2] show ?thesis by (metis append.assoc append_Cons append_Nil)
  qed simp
qed

lemma entry_has_a_reason:
  assumes "e \<in> set (parse_org_content orgize kw text f)"
  shows "oe_title e \<noteq> [] \<and> (oe_scheduled e \<noteq> [] \<or> oe_deadline e \<noteq> [] \<or> oe_todo_state e \<noteq> None)"
  using assms
  by (auto simp: parse_org_content_def List.map_filter_def headline_entry_def Let_def
        extract_active_timestamps_from_section_def split: if_splits)

end
