(* ===== verification/Caldav.thy ===== *)
theory Caldav
  imports Orgparse
begin

text \<open>
  \<^verbatim>\<open>org-bridge/src/caldav.rs\<close>: the CalDAV client, with Digest authentication, and the iCalendar text of an
  entry. The server is a parameter: \<open>n_http\<close> takes a request and the state of the world outside to
  a response (or a transport error) and a new state, so a response may be lost after the server acted
  on the request. MD5, the parser of URLs, the client nonces and the text of a
  status code are parameters too. \<open>webdav\<close> states
  what RFC 4918 and RFC 9110 promise of a server, as far as the client relies on it.
\<close>

section \<open>Digest challenges\<close>

record challenge =
  ch_realm :: string
  ch_nonce :: string
  ch_opaque :: "string option"
  ch_qop :: bool

definition challenge_value :: "string \<Rightarrow> (string \<times> string) option" where
  "challenge_value rest =
     (case rest of
        [] \<Rightarrow> Some ([], [])
      | c # q \<Rightarrow>
          if c = quote then split_once quote q
          else Some (takeWhile (\<lambda>x. x \<noteq> CHR '','') rest, dropWhile (\<lambda>x. x \<noteq> CHR '','') rest))"

lemma challenge_value_shorter: "challenge_value rest = Some (v, tail) \<Longrightarrow> length tail \<le> length rest"
proof (cases rest)
  case (Cons c q)
  moreover assume "challenge_value rest = Some (v, tail)"
  ultimately show ?thesis
    by (auto simp: challenge_value_def dest!: split_once_SomeD split: if_splits) (metis length_dropWhile_le le_SucI)
qed (simp add: challenge_value_def)

definition comma :: "char \<Rightarrow> bool" where
  "comma c \<longleftrightarrow> c = CHR '',''"

definition challenge_key :: "string \<Rightarrow> string" where
  "challenge_key key = map to_lower (trim (trim_start_matches comma (trim key)))"

function challenge_loop :: "(string \<times> string) list \<Rightarrow> string \<Rightarrow> (string \<times> string) list option" where
  "challenge_loop kv s =
     (case split_once (CHR ''='') s of
        None \<Rightarrow> Some kv
      | Some (key, after) \<Rightarrow>
          (case challenge_value (trim_start_matches is_space after) of
             None \<Rightarrow> None
           | Some (val, tail) \<Rightarrow>
               challenge_loop ((challenge_key key, val) # kv) (trim_start_matches comma (trim_start_matches is_space tail))))"
  by pat_completeness auto

termination challenge_loop
proof (relation "measure (length \<circ> snd)", goal_cases)
  case (2 kv s p key after q val tail)
  have "length (trim_start_matches P t) \<le> length t" for P t
    by (simp add: trim_start_matches_def length_dropWhile_le)
  then have "length (trim_start_matches comma (trim_start_matches is_space tail)) \<le> length after"
    using challenge_value_shorter [of "trim_start_matches is_space after" val tail] 2 by (metis le_trans)
  moreover have "length after < length s" using split_once_SomeD [of "CHR ''=''" s key after] 2 by auto
  ultimately show ?case by simp
qed simp

declare challenge_loop.simps [simp del]

definition offers_auth :: "string \<Rightarrow> bool" where
  "offers_auth q = list_ex (\<lambda>x. trim x = ''auth'') (split_char (CHR '','') q)"

definition parse_challenge :: "string \<Rightarrow> challenge option" where
  "parse_challenge h =
     Option.bind (case strip_prefix ''Digest '' (trim h) of Some r \<Rightarrow> Some r | None \<Rightarrow> strip_prefix ''digest '' (trim h))
       (\<lambda>rest. Option.bind (challenge_loop [] rest)
       (\<lambda>kv. Option.bind (map_of kv ''realm'')
       (\<lambda>realm. Option.bind (map_of kv ''nonce'')
       (\<lambda>nonce. Some \<lparr>ch_realm = realm, ch_nonce = nonce, ch_opaque = map_of kv ''opaque'',
                      ch_qop = (case map_of kv ''qop'' of Some q \<Rightarrow> offers_auth q | None \<Rightarrow> False)\<rparr>))))"

section \<open>Requests\<close>

datatype authorization = Digest_auth string | Basic_auth string string

record request =
  rq_method :: string
  rq_url :: string
  rq_body :: "string option"
  rq_headers :: "(string \<times> string) list"
  rq_auth :: "authorization option"

record response =
  rs_status :: nat
  rs_challenges :: "string list"
  rs_body :: "string option"

text \<open>\<open>Unreachable\<close> is the panic of the \<^verbatim>\<open>unreachable!\<close> after the loop of attempts.\<close>

datatype caldav_error = Http string | Server string | Unreachable

record 'w net =
  n_http :: "request \<Rightarrow> 'w \<Rightarrow> (string + response) \<times> 'w"
  n_parse_url :: "string \<Rightarrow> string + (string \<times> string option)"
  n_md5_hex :: "string \<Rightarrow> string"
  n_cnonce :: "nat \<Rightarrow> string"
  n_status_text :: "nat \<Rightarrow> string"
  n_base_url :: string
  n_username :: string
  n_password :: string

record 'w client =
  cl_auth :: "challenge option"
  cl_nc :: "64 word"
  cl_nonces :: nat
  cl_world :: 'w

text \<open>\<^verbatim>\<open>CalDavClient::new\<close>.\<close>

definition trimmed_base :: "string \<Rightarrow> string" where
  "trimmed_base url = trim_end_matches (\<lambda>c. c = CHR ''/'') url"

definition new_client :: "'w \<Rightarrow> 'w client" where
  "new_client w = \<lparr>cl_auth = None, cl_nc = 0, cl_nonces = 0, cl_world = w\<rparr>"

definition hex_digit :: "nat \<Rightarrow> char" where
  "hex_digit n = char_of (if n < 10 then 48 + n else 87 + n)"

fun hex_str :: "nat \<Rightarrow> string" where
  "hex_str n = (if n < 16 then [hex_digit n] else hex_str (n div 16) @ [hex_digit (n mod 16)])"

declare hex_str.simps [simp del]

definition hex8 :: "64 word \<Rightarrow> string" where
  "hex8 n = replicate (8 - length (hex_str (unat n))) (CHR ''0'') @ hex_str (unat n)"

definition quoted :: "string \<Rightarrow> string" where
  "quoted s = quote # s @ [quote]"

definition digest_header :: "'w net \<Rightarrow> challenge \<Rightarrow> string \<Rightarrow> string \<Rightarrow> 64 word \<Rightarrow> string \<Rightarrow> string" where
  "digest_header n ch method uri nc cnonce =
     (let ha1 = n_md5_hex n (join '':'' [n_username n, ch_realm ch, n_password n]);
          ha2 = n_md5_hex n (join '':'' [method, uri]);
          answer = n_md5_hex n
            (if ch_qop ch then join '':'' [ha1, ch_nonce ch, hex8 nc, cnonce, ''auth'', ha2]
             else join '':'' [ha1, ch_nonce ch, ha2])
      in ''Digest username='' @ quoted (n_username n) @ '', realm='' @ quoted (ch_realm ch) @ '', nonce='' @ quoted (ch_nonce ch)
           @ '', uri='' @ quoted uri @ '', response='' @ quoted answer
           @ (if ch_qop ch then '', qop=auth, nc='' @ hex8 nc @ '', cnonce='' @ quoted cnonce else [])
           @ (case ch_opaque ch of Some o' \<Rightarrow> '', opaque='' @ quoted o' | None \<Rightarrow> []))"

text \<open>The client's state is the last challenge with its request counter, the process-wide counter of
  client nonces, and the world outside.\<close>

definition authorization ::
  "'w net \<Rightarrow> string \<Rightarrow> string \<Rightarrow> (('w, 'z) client_scheme, 'e, string option) sem" where
  "authorization n method uri = (\<lambda>s.
     case cl_auth s of
       None \<Rightarrow> (Inr None, s)
     | Some ch \<Rightarrow>
         (Inr (Some (digest_header n ch method uri (cl_nc s + 1) (n_cnonce n (cl_nonces s)))),
          s\<lparr>cl_nc := cl_nc s + 1, cl_nonces := Suc (cl_nonces s)\<rparr>))"

definition http_call :: "'w net \<Rightarrow> request \<Rightarrow> (('w, 'z) client_scheme, caldav_error, response) sem" where
  "http_call n rq = (\<lambda>s. case n_http n rq (cl_world s) of
     (Inl e, w) \<Rightarrow> (Inl (Http e), s\<lparr>cl_world := w\<rparr>)
   | (Inr r, w) \<Rightarrow> (Inr r, s\<lparr>cl_world := w\<rparr>))"

definition set_auth :: "challenge \<Rightarrow> (('w, 'z) client_scheme, 'e, unit) sem" where
  "set_auth ch = (\<lambda>s. (Inr (), s\<lparr>cl_auth := Some ch, cl_nc := 0\<rparr>))"

definition first_challenge :: "string list \<Rightarrow> challenge option" where
  "first_challenge hs = (case List.map_filter parse_challenge hs of ch # _ \<Rightarrow> Some ch | [] \<Rightarrow> None)"

definition offers_basic :: "string list \<Rightarrow> bool" where
  "offers_basic hs = list_ex (\<lambda>h. starts_with (map to_lower (trim h)) ''basic'') hs"

text \<open>\<open>for attempt in 0..2\<close>: the list holds the attempts that are left.\<close>

fun send_attempts ::
  "'w net \<Rightarrow> string \<Rightarrow> request \<Rightarrow> nat list \<Rightarrow> bool \<Rightarrow> (('w, 'z) client_scheme, caldav_error, response) sem" where
  "send_attempts n uri rq [] basic = throw Unreachable"
| "send_attempts n uri rq (attempt # rest) basic =
     andthen (if basic then ret (Some (Basic_auth (n_username n) (n_password n)))
              else andthen (authorization n (rq_method rq) uri) (\<lambda>a. ret (map_option Digest_auth a)))
     (\<lambda>a. andthen (http_call n (rq\<lparr>rq_auth := a\<rparr>))
     (\<lambda>r. if rs_status r = 401 \<and> attempt = 0
          then (case first_challenge (rs_challenges r) of
                  Some ch \<Rightarrow> andthen (set_auth ch) (\<lambda>_. send_attempts n uri rq rest basic)
                | None \<Rightarrow> if offers_basic (rs_challenges r) then send_attempts n uri rq rest True else ret r)
          else ret r))"

definition send_as ::
  "'w net \<Rightarrow> string \<Rightarrow> string \<Rightarrow> string option \<Rightarrow> string \<Rightarrow> (string \<times> string) list
     \<Rightarrow> (('w, 'z) client_scheme, caldav_error, response) sem" where
  "send_as n method url body content_type headers =
     (case n_parse_url n url of
        Inl e \<Rightarrow> throw (Server (''bad CalDAV URL '' @ url @ '': '' @ e))
      | Inr (path, query) \<Rightarrow>
          send_attempts n (case query of Some q \<Rightarrow> path @ ''?'' @ q | None \<Rightarrow> path)
            \<lparr>rq_method = method, rq_url = url, rq_body = body,
             rq_headers = headers @ (if body = None then [] else [(''Content-Type'', content_type)]), rq_auth = None\<rparr>
            [0, 1] False)"

definition send ::
  "'w net \<Rightarrow> string \<Rightarrow> string \<Rightarrow> string option \<Rightarrow> (('w, 'z) client_scheme, caldav_error, response) sem" where
  "send n method url body = send_as n method url body ''text/calendar; charset=utf-8'' []"

definition is_success :: "nat \<Rightarrow> bool" where
  "is_success status \<longleftrightarrow> 200 \<le> status \<and> status < 300"

definition event_url :: "'w net \<Rightarrow> string \<Rightarrow> string" where
  "event_url n uid = n_base_url n @ ''/'' @ uid @ ''.ics''"

definition refused :: "'w net \<Rightarrow> string \<Rightarrow> string \<Rightarrow> response \<Rightarrow> caldav_error" where
  "refused n method url r =
     Server (method @ '' '' @ url @ '' returned '' @ n_status_text n (rs_status r) @ '': ''
       @ (case rs_body r of Some b \<Rightarrow> b | None \<Rightarrow> []))"

definition put_event :: "'w net \<Rightarrow> string \<Rightarrow> string \<Rightarrow> (('w, 'z) client_scheme, caldav_error, unit) sem" where
  "put_event n uid ical =
     andthen (send n ''PUT'' (event_url n uid) (Some ical))
     (\<lambda>r. if is_success (rs_status r) then ret () else throw (refused n ''PUT'' (event_url n uid) r))"

definition delete_event :: "'w net \<Rightarrow> string \<Rightarrow> (('w, 'z) client_scheme, caldav_error, unit) sem" where
  "delete_event n uid =
     andthen (send n ''DELETE'' (event_url n uid) None)
     (\<lambda>r. if is_success (rs_status r) \<or> rs_status r = 404 then ret ()
          else throw (refused n ''DELETE'' (event_url n uid) r))"

function split_str :: "string \<Rightarrow> string \<Rightarrow> string list" where
  "split_str sep s =
     (case split_once_str sep s of
        None \<Rightarrow> [s]
      | Some (a, b) \<Rightarrow> if length b < length s then a # split_str sep b else [s])"
  by pat_completeness auto
termination by (relation "measure (length \<circ> snd)") auto

declare split_str.simps [simp del]

definition href_name :: "string \<Rightarrow> string" where
  "href_name part =
     last (split_char (CHR ''/'') (trim_end_matches (\<lambda>c. c = CHR ''/'') (hd (split_char (CHR ''<'') part))))"

definition listed_uids :: "string \<Rightarrow> string list" where
  "listed_uids body = List.map_filter (\<lambda>part. strip_suffix ''.ics'' (href_name part)) (tl (split_str ''href>'' body))"

definition propfind_body :: string where
  "propfind_body =
     ''<?xml version='' @ quoted ''1.0'' @ ''?><d:propfind xmlns:d='' @ quoted ''DAV:''
       @ ''><d:prop><d:getetag/></d:prop></d:propfind>''"

definition list_uids :: "'w net \<Rightarrow> (('w, 'z) client_scheme, caldav_error, string list) sem" where
  "list_uids n =
     (let url = n_base_url n @ ''/''
      in andthen (send_as n ''PROPFIND'' url (Some propfind_body) ''application/xml; charset=utf-8'' [(''Depth'', ''1'')])
         (\<lambda>r. case rs_body r of
            None \<Rightarrow> throw (Http ''body'')
          | Some body \<Rightarrow> if is_success (rs_status r) then ret (listed_uids body) else throw (refused n ''PROPFIND'' url r)))"

section \<open>iCalendar text\<close>

definition crlf :: string where
  "crlf = [carriage, newline]"

definition ical_lines :: "string list \<Rightarrow> string" where
  "ical_lines ls = concat (map (\<lambda>l. l @ crlf) ls)"

definition ical_date :: "timestamp \<Rightarrow> string" where
  "ical_date ts = pad0 4 (unat (ts_year ts)) @ pad0 2 (unat (ts_month ts)) @ pad0 2 (unat (ts_day ts))"

definition ical_time :: "8 word \<Rightarrow> 8 word \<Rightarrow> string" where
  "ical_time h m = ''T'' @ pad0 2 (unat h) @ pad0 2 (unat m) @ ''00''"

definition format_ical_datetime :: "timestamp \<Rightarrow> string list" where
  "format_ical_datetime ts =
     (case (ts_hour ts, ts_minute ts) of
        (Some h, Some m) \<Rightarrow> [''DTSTART:'' @ ical_date ts @ ical_time h m]
      | _ \<Rightarrow> [''DTSTART;VALUE=DATE:'' @ ical_date ts])"

definition default_end_hour :: "8 word \<Rightarrow> 8 word" where
  "default_end_hour h = (if h + 1 > 23 then 23 else h + 1)"

definition format_ical_dtend :: "timestamp \<Rightarrow> string list" where
  "format_ical_dtend ts =
     (case (ts_end_hour ts, ts_end_minute ts) of
        (Some eh, Some em) \<Rightarrow> [''DTEND:'' @ ical_date ts @ ical_time eh em]
      | _ \<Rightarrow> (case (ts_hour ts, ts_minute ts) of
          (Some h, Some m) \<Rightarrow> [''DTEND:'' @ ical_date ts @ ical_time (default_end_hour h) m]
        | _ \<Rightarrow> []))"

definition ical_priority :: "org_entry \<Rightarrow> string" where
  "ical_priority e =
     (case oe_priority e of
        Some c \<Rightarrow> if c = CHR ''A'' then ''1'' else if c = CHR ''B'' then ''5'' else if c = CHR ''C'' then ''9'' else ''0''
      | None \<Rightarrow> ''0'')"

definition ical_categories :: "org_entry \<Rightarrow> string list" where
  "ical_categories e = (if oe_tags e = [] then [] else [''CATEGORIES:'' @ join '','' (oe_tags e)])"

definition vevent_status :: "kws \<Rightarrow> org_entry \<Rightarrow> string" where
  "vevent_status kw e =
     (case oe_todo_state e of
        Some t \<Rightarrow> if is_done_state kw t then ''COMPLETED'' else ''NEEDS-ACTION''
      | None \<Rightarrow> ''CONFIRMED'')"

definition vtodo_status :: "kws \<Rightarrow> org_entry \<Rightarrow> string" where
  "vtodo_status kw e =
     (case oe_todo_state e of
        Some t \<Rightarrow> if is_done_state kw t then ''COMPLETED'' else ''NEEDS-ACTION''
      | None \<Rightarrow> ''NEEDS-ACTION'')"

definition ical_description :: "org_entry \<Rightarrow> string" where
  "ical_description e = ''DESCRIPTION:File: '' @ oe_file e @ '' | Path: '' @ oe_heading_path e"

definition generate_vevent :: "kws \<Rightarrow> org_entry \<Rightarrow> timestamp \<Rightarrow> string \<Rightarrow> string" where
  "generate_vevent kw e ts uid = ical_lines
     ([''BEGIN:VCALENDAR'', ''VERSION:2.0'', ''PRODID:-//org-bridge//EN'', ''BEGIN:VEVENT'', ''UID:'' @ uid]
      @ format_ical_datetime ts @ format_ical_dtend ts
      @ [''SUMMARY:'' @ oe_title e, ical_description e, ''PRIORITY:'' @ ical_priority e, ''STATUS:'' @ vevent_status kw e]
      @ ical_categories e @ [''END:VEVENT'', ''END:VCALENDAR''])"

definition first_datetime :: "timestamp list \<Rightarrow> string list" where
  "first_datetime tss = (case tss of ts # _ \<Rightarrow> format_ical_datetime ts | [] \<Rightarrow> [])"

definition vtodo_lines :: "kws \<Rightarrow> org_entry \<Rightarrow> string \<Rightarrow> string list" where
  "vtodo_lines kw e uid =
     [''BEGIN:VCALENDAR'', ''VERSION:2.0'', ''PRODID:-//org-bridge//EN'', ''BEGIN:VTODO'', ''UID:'' @ uid]
      @ first_datetime (oe_scheduled e) @ first_datetime (oe_deadline e)
      @ [''SUMMARY:'' @ oe_title e, ical_description e, ''PRIORITY:'' @ ical_priority e, ''STATUS:'' @ vtodo_status kw e]
      @ ical_categories e @ [''END:VTODO'', ''END:VCALENDAR'']"

definition generate_vtodo :: "kws \<Rightarrow> org_entry \<Rightarrow> string \<Rightarrow> string" where
  "generate_vtodo kw e uid = ical_lines (vtodo_lines kw e uid)"

section \<open>What the client sends\<close>

text \<open>A request ends after at most two calls: \<open>send_as\<close> never reaches the end of its loop.\<close>

lemma send_attempts_one: "send_attempts n uri rq [Suc k] basic =
     andthen (if basic then ret (Some (Basic_auth (n_username n) (n_password n)))
              else andthen (authorization n (rq_method rq) uri) (\<lambda>a. ret (map_option Digest_auth a)))
     (\<lambda>a. http_call n (rq\<lparr>rq_auth := a\<rparr>))"
  by (simp cong: if_cong)

definition never :: "('s, 'e, 'a) sem \<Rightarrow> 'e \<Rightarrow> bool" where
  "never m e \<longleftrightarrow> (\<forall>s. fst (m s) \<noteq> Inl e)"

lemma never_andthen: "never m e \<Longrightarrow> (\<And>x. never (f x) e) \<Longrightarrow> never (andthen m f) e"
  unfolding never_def andthen_def by (auto split: prod.splits sum.splits) (metis fst_conv)

lemma never_simps: "never (ret x) e" "never (authorization n m u) e" "never (http_call n rq) Unreachable" "never (set_auth ch) e"
  by (auto simp: never_def ret_def authorization_def http_call_def set_auth_def split: option.splits prod.splits sum.splits)

lemma never_if: "(b \<Longrightarrow> never m e) \<Longrightarrow> (\<not> b \<Longrightarrow> never k e) \<Longrightarrow> never (if b then m else k) e"
  by simp

lemma send_attempts_reachable: "never (send_attempts n uri rq [0, 1] basic) Unreachable"
proof -
  have "never (send_attempts n uri rq [Suc 0] b) Unreachable" for b
    unfolding send_attempts_one by (intro never_andthen never_if never_simps)
  then show ?thesis
    by (auto intro!: never_andthen never_if never_simps split: option.splits)
qed

section \<open>What the server keeps\<close>

text \<open>The resources of a WebDAV server, by URL: a successful PUT stores the body, a DELETE that succeeds
  or finds nothing leaves nothing, and no request touches the resource of another URL; nothing but
  PUT and DELETE changes one at all. A request whose response is lost or is an error may still have
  changed its own resource.\<close>

definition webdav :: "'w net \<Rightarrow> ('w \<Rightarrow> string \<Rightarrow> string option) \<Rightarrow> bool" where
  "webdav n stored \<longleftrightarrow> (\<forall>rq w r w'. n_http n rq w = (r, w') \<longrightarrow>
     (\<forall>u. u \<noteq> rq_url rq \<or> rq_method rq \<notin> {''PUT'', ''DELETE''} \<longrightarrow> stored w' u = stored w u)
     \<and> (\<forall>a. r = Inr a \<and> rq_method rq = ''PUT'' \<and> is_success (rs_status a) \<longrightarrow> stored w' (rq_url rq) = rq_body rq)
     \<and> (\<forall>a. r = Inr a \<and> rq_method rq = ''DELETE'' \<and> (is_success (rs_status a) \<or> rs_status a = 404) \<longrightarrow> stored w' (rq_url rq) = None))"

lemma webdav_frame:
  assumes "webdav n stored" and "n_http n rq w = (r, w')" and "u \<noteq> rq_url rq \<or> rq_method rq \<notin> {''PUT'', ''DELETE''}"
  shows "stored w' u = stored w u"
  using assms unfolding webdav_def by blast

lemma webdav_put:
  assumes "webdav n stored" and "n_http n rq w = (Inr a, w')" and "rq_method rq = ''PUT''" and "is_success (rs_status a)"
  shows "stored w' (rq_url rq) = rq_body rq"
  using assms unfolding webdav_def by blast

lemma webdav_delete:
  assumes "webdav n stored" and "n_http n rq w = (Inr a, w')" and "rq_method rq = ''DELETE''"
    and "is_success (rs_status a) \<or> rs_status a = 404"
  shows "stored w' (rq_url rq) = None"
  using assms unfolding webdav_def by blast

abbreviation resource :: "('w \<Rightarrow> string \<Rightarrow> string option) \<Rightarrow> string \<Rightarrow> ('w, 'z) client_scheme \<Rightarrow> string option" where
  "resource stored u s \<equiv> stored (cl_world s) u"

lemma keeps_authorization: "keeps (\<lambda>s. P (cl_world s)) (authorization n m u :: (('w, 'z) client_scheme, 'e, _) sem) (\<lambda>_. True)"
  by (auto simp: keeps_def authorization_def split: option.splits)

lemma keeps_set_auth: "keeps (\<lambda>s. P (cl_world s)) (set_auth ch :: (('w, 'z) client_scheme, 'e, _) sem) (\<lambda>_. True)"
  by (auto simp: keeps_def set_auth_def)

lemma keeps_http_call:
  assumes "webdav n stored" and "u \<noteq> rq_url rq \<or> rq_method rq \<notin> {''PUT'', ''DELETE''}"
  shows "keeps (\<lambda>s. resource stored u s = c) (http_call n rq :: (('w, 'z) client_scheme, _, _) sem) (\<lambda>_. True)"
  by (auto simp: keeps_def http_call_def webdav_frame [OF assms(1) _ assms(2)] split: prod.splits sum.splits)

lemma keeps_send_attempts:
  assumes "webdav n stored" and "u \<noteq> rq_url rq \<or> rq_method rq \<notin> {''PUT'', ''DELETE''}"
  shows "keeps (\<lambda>s. resource stored u s = c) (send_attempts n uri rq as basic :: (('w, 'z) client_scheme, _, _) sem) (\<lambda>_. True)"
proof (induction as arbitrary: basic)
  case (Cons a as)
  have "keeps (\<lambda>s. resource stored u s = c) (http_call n (rq\<lparr>rq_auth := b\<rparr>) :: (('w, 'z) client_scheme, _, _) sem) (\<lambda>_. True)" for b
    by (rule keeps_http_call) (use assms in auto)
  then show ?case unfolding send_attempts.simps
    by (intro keeps_intros keeps_authorization keeps_set_auth Cons.IH) auto
qed (simp add: keeps_throw)

lemma keeps_send_as:
  assumes "webdav n stored" and "u \<noteq> url \<or> method \<notin> {''PUT'', ''DELETE''}"
  shows "keeps (\<lambda>s. resource stored u s = c) (send_as n method url body ct hs :: (('w, 'z) client_scheme, _, _) sem) (\<lambda>_. True)"
  unfolding send_as_def by (intro keeps_intros keeps_send_attempts) (use assms in auto)

text \<open>Whatever happens, putting or deleting an event leaves the resources of other URLs alone, and
  listing the calendar leaves all of them.\<close>

lemma keeps_calendar [keeps_intros]:
  assumes "webdav n stored"
  shows "u \<noteq> event_url n uid \<Longrightarrow> keeps (\<lambda>s. resource stored u s = c) (put_event n uid ical :: (('w, 'z) client_scheme, _, _) sem) (\<lambda>_. True)"
    and "u \<noteq> event_url n uid \<Longrightarrow> keeps (\<lambda>s. resource stored u s = c) (delete_event n uid :: (('w, 'z) client_scheme, _, _) sem) (\<lambda>_. True)"
    and "keeps (\<lambda>s. resource stored u s = c) (list_uids n :: (('w, 'z) client_scheme, _, _) sem) (\<lambda>_. True)"
  unfolding put_event_def delete_event_def list_uids_def send_def Let_def
  by (intro keeps_intros keeps_send_as assms; simp)+

text \<open>A request that got its answer had the server's last word in it.\<close>

lemma send_attempts_answer:
  assumes "send_attempts n uri rq as basic s = (Inr r, s')"
  obtains a w where "n_http n (rq\<lparr>rq_auth := a\<rparr>) w = (Inr r, cl_world s')"
  using assms
proof (induction as arbitrary: basic s)
  case (Cons a as)
  from Cons.prems(2) obtain b s1 s2 r1
    where call: "http_call n (rq\<lparr>rq_auth := b\<rparr>) s1 = (Inr r1, s2)"
      and rest: "(r1 = r \<and> s2 = s') \<or> (\<exists>bas s3. send_attempts n uri rq as bas s3 = (Inr r, s'))"
    by (auto simp: andthen_Inr_iff ret_def split: if_splits option.splits) blast+
  from rest show ?case
  proof (elim disjE exE conjE)
    assume "r1 = r" "s2 = s'"
    with call show ?thesis by (auto simp: http_call_def split: prod.splits sum.splits intro: Cons.prems(1))
  next
    fix bas s3
    assume "send_attempts n uri rq as bas s3 = (Inr r, s')"
    then show ?thesis by (rule Cons.IH [rotated]) (rule Cons.prems(1))
  qed
qed (simp add: throw_def)

lemma put_event_ok:
  assumes "webdav n stored" and "put_event n uid ical s = (Inr (), s')"
  shows "resource stored (event_url n uid) s' = Some ical"
proof -
  from assms(2) obtain r uri where ok: "is_success (rs_status r)"
    and sent: "send_attempts n uri \<lparr>rq_method = ''PUT'', rq_url = event_url n uid, rq_body = Some ical,
        rq_headers = [(''Content-Type'', ''text/calendar; charset=utf-8'')], rq_auth = None\<rparr> [0, 1] False s = (Inr r, s')"
    by (auto simp: put_event_def send_def send_as_def andthen_Inr_iff ret_def throw_def
          simp del: send_attempts.simps split: if_splits sum.splits)
  from sent obtain a w where "n_http n \<lparr>rq_method = ''PUT'', rq_url = event_url n uid, rq_body = Some ical,
        rq_headers = [(''Content-Type'', ''text/calendar; charset=utf-8'')], rq_auth = a\<rparr> w = (Inr r, cl_world s')"
    by (rule send_attempts_answer) simp
  from webdav_put [OF assms(1) this] ok show ?thesis by simp
qed

lemma delete_event_ok:
  assumes "webdav n stored" and "delete_event n uid s = (Inr (), s')"
  shows "resource stored (event_url n uid) s' = None"
proof -
  from assms(2) obtain r uri where ok: "is_success (rs_status r) \<or> rs_status r = 404"
    and sent: "send_attempts n uri \<lparr>rq_method = ''DELETE'', rq_url = event_url n uid, rq_body = None,
        rq_headers = [], rq_auth = None\<rparr> [0, 1] False s = (Inr r, s')"
    by (auto simp: delete_event_def send_def send_as_def andthen_Inr_iff ret_def throw_def
          simp del: send_attempts.simps split: if_splits sum.splits)
  from sent obtain a w where "n_http n \<lparr>rq_method = ''DELETE'', rq_url = event_url n uid, rq_body = None,
        rq_headers = [], rq_auth = a\<rparr> w = (Inr r, cl_world s')"
    by (rule send_attempts_answer) simp
  from webdav_delete [OF assms(1) this] ok show ?thesis by simp
qed

lemma event_url_inject [simp]: "event_url n u = event_url n v \<longleftrightarrow> u = v"
  by (simp add: event_url_def)

text \<open>The client changes nothing but its own fields.\<close>

lemma keeps_more_basic:
  "keeps (\<lambda>s. client.more s = m) (authorization n me u :: (('w, 'z) client_scheme, 'e, _) sem) (\<lambda>_. True)"
  "keeps (\<lambda>s. client.more s = m) (set_auth ch :: (('w, 'z) client_scheme, 'e, _) sem) (\<lambda>_. True)"
  "keeps (\<lambda>s. client.more s = m) (http_call n rq :: (('w, 'z) client_scheme, _, _) sem) (\<lambda>_. True)"
  by (auto simp: keeps_def authorization_def set_auth_def http_call_def split: option.splits prod.splits sum.splits)

lemma keeps_more_attempts:
  "keeps (\<lambda>s. client.more s = m) (send_attempts n uri rq as basic :: (('w, 'z) client_scheme, _, _) sem) (\<lambda>_. True)"
proof (induction as arbitrary: basic)
  case (Cons a as)
  then show ?case unfolding send_attempts.simps
    by (intro keeps_intros keeps_more_basic Cons.IH) auto
qed (simp add: keeps_throw)

lemma keeps_more:
  "keeps (\<lambda>s. client.more s = m) (put_event n uid ical :: (('w, 'z) client_scheme, _, _) sem) (\<lambda>_. True)"
  "keeps (\<lambda>s. client.more s = m) (delete_event n uid :: (('w, 'z) client_scheme, _, _) sem) (\<lambda>_. True)"
  "keeps (\<lambda>s. client.more s = m) (list_uids n :: (('w, 'z) client_scheme, _, _) sem) (\<lambda>_. True)"
  unfolding put_event_def delete_event_def list_uids_def send_def send_as_def Let_def
  by (intro keeps_intros keeps_more_attempts; simp)+

end
