(* ===== verification/State_Db.thy ===== *)
theory State_Db
  imports Prelude
begin

text \<open>
  \<^verbatim>\<open>org-bridge/src/state.rs\<close>: the table of exported entries, one row for each UID (the primary key), in
  the order of insertion. Each statement may fail; \<open>faults\<close> says which, by the number of the statement
  since the database was opened. The column \<^verbatim>\<open>updated_at\<close> is never read and is left out.
  The locale \<open>keyed_table\<close> is the contract the bridge relies on; it is interpreted on the table below.
\<close>

section \<open>A table with a key\<close>

lemma find_append: "find P (xs @ ys) = (case find P xs of Some x \<Rightarrow> Some x | None \<Rightarrow> find P ys)"
  by (induction xs) auto

locale keyed_table =
  fixes key :: "'r \<Rightarrow> 'k"
    and ok :: "'t \<Rightarrow> bool"
    and look :: "'t \<Rightarrow> 'k \<Rightarrow> 'r option"
    and ins :: "'r \<Rightarrow> 't \<Rightarrow> 't"
    and del :: "'k \<Rightarrow> 't \<Rightarrow> 't"
  assumes ok_ins: "ok t \<Longrightarrow> ok (ins r t)"
    and ok_del: "ok t \<Longrightarrow> ok (del k t)"
    and look_ins: "ok t \<Longrightarrow> look (ins r t) k = (if k = key r then Some r else look t k)"
    and look_del: "ok t \<Longrightarrow> look (del j t) k = (if k = j then None else look t k)"
    and look_key: "look t k = Some r \<Longrightarrow> key r = k"
begin

lemma ok_fold_del: "ok t \<Longrightarrow> ok (fold del ks t)"
  by (induction ks arbitrary: t) (auto simp: ok_del)

lemma look_fold_del: "ok t \<Longrightarrow> look (fold del ks t) k = (if k \<in> set ks then None else look t k)"
  by (induction ks arbitrary: t) (auto simp: ok_del look_del)

lemma ok_fold_ins: "ok t \<Longrightarrow> ok (fold ins rs t)"
  by (induction rs arbitrary: t) (auto simp: ok_ins)

lemma look_fold_ins:
  "ok t \<Longrightarrow> look (fold ins rs t) k =
     (case find (\<lambda>r. key r = k) (rev rs) of Some r \<Rightarrow> Some r | None \<Rightarrow> look t k)"
proof (induction rs arbitrary: t)
  case (Cons r rs)
  then show ?case by (auto simp: ok_ins look_ins find_append split: option.splits)
qed simp

end

section \<open>The table of exported entries\<close>

record exported_entry =
  ee_uid :: string
  ee_hash :: string
  ee_file :: string
  ee_heading_path :: string
  ee_entry_type :: string

type_synonym rows = "exported_entry list"

definition unique_uids :: "rows \<Rightarrow> bool" where
  "unique_uids rs = distinct (map ee_uid rs)"

definition row :: "rows \<Rightarrow> string \<Rightarrow> exported_entry option" where
  "row rs uid = find (\<lambda>r. ee_uid r = uid) rs"

fun upsert_row :: "exported_entry \<Rightarrow> rows \<Rightarrow> rows" where
  "upsert_row e [] = [e]"
| "upsert_row e (r # rs) = (if ee_uid r = ee_uid e then e # rs else r # upsert_row e rs)"

definition delete_row :: "string \<Rightarrow> rows \<Rightarrow> rows" where
  "delete_row uid rs = filter (\<lambda>r. ee_uid r \<noteq> uid) rs"

definition file_rows :: "string \<Rightarrow> rows \<Rightarrow> rows" where
  "file_rows f rs = filter (\<lambda>r. ee_file r = f) rs"

lemma row_Some_iff: "unique_uids rs \<Longrightarrow> row rs u = Some r \<longleftrightarrow> r \<in> set rs \<and> ee_uid r = u"
  by (induction rs) (auto simp: row_def unique_uids_def)

lemma row_None_iff: "row rs u = None \<longleftrightarrow> u \<notin> ee_uid ` set rs"
  by (auto simp: row_def find_None_iff)

lemma set_upsert_row: "ee_uid ` set (upsert_row e rs) = insert (ee_uid e) (ee_uid ` set rs)"
  by (induction rs) auto

lemma upsert_row_subset: "set (upsert_row e rs) \<subseteq> insert e (set rs)"
  by (induction rs) auto

interpretation exported: keyed_table ee_uid unique_uids row upsert_row delete_row
proof
  show "unique_uids (upsert_row e rs)" if "unique_uids rs" for e rs
    using that by (induction rs) (use set_upsert_row in \<open>auto simp: unique_uids_def\<close>)
  show "unique_uids (delete_row u rs)" if "unique_uids rs" for u rs
    using that by (simp add: unique_uids_def delete_row_def distinct_map_filter)
  show "row (upsert_row e rs) u = (if u = ee_uid e then Some e else row rs u)" if "unique_uids rs" for e rs u
    by (induction rs) (auto simp: row_def)
  show "row (delete_row v rs) u = (if u = v then None else row rs u)" if "unique_uids rs" for v rs u
    by (induction rs) (auto simp: row_def delete_row_def)
  show "ee_uid r = u" if "row rs u = Some r" for rs u r
    using that by (auto simp: row_def find_Some_iff)
qed

section \<open>Statements\<close>

record db =
  db_rows :: rows
  db_calls :: nat

type_synonym 'a dbm = "(db, string, 'a) sem"

definition statement :: "(nat \<Rightarrow> string option) \<Rightarrow> (rows \<Rightarrow> 'a \<times> rows) \<Rightarrow> 'a dbm" where
  "statement faults f = (\<lambda>d.
     case faults (db_calls d) of
       Some e \<Rightarrow> (Inl e, d\<lparr>db_calls := Suc (db_calls d)\<rparr>)
     | None \<Rightarrow> (Inr (fst (f (db_rows d))), d\<lparr>db_rows := snd (f (db_rows d)), db_calls := Suc (db_calls d)\<rparr>))"

definition open_db :: db where
  "open_db = \<lparr>db_rows = [], db_calls = 0\<rparr>"

definition upsert :: "(nat \<Rightarrow> string option) \<Rightarrow> exported_entry \<Rightarrow> unit dbm" where
  "upsert faults e = statement faults (\<lambda>rs. ((), upsert_row e rs))"

definition get_entries_for_file :: "(nat \<Rightarrow> string option) \<Rightarrow> string \<Rightarrow> rows dbm" where
  "get_entries_for_file faults f = statement faults (\<lambda>rs. (file_rows f rs, rs))"

definition get_all_entries :: "(nat \<Rightarrow> string option) \<Rightarrow> rows dbm" where
  "get_all_entries faults = statement faults (\<lambda>rs. (rs, rs))"

definition db_delete :: "(nat \<Rightarrow> string option) \<Rightarrow> string \<Rightarrow> unit dbm" where
  "db_delete faults uid = statement faults (\<lambda>rs. ((), delete_row uid rs))"

definition delete_file_entries :: "(nat \<Rightarrow> string option) \<Rightarrow> string \<Rightarrow> string list dbm" where
  "delete_file_entries faults f =
     andthen (statement faults (\<lambda>rs. (map ee_uid (file_rows f rs), rs)))
     (\<lambda>uids. andthen (statement faults (\<lambda>rs. ((), filter (\<lambda>r. ee_file r \<noteq> f) rs)))
     (\<lambda>_. ret uids))"

lemma statement_Inr_iff:
  "statement faults f d = (Inr x, d') \<longleftrightarrow> faults (db_calls d) = None \<and> x = fst (f (db_rows d))
     \<and> d' = d\<lparr>db_rows := snd (f (db_rows d)), db_calls := Suc (db_calls d)\<rparr>"
  by (auto simp: statement_def split: option.splits)

lemmas statement_defs = upsert_def get_entries_for_file_def get_all_entries_def db_delete_def delete_file_entries_def

lemma keeps_statement:
  assumes "\<And>rs. P rs \<Longrightarrow> P (snd (f rs)) \<and> Q (fst (f rs))"
  shows "keeps (\<lambda>d. P (db_rows d)) (statement faults f) Q"
  using assms by (auto simp: keeps_def statement_def split: option.splits)

text \<open>The rows deleted with a file are the file's, and the other files keep theirs.\<close>

lemma delete_file_entries_ok:
  assumes "delete_file_entries faults f d = (Inr uids, d')"
  shows "uids = map ee_uid (file_rows f (db_rows d)) \<and> db_rows d' = filter (\<lambda>r. ee_file r \<noteq> f) (db_rows d)"
  using assms by (auto simp: delete_file_entries_def andthen_Inr_iff statement_Inr_iff ret_def)

end
