(* ===== verification/Bridge.thy ===== *)
theory Bridge
  imports Caldav State_Db
begin

text \<open>
  \<^verbatim>\<open>org-bridge/src/bridge.rs\<close> and the event loop of \<^verbatim>\<open>main.rs\<close>: the entries a file exports, the
  reconciliation of one file and of the directory, and the handling of the events of Syncthing.
  SHA-256 and the order in which a \<^verbatim>\<open>HashSet\<close> is iterated are parameters. The files are read through
  \<open>org_files\<close>, one for each event, since they change between events. Log lines, the waiting for
  Syncthing and the sleeps between polls are left out.
\<close>

section \<open>Entries to export\<close>

definition esc_debug :: "char \<Rightarrow> char \<Rightarrow> string" where
  "esc_debug q c =
     (if c = CHR 0x09 then [CHR 0x5C, CHR ''t'']
      else if c = carriage then [CHR 0x5C, CHR ''r'']
      else if c = newline then [CHR 0x5C, CHR ''n'']
      else if c = CHR 0x00 then [CHR 0x5C, CHR ''0'']
      else if c = CHR 0x5C \<or> c = q then [CHR 0x5C, c]
      else if of_char c < (32 :: nat) \<or> of_char c = (127 :: nat) then [CHR 0x5C] @ ''u{'' @ hex_str (of_char c) @ ''}''
      else [c])"

definition debug_str :: "string \<Rightarrow> string" where
  "debug_str s = quoted (concat (map (esc_debug quote) s))"

definition debug_char :: "char \<Rightarrow> string" where
  "debug_char c = CHR 0x27 # esc_debug (CHR 0x27) c @ [CHR 0x27]"

definition debug_option :: "('a \<Rightarrow> string) \<Rightarrow> 'a option \<Rightarrow> string" where
  "debug_option f x = (case x of Some y \<Rightarrow> ''Some('' @ f y @ '')'' | None \<Rightarrow> ''None'')"

definition debug_vec :: "('a \<Rightarrow> string) \<Rightarrow> 'a list \<Rightarrow> string" where
  "debug_vec f xs = ''['' @ join '', '' (map f xs) @ '']''"

definition word_str :: "8 word \<Rightarrow> string" where
  "word_str w = nat_str (unat w)"

definition debug_timestamp :: "timestamp \<Rightarrow> string" where
  "debug_timestamp ts =
     ''Timestamp { '' @ join '', ''
       [''year: '' @ nat_str (unat (ts_year ts)), ''month: '' @ word_str (ts_month ts), ''day: '' @ word_str (ts_day ts),
        ''hour: '' @ debug_option word_str (ts_hour ts), ''minute: '' @ debug_option word_str (ts_minute ts),
        ''end_hour: '' @ debug_option word_str (ts_end_hour ts), ''end_minute: '' @ debug_option word_str (ts_end_minute ts)]
     @ '' }''"

definition or_zero :: "8 word option \<Rightarrow> string" where
  "or_zero w = pad0 2 (unat (case w of Some x \<Rightarrow> x | None \<Rightarrow> 0))"

definition make_uid :: "(string \<Rightarrow> string) \<Rightarrow> string \<Rightarrow> string \<Rightarrow> timestamp \<Rightarrow> string" where
  "make_uid sha f path ts =
     take 48 (''org-'' @ sha (join '':'' [''event'', f, path, ical_date ts @ or_zero (ts_hour ts) @ or_zero (ts_minute ts)]))"

definition make_todo_uid :: "(string \<Rightarrow> string) \<Rightarrow> string \<Rightarrow> string \<Rightarrow> string" where
  "make_todo_uid sha f path = take 48 (''org-todo-'' @ sha (join '':'' [''todo'', f, path]))"

definition hash_fields :: "org_entry \<Rightarrow> string list" where
  "hash_fields e = [oe_title e, oe_heading_path e, debug_option debug_str (oe_todo_state e),
     debug_option debug_char (oe_priority e), debug_vec debug_str (oe_tags e)]"

definition hash_entry_timestamp :: "(string \<Rightarrow> string) \<Rightarrow> org_entry \<Rightarrow> timestamp \<Rightarrow> string" where
  "hash_entry_timestamp sha e ts =
     sha (join '':'' (hash_fields e
       @ [ical_date ts @ or_zero (ts_hour ts) @ or_zero (ts_minute ts) @ or_zero (ts_end_hour ts) @ or_zero (ts_end_minute ts)]))"

definition hash_todo :: "(string \<Rightarrow> string) \<Rightarrow> org_entry \<Rightarrow> string" where
  "hash_todo sha e =
     sha (join '':'' (hash_fields e @ [debug_vec debug_timestamp (oe_scheduled e), debug_vec debug_timestamp (oe_deadline e)]))"

record export =
  ex_uid :: string
  ex_hash :: string
  ex_path :: string
  ex_type :: string
  ex_ical :: string

definition event_export :: "(string \<Rightarrow> string) \<Rightarrow> kws \<Rightarrow> string \<Rightarrow> org_entry \<Rightarrow> timestamp \<Rightarrow> export" where
  "event_export sha kw f e ts =
     (let uid = make_uid sha f (oe_heading_path e) ts
      in \<lparr>ex_uid = uid, ex_hash = hash_entry_timestamp sha e ts, ex_path = oe_heading_path e, ex_type = ''event'',
          ex_ical = generate_vevent kw e ts uid\<rparr>)"

definition todo_export :: "(string \<Rightarrow> string) \<Rightarrow> kws \<Rightarrow> string \<Rightarrow> org_entry \<Rightarrow> export" where
  "todo_export sha kw f e =
     (let uid = make_todo_uid sha f (oe_heading_path e)
      in \<lparr>ex_uid = uid, ex_hash = hash_todo sha e, ex_path = oe_heading_path e, ex_type = ''todo'',
          ex_ical = generate_vtodo kw e uid\<rparr>)"

text \<open>What the two loops over the entries of a file go through, in order.\<close>

definition entry_exports :: "(string \<Rightarrow> string) \<Rightarrow> kws \<Rightarrow> string \<Rightarrow> org_entry \<Rightarrow> export list" where
  "entry_exports sha kw f e =
     map (event_export sha kw f e) (oe_scheduled e @ oe_deadline e @ oe_active e)
     @ (if oe_todo_state e = None then [] else [todo_export sha kw f e])"

section \<open>Reconciliation\<close>

record 'w bridge_env =
  be_net :: "'w net"
  be_faults :: "nat \<Rightarrow> string option"
  be_sha :: "string \<Rightarrow> string"
  be_orgize :: orgize
  be_keywords :: "string option"
  be_dir :: string
  be_order :: "string list \<Rightarrow> string list"

record org_files =
  of_read :: "string \<Rightarrow> string + string"
  of_exists :: "string \<Rightarrow> bool"
  of_scan :: "(string \<times> string option) list"

record 'w bridge = "'w client" +
  bs_db :: db

datatype bridge_error = BrIo string | BrDb string | BrCalDav caldav_error

type_synonym ('w, 'a) brm = "('w bridge, bridge_error, 'a) sem"

record reconcile_result =
  rr_file :: string
  rr_created :: nat
  rr_updated :: nat
  rr_deleted :: nat

definition on_db :: "'a dbm \<Rightarrow> ('w, 'a) brm" where
  "on_db m = (\<lambda>s. case m (bs_db s) of
     (Inl e, d) \<Rightarrow> (Inl (BrDb e), s\<lparr>bs_db := d\<rparr>)
   | (Inr x, d) \<Rightarrow> (Inr x, s\<lparr>bs_db := d\<rparr>))"

definition kw_of :: "'w bridge_env \<Rightarrow> kws" where
  "kw_of env = todo_keywords (be_keywords env)"

definition file_exports :: "'w bridge_env \<Rightarrow> string \<Rightarrow> string \<Rightarrow> export list" where
  "file_exports env f content =
     concat (map (entry_exports (be_sha env) (kw_of env) f) (parse_org_content (be_orgize env) (kw_of env) content f))"

definition export_row :: "string \<Rightarrow> export \<Rightarrow> exported_entry" where
  "export_row f x = \<lparr>ee_uid = ex_uid x, ee_hash = ex_hash x, ee_file = f, ee_heading_path = ex_path x, ee_entry_type = ex_type x\<rparr>"

definition needs_update :: "rows \<Rightarrow> export \<Rightarrow> bool" where
  "needs_update existing x = (case row existing (ex_uid x) of Some r \<Rightarrow> ee_hash r \<noteq> ex_hash x | None \<Rightarrow> True)"

definition push :: "'w bridge_env \<Rightarrow> string \<Rightarrow> rows \<Rightarrow> export \<Rightarrow> nat \<times> nat \<Rightarrow> ('w, nat \<times> nat) brm" where
  "push env f existing x = (\<lambda>(created, updated).
     if needs_update existing x
     then andthen (wrap BrCalDav (put_event (be_net env) (ex_uid x) (ex_ical x)))
          (\<lambda>_. andthen (on_db (upsert (be_faults env) (export_row f x)))
          (\<lambda>_. ret (if row existing (ex_uid x) \<noteq> None then (created, Suc updated) else (Suc created, updated))))
     else ret (created, updated))"

definition prune :: "'w bridge_env \<Rightarrow> string list \<Rightarrow> exported_entry \<Rightarrow> nat \<Rightarrow> ('w, nat) brm" where
  "prune env new_uids old deleted =
     (if ee_uid old \<in> set new_uids then ret deleted
      else andthen (wrap BrCalDav (delete_event (be_net env) (ee_uid old)))
           (\<lambda>_. andthen (on_db (db_delete (be_faults env) (ee_uid old)))
           (\<lambda>_. ret (Suc deleted))))"

definition reconcile_file :: "'w bridge_env \<Rightarrow> org_files \<Rightarrow> string \<Rightarrow> ('w, reconcile_result) brm" where
  "reconcile_file env files path =
     (let f = relative (be_dir env) path
      in case of_read files path of
           Inl e \<Rightarrow> throw (BrIo e)
         | Inr content \<Rightarrow>
             let xs = file_exports env f content
             in andthen (on_db (get_entries_for_file (be_faults env) f))
                (\<lambda>existing. andthen (fold_sem xs (push env f existing) (0, 0))
                (\<lambda>(created, updated). andthen (fold_sem existing (prune env (map ex_uid xs)) 0)
                (\<lambda>deleted. ret \<lparr>rr_file = f, rr_created = created, rr_updated = updated, rr_deleted = deleted\<rparr>))))"

definition reconcile_each ::
  "'w bridge_env \<Rightarrow> org_files \<Rightarrow> string \<Rightarrow> reconcile_result list \<times> bool \<Rightarrow> ('w, reconcile_result list \<times> bool) brm" where
  "reconcile_each env files f = (\<lambda>(results, failed).
     try_sem (reconcile_file env files (in_dir (be_dir env) f))
       (\<lambda>_. ret (results, True))
       (\<lambda>r. ret (results @ [r], failed)))"

definition forget_file :: "'w bridge_env \<Rightarrow> string \<Rightarrow> reconcile_result list \<Rightarrow> ('w, reconcile_result list) brm" where
  "forget_file env f results =
     andthen (on_db (delete_file_entries (be_faults env) f))
     (\<lambda>uids. andthen (for_each uids (\<lambda>uid. wrap BrCalDav (delete_event (be_net env) uid)))
     (\<lambda>_. ret (results @ [\<lparr>rr_file = f, rr_created = 0, rr_updated = 0, rr_deleted = length uids\<rparr>])))"

definition is_orphan :: "rows \<Rightarrow> string \<Rightarrow> bool" where
  "is_orphan known uid \<longleftrightarrow> starts_with uid ''org-'' \<and> uid \<notin> ee_uid ` set known"

definition remove_orphans :: "'w bridge_env \<Rightarrow> ('w, unit) brm" where
  "remove_orphans env =
     try_sem (list_uids (be_net env))
       (\<lambda>_. ret ())
       (\<lambda>remote. andthen (on_db (get_all_entries (be_faults env)))
       (\<lambda>known. for_each (filter (is_orphan known) remote) (\<lambda>uid. ignore (delete_event (be_net env) uid))))"

definition full_reconciliation :: "'w bridge_env \<Rightarrow> org_files \<Rightarrow> ('w, reconcile_result list) brm" where
  "full_reconciliation env files =
     (let seen = be_order env (remdups (map oe_file
            (parse_directory (be_orgize env) (kw_of env) (be_dir env) (of_scan files))))
      in andthen (fold_sem seen (reconcile_each env files) ([], False))
         (\<lambda>(results, failed). andthen (on_db (get_all_entries (be_faults env)))
         (\<lambda>all_entries. andthen
              (fold_sem (be_order env (remdups (filter (\<lambda>f. f \<notin> set seen) (map ee_file all_entries)))) (forget_file env) results)
         (\<lambda>results'. andthen (whenever (\<not> failed) (remove_orphans env))
         (\<lambda>_. ret results')))))"

section \<open>Events\<close>

record event =
  ev_id :: nat
  ev_data :: json

fun jfind :: "json \<Rightarrow> string \<Rightarrow> json option" where
  "jfind (JObj kvs) k = map_of kvs k"
| "jfind _ k = None"

definition extract_file_path :: "event \<Rightarrow> string option" where
  "extract_file_path ev =
     Option.bind (case jfind (ev_data ev) ''item'' of Some v \<Rightarrow> Some v | None \<Rightarrow> jfind (ev_data ev) ''path'') as_str"

definition file_deleted :: "'w bridge_env \<Rightarrow> string \<Rightarrow> ('w, unit) brm" where
  "file_deleted env path =
     try_sem (on_db (delete_file_entries (be_faults env) path) :: ('w, string list) brm)
       (\<lambda>_. ret ())
       (\<lambda>uids. for_each uids (\<lambda>uid. ignore (delete_event (be_net env) uid)))"

definition process_event :: "'w bridge_env \<Rightarrow> org_files \<times> event \<Rightarrow> nat \<Rightarrow> ('w, nat) brm" where
  "process_event env = (\<lambda>(files, ev) last_id.
     case extract_file_path ev of
       None \<Rightarrow> ret (ev_id ev)
     | Some path \<Rightarrow>
         if is_org_file path
         then andthen (if of_exists files (in_dir (be_dir env) path)
                       then ignore (reconcile_file env files (in_dir (be_dir env) path))
                       else file_deleted env path)
              (\<lambda>_. ret (ev_id ev))
         else ret (ev_id ev))"

text \<open>A run of the program: the reconciliation at startup, then events as the polls deliver them.\<close>

definition run_bridge :: "'w bridge_env \<Rightarrow> org_files \<Rightarrow> (org_files \<times> event) list \<Rightarrow> nat \<Rightarrow> ('w, nat) brm" where
  "run_bridge env files evs latest =
     andthen (ignore (full_reconciliation env files)) (\<lambda>_. fold_sem evs (process_event env) latest)"

section \<open>The abstract reconciliation\<close>

text \<open>A state as the maps it stands for: UID to row, and UID to calendar entry.\<close>

type_synonym view = "(string \<Rightarrow> exported_entry option) \<times> (string \<Rightarrow> string option)"

definition view :: "'w bridge_env \<Rightarrow> ('w \<Rightarrow> string \<Rightarrow> string option) \<Rightarrow> 'w bridge \<Rightarrow> view" where
  "view env stored s = (row (db_rows (bs_db s)), \<lambda>u. resource stored (event_url (be_net env) u) s)"

abbreviation unique :: "'w bridge \<Rightarrow> bool" where
  "unique s \<equiv> unique_uids (db_rows (bs_db s))"

definition recorded :: "string \<Rightarrow> (string \<Rightarrow> exported_entry option) \<Rightarrow> string \<Rightarrow> bool" where
  "recorded f D u \<longleftrightarrow> (\<exists>r. D u = Some r \<and> ee_file r = f)"

definition stale :: "string \<Rightarrow> (string \<Rightarrow> exported_entry option) \<Rightarrow> export \<Rightarrow> bool" where
  "stale f D x \<longleftrightarrow> \<not> (\<exists>r. D (ex_uid x) = Some r \<and> ee_file r = f \<and> ee_hash r = ex_hash x)"

text \<open>The last export of a UID that the table does not show up to date wins; a UID the file no longer
  exports goes; everything else stays.\<close>

definition sync :: "string \<Rightarrow> export list \<Rightarrow> view \<Rightarrow> view" where
  "sync f xs = (\<lambda>(D, C).
     (\<lambda>u. case find (\<lambda>x. ex_uid x = u \<and> stale f D x) (rev xs) of
            Some x \<Rightarrow> Some (export_row f x)
          | None \<Rightarrow> if u \<notin> ex_uid ` set xs \<and> recorded f D u then None else D u,
      \<lambda>u. case find (\<lambda>x. ex_uid x = u \<and> stale f D x) (rev xs) of
            Some x \<Rightarrow> Some (ex_ical x)
          | None \<Rightarrow> if u \<notin> ex_uid ` set xs \<and> recorded f D u then None else C u))"

lemma on_db_Inr_iff: "on_db m s = (Inr x, s') \<longleftrightarrow> (\<exists>d. m (bs_db s) = (Inr x, d) \<and> s' = s\<lparr>bs_db := d\<rparr>)"
  by (auto simp: on_db_def split: prod.splits sum.splits)

lemma more_bs_db: "client.more (s :: 'w bridge) = client.more s' \<Longrightarrow> bs_db s' = bs_db s"
  by (cases s, cases s') simp

lemma calendar_keeps_db:
  fixes s :: "'w bridge"
  shows "put_event n uid ical s = (r, s') \<Longrightarrow> bs_db s' = bs_db s"
    and "delete_event n uid s = (r', s') \<Longrightarrow> bs_db s' = bs_db s"
  using keepsD [OF keeps_more(1) refl, of n uid ical s] keepsD [OF keeps_more(2) refl, of n uid s] by (auto intro: more_bs_db)

lemma put_event_view:
  assumes "webdav (be_net env) stored" and "put_event (be_net env) uid ical s = (Inr (), s')"
  shows "view env stored s' = (fst (view env stored s), (snd (view env stored s))(uid \<mapsto> ical))"
proof -
  have "resource stored (event_url (be_net env) u) s' = resource stored (event_url (be_net env) u) s" if "u \<noteq> uid" for u
    using keepsD [OF keeps_calendar(1) [OF assms(1)] refl, of "event_url (be_net env) u" uid ical s] assms(2) that by simp
  with put_event_ok [OF assms] calendar_keeps_db(1) [OF assms(2)] show ?thesis by (auto simp: view_def)
qed

lemma delete_event_view:
  assumes "webdav (be_net env) stored" and "delete_event (be_net env) uid s = (Inr (), s')"
  shows "view env stored s' = (fst (view env stored s), (snd (view env stored s))(uid := None))"
proof -
  have "resource stored (event_url (be_net env) u) s' = resource stored (event_url (be_net env) u) s" if "u \<noteq> uid" for u
    using keepsD [OF keeps_calendar(2) [OF assms(1)] refl, of "event_url (be_net env) u" uid s] assms(2) that by simp
  with delete_event_ok [OF assms] calendar_keeps_db(2) [OF assms(2)] show ?thesis by (auto simp: view_def)
qed

definition abs_push :: "string \<Rightarrow> rows \<Rightarrow> export \<Rightarrow> view \<Rightarrow> view" where
  "abs_push f existing x = (\<lambda>(D, C).
     if needs_update existing x then (D(ex_uid x \<mapsto> export_row f x), C(ex_uid x \<mapsto> ex_ical x)) else (D, C))"

definition abs_prune :: "string list \<Rightarrow> exported_entry \<Rightarrow> view \<Rightarrow> view" where
  "abs_prune uids r = (\<lambda>(D, C). if ee_uid r \<in> set uids then (D, C) else (D(ee_uid r := None), C(ee_uid r := None)))"

lemma push_view:
  assumes "webdav (be_net env) stored" and "unique s" and "push env f existing x cu s = (Inr cu', s')"
  shows "view env stored s' = abs_push f existing x (view env stored s) \<and> unique s'"
proof (cases "needs_update existing x")
  case True
  obtain a b where "cu = (a, b)" by (cases cu)
  with True assms(3) obtain s1 d where put: "put_event (be_net env) (ex_uid x) (ex_ical x) s = (Inr (), s1)"
    and ups: "upsert (be_faults env) (export_row f x) (bs_db s1) = (Inr (), d)" and s': "s' = s1\<lparr>bs_db := d\<rparr>"
    by (auto simp: push_def andthen_Inr_iff wrap_Inr_iff on_db_Inr_iff ret_def)
  from ups have d: "db_rows d = upsert_row (export_row f x) (db_rows (bs_db s1))" by (auto simp: upsert_def statement_Inr_iff)
  have "bs_db s1 = bs_db s" by (rule calendar_keeps_db(1) [OF put])
  with put_event_view [OF assms(1) put] d s' assms(2) True show ?thesis
    by (auto simp: view_def abs_push_def exported.look_ins exported.ok_ins export_row_def)
next
  case False
  with assms show ?thesis by (cases cu) (auto simp: push_def abs_push_def ret_def view_def)
qed

lemma prune_view:
  assumes "webdav (be_net env) stored" and "unique s" and "prune env uids r k s = (Inr k', s')"
  shows "view env stored s' = abs_prune uids r (view env stored s) \<and> unique s'"
proof (cases "ee_uid r \<in> set uids")
  case False
  with assms(3) obtain s1 d where del: "delete_event (be_net env) (ee_uid r) s = (Inr (), s1)"
    and row: "db_delete (be_faults env) (ee_uid r) (bs_db s1) = (Inr (), d)" and s': "s' = s1\<lparr>bs_db := d\<rparr>"
    by (auto simp: prune_def andthen_Inr_iff wrap_Inr_iff on_db_Inr_iff ret_def)
  from row have d: "db_rows d = delete_row (ee_uid r) (db_rows (bs_db s1))" by (auto simp: db_delete_def statement_Inr_iff)
  have "bs_db s1 = bs_db s" by (rule calendar_keeps_db(2) [OF del])
  with delete_event_view [OF assms(1) del] d s' assms(2) False show ?thesis
    by (auto simp: view_def abs_prune_def exported.look_del exported.ok_del)
next
  case True
  with assms show ?thesis by (auto simp: prune_def abs_prune_def ret_def view_def)
qed

text \<open>A loop each of whose steps refines an abstract one refines the abstract loop.\<close>

lemma fold_sem_refines:
  assumes step: "\<And>x a a' s s'. I s \<Longrightarrow> m x a s = (Inr a', s') \<Longrightarrow> v s' = g x (v s) \<and> I s'"
    and "I s" and "fold_sem xs m a s = (Inr a', s')"
  shows "v s' = fold g xs (v s) \<and> I s'"
  using assms(2,3)
proof (induction xs arbitrary: a s)
  case (Cons x xs)
  then obtain b s1 where "m x a s = (Inr b, s1)" and "fold_sem xs m b s1 = (Inr a', s')" by (auto simp: andthen_Inr_iff)
  with step [OF Cons.prems(1)] Cons.IH show ?case by fastforce
qed (simp add: ret_def)

lemma fold_abs_push:
  "fold (abs_push f existing) xs (D, C) =
     (\<lambda>u. case find (\<lambda>x. ex_uid x = u \<and> needs_update existing x) (rev xs) of Some x \<Rightarrow> Some (export_row f x) | None \<Rightarrow> D u,
      \<lambda>u. case find (\<lambda>x. ex_uid x = u \<and> needs_update existing x) (rev xs) of Some x \<Rightarrow> Some (ex_ical x) | None \<Rightarrow> C u)"
proof (induction xs arbitrary: D C)
  case (Cons x xs)
  then show ?case by (auto simp: abs_push_def find_append fun_eq_iff split: option.splits)
qed simp

lemma fold_abs_prune:
  "fold (abs_prune uids) rs (D, C) =
     (\<lambda>u. if u \<notin> set uids \<and> u \<in> ee_uid ` set rs then None else D u,
      \<lambda>u. if u \<notin> set uids \<and> u \<in> ee_uid ` set rs then None else C u)"
  by (induction rs arbitrary: D C) (auto simp: abs_prune_def fun_eq_iff)

lemma row_file_rows:
  assumes "unique_uids rs"
  shows "row (file_rows f rs) u = (case row rs u of Some r \<Rightarrow> if ee_file r = f then Some r else None | None \<Rightarrow> None)"
proof -
  have "unique_uids (file_rows f rs)" using assms by (simp add: unique_uids_def file_rows_def distinct_map_filter)
  then have eq: "row (file_rows f rs) u = Some r \<longleftrightarrow> row rs u = Some r \<and> ee_file r = f" for r
    using assms by (auto simp: row_Some_iff file_rows_def)
  show ?thesis
  proof (cases "row rs u")
    case None
    then have "row (file_rows f rs) u = None" using eq by (metis option.exhaust option.distinct(1))
    with None show ?thesis by simp
  next
    case (Some r)
    then have "row (file_rows f rs) u = None" if "ee_file r \<noteq> f" using eq that by (metis option.exhaust option.inject)
    with Some eq [of r] show ?thesis by simp
  qed
qed

lemma needs_update_file_rows: "unique_uids rs \<Longrightarrow> needs_update (file_rows f rs) x \<longleftrightarrow> stale f (row rs) x"
  by (auto simp: needs_update_def stale_def row_file_rows split: option.splits)

lemma recorded_file_rows: "unique_uids rs \<Longrightarrow> u \<in> ee_uid ` set (file_rows f rs) \<longleftrightarrow> recorded f (row rs) u"
  by (auto simp: recorded_def row_Some_iff file_rows_def)

lemma reconcile_file_steps:
  assumes "reconcile_file env files path s = (Inr res, s')"
  obtains content d cu s1 where "of_read files path = Inr content"
    and "get_entries_for_file (be_faults env) (relative (be_dir env) path) (bs_db s) =
           (Inr (file_rows (relative (be_dir env) path) (db_rows (bs_db s))), d)"
    and "db_rows d = db_rows (bs_db s)"
    and "fold_sem (file_exports env (relative (be_dir env) path) content)
           (push env (relative (be_dir env) path) (file_rows (relative (be_dir env) path) (db_rows (bs_db s)))) (0, 0)
           (s\<lparr>bs_db := d\<rparr>) = (Inr cu, s1)"
    and "fold_sem (file_rows (relative (be_dir env) path) (db_rows (bs_db s)))
           (prune env (map ex_uid (file_exports env (relative (be_dir env) path) content))) 0 s1 = (Inr (rr_deleted res), s')"
    and "(rr_created res, rr_updated res) = cu"
  using assms
  by (auto simp: reconcile_file_def Let_def andthen_Inr_iff on_db_Inr_iff ret_def throw_def get_entries_for_file_def
        statement_Inr_iff split: sum.splits)

lemma reconcile_file_syncs:
  assumes dav: "webdav (be_net env) stored" and uniq: "unique s"
    and run: "reconcile_file env files path s = (Inr res, s')" and read: "of_read files path = Inr content"
  shows "view env stored s' =
           sync (relative (be_dir env) path) (file_exports env (relative (be_dir env) path) content) (view env stored s)
         \<and> unique s'"
proof -
  define f where "f = relative (be_dir env) path"
  define xs where "xs = file_exports env f content"
  define old where "old = file_rows f (db_rows (bs_db s))"
  from run read obtain d cu s1 where d: "db_rows d = db_rows (bs_db s)"
    and push: "fold_sem xs (push env f old) (0, 0) (s\<lparr>bs_db := d\<rparr>) = (Inr cu, s1)"
    and prune: "fold_sem old (prune env (map ex_uid xs)) 0 s1 = (Inr (rr_deleted res), s')"
    unfolding f_def xs_def old_def by (auto elim!: reconcile_file_steps)
  have start: "view env stored (s\<lparr>bs_db := d\<rparr>) = view env stored s" "unique (s\<lparr>bs_db := d\<rparr>)"
    using d uniq by (simp_all add: view_def)
  have 1: "view env stored s1 = fold (abs_push f old) xs (view env stored (s\<lparr>bs_db := d\<rparr>)) \<and> unique s1"
    using push_view [OF dav] start(2) push by (rule fold_sem_refines)
  have 2: "view env stored s' = fold (abs_prune (map ex_uid xs)) old (view env stored s1) \<and> unique s'"
    using prune_view [OF dav] conjunct2 [OF 1] prune by (rule fold_sem_refines)
  obtain D C where v: "view env stored s = (D, C)" by (cases "view env stored s")
  then have D: "D = row (db_rows (bs_db s))" by (simp add: view_def)
  have gone: "u \<in> ee_uid ` set old \<longleftrightarrow> recorded f D u" for u using uniq by (simp add: old_def D recorded_file_rows)
  have upd: "needs_update old = stale f D" using uniq by (auto simp: old_def D needs_update_file_rows)
  have "find (\<lambda>x. ex_uid x = u \<and> stale f D x) (rev xs) = None" if "u \<notin> ex_uid ` set xs" for u
    using that by (auto simp: find_None_iff)
  then have "fold (abs_prune (map ex_uid xs)) old (fold (abs_push f old) xs (D, C)) = sync f xs (D, C)"
    unfolding fold_abs_push fold_abs_prune upd gone sync_def by (auto simp: fun_eq_iff split: option.splits)
  with 1 2 start v show ?thesis unfolding f_def xs_def by simp
qed

section \<open>What a reconciliation does\<close>

text \<open>Property C2: a reconciliation that returns Ok implements the abstract one. Seen as two maps from UIDs,
  to table rows and to calendar entries, the state after it is \<open>sync\<close> of the state before it: an
  export whose hash the table lacks is in the calendar and in the table, a UID of the file that is no
  longer exported is in neither, and every other UID keeps its row and its entry. This holds for any
  server that behaves as WebDAV prescribes, challenges for authentication included.\<close>

theorem reconcile_file_refines_sync:
  assumes "webdav (be_net env) stored" and "unique s"
    and "reconcile_file env files path s = (Inr res, s')" and "of_read files path = Inr content"
  shows "view env stored s' =
           sync (relative (be_dir env) path) (file_exports env (relative (be_dir env) path) content) (view env stored s)"
  using reconcile_file_syncs [OF assms] by blast

lemma fold_sem_same: "(\<And>x. x \<in> set xs \<Longrightarrow> m x a = ret a) \<Longrightarrow> fold_sem xs m a = ret a"
  by (induction xs) simp_all

lemma find_SomeD: "find P xs = Some x \<Longrightarrow> x \<in> set xs \<and> P x"
  by (induction xs) (auto split: if_splits)

lemma sync_settled:
  assumes "\<And>x y. x \<in> set xs \<Longrightarrow> y \<in> set xs \<Longrightarrow> ex_uid x = ex_uid y \<Longrightarrow> ex_hash x = ex_hash y"
    and "sync f xs (D, C) = (D', C')"
  shows "x \<in> set xs \<Longrightarrow> \<not> stale f D' x" and "recorded f D' u \<Longrightarrow> u \<in> ex_uid ` set xs"
proof -
  assume x: "x \<in> set xs"
  from assms(2) have D': "D' (ex_uid x) = (case find (\<lambda>y. ex_uid y = ex_uid x \<and> stale f D y) (rev xs) of
      Some y \<Rightarrow> Some (export_row f y) | None \<Rightarrow> D (ex_uid x))"
    using x by (auto simp: sync_def split: option.splits)
  show "\<not> stale f D' x"
  proof (cases "find (\<lambda>y. ex_uid y = ex_uid x \<and> stale f D y) (rev xs)")
    case None
    then have "\<not> stale f D x" using x by (auto simp: find_None_iff)
    with None D' show ?thesis by (simp add: stale_def)
  next
    case (Some y)
    then have "y \<in> set xs" "ex_uid y = ex_uid x" using find_SomeD by fastforce+
    with assms(1) [of y x] x have "ex_hash y = ex_hash x" by blast
    with Some D' show ?thesis by (simp add: stale_def export_row_def)
  qed
next
  assume "recorded f D' u"
  with assms(2) show "u \<in> ex_uid ` set xs"
    by (auto simp: sync_def recorded_def split: option.splits if_splits dest!: find_SomeD)
qed


lemma push_count:
  "push env f ex x (a, b) s = (Inr (a', b'), s') \<Longrightarrow> a' + b' = a + b + (if needs_update ex x then 1 else 0)"
  by (auto simp: push_def andthen_Inr_iff ret_def split: if_splits)

lemma push_loop_count:
  "fold_sem xs (push env f ex) (a, b) s = (Inr (a', b'), s') \<Longrightarrow> a' + b' = a + b + length (filter (needs_update ex) xs)"
proof (induction xs arbitrary: a b s)
  case (Cons x xs)
  then obtain c d s1 where "push env f ex x (a, b) s = (Inr (c, d), s1)" and "fold_sem xs (push env f ex) (c, d) s1 = (Inr (a', b'), s')"
    by (auto simp: andthen_Inr_iff)
  with Cons.IH push_count show ?case by fastforce
qed (simp add: ret_def)

text \<open>Two headings of one path with the same date never settle, when they differ in what is hashed: every
  reconciliation of the unchanged file puts one of them again, each in its turn.\<close>

lemma duplicate_headings_never_settle:
  assumes run: "reconcile_file env files path s = (Inr res, s')" and read: "of_read files path = Inr content"
    and xy: "x \<in> set (file_exports env (relative (be_dir env) path) content)"
            "y \<in> set (file_exports env (relative (be_dir env) path) content)" "ex_uid x = ex_uid y" "ex_hash x \<noteq> ex_hash y"
  shows "rr_created res + rr_updated res \<ge> 1"
proof -
  define xs where "xs = file_exports env (relative (be_dir env) path) content"
  define old where "old = file_rows (relative (be_dir env) path) (db_rows (bs_db s))"
  from run read obtain d s1 where "fold_sem xs (push env (relative (be_dir env) path) old) (0, 0) (s\<lparr>bs_db := d\<rparr>) =
      (Inr (rr_created res, rr_updated res), s1)"
    unfolding xs_def old_def by (auto elim!: reconcile_file_steps)
  from push_loop_count [OF this] have n: "rr_created res + rr_updated res = length (filter (needs_update old) xs)" by simp
  from xy(3,4) have "needs_update old x \<or> needs_update old y" by (auto simp: needs_update_def split: option.splits)
  with xy have "filter (needs_update old) xs \<noteq> []" unfolding xs_def by (auto simp: filter_empty_conv)
  with n show ?thesis by (cases "filter (needs_update old) xs") auto
qed

section \<open>What is not the bridge's is left alone\<close>

definition own_uid :: "string \<Rightarrow> bool" where
  "own_uid u = starts_with u ''org-''"

definition own_rows :: "rows \<Rightarrow> bool" where
  "own_rows rs = (\<forall>r \<in> set rs. own_uid (ee_uid r))"

definition foreign_url :: "'w net \<Rightarrow> string \<Rightarrow> bool" where
  "foreign_url n url \<longleftrightarrow> (\<forall>u. own_uid u \<longrightarrow> url \<noteq> event_url n u)"

lemma own_uids: "own_uid (make_uid sha f p ts)" "own_uid (make_todo_uid sha f p)"
  by (auto simp: own_uid_def make_uid_def make_todo_uid_def starts_with_iff)

lemma file_exports_own: "x \<in> set (file_exports env f content) \<Longrightarrow> own_uid (ex_uid x)"
  by (auto simp: file_exports_def entry_exports_def event_export_def todo_export_def Let_def own_uids split: if_splits)

definition untouched :: "('w \<Rightarrow> string \<Rightarrow> string option) \<Rightarrow> string \<Rightarrow> string option \<Rightarrow> 'w bridge \<Rightarrow> bool" where
  "untouched stored url c s \<longleftrightarrow> resource stored url s = c \<and> own_rows (db_rows (bs_db s))"

lemma keeps_untouched:
  fixes m :: "('w bridge, 'e, 'b) sem"
  assumes more: "\<And>k. keeps (\<lambda>s. client.more s = k) m (\<lambda>_. True)" and res: "keeps (\<lambda>s. resource stored url s = c) m (\<lambda>_. True)"
  shows "keeps (untouched stored url c) m (\<lambda>_. True)"
proof (rule keepsI)
  fix s :: "'w bridge"
  assume "untouched stored url c s"
  moreover have "bs_db (snd (m s)) = bs_db s" using keepsD [OF more refl, of s] by (metis more_bs_db)
  ultimately show "untouched stored url c (snd (m s))" using keepsD [OF res, of s] by (simp add: untouched_def)
qed simp

lemma keeps_untouched_calendar:
  assumes "webdav n stored" and "foreign_url n url"
  shows "own_uid u \<Longrightarrow> keeps (untouched stored url c) (put_event n u ical) (\<lambda>_. True)"
    and "own_uid u \<Longrightarrow> keeps (untouched stored url c) (delete_event n u) (\<lambda>_. True)"
    and "keeps (untouched stored url c) (list_uids n) (\<lambda>_. True)"
  using assms by (auto intro!: keeps_untouched keeps_more keeps_calendar simp: foreign_url_def)

lemma keeps_untouched_db:
  assumes "\<And>rs. own_rows rs \<Longrightarrow> own_rows (snd (f rs)) \<and> Q (fst (f rs))"
  shows "keeps (untouched stored url c) (on_db (statement faults f)) Q"
  using assms by (auto simp: keeps_def untouched_def on_db_def statement_def split: option.splits)

lemma own_rows_simps:
  "own_rows rs \<Longrightarrow> own_rows (file_rows f rs)"
  "own_rows rs \<Longrightarrow> own_rows (delete_row u rs)"
  "own_rows rs \<Longrightarrow> own_rows (filter P rs)"
  "own_rows rs \<Longrightarrow> own_uid (ee_uid r) \<Longrightarrow> own_rows (upsert_row r rs)"
  "own_rows rs \<Longrightarrow> \<forall>u \<in> set (map ee_uid (file_rows f rs)). own_uid u"
  using upsert_row_subset by (fastforce simp: own_rows_def file_rows_def delete_row_def)+

lemma on_db_andthen: "on_db (andthen m f) = andthen (on_db m) (\<lambda>x. on_db (f x))"
  by (rule ext) (auto simp: on_db_def andthen_def split: prod.splits sum.splits)

lemma keeps_on_db_andthen:
  "keeps P (on_db m) R \<Longrightarrow> (\<And>x. R x \<Longrightarrow> keeps P (on_db (f x)) Q) \<Longrightarrow> keeps P (on_db (andthen m f)) Q"
  unfolding on_db_andthen by (rule keeps_andthen)

lemma keeps_untouched_table:
  "keeps (untouched stored url c) (on_db (get_entries_for_file faults f)) own_rows"
  "keeps (untouched stored url c) (on_db (get_all_entries faults)) own_rows"
  "own_uid (ee_uid r) \<Longrightarrow> keeps (untouched stored url c) (on_db (upsert faults r)) (\<lambda>_. True)"
  "keeps (untouched stored url c) (on_db (db_delete faults u)) (\<lambda>_. True)"
  by (auto simp: statement_defs own_rows_simps intro!: keeps_untouched_db)

lemma keeps_untouched_forget:
  "keeps (untouched stored url c) (on_db (delete_file_entries faults f)) (\<lambda>us. \<forall>u \<in> set us. own_uid u)"
  unfolding delete_file_entries_def
  by (intro keeps_on_db_andthen keeps_untouched_db)
     (use own_rows_simps(3,5) in \<open>auto simp: keeps_def on_db_def ret_def\<close>)

lemma keeps_untouched_push:
  assumes "webdav (be_net env) stored" and "foreign_url (be_net env) url" and "own_uid (ex_uid x)"
  shows "keeps (untouched stored url c) (push env f ex x a) (\<lambda>_. True)"
  unfolding push_def by (intro keeps_intros keeps_untouched_calendar keeps_untouched_table)
    (use assms in \<open>simp_all add: export_row_def\<close>)

lemma keeps_untouched_prune:
  assumes "webdav (be_net env) stored" and "foreign_url (be_net env) url" and "own_uid (ee_uid r)"
  shows "keeps (untouched stored url c) (prune env us r a) (\<lambda>_. True)"
  unfolding prune_def by (intro keeps_intros keeps_untouched_calendar keeps_untouched_table) (use assms in simp_all)

lemma keeps_untouched_reconcile:
  assumes "webdav (be_net env) stored" and "foreign_url (be_net env) url"
  shows "keeps (untouched stored url c) (reconcile_file env files path) (\<lambda>_. True)"
proof -
  have "keeps (untouched stored url c) (fold_sem existing (prune env us) 0) (\<lambda>_. True)" if "own_rows existing" for existing us
    using that by (intro keeps_fold_sem keeps_untouched_prune assms) (auto simp: own_rows_def)
  moreover have "keeps (untouched stored url c) (fold_sem (file_exports env f t) (push env f ex) (0, 0)) (\<lambda>_. True)" for f t ex
    by (intro keeps_fold_sem keeps_untouched_push assms) (auto simp: file_exports_own)
  ultimately show ?thesis unfolding reconcile_file_def Let_def
    by (intro keeps_case_sum keeps_throw keeps_andthen [OF keeps_untouched_table(1)] keeps_intros) auto
qed

lemma keeps_untouched_deletes:
  assumes "webdav (be_net env) stored" and "foreign_url (be_net env) url" and "\<forall>u \<in> set us. own_uid u"
  shows "keeps (untouched stored url c) (for_each us (\<lambda>u. wrap BrCalDav (delete_event (be_net env) u))) (\<lambda>_. True)"
    and "keeps (untouched stored url c) (for_each us (\<lambda>u. ignore (delete_event (be_net env) u)) :: ('w, unit) brm) (\<lambda>_. True)"
  using assms by (auto intro!: keeps_intros keeps_untouched_calendar)

lemma keeps_untouched_full:
  assumes "webdav (be_net env) stored" and "foreign_url (be_net env) url"
  shows "keeps (untouched stored url c) (full_reconciliation env files) (\<lambda>_. True)"
proof -
  have "keeps (untouched stored url c) (fold_sem fs (reconcile_each env files) a) (\<lambda>_. True)" for fs a
    unfolding reconcile_each_def by (intro keeps_fold_sem keeps_intros keeps_untouched_reconcile assms) auto
  moreover have "keeps (untouched stored url c) (fold_sem fs (forget_file env) rs) (\<lambda>_. True)" for fs rs
    unfolding forget_file_def
    by (intro keeps_fold_sem keeps_andthen [OF keeps_untouched_forget] keeps_andthen_any keeps_untouched_deletes assms keeps_ret) auto
  moreover have "keeps (untouched stored url c) (remove_orphans env) (\<lambda>_. True)"
    unfolding remove_orphans_def
    by (intro keeps_intros keeps_untouched_calendar keeps_untouched_deletes assms keeps_True [OF keeps_untouched_table(2)])
       (auto simp: is_orphan_def own_uid_def)
  ultimately show ?thesis unfolding full_reconciliation_def Let_def
    by (intro keeps_intros keeps_True [OF keeps_untouched_table(2)]) auto
qed

lemma keeps_untouched_event:
  assumes "webdav (be_net env) stored" and "foreign_url (be_net env) url"
  shows "keeps (untouched stored url c) (process_event env ev k) (\<lambda>_. True)"
proof -
  have "keeps (untouched stored url c) (file_deleted env path) (\<lambda>_. True)" for path
    unfolding file_deleted_def
    by (intro keeps_try_sem_post [OF keeps_untouched_forget] keeps_ret keeps_untouched_deletes assms) auto
  then show ?thesis unfolding process_event_def
    by (auto intro!: keeps_intros keeps_untouched_reconcile assms split: prod.splits)
qed

text \<open>Property C15: the bridge touches only its own calendar entries. Through the reconciliation at startup
  and any sequence of events, whatever fails on the way (reads, statements, requests, lost answers),
  the resource of a URL that is not that of a UID with the bridge's prefix keeps its content, and the
  table keeps only UIDs with the prefix.\<close>

theorem bridge_leaves_foreign_entries:
  assumes "webdav (be_net env) stored" and "foreign_url (be_net env) url" and "own_rows (db_rows (bs_db s))"
    and "s' = snd (run_bridge env files evs latest s)"
  shows "resource stored url s' = resource stored url s \<and> own_rows (db_rows (bs_db s'))"
proof -
  have "keeps (untouched stored url (resource stored url s)) (run_bridge env files evs latest) (\<lambda>_. True)"
    unfolding run_bridge_def
    by (intro keeps_andthen_any keeps_ignore keeps_untouched_full keeps_fold_sem keeps_untouched_event assms TrueI)
  from keepsD [OF this, of s] assms(3,4) show ?thesis by (simp add: untouched_def)
qed

section \<open>The directory\<close>

lemma for_each_db:
  fixes s :: "'w bridge"
  assumes "\<And>x s r s'. m x s = (r, s') \<Longrightarrow> bs_db s' = bs_db (s :: 'w bridge)" and "for_each xs m s = (r, s')"
  shows "bs_db s' = bs_db s"
  using assms(2)
proof (induction xs arbitrary: s)
  case (Cons x xs)
  obtain r1 s1 where m: "m x s = (r1, s1)" by (cases "m x s")
  with Cons assms(1) [OF m] show ?case by (cases r1) (auto simp: andthen_def)
qed (simp add: ret_def)

lemma wrap_delete_db: "wrap BrCalDav (delete_event n u) s = (r, s') \<Longrightarrow> bs_db s' = bs_db (s :: 'w bridge)"
  using calendar_keeps_db(2) by (fastforce simp: wrap_def split: prod.splits sum.splits)

lemma forget_file_rows:
  assumes "forget_file env f rs s = (Inr rs', s')"
  shows "db_rows (bs_db s') = filter (\<lambda>r. ee_file r \<noteq> f) (db_rows (bs_db s))"
proof -
  from assms obtain us d where "delete_file_entries (be_faults env) f (bs_db s) = (Inr us, d)"
    and "for_each us (\<lambda>u. wrap BrCalDav (delete_event (be_net env) u)) (s\<lparr>bs_db := d\<rparr>) = (Inr (), s')"
    by (auto simp: forget_file_def andthen_Inr_iff on_db_Inr_iff ret_def)
  with for_each_db [OF wrap_delete_db] delete_file_entries_ok show ?thesis by fastforce
qed

lemma forget_files_rows:
  "fold_sem fs (forget_file env) rs s = (Inr rs', s') \<Longrightarrow>
     db_rows (bs_db s') = filter (\<lambda>r. ee_file r \<notin> set fs) (db_rows (bs_db s))"
proof (induction fs arbitrary: rs s)
  case (Cons f fs)
  then obtain rs1 s1 where f: "forget_file env f rs s = (Inr rs1, s1)" and "fold_sem fs (forget_file env) rs1 s1 = (Inr rs', s')"
    by (auto simp: andthen_Inr_iff)
  with Cons.IH forget_file_rows [OF f] show ?case by (auto intro: filter_cong)
qed (simp add: ret_def)

lemma remove_orphans_rows:
  fixes s :: "'w bridge"
  assumes run: "remove_orphans env s = (r, s')"
  shows "db_rows (bs_db s') = db_rows (bs_db s)"
proof -
  obtain q s1 where l: "list_uids (be_net env) s = (q, s1)" by (cases "list_uids (be_net env) s")
  then have s1: "bs_db s1 = bs_db s" using keepsD [OF keeps_more(3) refl, of "be_net env" s] more_bs_db by (metis snd_conv)
  have del: "bs_db s' = bs_db s" if "ignore (delete_event (be_net env) u) s = (r, s')"
    for u and s s' :: "'w bridge" and r :: "bridge_error + unit"
    using that calendar_keeps_db(2) [of "be_net env" u s] by (cases "delete_event (be_net env) u s") (auto simp: ignore_def)
  show ?thesis
  proof (cases q)
    case (Inl e)
    with l run s1 show ?thesis by (simp add: remove_orphans_def try_sem_def ret_def)
  next
    case (Inr remote)
    show ?thesis
    proof (cases "be_faults env (db_calls (bs_db s1))")
      case (Some e)
      with l run s1 Inr show ?thesis
        by (auto simp: remove_orphans_def try_sem_def andthen_def on_db_def get_all_entries_def statement_def)
    next
      case None
      with l run Inr obtain us where "for_each us (\<lambda>u. ignore (delete_event (be_net env) u))
          (s1\<lparr>bs_db := (bs_db s1)\<lparr>db_calls := Suc (db_calls (bs_db s1))\<rparr>\<rparr>) = (r, s')"
        by (auto simp: remove_orphans_def try_sem_def andthen_def on_db_def get_all_entries_def statement_def)
      from for_each_db [OF del this] s1 show ?thesis by simp
    qed
  qed
qed

text \<open>After a reconciliation of the directory that returns Ok the table has rows of the scanned files
  only.\<close>

lemma full_reconciliation_rows:
  assumes order: "\<And>xs. set (be_order env xs) = set xs"
    and run: "full_reconciliation env files s = (Inr res, s')" and r: "r \<in> set (db_rows (bs_db s'))"
  shows "\<exists>e \<in> set (parse_directory (be_orgize env) (kw_of env) (be_dir env) (of_scan files)). ee_file r = oe_file e"
proof -
  define seen where "seen = be_order env (remdups (map oe_file
      (parse_directory (be_orgize env) (kw_of env) (be_dir env) (of_scan files))))"
  from run obtain res1 failed s1 d s2 s3 where
      all: "get_all_entries (be_faults env) (bs_db s1) = (Inr (db_rows (bs_db s1)), d)"
    and gone: "fold_sem (be_order env (remdups (filter (\<lambda>f. f \<notin> set seen) (map ee_file (db_rows (bs_db s1))))))
        (forget_file env) res1 (s1\<lparr>bs_db := d\<rparr>) = (Inr res, s2)"
    and orph: "whenever (\<not> failed) (remove_orphans env) s2 = (Inr (), s')"
    unfolding full_reconciliation_def Let_def seen_def [symmetric]
    by (auto simp: andthen_Inr_iff on_db_Inr_iff ret_def get_all_entries_def statement_Inr_iff)
  from all have d: "db_rows d = db_rows (bs_db s1)" by (simp add: get_all_entries_def statement_Inr_iff)
  from forget_files_rows [OF gone] have "db_rows (bs_db s2) =
      filter (\<lambda>r. ee_file r \<notin> set (be_order env (remdups (filter (\<lambda>f. f \<notin> set seen) (map ee_file (db_rows (bs_db s1))))))) (db_rows d)"
    by simp
  moreover have "db_rows (bs_db s') = db_rows (bs_db s2)"
    using orph remove_orphans_rows by (cases failed) (auto simp: whenever_def ret_def)
  ultimately have "ee_file r \<in> set seen" using r d order by auto
  then show ?thesis unfolding seen_def using order by auto
qed

section \<open>Where the calendar is not what the file says\<close>

text \<open>The deadline of a TODO is written as a second start: no entry has a \<^verbatim>\<open>DUE\<close> line.\<close>

lemma todo_never_due: "l \<in> set (vtodo_lines kw e uid) \<Longrightarrow> \<not> starts_with l ''DUE''"
  by (auto simp: vtodo_lines_def first_datetime_def format_ical_datetime_def ical_categories_def ical_description_def
        starts_with_iff split: list.splits option.splits if_splits)

lemma deadline_is_a_second_start:
  assumes "oe_scheduled e = [a]" and "oe_deadline e = [b]"
  shows "filter (\<lambda>l. starts_with l ''DTSTART'') (vtodo_lines kw e uid) = format_ical_datetime a @ format_ical_datetime b"
  using assms by (auto simp: vtodo_lines_def first_datetime_def format_ical_datetime_def ical_categories_def ical_description_def
        starts_with_iff split: list.splits option.splits if_splits)

text \<open>An entry of a whole day and one at midnight have the same UID and the same hash, so moving from one
  to the other is never sent, though their calendar entries differ.\<close>

lemma midnight_is_not_seen:
  assumes "day = ts\<lparr>ts_hour := None, ts_minute := None\<rparr>" and "midnight = ts\<lparr>ts_hour := Some 0, ts_minute := Some 0\<rparr>"
  shows "make_uid sha f p day = make_uid sha f p midnight" and "hash_entry_timestamp sha e day = hash_entry_timestamp sha e midnight"
    and "format_ical_datetime day \<noteq> format_ical_datetime midnight"
  using assms by (simp_all add: make_uid_def hash_entry_timestamp_def or_zero_def ical_date_def format_ical_datetime_def)

text \<open>An event in the last hour of a day, with no end of its own, ends when it starts.\<close>

lemma late_event_has_no_length: "default_end_hour 23 = 23"
  by (simp add: default_end_hour_def)

text \<open>A file's rows are deleted before its calendar entries: whatever became of those deletions, no later
  event of the deleted file sends a request.\<close>

lemma lost_delete_is_not_repeated:
  assumes "file_rows path (db_rows (bs_db s)) = []"
  shows "cl_world (snd (file_deleted env path s)) = cl_world s"
  using assms
  by (auto simp: file_deleted_def try_sem_def on_db_def delete_file_entries_def statement_def andthen_def ret_def split: option.splits)

section \<open>An example\<close>

text \<open>A calendar server that asks for Digest authentication, and a file with one scheduled task.\<close>

definition sample_answer :: "nat \<Rightarrow> response" where
  "sample_answer st = \<lparr>rs_status = st, rs_challenges = [], rs_body = Some []\<rparr>"

definition sample_http :: "request \<Rightarrow> (string \<times> string) list \<Rightarrow> (string + response) \<times> (string \<times> string) list" where
  "sample_http rq w =
     (if rq_auth rq = None
      then (Inr \<lparr>rs_status = 401, rs_challenges = [''Digest realm='' @ quoted ''r'' @ '',nonce='' @ quoted ''n''], rs_body = None\<rparr>, w)
      else if rq_method rq = ''PUT''
      then (Inr (sample_answer 201), case rq_body rq of Some b \<Rightarrow> (rq_url rq, b) # w | None \<Rightarrow> AList.delete (rq_url rq) w)
      else if rq_method rq = ''DELETE'' then (Inr (sample_answer 204), AList.delete (rq_url rq) w)
      else (Inr (sample_answer 207), w))"

definition sample_net :: "(string \<times> string) list net" where
  "sample_net = \<lparr>n_http = sample_http, n_parse_url = (\<lambda>u. Inr (u, None)), n_md5_hex = (\<lambda>t. ''m''), n_cnonce = (\<lambda>_. ''c''),
     n_status_text = nat_str, n_base_url = ''u'', n_username = ''me'', n_password = ''p''\<rparr>"

definition sample_headline :: headline where
  "sample_headline = Headline ''T'' (Some ''TODO'') None []
     (Some \<lparr>ot_year = Some ''7'', ot_month = Some ''3'', ot_day = Some ''5'', ot_hour = None, ot_minute = None,
            ot_end_hour = None, ot_end_minute = None\<rparr>) None []"

definition sample_bridge_env :: "(string \<times> string) list bridge_env" where
  "sample_bridge_env = \<lparr>be_net = sample_net, be_faults = (\<lambda>_. None), be_sha = (\<lambda>t. t), be_orgize = (\<lambda>_ _. [sample_headline]),
     be_keywords = None, be_dir = ''d'', be_order = (\<lambda>xs. xs)\<rparr>"

definition sample_files :: org_files where
  "sample_files = \<lparr>of_read = (\<lambda>_. Inr ''x''), of_exists = (\<lambda>_. True), of_scan = [(''d/a.org'', Some ''x'')]\<rparr>"

definition sample_bridge :: "(string \<times> string) list bridge" where
  "sample_bridge = \<lparr>cl_auth = None, cl_nc = 0, cl_nonces = 0, cl_world = [(''u/mine.ics'', ''z'')],
     bs_db = \<lparr>db_rows = [\<lparr>ee_uid = ''org-old'', ee_hash = ''h'', ee_file = ''a.org'', ee_heading_path = ''O'', ee_entry_type = ''event''\<rparr>],
              db_calls = 0\<rparr>\<rparr>"

definition sample_run :: "(bridge_error + reconcile_result) \<times> (string \<times> string) list bridge" where
  "sample_run = reconcile_file sample_bridge_env sample_files ''d/a.org'' sample_bridge"

lemma sample_webdav: "webdav sample_net map_of"
  by (auto simp: webdav_def sample_net_def sample_http_def sample_answer_def is_success_def delete_conv split: if_splits option.splits)

lemma sample_run_ok: "fst sample_run = Inr \<lparr>rr_file = ''a.org'', rr_created = 2, rr_updated = 0, rr_deleted = 1\<rparr>"
  by code_simp

lemma sample_agree:
  "list_all (\<lambda>x. list_all (\<lambda>y. ex_uid x = ex_uid y \<longrightarrow> ex_hash x = ex_hash y) (file_exports sample_bridge_env ''a.org'' ''x''))
     (file_exports sample_bridge_env ''a.org'' ''x'')"
  by code_simp

lemma sample_relative: "relative (be_dir sample_bridge_env) ''d/a.org'' = ''a.org''" "of_read sample_files ''d/a.org'' = Inr ''x''"
  "unique_uids (db_rows (bs_db sample_bridge))" "be_net sample_bridge_env = sample_net" "be_faults sample_bridge_env = (\<lambda>_. None)"
  by (simp_all add: sample_bridge_env_def sample_files_def sample_bridge_def unique_uids_def relative_def)

theorem reconcile_file_refines_sync_witness:
  "fst sample_run = Inr \<lparr>rr_file = ''a.org'', rr_created = 2, rr_updated = 0, rr_deleted = 1\<rparr>
   \<and> view sample_bridge_env map_of (snd sample_run) =
       sync ''a.org'' (file_exports sample_bridge_env ''a.org'' ''x'') (view sample_bridge_env map_of sample_bridge)"
  using reconcile_file_refines_sync [of sample_bridge_env map_of sample_bridge sample_files "''d/a.org''" _ "snd sample_run" "''x''"]
    sample_webdav sample_run_ok by (simp add: sample_relative) (metis prod.collapse sample_run_def)


theorem bridge_leaves_foreign_entries_witness:
  "map_of (cl_world (snd (run_bridge sample_bridge_env sample_files
       [(sample_files, \<lparr>ev_id = 1, ev_data = JObj [(''item'', JStr ''a.org'')]\<rparr>)] 0 sample_bridge))) ''u/mine.ics'' = Some ''z''"
proof -
  have "foreign_url (be_net sample_bridge_env) ''u/mine.ics''"
    by (auto simp: foreign_url_def own_uid_def starts_with_iff sample_relative event_url_def sample_net_def)
  moreover have "own_rows (db_rows (bs_db sample_bridge))" by (simp add: sample_bridge_def own_rows_def own_uid_def starts_with_def)
  moreover have "cl_world sample_bridge = [(''u/mine.ics'', ''z'')]" by (simp add: sample_bridge_def)
  ultimately show ?thesis
    using bridge_leaves_foreign_entries [of sample_bridge_env map_of "''u/mine.ics''" sample_bridge _ sample_files] sample_webdav
    by (simp add: sample_relative)
qed

end
