(* ===== verification/Letterboxd.thy ===== *)
theory Letterboxd
  imports Prelude
begin

text \<open>
  \<^verbatim>\<open>apps/letterboxd-sync/src\<close>: the plays of a Trakt history that are new since the last run, the CSV made
  of them, and its upload to Letterboxd (\<^verbatim>\<open>trakt.rs\<close>, \<^verbatim>\<open>csv.rs\<close>, \<^verbatim>\<open>state.rs\<close>, \<^verbatim>\<open>lib.rs\<close>). The Trakt server
  and the browser session are parameters of each run: what they answer, and whether the confirm
  button was clicked. The state file is replaced as a whole by a rename; a save may fail. Notifications,
  the debug dumps and the pacing of the browser are left out. \<open>lw_clicks\<close> and \<open>lw_landed\<close> record the
  batches whose confirm button was clicked, for the statements.
\<close>

section \<open>Trakt\<close>

record ids =
  id_trakt :: nat
  id_imdb :: "string option"
  id_tmdb :: "nat option"

record movie =
  mv_title :: string
  mv_year :: "nat option"
  mv_ids :: ids

record play =
  pl_id :: nat
  pl_watched_at :: string
  pl_movie :: movie

record 'a page =
  pg_status :: nat
  pg_count :: "string option"
  pg_items :: "string + 'a list"

definition page_count :: "'a page \<Rightarrow> nat" where
  "page_count r = (case Option.bind (pg_count r) (parse_uint 32) of Some n \<Rightarrow> n | None \<Rightarrow> 1)"

lemma page_count_bound: "page_count r < 2 ^ 32"
  by (auto simp: page_count_def split: option.splits bind_splits dest: parse_uint_bound)

definition http_hint :: "nat \<Rightarrow> string" where
  "http_hint st =
     (if st = 401 \<or> st = 403 then '' (private profile, or a wrong client id)''
      else if st = 404 then '' (no such user)'' else [])"

text \<open>The loop over the pages ends: the number of pages is read as 32 bits, and the page counter grows.\<close>

function pages_from ::
  "string \<Rightarrow> (nat \<Rightarrow> string) \<Rightarrow> (nat \<Rightarrow> string + 'a page) \<Rightarrow> nat \<Rightarrow> 'a list \<Rightarrow> string + 'a list" where
  "pages_from path status_text get page out =
     (case get page of
        Inl e \<Rightarrow> Inl (''trakt '' @ path @ '': '' @ e)
      | Inr r \<Rightarrow>
          if \<not> (200 \<le> pg_status r \<and> pg_status r < 300)
          then Inl (''trakt '' @ path @ '': HTTP '' @ status_text (pg_status r) @ http_hint (pg_status r))
          else (case pg_items r of
                  Inl e \<Rightarrow> Inl (''trakt '' @ path @ '': bad JSON: '' @ e)
                | Inr items \<Rightarrow>
                    if page_count r \<le> page then Inr (out @ items)
                    else pages_from path status_text get (Suc page) (out @ items)))"
  by pat_completeness auto

termination pages_from
proof (relation "measure (\<lambda>(_, _, _, page, _). 2 ^ 32 - page)", goal_cases)
  case (2 path status_text get page out r items)
  then show ?case using page_count_bound [of r] by auto
qed simp

declare pages_from.simps [simp del]

definition pages :: "string \<Rightarrow> (nat \<Rightarrow> string) \<Rightarrow> (nat \<Rightarrow> string + 'a page) \<Rightarrow> string + 'a list" where
  "pages path status_text get = pages_from path status_text get 1 []"

text \<open>When every page answers, the result is the pages in order, up to the first whose number reaches the
  count it reports.\<close>

lemma pages_from_ok:
  assumes "\<And>k. m \<le> k \<Longrightarrow> k \<le> n \<Longrightarrow> \<exists>r. get k = Inr r \<and> 200 \<le> pg_status r \<and> pg_status r < 300 \<and> pg_items r = Inr (item k)
            \<and> (page_count r \<le> k \<longleftrightarrow> k = n)"
    and "m \<le> n"
  shows "pages_from path status_text get m out = Inr (out @ concat (map item [m..<Suc n]))"
  using assms
proof (induction "n - m" arbitrary: m out)
  case 0
  then obtain r where "get m = Inr r" "200 \<le> pg_status r" "pg_status r < 300" "pg_items r = Inr (item m)" "page_count r \<le> m"
    by (metis diff_is_0_eq le_antisym order_refl)
  with 0 show ?case by (subst pages_from.simps) simp
next
  case (Suc d)
  from Suc.prems Suc.hyps(2) obtain r where "get m = Inr r" "200 \<le> pg_status r" "pg_status r < 300" "pg_items r = Inr (item m)"
    "\<not> page_count r \<le> m" by (metis Zero_not_Suc diff_self_eq_0 order_refl)
  moreover have "pages_from path status_text get (Suc m) (out @ item m) = Inr ((out @ item m) @ concat (map item [Suc m..<Suc n]))"
    using Suc.hyps(2) Suc.prems by (intro Suc.hyps(1)) auto
  moreover have "[m..<Suc n] = m # [Suc m..<Suc n]" using Suc.prems(2) by (simp add: upt_rec)
  ultimately show ?case by (subst pages_from.simps) simp
qed

section \<open>State\<close>

record pending =
  pe_at :: string
  pe_films :: "string list"
  pe_cursor :: string
  pe_cursor_ids :: "nat set"
  pe_seen :: "nat set"

record lb_state =
  ls_cursor :: string
  ls_cursor_ids :: "nat set"
  ls_seen :: "nat set"
  ls_pending :: "pending option"

definition default_state :: lb_state where
  "default_state = \<lparr>ls_cursor = [], ls_cursor_ids = {}, ls_seen = {}, ls_pending = None\<rparr>"

definition is_baselined :: "lb_state \<Rightarrow> bool" where
  "is_baselined st \<longleftrightarrow> ls_cursor st \<noteq> []"

definition ack :: "lb_state \<Rightarrow> string + (string list \<times> lb_state)" where
  "ack st = (case ls_pending st of
     None \<Rightarrow> Inl ''nothing is pending''
   | Some p \<Rightarrow> Inr (pe_films p, st\<lparr>ls_pending := None, ls_cursor := pe_cursor p, ls_cursor_ids := pe_cursor_ids p, ls_seen := pe_seen p\<rparr>))"

definition discard :: "lb_state \<Rightarrow> string + (string list \<times> lb_state)" where
  "discard st = (case ls_pending st of
     None \<Rightarrow> Inl ''nothing is pending''
   | Some p \<Rightarrow> Inr (pe_films p, st\<lparr>ls_pending := None\<rparr>))"

section \<open>The import file\<close>

definition csv_field :: "string \<Rightarrow> string" where
  "csv_field s =
     (let t = map (\<lambda>c. if c = carriage \<or> c = newline then CHR '' '' else if c = quote then CHR 0x27 else c) s
      in if CHR '','' \<in> set t then quote # t @ [quote] else t)"

definition HEADER :: string where
  "HEADER = ''tmdbID,imdbID,Title,Year,WatchedDate,Rating10,Rewatch''"

record batch =
  ba_csv :: string
  ba_films :: "string list"
  ba_skipped :: "string list"

definition or_empty :: "('a \<Rightarrow> string) \<Rightarrow> 'a option \<Rightarrow> string" where
  "or_empty f x = (case x of Some y \<Rightarrow> f y | None \<Rightarrow> [])"

definition label :: "play \<Rightarrow> string" where
  "label p = (case mv_year (pl_movie p) of
     Some y \<Rightarrow> mv_title (pl_movie p) @ '' ('' @ nat_str y @ '')''
   | None \<Rightarrow> mv_title (pl_movie p))"

definition tmdb_of :: "play \<Rightarrow> nat option" where
  "tmdb_of p = id_tmdb (mv_ids (pl_movie p))"

definition csv_row :: "(nat \<Rightarrow> nat option) \<Rightarrow> play \<Rightarrow> nat \<Rightarrow> bool \<Rightarrow> string" where
  "csv_row ratings p tmdb rewatch = join '',''
     [nat_str tmdb, csv_field (or_empty (\<lambda>s. s) (id_imdb (mv_ids (pl_movie p)))), csv_field (mv_title (pl_movie p)),
      or_empty nat_str (mv_year (pl_movie p)),
      if 10 \<le> length (pl_watched_at p) then take 10 (pl_watched_at p) else [],
      or_empty nat_str (ratings (id_trakt (mv_ids (pl_movie p)))),
      if rewatch then ''true'' else ''false''] @ [newline]"

definition build_step :: "(nat \<Rightarrow> nat option) \<Rightarrow> play \<Rightarrow> batch \<times> nat set \<Rightarrow> batch \<times> nat set" where
  "build_step ratings p = (\<lambda>(b, seen).
     case tmdb_of p of
       None \<Rightarrow> (b\<lparr>ba_skipped := ba_skipped b @ [label p]\<rparr>, seen)
     | Some tmdb \<Rightarrow>
         (b\<lparr>ba_csv := ba_csv b @ csv_row ratings p tmdb (tmdb \<in> seen), ba_films := ba_films b @ [label p]\<rparr>, insert tmdb seen))"

definition by_time :: "play list \<Rightarrow> play list" where
  "by_time ps = sort_key (\<lambda>p. (pl_watched_at p, pl_id p)) ps"

definition build :: "play list \<Rightarrow> (nat \<Rightarrow> nat option) \<Rightarrow> nat set \<Rightarrow> batch \<times> nat set" where
  "build ps ratings seen =
     fold (build_step ratings) (by_time ps) (\<lparr>ba_csv = HEADER @ [newline], ba_films = [], ba_skipped = []\<rparr>, seen)"

section \<open>A run\<close>

record lb_config =
  lc_letterboxd_user :: "string option"
  lc_letterboxd_password :: "string option"
  lc_start_at :: "string option"
  lc_dry_run :: bool
  lc_stop_before_confirm :: bool
  lc_max_films :: nat

datatype confirmed = Done string | Unrecognised string

datatype lb_outcome =
  Baselined nat | NothingNew | DryRun string | Stopped string | Imported "string list"

text \<open>\<open>Panic\<close> is the \<^verbatim>\<open>expect\<close> of an empty batch.\<close>

datatype lb_error = Failed string | Panic

record lb_env =
  le_now :: string
  le_load :: "string option"
  le_history :: "string option \<Rightarrow> string + play list"
  le_ratings :: "string + (nat \<Rightarrow> nat option)"
  le_save :: "nat \<Rightarrow> string option"
  le_write_csv :: "string option"
  le_open :: "string option"
  le_login :: "string option"
  le_upload :: "string + string"
  le_clicked :: bool
  le_confirm :: "string + confirmed"

record lb_world =
  lw_file :: "lb_state option"
  lw_saves :: nat
  lw_clicks :: "play list list"
  lw_landed :: bool

type_synonym 'a lbm = "(lb_world, lb_error, 'a) sem"

definition load :: "lb_env \<Rightarrow> lb_state lbm" where
  "load env = (\<lambda>w. case le_load env of
     Some e \<Rightarrow> (Inl (Failed e), w)
   | None \<Rightarrow> (Inr (case lw_file w of Some st \<Rightarrow> st | None \<Rightarrow> default_state), w))"

definition save :: "lb_env \<Rightarrow> lb_state \<Rightarrow> unit lbm" where
  "save env st = (\<lambda>w. case le_save env (lw_saves w) of
     Some e \<Rightarrow> (Inl (Failed e), w\<lparr>lw_saves := Suc (lw_saves w)\<rparr>)
   | None \<Rightarrow> (Inr (), w\<lparr>lw_saves := Suc (lw_saves w), lw_file := Some st\<rparr>))"

definition fails :: "string option \<Rightarrow> unit lbm" where
  "fails e = (case e of Some msg \<Rightarrow> throw (Failed msg) | None \<Rightarrow> ret ())"

definition confirm :: "lb_env \<Rightarrow> play list \<Rightarrow> confirmed lbm" where
  "confirm env sent = (\<lambda>w.
     let w' = w\<lparr>lw_clicks := lw_clicks w @ [sent], lw_landed := True\<rparr>
     in case le_confirm env of
          Inl e \<Rightarrow> (Inl (Failed e), if le_clicked env then w' else w)
        | Inr c \<Rightarrow> (Inr c, w'))"

fun dedup_by_id :: "play list \<Rightarrow> play list" where
  "dedup_by_id (p # q # ps) = (if pl_id p = pl_id q then dedup_by_id (p # ps) else p # dedup_by_id (q # ps))"
| "dedup_by_id ps = ps"

definition newest :: "play list \<Rightarrow> (string \<times> nat set) option" where
  "newest ps =
     (if ps = [] then None
      else let latest = Max (pl_watched_at ` set ps)
           in Some (latest, pl_id ` {p \<in> set ps. pl_watched_at p = latest}))"

definition tmdb_ids :: "play list \<Rightarrow> nat set" where
  "tmdb_ids ps = set (List.map_filter tmdb_of ps)"

text \<open>The plays of one upload: oldest first, each once, at most so many.\<close>

definition batch_plays :: "lb_config \<Rightarrow> play list \<Rightarrow> play list" where
  "batch_plays cfg ps = take (lc_max_films cfg) (dedup_by_id (by_time ps))"

definition next_cursor :: "lb_state \<Rightarrow> string \<times> nat set \<Rightarrow> string \<times> nat set" where
  "next_cursor st = (\<lambda>(cursor, new_ids).
     if cursor = ls_cursor st then (cursor, ls_cursor_ids st \<union> new_ids) else (cursor, new_ids))"

definition drive ::
  "lb_config \<Rightarrow> lb_env \<Rightarrow> batch \<Rightarrow> play list \<Rightarrow> lb_state \<Rightarrow> string \<times> nat set \<times> nat set \<Rightarrow> lb_outcome lbm" where
  "drive cfg env b sent st = (\<lambda>(cursor, cursor_ids, seen).
     andthen (fails (le_login env))
     (\<lambda>_. case le_upload env of
        Inl e \<Rightarrow> throw (Failed e)
      | Inr summary \<Rightarrow>
          if lc_stop_before_confirm cfg then ret (Stopped summary)
          else
            let marked = st\<lparr>ls_pending := Some \<lparr>pe_at = le_now env, pe_films = ba_films b, pe_cursor = cursor,
                              pe_cursor_ids = cursor_ids, pe_seen = seen\<rparr>\<rparr>
            in andthen (save env marked)
               (\<lambda>_. andthen (\<lambda>w. (Inr (), w\<lparr>lw_landed := False\<rparr>))
               (\<lambda>_. andthen (confirm env sent)
               (\<lambda>c. case c of
                  Done _ \<Rightarrow>
                    andthen (save env (marked\<lparr>ls_pending := None, ls_cursor := cursor, ls_cursor_ids := cursor_ids, ls_seen := seen\<rparr>))
                    (\<lambda>_. ret (Imported (ba_films b)))
                | Unrecognised page \<Rightarrow>
                    throw (Failed (''confirm was clicked but no success text followed (page: '' @ page @ ''); marked pending, see `ack` / `discard`'')))))))"

definition no_ratings :: "nat \<Rightarrow> nat option" where
  "no_ratings = (\<lambda>_. None)"

definition upload :: "lb_config \<Rightarrow> lb_env \<Rightarrow> lb_state \<Rightarrow> play list \<Rightarrow> lb_outcome lbm" where
  "upload cfg env st ps =
     (let plays = batch_plays cfg ps;
          ratings = (case le_ratings env of Inr r \<Rightarrow> r | Inl _ \<Rightarrow> no_ratings);
          (b, seen) = build plays ratings (ls_seen st)
      in case newest plays of
           None \<Rightarrow> throw Panic
         | Some latest \<Rightarrow>
             let (cursor, cursor_ids) = next_cursor st latest
             in if ba_films b = []
                then andthen (save env (st\<lparr>ls_cursor := cursor, ls_cursor_ids := cursor_ids\<rparr>)) (\<lambda>_. ret NothingNew)
                else if lc_dry_run cfg then ret (DryRun (ba_csv b))
                else if lc_letterboxd_user cfg = None \<or> lc_letterboxd_password cfg = None
                then throw (Failed ''LETTERBOXD_USERNAME / LETTERBOXD_PASSWORD are not set'')
                else andthen (fails (le_write_csv env))
                     (\<lambda>_. andthen (fails (le_open env))
                     (\<lambda>_. drive cfg env b (filter (\<lambda>p. tmdb_of p \<noteq> None) plays) st (cursor, cursor_ids, seen))))"

definition handled :: "lb_state \<Rightarrow> play \<Rightarrow> bool" where
  "handled st p \<longleftrightarrow> \<not> (ls_cursor st \<le> pl_watched_at p \<and> \<not> (pl_watched_at p = ls_cursor st \<and> pl_id p \<in> ls_cursor_ids st))"

definition backfill :: "lb_config \<Rightarrow> play list \<Rightarrow> play list" where
  "backfill cfg every = (case lc_start_at cfg of Some t \<Rightarrow> filter (\<lambda>p. t \<le> pl_watched_at p) every | None \<Rightarrow> [])"

definition before :: "lb_config \<Rightarrow> play list \<Rightarrow> play list" where
  "before cfg every = (case lc_start_at cfg of Some t \<Rightarrow> filter (\<lambda>p. \<not> t \<le> pl_watched_at p) every | None \<Rightarrow> every)"

definition first_run :: "lb_config \<Rightarrow> lb_env \<Rightarrow> lb_state \<Rightarrow> lb_outcome lbm" where
  "first_run cfg env st =
     (case le_history env None of
        Inl e \<Rightarrow> throw (Failed e)
      | Inr every \<Rightarrow>
          let st' = st\<lparr>ls_seen := tmdb_ids (before cfg every)\<rparr>
          in if backfill cfg every = []
             then let (cursor, latest_ids) = (case newest every of Some t \<Rightarrow> t | None \<Rightarrow> (le_now env, {}))
                  in andthen (save env (st'\<lparr>ls_cursor := cursor, ls_cursor_ids := latest_ids\<rparr>))
                     (\<lambda>_. ret (Baselined (length every)))
             else upload cfg env st' (backfill cfg every))"

definition later_run :: "lb_config \<Rightarrow> lb_env \<Rightarrow> lb_state \<Rightarrow> lb_outcome lbm" where
  "later_run cfg env st =
     (case le_history env (Some (ls_cursor st)) of
        Inl e \<Rightarrow> throw (Failed e)
      | Inr recent \<Rightarrow>
          let fresh = filter (\<lambda>p. \<not> handled st p) recent
          in if fresh = [] then ret NothingNew else upload cfg env st fresh)"

definition run :: "lb_config \<Rightarrow> lb_env \<Rightarrow> lb_outcome lbm" where
  "run cfg env =
     andthen (load env)
     (\<lambda>st. case ls_pending st of
        Some p \<Rightarrow> throw (Failed (''an earlier run clicked confirm at '' @ pe_at p @ '' but never saw the success text for: ''
                      @ join '', '' (pe_films p) @ ''. Check the Letterboxd diary, then run `letterboxd-sync ack` (they are there) or ''
                      @ ''`letterboxd-sync discard` (they are not). Nothing is uploaded until then''))
      | None \<Rightarrow> if is_baselined st then later_run cfg env st else first_run cfg env st)"

definition resolve :: "lb_env \<Rightarrow> bool \<Rightarrow> string list lbm" where
  "resolve env acked =
     andthen (load env)
     (\<lambda>st. case (if acked then ack st else discard st) of
        Inl e \<Rightarrow> throw (Failed e)
      | Inr (films, st') \<Rightarrow> andthen (save env st') (\<lambda>_. ret films))"

section \<open>The plays of a batch\<close>

abbreviation at_id :: "play \<Rightarrow> string \<times> nat" where
  "at_id p \<equiv> (pl_watched_at p, pl_id p)"

lemma set_dedup: "inj_on pl_id (set ps) \<Longrightarrow> set (dedup_by_id ps) = set ps"
proof (induction ps rule: dedup_by_id.induct)
  case (1 p q ps)
  show ?case
  proof (cases "pl_id p = pl_id q")
    case True
    have "p = q" using inj_onD [OF "1.prems" True] by simp
    with True "1.IH"(1) "1.prems" show ?thesis by simp
  next
    case False
    moreover have "inj_on pl_id (set (q # ps))" using "1.prems" by (rule inj_on_subset) auto
    ultimately show ?thesis using "1.IH"(2) by simp
  qed
qed auto

lemma sorted_dedup: "sorted (map at_id ps) \<Longrightarrow> sorted (map at_id (dedup_by_id ps))"
proof (induction ps rule: dedup_by_id.induct)
  case (1 p q ps)
  have sub: "set (dedup_by_id xs) \<subseteq> set xs" for xs by (induction xs rule: dedup_by_id.induct) auto
  from 1 sub [of "q # ps"] show ?case by (cases "pl_id p = pl_id q") fastforce+
qed auto

lemma distinct_dedup: "inj_on pl_id (set ps) \<Longrightarrow> sorted (map at_id ps) \<Longrightarrow> distinct (map pl_id (dedup_by_id ps))"
proof (induction ps rule: dedup_by_id.induct)
  case (1 p q ps)
  show ?case
  proof (cases "pl_id p = pl_id q")
    case True
    have "inj_on pl_id (set (p # ps))" using "1.prems"(1) by (rule inj_on_subset) auto
    with True "1.IH"(1) "1.prems"(2) show ?thesis by simp
  next
    case False
    have inj: "inj_on pl_id (set (q # ps))" using "1.prems"(1) by (rule inj_on_subset) auto
    have "pl_id p \<notin> pl_id ` set (q # ps)"
    proof
      assume "pl_id p \<in> pl_id ` set (q # ps)"
      then obtain r where r: "r \<in> set (q # ps)" "pl_id p = pl_id r" by blast
      then have "p \<in> set (q # ps)" using inj_onD [OF "1.prems"(1) r(2)] by simp
      moreover have "at_id p \<le> at_id q" "\<forall>r \<in> set (q # ps). at_id q \<le> at_id r" using "1.prems"(2) by auto
      ultimately have "at_id p = at_id q" by (meson order_antisym)
      with False show False by simp
    qed
    with False 1 inj show ?thesis by (auto simp: set_dedup [OF inj])
  qed
qed auto

lemma batch_plays_props:
  assumes "inj_on pl_id (set ps)"
  shows "set (batch_plays cfg ps) \<subseteq> set ps" and "distinct (map pl_id (batch_plays cfg ps))"
    and "p \<in> set ps \<Longrightarrow> p \<notin> set (batch_plays cfg ps) \<Longrightarrow> q \<in> set (batch_plays cfg ps) \<Longrightarrow> at_id q \<le> at_id p"
proof -
  define xs where "xs = dedup_by_id (by_time ps)"
  have inj: "inj_on pl_id (set (by_time ps))" using assms by (simp add: by_time_def)
  have srt: "sorted (map at_id (by_time ps))" by (simp add: by_time_def)
  have set_xs: "set xs = set ps" using set_dedup [OF inj] by (simp add: xs_def by_time_def)
  then show "set (batch_plays cfg ps) \<subseteq> set ps" by (auto simp: batch_plays_def xs_def dest: in_set_takeD)
  have "distinct (map pl_id xs)" unfolding xs_def by (rule distinct_dedup [OF inj srt])
  then show "distinct (map pl_id (batch_plays cfg ps))" by (simp add: batch_plays_def xs_def take_map [symmetric])
  assume p: "p \<in> set ps" "p \<notin> set (batch_plays cfg ps)" and q: "q \<in> set (batch_plays cfg ps)"
  define k where "k = lc_max_films cfg"
  have "p \<in> set (drop k xs)" using p set_xs by (metis Un_iff append_take_drop_id batch_plays_def k_def set_append xs_def)
  moreover have "sorted (map at_id (take k xs) @ map at_id (drop k xs))"
    using sorted_dedup [OF srt] by (metis append_take_drop_id map_append xs_def)
  ultimately show "at_id q \<le> at_id p" using q by (auto simp: sorted_append batch_plays_def k_def xs_def)
qed

lemma newest_Some:
  assumes "newest ps = Some (c, new)"
  shows "\<forall>p \<in> set ps. pl_watched_at p \<le> c" and "\<exists>p \<in> set ps. pl_watched_at p = c"
    and "new = pl_id ` {p \<in> set ps. pl_watched_at p = c}"
proof -
  from assms have ne: "ps \<noteq> []" and c: "c = Max (pl_watched_at ` set ps)" and new: "new = pl_id ` {p \<in> set ps. pl_watched_at p = c}"
    by (auto simp: newest_def Let_def split: if_splits)
  show "\<forall>p \<in> set ps. pl_watched_at p \<le> c" unfolding c by simp
  have "Max (pl_watched_at ` set ps) \<in> pl_watched_at ` set ps" using ne by (intro Max_in) auto
  then show "\<exists>p \<in> set ps. pl_watched_at p = c" unfolding c by auto
  show "new = pl_id ` {p \<in> set ps. pl_watched_at p = c}" by (rule new)
qed

abbreviation moved :: "lb_state \<Rightarrow> string \<times> nat set \<Rightarrow> lb_state" where
  "moved st n \<equiv> st\<lparr>ls_cursor := fst n, ls_cursor_ids := snd n\<rparr>"

text \<open>Moving the cursor to the newest play of a batch keeps what was handled and handles the batch.\<close>

lemma moved_handles:
  assumes "newest ps = Some t" and fresh: "\<forall>p \<in> set ps. \<not> handled st p"
  shows "handled st p \<Longrightarrow> handled (moved st (next_cursor st t)) p" and "p \<in> set ps \<Longrightarrow> handled (moved st (next_cursor st t)) p"
proof -
  obtain c new where t: "t = (c, new)" by (cases t)
  note n = newest_Some [OF assms(1) [unfolded t]]
  from n(2) fresh have "ls_cursor st \<le> c" by (auto simp: handled_def)
  then show "handled st p \<Longrightarrow> handled (moved st (next_cursor st t)) p"
    by (auto simp: handled_def t next_cursor_def)
  show "p \<in> set ps \<Longrightarrow> handled (moved st (next_cursor st t)) p"
    using n by (auto simp: handled_def t next_cursor_def)
qed

lemma moved_keeps_the_rest:
  assumes inj: "inj_on pl_id (set ps)" and fresh: "\<forall>p \<in> set ps. \<not> handled st p"
    and t: "newest (batch_plays cfg ps) = Some t" and p: "p \<in> set ps"
  shows "handled (moved st (next_cursor st t)) p \<longleftrightarrow> p \<in> set (batch_plays cfg ps)"
proof
  assume "p \<in> set (batch_plays cfg ps)"
  moreover have "\<forall>q \<in> set (batch_plays cfg ps). \<not> handled st q" using batch_plays_props(1) [OF inj] fresh by blast
  ultimately show "handled (moved st (next_cursor st t)) p" using moved_handles(2) [OF t] by blast
next
  assume h: "handled (moved st (next_cursor st t)) p"
  obtain c new where t': "t = (c, new)" by (cases t)
  note n = newest_Some [OF t [unfolded t']]
  show "p \<in> set (batch_plays cfg ps)"
  proof (rule ccontr)
    assume out: "p \<notin> set (batch_plays cfg ps)"
    from n(2) obtain q where q: "q \<in> set (batch_plays cfg ps)" "pl_watched_at q = c" by blast
    with batch_plays_props(3) [OF inj p out q(1)] have "c \<le> pl_watched_at p" by (auto simp: less_eq_prod_def)
    with h have *: "pl_watched_at p = c" "pl_id p \<in> snd (next_cursor st t)"
      by (auto simp: handled_def next_cursor_def t' split: if_splits)
    have "pl_id p \<notin> new"
    proof
      assume "pl_id p \<in> new"
      then obtain r where "r \<in> set (batch_plays cfg ps)" "pl_id r = pl_id p" using n(3) by auto
      with p batch_plays_props(1) [OF inj, of cfg] have "r = p" by (meson inj inj_onD subsetD)
      with \<open>r \<in> set (batch_plays cfg ps)\<close> out show False by simp
    qed
    with * fresh p show False by (auto simp: next_cursor_def t' handled_def split: if_splits)
  qed
qed

text \<open>Property C19: no play is lost between batches. Of the plays that are new to a state, those of the batch
  are exactly the ones the next state has handled; every other one (cut off by the limit, even at the
  very time of the last play sent) is new to the next state too.\<close>

theorem batch_takes_what_it_handles:
  assumes "inj_on pl_id (set ps)" and "\<forall>p \<in> set ps. \<not> handled st p"
    and "newest (batch_plays cfg ps) = Some t" and "p \<in> set ps"
  shows "handled (moved st (next_cursor st t)) p \<longleftrightarrow> p \<in> set (batch_plays cfg ps)"
  using assms by (rule moved_keeps_the_rest)

section \<open>Runs\<close>

text \<open>What happens to the state directory: runs, and an operator who settles an unconfirmed batch by
  what is in the diary, acknowledging it if the button was clicked and discarding it otherwise.\<close>

datatype action = Run lb_config lb_env | Settle lb_env

definition act :: "action \<Rightarrow> lb_world \<Rightarrow> lb_world" where
  "act a w = (case a of Run cfg env \<Rightarrow> snd (run cfg env w) | Settle env \<Rightarrow> snd (resolve env (lw_landed w) w))"

definition file_state :: "lb_world \<Rightarrow> lb_state" where
  "file_state w = (case lw_file w of Some st \<Rightarrow> st | None \<Rightarrow> default_state)"

text \<open>The state that the diary is in: a pending batch counts when its button was clicked.\<close>

definition diary_state :: "lb_world \<Rightarrow> lb_state" where
  "diary_state w = (case ls_pending (file_state w) of
     Some p \<Rightarrow> if lw_landed w then moved (file_state w) (pe_cursor p, pe_cursor_ids p) else file_state w
   | None \<Rightarrow> file_state w)"

definition sent_once :: "play set \<Rightarrow> lb_world \<Rightarrow> bool" where
  "sent_once U w \<longleftrightarrow> distinct (map pl_id (concat (lw_clicks w)))
     \<and> (\<forall>p \<in> set (concat (lw_clicks w)). p \<in> U \<and> handled (diary_state w) p)"

lemma handled_cong: "ls_cursor st = ls_cursor st' \<Longrightarrow> ls_cursor_ids st = ls_cursor_ids st' \<Longrightarrow> handled st p = handled st' p"
  by (simp add: handled_def)

text \<open>Where a session in the browser can leave things.\<close>

lemma drive_worlds:
  assumes "drive cfg env b sent st (c, ci, seen) w = (r, w')"
    and "mark = st\<lparr>ls_pending := Some \<lparr>pe_at = le_now env, pe_films = ba_films b, pe_cursor = c, pe_cursor_ids = ci, pe_seen = seen\<rparr>\<rparr>"
  shows "lw_file w' = lw_file w \<and> lw_clicks w' = lw_clicks w \<and> lw_landed w' = lw_landed w
    \<or> lw_file w' = Some mark \<and> lw_clicks w' = lw_clicks w \<and> \<not> lw_landed w'
    \<or> lw_file w' = Some mark \<and> lw_clicks w' = lw_clicks w @ [sent] \<and> lw_landed w'
    \<or> (\<exists>st'. lw_file w' = Some st' \<and> ls_pending st' = None \<and> ls_cursor st' = c \<and> ls_cursor_ids st' = ci)
      \<and> lw_clicks w' = lw_clicks w @ [sent]"
  using assms
  by (auto simp: drive_def andthen_def fails_def throw_def ret_def save_def confirm_def Let_def
      split: option.splits sum.splits if_splits confirmed.splits)

lemma sent_once_drive:
  assumes inv: "distinct (map pl_id (concat (lw_clicks w)))" "\<forall>p \<in> set (concat (lw_clicks w)). p \<in> U \<and> handled st p"
    and saved: "ls_pending (file_state w) = None" "ls_cursor (file_state w) = ls_cursor st" "ls_cursor_ids (file_state w) = ls_cursor_ids st"
    and sent: "distinct (map pl_id sent)" "set sent \<subseteq> U" "\<forall>p \<in> set sent. \<not> handled st p"
    and nxt: "\<And>p. handled st p \<Longrightarrow> handled (moved st (c, ci)) p" "\<forall>p \<in> set sent. handled (moved st (c, ci)) p"
    and inj: "inj_on pl_id U" and run: "drive cfg env b sent st (c, ci, seen) w = (r, w')"
  shows "sent_once U w'"
proof -
  have "pl_id p \<notin> pl_id ` set sent" if "p \<in> set (concat (lw_clicks w))" for p
  proof
    assume "pl_id p \<in> pl_id ` set sent"
    then obtain q where "q \<in> set sent" "pl_id p = pl_id q" by blast
    with inv(2) sent(2) inj that have "p = q" by (meson inj_onD subsetD)
    with \<open>q \<in> set sent\<close> inv(2) sent(3) that show False by blast
  qed
  then have dist: "distinct (map pl_id (concat (lw_clicks w @ [sent])))" using inv(1) sent(1) by auto
  have new: "\<forall>p \<in> set (concat (lw_clicks w @ [sent])). p \<in> U \<and> handled (moved st (c, ci)) p" using inv(2) sent(2) nxt by auto
  from drive_worlds [OF run refl] show ?thesis
  proof (elim disjE exE conjE)
    assume "lw_file w' = lw_file w" "lw_clicks w' = lw_clicks w" "lw_landed w' = lw_landed w"
    with inv saved show ?thesis by (simp add: sent_once_def diary_state_def file_state_def handled_def)
  qed (use inv dist new in \<open>auto simp: sent_once_def diary_state_def file_state_def handled_def\<close>)
qed

lemma sent_once_upload:
  assumes inv: "sent_once U w" and st: "ls_pending (file_state w) = None" "ls_cursor (file_state w) = ls_cursor st"
      "ls_cursor_ids (file_state w) = ls_cursor_ids st" "ls_pending st = None"
    and ps: "set ps \<subseteq> U" "\<forall>p \<in> set ps. \<not> handled st p" and inj: "inj_on pl_id U"
    and run: "upload cfg env st ps w = (r, w')"
  shows "sent_once U w'"
proof -
  have inj_ps: "inj_on pl_id (set ps)" using inj ps(1) by (rule inj_on_subset)
  note bp = batch_plays_props(1,2) [OF inj_ps, of cfg]
  define sent where "sent = filter (\<lambda>p. tmdb_of p \<noteq> None) (batch_plays cfg ps)"
  obtain b seen where b: "build (batch_plays cfg ps) (case le_ratings env of Inr r \<Rightarrow> r | Inl _ \<Rightarrow> no_ratings) (ls_seen st) = (b, seen)"
    by (metis surj_pair)
  have same: "sent_once U v" if "lw_file v = lw_file w" "lw_clicks v = lw_clicks w" "lw_landed v = lw_landed w" for v
  proof -
    have "file_state v = file_state w" using that by (simp add: file_state_def)
    then have "diary_state v = diary_state w" using that by (auto simp: diary_state_def split: option.splits)
    with inv that show ?thesis by (simp add: sent_once_def)
  qed
  have old: "distinct (map pl_id (concat (lw_clicks w)))" "\<forall>p \<in> set (concat (lw_clicks w)). p \<in> U \<and> handled st p"
    using inv st by (auto simp: sent_once_def diary_state_def handled_def)
  show ?thesis
  proof (cases "newest (batch_plays cfg ps)")
    case None
    with run b show ?thesis by (auto simp: upload_def Let_def throw_def intro: same)
  next
    case (Some t)
    obtain c ci where n: "next_cursor st t = (c, ci)" by (cases "next_cursor st t")
    have fresh: "\<forall>p \<in> set (batch_plays cfg ps). \<not> handled st p" using bp(1) ps(2) by blast
    note m = moved_handles [OF Some fresh, unfolded n]
    have drive: "sent_once U w'" if "drive cfg env b sent st (c, ci, seen) w = (r, w')"
    proof (rule sent_once_drive [OF old st(1-3) _ _ _ m(1) _ inj that])
      show "distinct (map pl_id sent)" using bp(2) by (simp add: sent_def distinct_map_filter)
      show "set sent \<subseteq> U" "\<forall>p \<in> set sent. \<not> handled st p" "\<forall>p \<in> set sent. handled (moved st (c, ci)) p"
        using bp(1) ps fresh m(2) by (auto simp: sent_def)
    qed
    have skip: "sent_once U w'" if "save env (st\<lparr>ls_cursor := c, ls_cursor_ids := ci\<rparr>) w = (q, w')" for q
      using that old st m(1) by (auto simp: save_def sent_once_def diary_state_def file_state_def handled_def split: option.splits)
    show ?thesis
      using run b Some n skip drive
      by (auto simp: upload_def Let_def throw_def ret_def andthen_def fails_def sent_def [symmetric] simp del: not_None_eq intro: same
          split: if_splits option.splits prod.splits sum.splits)
  qed
qed

lemma sent_once_first_run:
  assumes inv: "sent_once U w" and inj: "inj_on pl_id U" and dated: "\<forall>p \<in> U. pl_watched_at p \<noteq> []"
    and hist: "\<And>q ps. le_history env q = Inr ps \<Longrightarrow> set ps \<subseteq> U"
    and st: "st = file_state w" "ls_pending st = None" "\<not> is_baselined st" and run: "first_run cfg env st w = (r, w')"
  shows "sent_once U w'"
proof -
  have fresh: "\<not> handled st p" if "p \<in> U" for p using that dated st(3) by (auto simp: handled_def is_baselined_def)
  then have none: "concat (lw_clicks w) = []"
    using inv st by (auto simp: sent_once_def diary_state_def) (metis list.set_intros(1) neq_Nil_conv)
  show ?thesis
  proof (cases "le_history env None")
    case (Inl e)
    with run inv show ?thesis by (simp add: first_run_def throw_def)
  next
    case (Inr every)
    then have every: "set every \<subseteq> U" by (rule hist)
    show ?thesis
    proof (cases "backfill cfg every = []")
      case True
      obtain c ci where n: "(case newest every of Some t \<Rightarrow> t | None \<Rightarrow> (le_now env, {})) = (c, ci)" by (metis surj_pair)
      with run Inr True have "lw_clicks w' = lw_clicks w"
        by (auto simp: first_run_def Let_def andthen_def save_def ret_def split: option.splits)
      with none have "concat (lw_clicks w') = []" by simp
      then show ?thesis unfolding sent_once_def by (simp only: list.map distinct.simps list.set ball_simps)
    next
      case False
      define st' where "st' = st\<lparr>ls_seen := tmdb_ids (before cfg every)\<rparr>"
      from False run Inr have up: "upload cfg env st' (backfill cfg every) w = (r, w')" by (simp add: first_run_def Let_def st'_def)
      have b: "set (backfill cfg every) \<subseteq> U" using every by (auto simp: backfill_def split: option.splits)
      then have "\<forall>p \<in> set (backfill cfg every). \<not> handled st' p" using fresh by (auto simp: st'_def handled_def)
      with b show ?thesis using st by (intro sent_once_upload [OF inv _ _ _ _ _ _ inj up]) (simp_all add: st'_def)
    qed
  qed
qed

lemma sent_once_later_run:
  assumes inv: "sent_once U w" and inj: "inj_on pl_id U"
    and hist: "\<And>q ps. le_history env q = Inr ps \<Longrightarrow> set ps \<subseteq> U"
    and st: "st = file_state w" "ls_pending st = None" and run: "later_run cfg env st w = (r, w')"
  shows "sent_once U w'"
proof (cases "le_history env (Some (ls_cursor st))")
  case (Inl e)
  with run inv show ?thesis by (simp add: later_run_def throw_def)
next
  case (Inr recent)
  define fresh where "fresh = filter (\<lambda>p. \<not> handled st p) recent"
  have "set fresh \<subseteq> U" using hist [OF Inr] by (auto simp: fresh_def)
  then have up: "sent_once U w'" if "upload cfg env st fresh w = (r, w')"
    using st by (intro sent_once_upload [OF inv _ _ _ _ _ _ inj that]) (simp_all add: fresh_def)
  with run Inr inv show ?thesis by (auto simp: later_run_def Let_def fresh_def [symmetric] ret_def split: if_splits)
qed

lemma sent_once_run:
  assumes inv: "sent_once U w" and inj: "inj_on pl_id U" and dated: "\<forall>p \<in> U. pl_watched_at p \<noteq> []"
    and hist: "\<And>q ps. le_history env q = Inr ps \<Longrightarrow> set ps \<subseteq> U"
  shows "sent_once U (snd (run cfg env w))"
proof -
  have load: "load env w = (case le_load env of Some e \<Rightarrow> (Inl (Failed e), w) | None \<Rightarrow> (Inr (file_state w), w))"
    by (simp add: load_def file_state_def split: option.splits)
  have later: "sent_once U (snd (later_run cfg env (file_state w) w))" if "ls_pending (file_state w) = None"
    by (rule sent_once_later_run [OF inv inj hist refl that surjective_pairing])
  have first: "sent_once U (snd (first_run cfg env (file_state w) w))"
    if "ls_pending (file_state w) = None" "\<not> is_baselined (file_state w)"
    by (rule sent_once_first_run [OF inv inj dated hist refl that surjective_pairing])
  from load inv later first show ?thesis
    by (auto simp: run_def andthen_def throw_def split: option.splits)
qed

lemma sent_once_settle:
  assumes "sent_once U w"
  shows "sent_once U (snd (resolve env (lw_landed w) w))"
proof -
  have load: "load env w = (case le_load env of Some e \<Rightarrow> (Inl (Failed e), w) | None \<Rightarrow> (Inr (file_state w), w))"
    by (simp add: load_def file_state_def split: option.splits)
  have save: "sent_once U (snd (save env st w))"
    if "ls_pending st = None" "ls_cursor st = ls_cursor (diary_state w)" "ls_cursor_ids st = ls_cursor_ids (diary_state w)" for st
    using assms that handled_cong [OF that(2,3)]
    by (auto simp: save_def sent_once_def diary_state_def file_state_def split: option.splits)
  show ?thesis
  proof (cases "ls_pending (file_state w)")
    case None
    with load assms show ?thesis by (auto simp: resolve_def andthen_def throw_def ack_def discard_def split: option.splits)
  next
    case (Some p)
    define st where "st = (if lw_landed w then (file_state w)\<lparr>ls_pending := None, ls_cursor := pe_cursor p,
        ls_cursor_ids := pe_cursor_ids p, ls_seen := pe_seen p\<rparr> else (file_state w)\<lparr>ls_pending := None\<rparr>)"
    have "sent_once U (snd (save env st w))" by (rule save) (use Some in \<open>auto simp: st_def diary_state_def\<close>)
    moreover have "snd (resolve env (lw_landed w) w) = (if le_load env = None then snd (save env st w) else w)"
      using Some load
      by (auto simp: resolve_def andthen_def ack_def discard_def st_def ret_def split: option.splits prod.splits sum.splits)
    ultimately show ?thesis using assms by simp
  qed
qed

definition from_history :: "play set \<Rightarrow> action \<Rightarrow> bool" where
  "from_history U a = (case a of Run cfg env \<Rightarrow> (\<forall>q ps. le_history env q = Inr ps \<longrightarrow> set ps \<subseteq> U) | Settle env \<Rightarrow> True)"

lemma sent_once_acts:
  assumes "inj_on pl_id U" and "\<forall>p \<in> U. pl_watched_at p \<noteq> []" and "\<forall>a \<in> set acts. from_history U a" and "sent_once U w"
  shows "sent_once U (fold act acts w)"
  using assms(3,4)
proof (induction acts arbitrary: w)
  case (Cons a acts)
  have "sent_once U (act a w)"
  proof (cases a)
    case (Run cfg env)
    with Cons.prems sent_once_run [OF _ assms(1,2), of w env cfg] show ?thesis by (simp add: act_def from_history_def)
  next
    case (Settle env)
    with Cons.prems sent_once_settle show ?thesis by (simp add: act_def)
  qed
  with Cons show ?case by simp
qed simp

definition fresh_world :: lb_world where
  "fresh_world = \<lparr>lw_file = None, lw_saves = 0, lw_clicks = [], lw_landed = False\<rparr>"

text \<open>Property C6: a play is confirmed at most once. Over any sequence of runs from an empty state directory,
  with any failures of the disk, of Trakt and of the browser (also after the click, when the page does
  not answer), and with unconfirmed batches settled by what the diary shows, no play is in two of the
  batches whose confirm button was clicked, nor twice in one.\<close>

theorem no_play_is_sent_twice:
  assumes "inj_on pl_id U" and "\<forall>p \<in> U. pl_watched_at p \<noteq> []" and "\<forall>a \<in> set acts. from_history U a"
  shows "distinct (map pl_id (concat (lw_clicks (fold act acts fresh_world))))"
proof -
  have "sent_once U fresh_world" by (simp add: sent_once_def fresh_world_def)
  from sent_once_acts [OF assms this] show ?thesis by (simp add: sent_once_def)
qed

text \<open>A limit of zero films stops every run that has something to send.\<close>

lemma zero_limit_panics:
  assumes "lc_max_films cfg = 0"
  shows "fst (upload cfg env st ps w) = Inl Panic"
  using assms by (simp add: upload_def batch_plays_def newest_def throw_def Let_def split: prod.splits)

section \<open>An example\<close>

text \<open>Two films watched at the same time, sent one at a time; the second upload is clicked but its page
  does not answer, and is settled by hand.\<close>

definition sample_play :: "nat \<Rightarrow> play" where
  "sample_play n = \<lparr>pl_id = n, pl_watched_at = ''t'',
     pl_movie = \<lparr>mv_title = ''A'', mv_year = None, mv_ids = \<lparr>id_trakt = n, id_imdb = None, id_tmdb = Some n\<rparr>\<rparr>\<rparr>"

definition sample_lb_config :: lb_config where
  "sample_lb_config = \<lparr>lc_letterboxd_user = Some ''u'', lc_letterboxd_password = Some ''p'', lc_start_at = Some ''s'',
     lc_dry_run = False, lc_stop_before_confirm = False, lc_max_films = 1\<rparr>"

definition sample_lb_env :: "confirmed \<Rightarrow> lb_env" where
  "sample_lb_env c = \<lparr>le_now = ''n'', le_load = None, le_history = (\<lambda>_. Inr [sample_play 2, sample_play 1]), le_ratings = Inl [],
     le_save = (\<lambda>_. None), le_write_csv = None, le_open = None, le_login = None, le_upload = Inr [], le_clicked = True,
     le_confirm = Inr c\<rparr>"

definition sample_acts :: "action list" where
  "sample_acts = [Run sample_lb_config (sample_lb_env (Done [])), Run sample_lb_config (sample_lb_env (Unrecognised [])),
     Run sample_lb_config (sample_lb_env (Done [])), Settle (sample_lb_env (Done [])), Run sample_lb_config (sample_lb_env (Done []))]"

lemma sample_clicks: "map pl_id (concat (lw_clicks (fold act sample_acts fresh_world))) = [1, 2]"
  by code_simp

lemma sample_plays: "inj_on pl_id {sample_play 2, sample_play 1}" "\<forall>p \<in> {sample_play 2, sample_play 1}. pl_watched_at p \<noteq> []"
  by (simp_all add: sample_play_def)

theorem no_play_is_sent_twice_witness:
  "map pl_id (concat (lw_clicks (fold act sample_acts fresh_world))) = [1, 2]
   \<and> distinct (map pl_id (concat (lw_clicks (fold act sample_acts fresh_world))))"
proof
  show "map pl_id (concat (lw_clicks (fold act sample_acts fresh_world))) = [1, 2]" by (rule sample_clicks)
  show "distinct (map pl_id (concat (lw_clicks (fold act sample_acts fresh_world))))"
    by (rule no_play_is_sent_twice [OF sample_plays]) (auto simp: sample_acts_def from_history_def sample_lb_env_def)
qed

theorem batch_takes_what_it_handles_witness:
  "\<not> handled (moved default_state (next_cursor default_state (''t'', {1}))) (sample_play 2)"
proof -
  have batch: "map pl_id (batch_plays sample_lb_config [sample_play 2, sample_play 1]) = [1]"
    "newest (batch_plays sample_lb_config [sample_play 2, sample_play 1]) = Some (''t'', {1})" by code_simp+
  have "sample_play 2 \<notin> set (batch_plays sample_lb_config [sample_play 2, sample_play 1])"
  proof
    assume "sample_play 2 \<in> set (batch_plays sample_lb_config [sample_play 2, sample_play 1])"
    then have "pl_id (sample_play 2) \<in> set [1]" unfolding batch(1) [symmetric] by simp
    then show False by (simp add: sample_play_def)
  qed
  moreover have "\<forall>p \<in> set [sample_play 2, sample_play 1]. \<not> handled default_state p"
    by (simp add: handled_def default_state_def sample_play_def)
  ultimately show ?thesis
    using batch_takes_what_it_handles [OF _ _ batch(2), of default_state "sample_play 2"] sample_plays(1) by simp
qed

end
