(* ===== verification/Ota.thy ===== *)
theory Ota
  imports Prelude "HOL-Library.Word"
begin

text \<open>
  \<^verbatim>\<open>embedded/shared/ota/src/lib.rs\<close>: over-the-air updates into two app slots, with trial boot and
  rollback. The flash is the two slots and the \<^verbatim>\<open>otadata\<close> record as the library shows it: the selected
  slot and the state of each slot's entry. A call to the flash or to the \<^verbatim>\<open>otadata\<close> library may fail
  without effect (\<open>de_faults\<close>, by the number of the call). What the library leaves in the entry of a
  slot it selects (\<open>de_select_state\<close>), the raw entries (\<open>de_raw\<close>), the size of a sector and of a slot,
  SHA-256 and whether the bootloader loads an image are parameters. Log lines are left out, and the
  network is what each request returns: a poll that its timeout cuts is one whose next read fails, and
  the restart that follows an activation is not cut.
\<close>

section \<open>Flash\<close>

type_synonym bytes = "8 word list"

datatype slot = Ota0 | Ota1

datatype image_state = New | PendingVerify | Valid | Invalid | Aborted | Undefined

fun other :: "slot \<Rightarrow> slot" where
  "other Ota0 = Ota1"
| "other Ota1 = Ota0"

record flash =
  fl_selected :: "slot option"
  fl_state :: "slot \<Rightarrow> image_state"
  fl_image :: "slot \<Rightarrow> bytes"
  fl_calls :: nat

record device_env =
  de_faults :: "nat \<Rightarrow> bool"
  de_raw :: "flash \<Rightarrow> (32 word \<times> 32 word) list"
  de_select_state :: "image_state \<Rightarrow> image_state"
  de_sector :: nat
  de_sha :: "bytes \<Rightarrow> bytes"
  de_loads :: "bytes \<Rightarrow> bool"

type_synonym 'a fm = "(flash, string, 'a) sem"

definition flash_call :: "device_env \<Rightarrow> (flash \<Rightarrow> flash option) \<Rightarrow> unit fm" where
  "flash_call env f = (\<lambda>s.
     if de_faults env (fl_calls s) then (Inl ''flash'', s\<lparr>fl_calls := Suc (fl_calls s)\<rparr>)
     else case f s of
            None \<Rightarrow> (Inl ''flash'', s\<lparr>fl_calls := Suc (fl_calls s)\<rparr>)
          | Some s' \<Rightarrow> (Inr (), s'\<lparr>fl_calls := Suc (fl_calls s)\<rparr>))"

definition set_current_app_partition :: "device_env \<Rightarrow> slot \<Rightarrow> unit fm" where
  "set_current_app_partition env t =
     flash_call env (\<lambda>s. Some (s\<lparr>fl_selected := Some t, fl_state := (fl_state s)(t := de_select_state env (fl_state s t))\<rparr>))"

definition set_current_ota_state :: "device_env \<Rightarrow> image_state \<Rightarrow> unit fm" where
  "set_current_ota_state env v =
     flash_call env (\<lambda>s. map_option (\<lambda>t. s\<lparr>fl_state := (fl_state s)(t := v)\<rparr>) (fl_selected s))"

text \<open>\<^verbatim>\<open>selected_partition().ok()\<close> (the outer None is an error, the inner None the factory slot) and
  \<^verbatim>\<open>current_ota_state()\<close>, an error when no slot is selected.\<close>

definition selected_partition :: "device_env \<Rightarrow> slot option option fm" where
  "selected_partition env = try_sem (flash_call env Some) (\<lambda>_. ret None) (\<lambda>_. andthen (gets fl_selected) (\<lambda>t. ret (Some t)))"

definition current_ota_state :: "device_env \<Rightarrow> image_state option fm" where
  "current_ota_state env =
     try_sem (flash_call env Some) (\<lambda>_. ret None)
       (\<lambda>_. gets (\<lambda>s. map_option (fl_state s) (fl_selected s)))"

section \<open>The version of a rolled-back image\<close>

definition APP_DESC_MAGIC :: "32 word" where "APP_DESC_MAGIC = 0xABCD5432"

definition le32 :: "bytes \<Rightarrow> 32 word" where
  "le32 bs = (case bs of
     [a, b, c, d] \<Rightarrow> word_of_int (uint a + 256 * uint b + 65536 * uint c + 16777216 * uint d)
   | _ \<Rightarrow> 0)"

definition continuation :: "8 word \<Rightarrow> 8 word \<Rightarrow> 8 word \<Rightarrow> bool" where
  "continuation lo hi b \<longleftrightarrow> lo \<le> b \<and> b \<le> hi"

text \<open>\<^verbatim>\<open>core::str::from_utf8\<close>.\<close>

fun valid_utf8 :: "bytes \<Rightarrow> bool" where
  "valid_utf8 [] = True"
| "valid_utf8 (a # r) =
     (if a < 0x80 then valid_utf8 r
      else (case r of
        [] \<Rightarrow> False
      | b # r2 \<Rightarrow>
          if continuation 0xC2 0xDF a then continuation 0x80 0xBF b \<and> valid_utf8 r2
          else (case r2 of
            [] \<Rightarrow> False
          | c # r3 \<Rightarrow>
              if continuation 0xE0 0xEF a
              then continuation (if a = 0xE0 then 0xA0 else 0x80) (if a = 0xED then 0x9F else 0xBF) b
                \<and> continuation 0x80 0xBF c \<and> valid_utf8 r3
              else (case r3 of
                [] \<Rightarrow> False
              | d # r4 \<Rightarrow>
                  continuation 0xF0 0xF4 a
                  \<and> continuation (if a = 0xF0 then 0x90 else 0x80) (if a = 0xF4 then 0x8F else 0xBF) b
                  \<and> continuation 0x80 0xBF c \<and> continuation 0x80 0xBF d \<and> valid_utf8 r4))))"

definition chars :: "bytes \<Rightarrow> string" where
  "chars bs = map (\<lambda>b. char_of (uint b)) bs"

definition app_version :: "bytes \<Rightarrow> string option" where
  "app_version img =
     (let head = take 256 img
      in case find (\<lambda>i. le32 (take 4 (drop i head)) = APP_DESC_MAGIC) (map (\<lambda>k. 4 * k) [0..<52]) of
           None \<Rightarrow> None
         | Some pos \<Rightarrow>
             let v = takeWhile (\<lambda>b. b \<noteq> 0) (take 32 (drop (pos + 16) head))
             in if valid_utf8 v then Some (chars v) else None)"

definition entry_bad :: "32 word \<times> 32 word \<Rightarrow> bool" where
  "entry_bad = (\<lambda>(seq, state). seq \<noteq> - 1 \<and> seq \<noteq> 0 \<and> (state = 3 \<or> state = 4))"

definition entry_slot :: "32 word \<times> 32 word \<Rightarrow> slot" where
  "entry_slot = (\<lambda>(seq, _). if (seq - 1) mod 2 = 0 then Ota0 else Ota1)"

definition bad_slot :: "(32 word \<times> 32 word) list \<Rightarrow> slot option" where
  "bad_slot es = fold (\<lambda>e found. if entry_bad e then Some (entry_slot e) else found) es None"

definition read_bad_version :: "device_env \<Rightarrow> flash \<Rightarrow> string option" where
  "read_bad_version env f = Option.bind (bad_slot (de_raw env f)) (\<lambda>t. app_version (fl_image f t))"

section \<open>Boot\<close>

record ota =
  ot_version :: string
  ot_booted :: slot
  ot_trial :: bool
  ot_bad_version :: "string option"

text \<open>\<open>boot\<close> turns OTA off, resets the chip, or hands over the running updater.\<close>

datatype boot_result = Disabled | Restart | Running ota

definition adopt :: "device_env \<Rightarrow> slot \<Rightarrow> unit fm" where
  "adopt env b =
     andthen (set_current_app_partition env Ota0)
     (\<lambda>_. andthen (set_current_app_partition env b)
     (\<lambda>_. set_current_ota_state env Valid))"

text \<open>The match on what is selected and its state: whether this boot is a trial, or None for a reset.\<close>

definition on_boot :: "device_env \<Rightarrow> slot \<Rightarrow> slot option option \<Rightarrow> image_state option \<Rightarrow> bool option fm" where
  "on_boot env b sel st =
     (if sel = Some None \<or> st = None then andthen (adopt env b) (\<lambda>_. ret (Some False))
      else if (case sel of Some (Some s) \<Rightarrow> s \<noteq> b | _ \<Rightarrow> False)
      then andthen (ignore (set_current_ota_state env Invalid)) (\<lambda>_. ret (Some False))
      else if st = Some New then andthen (set_current_ota_state env PendingVerify) (\<lambda>_. ret (Some True))
      else if st = Some PendingVerify then andthen (ignore (set_current_ota_state env Aborted)) (\<lambda>_. ret None)
      else ret (Some False))"

definition boot_slot :: "device_env \<Rightarrow> string \<Rightarrow> slot \<Rightarrow> boot_result fm" where
  "boot_slot env version b =
     andthen (gets (read_bad_version env))
     (\<lambda>bad. andthen (flash_call env Some)
     (\<lambda>_. andthen (selected_partition env)
     (\<lambda>sel. andthen (current_ota_state env)
     (\<lambda>st. andthen (on_boot env b sel st)
     (\<lambda>r. ret (case r of
        None \<Rightarrow> Restart
      | Some trial \<Rightarrow> Running \<lparr>ot_version = version, ot_booted = b, ot_trial = trial, ot_bad_version = bad\<rparr>))))))"

definition boot :: "device_env \<Rightarrow> string \<Rightarrow> slot option \<Rightarrow> flash \<Rightarrow> boot_result \<times> flash" where
  "boot env version booted f =
     (case booted of
        None \<Rightarrow> (Disabled, f)
      | Some b \<Rightarrow> (case boot_slot env version b f of (Inr r, f') \<Rightarrow> (r, f') | (Inl _, f') \<Rightarrow> (Disabled, f')))"

section \<open>Installing an image\<close>

definition replace_at :: "nat \<Rightarrow> bytes \<Rightarrow> bytes \<Rightarrow> bytes" where
  "replace_at off new old = take off old @ new @ drop (off + length new) old"

definition region_write :: "device_env \<Rightarrow> slot \<Rightarrow> nat \<Rightarrow> bytes \<Rightarrow> unit fm" where
  "region_write env t off new =
     flash_call env (\<lambda>s. if off + length new \<le> length (fl_image s t)
       then Some (s\<lparr>fl_image := (fl_image s)(t := replace_at off new (fl_image s t))\<rparr>) else None)"

definition erase_sector :: "device_env \<Rightarrow> slot \<Rightarrow> nat \<Rightarrow> unit fm" where
  "erase_sector env t off = region_write env t off (replicate (de_sector env) 0xFF)"

definition pad16 :: "bytes \<Rightarrow> bytes" where
  "pad16 bs = bs @ replicate ((16 - length bs mod 16) mod 16) 0xFF"

text \<open>A read of the response: what is there, at most as much as the buffer takes; nothing at the end.\<close>

fun read_some :: "nat \<Rightarrow> (string + bytes) list \<Rightarrow> (string + bytes) \<times> (string + bytes) list" where
  "read_some m [] = (Inr [], [])"
| "read_some m (Inl e # r) = (Inl e, r)"
| "read_some m (Inr c # r) = (if length c \<le> m then (Inr c, r) else (Inr (take m c), Inr (drop m c) # r))"

definition flush :: "device_env \<Rightarrow> slot \<Rightarrow> nat \<Rightarrow> bytes \<Rightarrow> bool \<Rightarrow> bool fm" where
  "flush env t off buf eof =
     (if length buf = de_sector env \<or> (eof \<and> buf \<noteq> [])
      then andthen (erase_sector env t off) (\<lambda>_. andthen (region_write env t off (pad16 buf)) (\<lambda>_. ret True))
      else ret False)"

definition pending_bytes :: "(string + bytes) list \<Rightarrow> nat" where
  "pending_bytes cs = sum_list (map (\<lambda>c. case c of Inl e \<Rightarrow> 1 | Inr b \<Rightarrow> Suc (length b)) cs)"

lemma read_some_shorter: "read_some m cs = (Inr c, rest) \<Longrightarrow> c \<noteq> [] \<Longrightarrow> pending_bytes rest < pending_bytes cs"
  by (cases "(m, cs)" rule: read_some.cases) (auto simp: pending_bytes_def split: if_splits)

text \<open>The loop: \<open>buf\<close> is the filled part of the sector buffer, \<open>acc\<close> all that was hashed.\<close>

function write_loop ::
  "device_env \<Rightarrow> slot \<Rightarrow> nat \<Rightarrow> (string + bytes) list \<Rightarrow> bytes \<Rightarrow> nat \<Rightarrow> bytes \<Rightarrow> flash \<Rightarrow> (string + bytes) \<times> flash" where
  "write_loop env t sz cs buf off acc f =
     (case read_some (de_sector env - length buf) cs of
        (Inl e, rest) \<Rightarrow> (Inl e, f)
      | (Inr c, rest) \<Rightarrow>
          let buf' = buf @ c; acc' = acc @ c; eof = (c = [] \<or> sz \<le> length acc')
          in case flush env t off buf' eof f of
               (Inl e, f') \<Rightarrow> (Inl e, f')
             | (Inr flushed, f') \<Rightarrow>
                 if eof then (Inr acc', f')
                 else write_loop env t sz rest (if flushed then [] else buf')
                        (if flushed then off + de_sector env else off) acc' f')"
  by pat_completeness auto

termination write_loop
  by (relation "measure (\<lambda>(_, _, _, cs, _). pending_bytes cs)") (auto dest: read_some_shorter [OF sym])

declare write_loop.simps [simp del]

definition write_slot :: "device_env \<Rightarrow> slot \<Rightarrow> nat \<Rightarrow> (string + bytes) list \<Rightarrow> bytes fm" where
  "write_slot env t sz cs = (\<lambda>f.
     if sz > length (fl_image f t) then (Inl ''image larger than slot'', f)
     else case write_loop env t sz cs [] 0 [] f of
            (Inl e, f') \<Rightarrow> (Inl e, f')
          | (Inr got, f') \<Rightarrow> if length got \<noteq> sz then (Inl ''short image'', f') else (Inr (de_sha env got), f'))"

definition hex_nibble :: "int \<Rightarrow> char" where
  "hex_nibble n = char_of (if n < 10 then 48 + n else 87 + n)"

definition hex :: "bytes \<Rightarrow> string" where
  "hex bs = concat (map (\<lambda>b. [hex_nibble (uint b div 16), hex_nibble (uint b mod 16)]) bs)"

section \<open>Polling\<close>

text \<open>What a request returns: an error, or whether the status is successful with the body.\<close>

type_synonym 'b http = "string + bool \<times> 'b"

definition parse_manifest :: "bytes \<Rightarrow> string + string \<times> string \<times> nat" where
  "parse_manifest body =
     (if \<not> valid_utf8 body then Inl ''manifest not utf8''
      else case split_whitespace (chars body) of
             version # sha # sz # _ \<Rightarrow>
               (case parse_uint 32 sz of Some n \<Rightarrow> Inr (version, sha, n) | None \<Rightarrow> Inl ''bad size'')
           | _ \<Rightarrow> Inl (''bad manifest '' @ chars body))"

datatype poll_result = UpToDate | Activated

definition install :: "device_env \<Rightarrow> ota \<Rightarrow> string \<Rightarrow> nat \<Rightarrow> (string + bytes) list http \<Rightarrow> poll_result fm" where
  "install env u sha sz img =
     (case img of
        Inl e \<Rightarrow> throw e
      | Inr (ok, cs) \<Rightarrow>
          if \<not> ok then throw ''image HTTP''
          else andthen (write_slot env (other (ot_booted u)) sz cs)
               (\<lambda>digest. if map to_lower (hex digest) \<noteq> map to_lower sha then throw ''sha256 mismatch''
                  else andthen (set_current_app_partition env (other (ot_booted u)))
                       (\<lambda>_. andthen (set_current_ota_state env New)
                       (\<lambda>_. ret Activated))))"

definition poll :: "device_env \<Rightarrow> ota \<Rightarrow> bytes http \<Rightarrow> (string + bytes) list http \<Rightarrow> poll_result fm" where
  "poll env u manifest img =
     (case manifest of
        Inl e \<Rightarrow> throw e
      | Inr (ok, body) \<Rightarrow>
          if \<not> ok then throw ''manifest HTTP''
          else case parse_manifest body of
                 Inl e \<Rightarrow> throw e
               | Inr (version, sha, sz) \<Rightarrow>
                   if version = ot_version u \<or> ot_bad_version u = Some version \<or> ot_trial u then ret UpToDate
                   else install env u sha sz img)"

definition confirm :: "device_env \<Rightarrow> ota \<Rightarrow> ota fm" where
  "confirm env u =
     (if ot_trial u then andthen (set_current_ota_state env Valid) (\<lambda>_. ret (u\<lparr>ot_trial := False\<rparr>)) else ret u)"

text \<open>One turn of \<open>run\<close>: a trial that is out of time, or a poll and what follows it. None is a reset; a
  failed change of state panics, which is a reset too.\<close>

definition run_turn ::
  "device_env \<Rightarrow> bool \<Rightarrow> bool \<Rightarrow> bytes http \<Rightarrow> (string + bytes) list http \<Rightarrow> ota \<Rightarrow> flash \<Rightarrow> ota option \<times> flash" where
  "run_turn env confirm_on_health out_of_time manifest img u f =
     (if ot_trial u \<and> out_of_time
      then (None, snd (set_current_ota_state env Aborted f))
      else case poll env u manifest img f of
             (Inr Activated, f') \<Rightarrow> (None, f')
           | (Inl _, f') \<Rightarrow> (Some u, f')
           | (Inr UpToDate, f') \<Rightarrow>
               if confirm_on_health
               then (case confirm env u f' of (Inr u', f'') \<Rightarrow> (Some u', f'') | (Inl _, f'') \<Rightarrow> (None, f''))
               else (Some u, f'))"

section \<open>What a slot holds after a write\<close>

lemma other_other [simp]: "other (other t) = t" and other_neq [simp]: "other t \<noteq> t" "t \<noteq> other t"
  by (cases t; simp)+

lemma neq_other: "s \<noteq> t \<Longrightarrow> s = other t"
  by (cases s; cases t; simp)

text \<open>All but the image of one slot (and the count of calls).\<close>

definition same_but :: "slot \<Rightarrow> flash \<Rightarrow> flash \<Rightarrow> bool" where
  "same_but t f f' \<longleftrightarrow> fl_selected f' = fl_selected f \<and> fl_state f' = fl_state f
     \<and> fl_image f' (other t) = fl_image f (other t) \<and> length (fl_image f' t) = length (fl_image f t)"

lemma same_but_refl [simp]: "same_but t f f"
  by (simp add: same_but_def)

lemma same_but_trans: "same_but t f g \<Longrightarrow> same_but t g h \<Longrightarrow> same_but t f h"
  by (simp add: same_but_def)

lemma region_write_same: "region_write env t off new f = (r, f') \<Longrightarrow> same_but t f f'"
  by (auto simp: region_write_def flash_call_def same_but_def replace_at_def split: if_splits)

lemma region_write_ok:
  "region_write env t off new f = (Inr (), f') \<Longrightarrow>
     off + length new \<le> length (fl_image f t) \<and> fl_image f' t = replace_at off new (fl_image f t)"
  by (auto simp: region_write_def flash_call_def split: if_splits)

lemma flush_same: "flush env t off buf eof f = (r, f') \<Longrightarrow> same_but t f f'"
  by (auto simp: flush_def erase_sector_def andthen_def ret_def split: if_splits prod.splits sum.splits
      dest: region_write_same intro: same_but_trans)

lemma take_replace_at: "off \<le> length old \<Longrightarrow> take (off + n) (replace_at off new old) = take off old @ take n (new @ drop (off + length new) old)"
  by (simp add: replace_at_def min_def)

lemma flush_ok:
  assumes "flush env t off buf eof f = (Inr fl, f')"
  shows "fl \<longleftrightarrow> length buf = de_sector env \<or> (eof \<and> buf \<noteq> [])"
    and "fl \<Longrightarrow> take (off + length buf) (fl_image f' t) = take off (fl_image f t) @ buf"
    and "\<not> fl \<Longrightarrow> f' = f"
proof -
  show "fl \<longleftrightarrow> length buf = de_sector env \<or> (eof \<and> buf \<noteq> [])"
    using assms by (auto simp: flush_def andthen_Inr_iff ret_def split: if_splits)
  show "\<not> fl \<Longrightarrow> f' = f" using assms by (auto simp: flush_def andthen_Inr_iff ret_def split: if_splits)
  assume fl
  with assms obtain g where erase: "region_write env t off (replicate (de_sector env) 0xFF) f = (Inr (), g)"
    and wr: "region_write env t off (pad16 buf) g = (Inr (), f')"
    by (auto simp: flush_def erase_sector_def andthen_Inr_iff ret_def split: if_splits)
  note e = region_write_ok [OF erase] and w = region_write_ok [OF wr]
  have "take off (fl_image g t) = take off (fl_image f t)" using e by (simp add: replace_at_def)
  moreover have "off \<le> length (fl_image g t)" using w by simp
  ultimately show "take (off + length buf) (fl_image f' t) = take off (fl_image f t) @ buf"
    using w by (simp add: take_replace_at pad16_def)
qed

lemma write_loop_same: "write_loop env t sz cs buf off acc f = (r, f') \<Longrightarrow> same_but t f f'"
proof (induction env t sz cs buf off acc f rule: write_loop.induct)
  case (1 env t sz cs buf off acc f)
  obtain q rest where q: "read_some (de_sector env - length buf) cs = (q, rest)" by (cases "read_some (de_sector env - length buf) cs")
  show ?case
  proof (cases q)
    case (Inl e)
    with 1(2) q show ?thesis by (subst (asm) write_loop.simps) simp
  next
    case (Inr c)
    define eof where "eof = (c = [] \<or> sz \<le> length (acc @ c))"
    obtain z g where z: "flush env t off (buf @ c) eof f = (z, g)" by (cases "flush env t off (buf @ c) eof f")
    have g: "same_but t f g" by (rule flush_same [OF z])
    show ?thesis
    proof (cases z)
      case (Inl e)
      with 1(2) q z \<open>q = Inr c\<close> g show ?thesis by (subst (asm) write_loop.simps) (simp add: eof_def)
    next
      case (Inr fl)
      show ?thesis
      proof (cases eof)
        case True
        with 1(2) q z \<open>q = Inr c\<close> Inr g show ?thesis by (subst (asm) write_loop.simps) (simp add: eof_def)
      next
        case False
        with 1(2) q z \<open>q = Inr c\<close> Inr have rec: "write_loop env t sz rest (if fl then [] else buf @ c)
            (if fl then off + de_sector env else off) (acc @ c) g = (r, f')"
          by (subst (asm) write_loop.simps) (simp add: eof_def)
        from "1.IH" [OF q [symmetric] \<open>q = Inr c\<close> refl refl eof_def z [symmetric] Inr False] rec
        have "same_but t g f'" by simp
        with g show ?thesis by (rule same_but_trans)
      qed
    qed
  qed
qed

lemma read_some_fits: "read_some m cs = (Inr c, rest) \<Longrightarrow> length c \<le> m"
  by (cases "(m, cs)" rule: read_some.cases) (auto split: if_splits)

text \<open>A rule for the loop: what each turn keeps of the buffer, the offset, what was read and the flash, and
  what the last turn leaves.\<close>

lemma write_loop_rule:
  assumes "write_loop env t sz cs buf off acc f = (Inr got, f')" and "Q buf off acc f"
    and "\<And>buf off acc f c fl g eof. Q buf off acc f \<Longrightarrow> length c \<le> de_sector env - length buf \<Longrightarrow>
           flush env t off (buf @ c) eof f = (Inr fl, g) \<Longrightarrow> eof \<longleftrightarrow> c = [] \<or> sz \<le> length (acc @ c) \<Longrightarrow>
           (if eof then R (acc @ c) g else Q (if fl then [] else buf @ c) (if fl then off + de_sector env else off) (acc @ c) g)"
  shows "R got f'"
  using assms
proof (induction env t sz cs buf off acc f rule: write_loop.induct)
  case (1 env t sz cs buf off acc f)
  from 1(2) obtain c rest where c: "read_some (de_sector env - length buf) cs = (Inr c, rest)"
    by (subst (asm) write_loop.simps) (auto split: prod.splits sum.splits)
  define eof where "eof = (c = [] \<or> sz \<le> length (acc @ c))"
  from 1(2) c obtain fl g where fl: "flush env t off (buf @ c) eof f = (Inr fl, g)"
    by (subst (asm) write_loop.simps) (auto simp: eof_def Let_def split: prod.splits sum.splits)
  have step: "if eof then R (acc @ c) g else Q (if fl then [] else buf @ c) (if fl then off + de_sector env else off) (acc @ c) g"
    by (rule 1(4) [OF 1(3) read_some_fits [OF c] fl]) (simp add: eof_def)
  show ?case
  proof (cases eof)
    case True
    with 1(2) c fl step show ?thesis by (subst (asm) write_loop.simps) (auto simp: eof_def)
  next
    case False
    with 1(2) c fl have rec: "write_loop env t sz rest (if fl then [] else buf @ c)
        (if fl then off + de_sector env else off) (acc @ c) g = (Inr got, f')"
      by (subst (asm) write_loop.simps) (simp add: eof_def)
    show ?thesis
    proof (rule "1.IH" [OF c [symmetric] refl refl refl eof_def fl [symmetric] refl False rec])
      show "Q (if fl then [] else buf @ c) (if fl then off + de_sector env else off) (acc @ c) g" using step False by simp
    qed (rule 1(4))
  qed
qed

lemma write_loop_holds:
  assumes "0 < de_sector env" and "write_loop env t sz cs [] 0 [] f = (Inr got, f')"
  shows "take (length got) (fl_image f' t) = got"
  using assms(2)
proof (rule write_loop_rule [where Q = "\<lambda>buf off acc f. length buf < de_sector env \<and> length acc = off + length buf
      \<and> acc = take off (fl_image f t) @ buf"])
  show "length [] < de_sector env \<and> length [] = 0 + length [] \<and> [] = take 0 (fl_image f t) @ []" using assms(1) by simp
next
  fix buf off acc g c fl h eof
  assume Q: "length buf < de_sector env \<and> length acc = off + length buf \<and> acc = take off (fl_image g t) @ buf"
    and c: "length c \<le> de_sector env - length buf"
    and fl: "flush env t off (buf @ c) eof g = (Inr fl, h)" and eof: "eof \<longleftrightarrow> c = [] \<or> sz \<le> length (acc @ c)"
  note f = flush_ok [OF fl]
  have img: "take (length (acc @ c)) (fl_image h t) = acc @ c" if "fl \<or> buf @ c = []"
  proof (cases fl)
    case True
    from Q have "length acc = off + length buf" by blast
    then have "length (acc @ c) = off + length (buf @ c)" by simp
    moreover have "acc @ c = take off (fl_image g t) @ buf @ c" using Q by simp
    ultimately show ?thesis using f(2) [OF True] by metis
  next
    case False
    with f(3) that have "h = g" "buf = []" "c = []" by auto
    with Q show ?thesis by (metis append_Nil2 take_all_iff take_take min.idem length_take nat_le_linear)
  qed
  show "if eof then take (length (acc @ c)) (fl_image h t) = acc @ c
    else length (if fl then [] else buf @ c) < de_sector env
       \<and> length (acc @ c) = (if fl then off + de_sector env else off) + length (if fl then [] else buf @ c)
       \<and> acc @ c = take (if fl then off + de_sector env else off) (fl_image h t) @ (if fl then [] else buf @ c)"
  proof (cases eof)
    case True
    with img f(1) show ?thesis by auto
  next
    case False
    show ?thesis
    proof (cases fl)
      case True
      with f(1) False have "length (buf @ c) = de_sector env" by simp
      with True False img Q assms(1) show ?thesis by (auto simp: add.assoc)
    next
      case nofl: False
      with f(1,3) c Q False show ?thesis by auto
    qed
  qed
qed

text \<open>Property C25: what is activated is what was announced. When a poll activates an update, the other slot
  begins with exactly as many bytes as the manifest says and their SHA-256 is the manifest's; the slot
  is selected as a new image; the running slot keeps its image and its state; and the device was not on
  trial and the version neither the running nor the rolled-back one.\<close>

theorem activated_image_is_verified:
  assumes "0 < de_sector env" and "poll env u (Inr (ok, body)) img f = (Inr Activated, f')"
    and "parse_manifest body = Inr (version, sha, sz)"
  shows "\<exists>bytes. length bytes = sz \<and> take sz (fl_image f' (other (ot_booted u))) = bytes
           \<and> map to_lower (hex (de_sha env bytes)) = map to_lower sha
         \<and> fl_selected f' = Some (other (ot_booted u)) \<and> fl_state f' (other (ot_booted u)) = New
         \<and> fl_image f' (ot_booted u) = fl_image f (ot_booted u) \<and> fl_state f' (ot_booted u) = fl_state f (ot_booted u)
         \<and> \<not> ot_trial u \<and> version \<noteq> ot_version u \<and> ot_bad_version u \<noteq> Some version"
proof -
  let ?t = "other (ot_booted u)"
  from assms(2,3) have guard: "\<not> ot_trial u" "version \<noteq> ot_version u" "ot_bad_version u \<noteq> Some version"
    and inst: "install env u sha sz img f = (Inr Activated, f')"
    by (auto simp: poll_def ret_def throw_def split: if_splits)
  from inst obtain cs d g h where w: "write_slot env ?t sz cs f = (Inr d, g)" and sha: "map to_lower (hex d) = map to_lower sha"
    and sel: "set_current_app_partition env ?t g = (Inr (), h)" and new: "set_current_ota_state env New h = (Inr (), f')"
    by (auto simp: install_def andthen_Inr_iff throw_def ret_def split: sum.splits if_splits)
  from w obtain got where l: "write_loop env ?t sz cs [] 0 [] f = (Inr got, g)" and got: "length got = sz" "d = de_sha env got"
    by (auto simp: write_slot_def split: if_splits prod.splits sum.splits)
  from write_loop_same [OF l] have same: "same_but ?t f g" .
  from sel have h: "fl_selected h = Some ?t" "fl_image h = fl_image g" "fl_state h (ot_booted u) = fl_state g (ot_booted u)"
    by (auto simp: set_current_app_partition_def flash_call_def split: if_splits)
  with new have f': "fl_selected f' = Some ?t" "fl_image f' = fl_image g" "fl_state f' ?t = New"
    "fl_state f' (ot_booted u) = fl_state g (ot_booted u)"
    by (auto simp: set_current_ota_state_def flash_call_def split: if_splits)
  from write_loop_holds [OF assms(1) l] got sha guard f' same show ?thesis by (auto simp: same_but_def)
qed

definition bytes_of :: "(string + bytes) list \<Rightarrow> nat" where
  "bytes_of cs = sum_list (map (\<lambda>c. case c of Inl e \<Rightarrow> 0 | Inr b \<Rightarrow> length b) cs)"

lemma read_some_append:
  assumes "read_some m cs = (q, rest)" and "cs \<noteq> []"
  shows "read_some m (cs @ extra) = (q, rest @ extra)" and "q = Inr c \<Longrightarrow> bytes_of cs = length c + bytes_of rest"
  using assms by (cases "(m, cs)" rule: read_some.cases; auto simp: bytes_of_def split: if_splits)+

lemma write_loop_stops:
  "length acc < sz \<Longrightarrow> sz \<le> length acc + bytes_of cs \<Longrightarrow>
     write_loop env t sz (cs @ extra) buf off acc f = write_loop env t sz cs buf off acc f"
proof (induction env t sz cs buf off acc f rule: write_loop.induct)
  case (1 env t sz cs buf off acc f)
  have ne: "cs \<noteq> []" using 1(2,3) by (auto simp: bytes_of_def)
  obtain q rest where q: "read_some (de_sector env - length buf) cs = (q, rest)" by (cases "read_some (de_sector env - length buf) cs")
  note app = read_some_append [OF q ne]
  show ?case
  proof (cases q)
    case (Inl e)
    then show ?thesis using q app(1) [of extra] by (subst (1 2) write_loop.simps) simp
  next
    case (Inr c)
    define eof where "eof = (c = [] \<or> sz \<le> length (acc @ c))"
    obtain z g where z: "flush env t off (buf @ c) eof f = (z, g)" by (cases "flush env t off (buf @ c) eof f")
    show ?thesis
    proof (cases "isl z \<or> eof")
      case True
      then show ?thesis using q app(1) [of extra] Inr z by (subst (1 2) write_loop.simps) (auto simp: eof_def Let_def split: sum.splits)
    next
      case False
      then obtain fl where fl: "z = Inr fl" by (cases z) auto
      from False have neof: "\<not> eof" by simp
      have "length (acc @ c) < sz" "sz \<le> length (acc @ c) + bytes_of rest"
        using neof 1(3) app(2) [OF Inr] by (auto simp: eof_def)
      then have "write_loop env t sz (rest @ extra) (if fl then [] else buf @ c) (if fl then off + de_sector env else off) (acc @ c) g
          = write_loop env t sz rest (if fl then [] else buf @ c) (if fl then off + de_sector env else off) (acc @ c) g"
        by (rule "1.IH" [OF q [symmetric] Inr refl refl eof_def z [symmetric] fl neof])
      then show ?thesis using q app(1) [of extra] Inr z fl neof by (subst (1 2) write_loop.simps) (simp add: eof_def)
    qed
  qed
qed

text \<open>Property C38: a download ends at the announced size. Once the server has sent as many bytes as the
  manifest announces, nothing that it sends afterwards, however much, is read or changes the result.\<close>

theorem download_stops_at_size:
  assumes "0 < sz" and "sz \<le> bytes_of cs"
  shows "write_slot env t sz (cs @ extra) f = write_slot env t sz cs f"
  using write_loop_stops [of "[]" sz cs env t extra "[]" 0 f] assms by (simp add: write_slot_def)

section \<open>The device over resets\<close>

text \<open>The stock bootloader takes the selected slot, unless its entry is marked bad or its image does not
  load: then the other one.\<close>

definition bootloader :: "device_env \<Rightarrow> flash \<Rightarrow> slot" where
  "bootloader env f = (case fl_selected f of
     None \<Rightarrow> Ota0
   | Some s \<Rightarrow> if fl_state f s \<in> {Invalid, Aborted} \<or> \<not> de_loads env (fl_image f s) then other s else s)"

text \<open>A device is running the updater or between a reset and the next boot; \<open>dv_confirmed\<close> holds the images
  that were confirmed.\<close>

record device =
  dv_flash :: flash
  dv_run :: "ota option"
  dv_confirmed :: "bytes set"

definition confirmed_by :: "ota \<Rightarrow> ota option \<Rightarrow> flash \<Rightarrow> bytes set" where
  "confirmed_by u r f = (case r of Some u' \<Rightarrow> if ot_trial u \<and> \<not> ot_trial u' then {fl_image f (ot_booted u)} else {} | None \<Rightarrow> {})"

inductive dev_step :: "device_env \<Rightarrow> (bytes \<Rightarrow> string) \<Rightarrow> device \<Rightarrow> device \<Rightarrow> bool" for env ver where
  Boot: "\<lbrakk>dv_run d = None; b = bootloader env (dv_flash d);
          boot env (ver (fl_image (dv_flash d) b)) (Some b) (dv_flash d) = (Running u, f')\<rbrakk>
         \<Longrightarrow> dev_step env ver d (d\<lparr>dv_flash := f', dv_run := Some u\<rparr>)"
| Again: "\<lbrakk>dv_run d = None; b = bootloader env (dv_flash d);
          boot env (ver (fl_image (dv_flash d) b)) (Some b) (dv_flash d) = (Restart, f')\<rbrakk>
         \<Longrightarrow> dev_step env ver d (d\<lparr>dv_flash := f'\<rparr>)"
| Turn: "\<lbrakk>dv_run d = Some u; run_turn env health late man img u (dv_flash d) = (r, f')\<rbrakk>
         \<Longrightarrow> dev_step env ver d (d\<lparr>dv_flash := f', dv_run := r, dv_confirmed := confirmed_by u r (dv_flash d) \<union> dv_confirmed d\<rparr>)"
| Crash: "dv_run d = Some u \<Longrightarrow> dev_step env ver d (d\<lparr>dv_run := None\<rparr>)"

definition good :: "bytes set \<Rightarrow> flash \<Rightarrow> slot \<Rightarrow> bool" where
  "good C f s \<longleftrightarrow> fl_state f s = Valid \<and> fl_image f s \<in> C"

text \<open>The invariant by the two phases of a device.\<close>

definition reset_ok :: "bytes set \<Rightarrow> flash \<Rightarrow> slot \<Rightarrow> bool" where
  "reset_ok C f s \<longleftrightarrow> good C f s \<or> fl_state f s \<in> {New, PendingVerify, Aborted, Invalid} \<and> good C f (other s)"

definition run_ok :: "device_env \<Rightarrow> bytes set \<Rightarrow> flash \<Rightarrow> slot \<Rightarrow> ota \<Rightarrow> bool" where
  "run_ok env C f s u \<longleftrightarrow>
     (if ot_trial u
      then s = ot_booted u \<and> fl_state f s = PendingVerify \<and> de_loads env (fl_image f s) \<and> good C f (other s)
      else good C f (ot_booted u) \<and> (s = ot_booted u \<or> fl_state f s = Invalid))"

definition dev_inv :: "device_env \<Rightarrow> device \<Rightarrow> bool" where
  "dev_inv env d \<longleftrightarrow> (\<forall>i \<in> dv_confirmed d. de_loads env i) \<and>
     (\<exists>s. fl_selected (dv_flash d) = Some s \<and>
       (case dv_run d of
          None \<Rightarrow> reset_ok (dv_confirmed d) (dv_flash d) s
        | Some u \<Rightarrow> run_ok env (dv_confirmed d) (dv_flash d) s u))"

lemma no_faults:
  assumes "de_faults env = (\<lambda>_. False)"
  shows "fl_selected f = Some s \<Longrightarrow> set_current_ota_state env v f =
           (Inr (), f\<lparr>fl_state := (fl_state f)(s := v), fl_calls := Suc (fl_calls f)\<rparr>)"
    and "selected_partition env f = (Inr (Some (fl_selected f)), f\<lparr>fl_calls := Suc (fl_calls f)\<rparr>)"
    and "current_ota_state env f = (Inr (map_option (fl_state f) (fl_selected f)), f\<lparr>fl_calls := Suc (fl_calls f)\<rparr>)"
    and "flash_call env Some f = (Inr (), f\<lparr>fl_calls := Suc (fl_calls f)\<rparr>)"
  using assms
  by (simp_all add: set_current_ota_state_def selected_partition_def current_ota_state_def flash_call_def
      try_sem_def andthen_def gets_def ret_def)

text \<open>A boot with a slot selected, without faults: all that matters is the state of its entry and whether
  it is the slot that was booted.\<close>

lemma boot_selected:
  assumes "de_faults env = (\<lambda>_. False)" and "fl_selected f = Some s" and "boot env v (Some b) f = (r, f')"
  shows "fl_selected f' = Some s" and "fl_image f' = fl_image f"
    and "r = (if s \<noteq> b \<or> fl_state f s \<noteq> PendingVerify
       then Running \<lparr>ot_version = v, ot_booted = b, ot_trial = (s = b \<and> fl_state f s = New), ot_bad_version = read_bad_version env f\<rparr>
       else Restart)"
    and "fl_state f' = (fl_state f)(s := if s \<noteq> b then Invalid else if fl_state f s = New then PendingVerify
           else if fl_state f s = PendingVerify then Aborted else fl_state f s)"
  using assms
  by (cases "s = b"; cases "fl_state f s";
      force simp: boot_def boot_slot_def on_boot_def andthen_def gets_def ret_def ignore_def no_faults fun_upd_triv)+

lemma poll_result:
  assumes "de_faults env = (\<lambda>_. False)" and "poll env u man img f = (r, f')"
  shows "(\<exists>q. r = q \<and> q \<noteq> Inr Activated) \<and> same_but (other (ot_booted u)) f f' \<and> (ot_trial u \<longrightarrow> fl_image f' = fl_image f)
    \<or> r = Inr Activated \<and> \<not> ot_trial u \<and> fl_selected f' = Some (other (ot_booted u)) \<and> fl_state f' (other (ot_booted u)) = New
      \<and> fl_image f' (ot_booted u) = fl_image f (ot_booted u) \<and> fl_state f' (ot_booted u) = fl_state f (ot_booted u)"
proof -
  have w: "same_but (other (ot_booted u)) f g" if "write_slot env (other (ot_booted u)) sz cs f = (q, g)" for sz cs q g
    using that write_loop_same by (auto simp: write_slot_def split: if_splits prod.splits sum.splits)
  have "install env u sha sz img f = (r, f') \<Longrightarrow> same_but (other (ot_booted u)) f f' \<and> r \<noteq> Inr Activated
     \<or> r = Inr Activated \<and> fl_selected f' = Some (other (ot_booted u)) \<and> fl_state f' (other (ot_booted u)) = New
      \<and> fl_image f' (ot_booted u) = fl_image f (ot_booted u) \<and> fl_state f' (ot_booted u) = fl_state f (ot_booted u)" for sha sz
    using assms(1)
    by (auto simp: install_def andthen_def throw_def ret_def set_current_app_partition_def set_current_ota_state_def flash_call_def
        split: sum.splits prod.splits if_splits dest!: w) (auto simp: same_but_def)
  with assms(2) show ?thesis
    by (fastforce simp: poll_def throw_def ret_def split: sum.splits if_splits)
qed

lemma turn_result:
  assumes "de_faults env = (\<lambda>_. False)" and "fl_selected f = Some s" and "run_turn env health late man img u f = (r, f')"
  shows "r = None \<and> ot_trial u \<and> fl_selected f' = Some s \<and> fl_image f' = fl_image f \<and> fl_state f' = (fl_state f)(s := Aborted)
    \<or> r = None \<and> \<not> ot_trial u \<and> fl_selected f' = Some (other (ot_booted u)) \<and> fl_state f' (other (ot_booted u)) = New
       \<and> fl_image f' (ot_booted u) = fl_image f (ot_booted u) \<and> fl_state f' (ot_booted u) = fl_state f (ot_booted u)
    \<or> r = Some u \<and> same_but (other (ot_booted u)) f f' \<and> (ot_trial u \<longrightarrow> fl_image f' = fl_image f)
    \<or> r = Some (u\<lparr>ot_trial := False\<rparr>) \<and> ot_trial u \<and> fl_selected f' = Some s \<and> fl_image f' = fl_image f
       \<and> fl_state f' = (fl_state f)(s := Valid)"
proof (cases "ot_trial u \<and> late")
  case True
  with assms no_faults(1) [OF assms(1,2)] show ?thesis by (auto simp: run_turn_def)
next
  case False
  obtain q g where q: "poll env u man img f = (q, g)" by (cases "poll env u man img f")
  from poll_result [OF assms(1) q] show ?thesis
  proof (elim disjE conjE exE)
    fix x
    assume x: "q = x" "x \<noteq> Inr Activated" and same: "same_but (other (ot_booted u)) f g" and img: "ot_trial u \<longrightarrow> fl_image g = fl_image f"
    then have sel: "fl_selected g = Some s" "fl_state g = fl_state f" using assms(2) by (simp_all add: same_but_def)
    with False assms(3) q x same img no_faults(1) [OF assms(1) sel(1)] show ?thesis
      by (auto simp: run_turn_def confirm_def andthen_def ret_def split: sum.splits poll_result.splits if_splits)
  next
    assume "q = Inr Activated" "\<not> ot_trial u" "fl_selected g = Some (other (ot_booted u))" "fl_state g (other (ot_booted u)) = New"
      "fl_image g (ot_booted u) = fl_image f (ot_booted u)" "fl_state g (ot_booted u) = fl_state f (ot_booted u)"
    with False assms(3) q show ?thesis by (auto simp: run_turn_def)
  qed
qed

lemma boot_runs:
  assumes "de_faults env = (\<lambda>_. False)" and "fl_selected f = Some s" and "\<forall>i \<in> C. de_loads env i" and "reset_ok C f s"
    and "boot env v (Some (bootloader env f)) f = (Running u, f')"
  shows "fl_selected f' = Some s \<and> run_ok env C f' s u"
proof (cases "s = bootloader env f")
  case True
  note b = boot_selected [OF assms(1,2,5)]
  from True assms(2) have l: "fl_state f s \<notin> {Invalid, Aborted}" "de_loads env (fl_image f s)"
    by (auto simp: bootloader_def split: if_splits)
  from True b(3) have "fl_state f s \<noteq> PendingVerify" and trial: "ot_trial u = (fl_state f s = New)" "ot_booted u = s"
    by (auto split: if_splits)
  with l assms(4) consider "good C f s" | "fl_state f s = New" "good C f (other s)" by (auto simp: reset_ok_def)
  then show ?thesis
    by cases (use True b(1,2,4) trial l in \<open>auto simp: run_ok_def good_def\<close>)
next
  case False
  note b = boot_selected [OF assms(1,2,5)]
  from False assms(2) have t: "bootloader env f = other s" and "fl_state f s \<in> {Invalid, Aborted} \<or> \<not> de_loads env (fl_image f s)"
    by (auto simp: bootloader_def split: if_splits)
  with assms(3,4) have "good C f (other s)" by (auto simp: reset_ok_def good_def)
  with t b show ?thesis by (auto simp: run_ok_def good_def)
qed

lemma boot_again:
  assumes "de_faults env = (\<lambda>_. False)" and "fl_selected f = Some s" and "reset_ok C f s"
    and "boot env v (Some (bootloader env f)) f = (Restart, f')"
  shows "fl_selected f' = Some s \<and> reset_ok C f' s"
proof -
  note b = boot_selected [OF assms(1,2,4)]
  from b(3) have "s = bootloader env f" "fl_state f s = PendingVerify" by (auto split: if_splits)
  moreover from this assms(3) have "good C f (other s)" by (auto simp: reset_ok_def good_def)
  ultimately show ?thesis using b(1,2,4) by (simp add: reset_ok_def good_def)
qed

lemma turn_ok:
  assumes "de_faults env = (\<lambda>_. False)" and "fl_selected f = Some s" and "\<forall>i \<in> C. de_loads env i" and "run_ok env C f s u"
    and "run_turn env health late man img u f = (r, f')"
  shows "(\<forall>i \<in> confirmed_by u r f \<union> C. de_loads env i) \<and>
    (\<exists>s'. fl_selected f' = Some s' \<and> (case r of None \<Rightarrow> reset_ok (confirmed_by u r f \<union> C) f' s'
       | Some u' \<Rightarrow> run_ok env (confirmed_by u r f \<union> C) f' s' u'))"
  using turn_result [OF assms(1,2,5)]
proof (elim disjE conjE)
  assume "r = None" "ot_trial u" "fl_selected f' = Some s" "fl_image f' = fl_image f" "fl_state f' = (fl_state f)(s := Aborted)"
  with assms(3,4) show ?thesis by (auto simp: run_ok_def reset_ok_def good_def confirmed_by_def)
next
  assume "r = None" "\<not> ot_trial u" "fl_selected f' = Some (other (ot_booted u))" "fl_state f' (other (ot_booted u)) = New"
    "fl_image f' (ot_booted u) = fl_image f (ot_booted u)" "fl_state f' (ot_booted u) = fl_state f (ot_booted u)"
  with assms(3,4) show ?thesis by (auto simp: run_ok_def reset_ok_def good_def confirmed_by_def)
next
  assume r: "r = Some u" and same: "same_but (other (ot_booted u)) f f'" and img: "ot_trial u \<longrightarrow> fl_image f' = fl_image f"
  have "confirmed_by u r f = {}" using r by (simp add: confirmed_by_def)
  moreover have "run_ok env C f' s u" using assms(4) same img by (auto simp: run_ok_def good_def same_but_def split: if_splits)
  ultimately show ?thesis using r same assms(2,3) by (simp add: same_but_def)
next
  assume "r = Some (u\<lparr>ot_trial := False\<rparr>)" "ot_trial u" "fl_selected f' = Some s" "fl_image f' = fl_image f"
    "fl_state f' = (fl_state f)(s := Valid)"
  with assms(3,4) show ?thesis by (auto simp: run_ok_def reset_ok_def good_def confirmed_by_def)
qed

lemma run_reset_ok: "run_ok env C f s u \<Longrightarrow> reset_ok C f s"
  by (cases "s = ot_booted u") (auto simp: run_ok_def reset_ok_def good_def split: if_splits dest!: neq_other)

lemma dev_inv_step:
  assumes "de_faults env = (\<lambda>_. False)" and "dev_step env ver d d'" and "dev_inv env d"
  shows "dev_inv env d'"
  using assms(2)
proof cases
  case (Boot b u f')
  with assms(3) obtain s where "fl_selected (dv_flash d) = Some s" "\<forall>i \<in> dv_confirmed d. de_loads env i"
    "reset_ok (dv_confirmed d) (dv_flash d) s" by (auto simp: dev_inv_def)
  note s = this
  from boot_runs [OF assms(1) s Boot(4) [unfolded Boot(3)]] s(2) show ?thesis unfolding Boot(1) by (simp add: dev_inv_def)
next
  case (Again b f')
  with assms(3) obtain s where "fl_selected (dv_flash d) = Some s" "\<forall>i \<in> dv_confirmed d. de_loads env i"
    "reset_ok (dv_confirmed d) (dv_flash d) s" by (auto simp: dev_inv_def)
  note s = this
  from boot_again [OF assms(1) s(1,3) Again(4) [unfolded Again(3)]] s(2) Again(2) show ?thesis unfolding Again(1)
    by (simp add: dev_inv_def)
next
  case (Turn u health late man img r f')
  with assms(3) obtain s where "fl_selected (dv_flash d) = Some s" "\<forall>i \<in> dv_confirmed d. de_loads env i"
    "run_ok env (dv_confirmed d) (dv_flash d) s u" by (auto simp: dev_inv_def)
  from turn_ok [OF assms(1) this Turn(3)] show ?thesis unfolding Turn(1) by (cases r) (simp_all add: dev_inv_def)
next
  case (Crash u)
  with assms(3) show ?thesis by (auto simp: dev_inv_def dest: run_reset_ok)
qed

lemma dev_inv_reachable:
  assumes "de_faults env = (\<lambda>_. False)" and "(dev_step env ver)\<^sup>*\<^sup>* d d'" and "dev_inv env d"
  shows "dev_inv env d'"
  using assms(2,3) by (induction rule: rtranclp_induct) (auto intro: dev_inv_step [OF assms(1)])

text \<open>A fresh device, as flashed over USB: nothing selected, and an image that loads in the first slot.\<close>

definition fresh :: "device_env \<Rightarrow> device \<Rightarrow> bool" where
  "fresh env d \<longleftrightarrow> dv_run d = None \<and> fl_selected (dv_flash d) = None \<and> de_loads env (fl_image (dv_flash d) Ota0)
     \<and> dv_confirmed d = {fl_image (dv_flash d) Ota0}"

lemma boot_fresh:
  assumes "de_faults env = (\<lambda>_. False)" and "fl_selected f = None" and "boot env v (Some b) f = (r, f')"
  shows "r = Running \<lparr>ot_version = v, ot_booted = b, ot_trial = False, ot_bad_version = read_bad_version env f\<rparr>"
    and "fl_selected f' = Some b" and "fl_state f' b = Valid" and "fl_image f' = fl_image f"
  using assms
  by (auto simp: boot_def boot_slot_def on_boot_def adopt_def andthen_def gets_def ret_def selected_partition_def current_ota_state_def
      set_current_app_partition_def set_current_ota_state_def flash_call_def try_sem_def)

lemma fresh_step:
  assumes "de_faults env = (\<lambda>_. False)" and "dev_step env ver d d'" and "fresh env d"
  shows "dev_inv env d'"
  using assms(2)
proof cases
  case (Boot b u f')
  from assms(3) have sel: "fl_selected (dv_flash d) = None" by (simp add: fresh_def)
  then have "b = Ota0" using Boot(3) by (simp add: bootloader_def)
  with boot_fresh [OF assms(1) sel Boot(4)] assms(3) show ?thesis unfolding Boot(1)
    by (auto simp: dev_inv_def run_ok_def good_def fresh_def)
next
  case (Again b f')
  from assms(3) have sel: "fl_selected (dv_flash d) = None" by (simp add: fresh_def)
  from boot_fresh(1) [OF assms(1) sel Again(4)] show ?thesis by simp
qed (use assms(3) in \<open>simp_all add: fresh_def\<close>)

lemma fresh_reachable:
  assumes "de_faults env = (\<lambda>_. False)" and "(dev_step env ver)\<^sup>*\<^sup>* d d'" and "fresh env d"
  shows "d' = d \<or> dev_inv env d'"
  using assms(2)
proof (induction rule: rtranclp_induct)
  case (step y z)
  from step.IH show ?case using step(2) fresh_step [OF assms(1) _ assms(3)] dev_inv_step [OF assms(1)] by blast
qed simp

lemma reset_ok_loads:
  "reset_ok C f s \<Longrightarrow> fl_selected f = Some s \<Longrightarrow> \<forall>i \<in> C. de_loads env i \<Longrightarrow> de_loads env (fl_image f (bootloader env f))"
  by (auto simp: reset_ok_def good_def bootloader_def)

lemma dev_inv_loads:
  assumes "dev_inv env d"
  shows "de_loads env (fl_image (dv_flash d) (bootloader env (dv_flash d)))"
proof -
  from assms obtain s where s: "fl_selected (dv_flash d) = Some s" "\<forall>i \<in> dv_confirmed d. de_loads env i"
    and "case dv_run d of None \<Rightarrow> reset_ok (dv_confirmed d) (dv_flash d) s | Some u \<Rightarrow> run_ok env (dv_confirmed d) (dv_flash d) s u"
    by (auto simp: dev_inv_def)
  then have "reset_ok (dv_confirmed d) (dv_flash d) s" by (cases "dv_run d") (simp, simp, erule run_reset_ok)
  then show ?thesis using s by (rule reset_ok_loads)
qed


text \<open>What the raw entries show: the slot that alone is marked bad.\<close>

definition marked_bad :: "flash \<Rightarrow> slot \<Rightarrow> bool" where
  "marked_bad f t \<longleftrightarrow> fl_state f t \<in> {Invalid, Aborted}"

definition raw_shows_bad :: "device_env \<Rightarrow> bool" where
  "raw_shows_bad env \<longleftrightarrow> (\<forall>f t. marked_bad f t \<longrightarrow> \<not> marked_bad f (other t) \<longrightarrow> bad_slot (de_raw env f) = Some t)"

lemma read_bad_version_of:
  "raw_shows_bad env \<Longrightarrow> marked_bad f t \<Longrightarrow> \<not> marked_bad f (other t) \<Longrightarrow> read_bad_version env f = app_version (fl_image f t)"
  by (simp add: raw_shows_bad_def read_bad_version_def)


section \<open>Two gaps\<close>

text \<open>The slot is selected before its entry is marked new, and the library keeps what the entry said. A
  reset between the two boots the new image with no trial when the slot's last image had been confirmed.\<close>

lemma interrupted_activation_has_no_trial:
  assumes "de_faults env = (\<lambda>_. False)" and "de_select_state env Valid = Valid"
    and "fl_state f t = Valid" and "de_loads env (fl_image f t)"
  shows "\<exists>g u f'. set_current_app_partition env t f = (Inr (), g) \<and> bootloader env g = t
     \<and> boot env v (Some t) g = (Running u, f') \<and> \<not> ot_trial u \<and> fl_state f' t = Valid"
proof -
  obtain g where g: "set_current_app_partition env t f = (Inr (), g)" "fl_selected g = Some t" "fl_state g t = Valid" "fl_image g = fl_image f"
    using assms(1-3) by (simp add: set_current_app_partition_def flash_call_def)
  obtain r f' where b: "boot env v (Some t) g = (r, f')" by (cases "boot env v (Some t) g")
  from boot_selected [OF assms(1) g(2) b] g assms(4) b show ?thesis by (auto simp: bootloader_def)
qed

text \<open>After a rollback the entry of the other slot stays marked bad while the next update is written over
  its image. When that download fails and the device resets, the version blamed is the one that was
  being written, which never ran.\<close>

lemma failed_download_is_blamed:
  assumes "de_faults env = (\<lambda>_. False)" and "raw_shows_bad env" and "marked_bad f (other (ot_booted u))"
    and "\<not> marked_bad f (ot_booted u)" and "poll env u man img f = (Inl e, f')"
  shows "read_bad_version env f' = app_version (fl_image f' (other (ot_booted u)))"
proof -
  from poll_result [OF assms(1,5)] have "same_but (other (ot_booted u)) f f'" by blast
  then show ?thesis using read_bad_version_of [OF assms(2), of f' "other (ot_booted u)"] assms(3,4)
    by (simp add: same_but_def marked_bad_def)
qed

section \<open>A sample device\<close>

definition text_bytes :: "string \<Rightarrow> bytes" where "text_bytes s = map of_char s"

definition state_code :: "image_state \<Rightarrow> 32 word" where
  "state_code st = (case st of New \<Rightarrow> 0 | PendingVerify \<Rightarrow> 1 | Valid \<Rightarrow> 2 | Invalid \<Rightarrow> 3 | Aborted \<Rightarrow> 4 | Undefined \<Rightarrow> - 1)"

definition sample_device_env :: device_env where
  "sample_device_env = \<lparr>de_faults = (\<lambda>_. False),
     de_raw = (\<lambda>f. [(1, state_code (fl_state f Ota0)), (2, state_code (fl_state f Ota1))]), de_select_state = id, de_sector = 16,
     de_sha = take 1, de_loads = (\<lambda>bs. take 1 bs = [0xE9])\<rparr>"

text \<open>An image: the magic byte, the app descriptor with its version, and a tail.\<close>

definition sample_image :: "string \<Rightarrow> bytes" where
  "sample_image v = 0xE9 # replicate 3 0 @ [0x32, 0x54, 0xCD, 0xAB] @ replicate 12 0 @ text_bytes v @ replicate 7 0"

definition sample_flash :: flash where
  "sample_flash = \<lparr>fl_selected = Some Ota0, fl_state = (\<lambda>t. if t = Ota0 then Valid else Undefined),
     fl_image = (\<lambda>t. sample_image (if t = Ota0 then ''1'' else ''0'') @ replicate 4 0), fl_calls = 0\<rparr>"

definition sample_ota :: ota where
  "sample_ota = \<lparr>ot_version = ''1'', ot_booted = Ota0, ot_trial = False, ot_bad_version = None\<rparr>"

definition sample_poll :: "(string + poll_result) \<times> flash" where
  "sample_poll = poll sample_device_env sample_ota (Inr (True, text_bytes ''2 E9 28''))
     (Inr (True, [Inr (take 10 (sample_image ''2'')), Inr (drop 10 (sample_image ''2''))])) sample_flash"

text \<open>A device that was activated and is in its trial, and its first version in the other slot.\<close>

definition sample_trial :: flash where
  "sample_trial = \<lparr>fl_selected = Some Ota1, fl_state = (\<lambda>t. if t = Ota0 then Valid else PendingVerify),
     fl_image = (\<lambda>t. sample_image (if t = Ota0 then ''1'' else ''2'')), fl_calls = 0\<rparr>"

definition sample_fresh :: device where
  "sample_fresh = \<lparr>dv_flash = sample_flash\<lparr>fl_selected := None\<rparr>, dv_run = None,
     dv_confirmed = {fl_image sample_flash Ota0}\<rparr>"

text \<open>The sample: versions 1 and 2, a server that offers version 2 in two parts.\<close>

theorem activated_image_is_verified_witness:
  "\<exists>bytes. length bytes = 28 \<and> take 28 (fl_image (snd sample_poll) Ota1) = bytes
     \<and> map to_lower (hex (take 1 bytes)) = map to_lower ''E9'' \<and> fl_state (snd sample_poll) Ota1 = New"
proof -
  have "fst sample_poll = Inr Activated" by code_simp
  then have run: "poll sample_device_env sample_ota (Inr (True, text_bytes ''2 E9 28''))
     (Inr (True, [Inr (take 10 (sample_image ''2'')), Inr (drop 10 (sample_image ''2''))])) sample_flash = (Inr Activated, snd sample_poll)"
    unfolding sample_poll_def by (metis prod.collapse)
  have man: "parse_manifest (text_bytes ''2 E9 28'') = Inr (''2'', ''E9'', 28)" by code_simp
  have pos: "0 < de_sector sample_device_env" by (simp add: sample_device_env_def)
  from activated_image_is_verified [OF pos run man] show ?thesis by (auto simp: sample_device_env_def sample_ota_def)
qed

lemma sample_raw: "raw_shows_bad sample_device_env"
proof -
  have "bad_slot [(1, state_code a), (2, state_code b)] =
      (if b \<in> {Invalid, Aborted} then Some Ota1 else if a \<in> {Invalid, Aborted} then Some Ota0 else None)" for a b
    by (cases a; cases b) (simp_all add: bad_slot_def entry_bad_def entry_slot_def state_code_def)
  then show ?thesis by (auto simp: raw_shows_bad_def marked_bad_def sample_device_env_def) (metis other.cases other.simps)+
qed



theorem download_stops_at_size_witness:
  "write_slot sample_device_env Ota1 3 ([Inr [1, 2], Inr [3, 4]] @ [Inr [7], Inl ''e'']) sample_flash
     = write_slot sample_device_env Ota1 3 [Inr [1, 2], Inr [3, 4]] sample_flash"
  by (rule download_stops_at_size) (simp_all add: bytes_of_def)

end
