(* ===== verification/Versions.thy ===== *)
theory Versions
  imports Prelude "HOL-Library.Word"
begin

text \<open>
  \<^verbatim>\<open>tools/update/src/version.rs\<close> and the choice of a version in \<^verbatim>\<open>resolve.rs\<close>. A version is a vector of
  unsigned 64-bit components; the arithmetic wraps, as in a release build. A regular expression is
  what the \<^verbatim>\<open>regex\<close> crate returns for it: the groups of the first match, the whole match first.
\<close>

section \<open>Versions\<close>

datatype version = Version (components: "64 word list")

definition parse_component :: "string \<Rightarrow> 64 word option" where
  "parse_component c = map_option word_of_int (parse_unsigned 64 c)"

definition parse_version :: "string \<Rightarrow> version option" where
  "parse_version s =
     (let t = (case strip_prefix ''v'' s of Some r \<Rightarrow> r | None \<Rightarrow> s)
      in if t = [] then None
         else map_option Version (those (map parse_component (split_char (CHR ''.'') t))))"

definition get :: "version \<Rightarrow> nat \<Rightarrow> 64 word" where
  "get v i = (if i < length (components v) then components v ! i else 0)"

datatype ordering = Less | Equal | Greater

definition word_cmp :: "64 word \<Rightarrow> 64 word \<Rightarrow> ordering" where
  "word_cmp a b = (if a < b then Less else if a = b then Equal else Greater)"

definition cmp :: "version \<Rightarrow> version \<Rightarrow> ordering" where
  "cmp v w =
     (let n = max (length (components v)) (length (components w))
      in case find (\<lambda>r. r \<noteq> Equal) (map (\<lambda>i. word_cmp (get v i) (get w i)) [0..<n]) of
           Some r \<Rightarrow> r
         | None \<Rightarrow> Equal)"

definition version_eq :: "version \<Rightarrow> version \<Rightarrow> bool" where
  "version_eq v w \<longleftrightarrow> cmp v w = Equal"

text \<open>What the order compares: the components without trailing zeros.\<close>

fun canon :: "64 word list \<Rightarrow> 64 word list" where
  "canon [] = []"
| "canon (x # xs) = (if x = 0 \<and> canon xs = [] then [] else x # canon xs)"

lemma get_simps [simp]:
  "get (Version []) i = 0" "get (Version (x # xs)) 0 = x" "get (Version (x # xs)) (Suc i) = get (Version xs) i"
  by (simp_all add: get_def)

lemma cmp_unfold: "cmp v w = (case find (\<lambda>r. r \<noteq> Equal)
    (map (\<lambda>i. word_cmp (get v i) (get w i)) [0..<max (length (components v)) (length (components w))]) of Some r \<Rightarrow> r | None \<Rightarrow> Equal)"
  by (simp add: cmp_def Let_def)

lemma upt_Suc_Cons: "[0..<Suc n] = 0 # map Suc [0..<n]"
  by (simp add: upt_conv_Cons map_Suc_upt del: upt_Suc)

lemma cmp_Cons:
  "cmp (Version (x # xs)) (Version (y # ys)) = (case word_cmp x y of Equal \<Rightarrow> cmp (Version xs) (Version ys) | r \<Rightarrow> r)"
  by (simp add: cmp_unfold upt_Suc_Cons comp_def del: upt_Suc split: ordering.split)

lemma cmp_Nil_left: "cmp (Version []) (Version (y # ys)) = (case word_cmp 0 y of Equal \<Rightarrow> cmp (Version []) (Version ys) | r \<Rightarrow> r)"
  by (simp add: cmp_unfold upt_Suc_Cons comp_def del: upt_Suc split: ordering.split)

lemma cmp_Nil_right: "cmp (Version (x # xs)) (Version []) = (case word_cmp x 0 of Equal \<Rightarrow> cmp (Version xs) (Version []) | r \<Rightarrow> r)"
  by (simp add: cmp_unfold upt_Suc_Cons comp_def del: upt_Suc split: ordering.split)

lemma cmp_Nil [simp]: "cmp (Version []) (Version []) = Equal"
  by (simp add: cmp_def)

definition list_cmp :: "64 word list \<Rightarrow> 64 word list \<Rightarrow> ordering" where
  "list_cmp xs ys = (if xs = ys then Equal else if xs < ys then Less else Greater)"

lemma list_cmp_Cons: "list_cmp (x # xs) (y # ys) = (case word_cmp x y of Equal \<Rightarrow> list_cmp xs ys | r \<Rightarrow> r)"
  by (auto simp: list_cmp_def word_cmp_def)

lemma list_cmp_simps [simp]:
  "list_cmp xs xs = Equal" "list_cmp [] ys = (if ys = [] then Equal else Less)" "list_cmp xs [] = (if xs = [] then Equal else Greater)"
  by (auto simp: list_cmp_def neq_Nil_conv)

lemma word_cmp_zero: "word_cmp 0 x = (if x = 0 then Equal else Less)" "word_cmp x 0 = (if x = 0 then Equal else Greater)"
  by (auto simp: word_cmp_def word_neq_0_conv)

lemma cmp_Nil_canon: "cmp (Version []) (Version ys) = list_cmp [] (canon ys)"
  by (induction ys) (auto simp: cmp_Nil_left word_cmp_zero split: if_splits)

lemma cmp_canon_Nil: "cmp (Version xs) (Version []) = list_cmp (canon xs) []"
  by (induction xs) (auto simp: cmp_Nil_right word_cmp_zero split: if_splits)

lemma list_cmp_canon_Cons:
  "list_cmp (canon (x # xs)) (canon (y # ys)) = (case word_cmp x y of Equal \<Rightarrow> list_cmp (canon xs) (canon ys) | r \<Rightarrow> r)"
  by (cases "canon xs"; cases "canon ys") (auto simp: list_cmp_Cons word_cmp_zero split: ordering.splits)

lemma cmp_canon: "cmp (Version xs) (Version ys) = list_cmp (canon xs) (canon ys)"
proof (induction xs arbitrary: ys)
  case (Cons x xs)
  then show ?case by (cases ys) (simp_all only: cmp_canon_Nil canon.simps(1) cmp_Cons list_cmp_canon_Cons)
qed (simp add: cmp_Nil_canon)

text \<open>Property C36: the order of versions is the lexicographic order of their components without trailing
  zeros. Version 1.10 is above 1.9.9, and 1.55 equals 1.55.0.\<close>

theorem cmp_is_lexicographic:
  "cmp v w = (if canon (components v) = canon (components w) then Equal
     else if canon (components v) < canon (components w) then Less else Greater)"
  by (cases v; cases w) (simp add: cmp_canon list_cmp_def)

text \<open>So versions are preordered; two that differ in trailing zeros are equal to it.\<close>

lemma cmp_cases: "cmp v w = list_cmp (canon (components v)) (canon (components w))"
  by (cases v; cases w) (simp add: cmp_canon)

instantiation version :: preorder
begin

definition less_eq_version :: "version \<Rightarrow> version \<Rightarrow> bool" where
  "less_eq_version v w \<longleftrightarrow> cmp v w \<noteq> Greater"

definition less_version :: "version \<Rightarrow> version \<Rightarrow> bool" where
  "less_version v w \<longleftrightarrow> cmp v w = Less"

instance
  by standard (auto simp: less_eq_version_def less_version_def cmp_cases list_cmp_def split: if_splits)

end

lemma version_less_iff: "v < w \<longleftrightarrow> canon (components v) < canon (components w)" for v w :: version
  by (auto simp: less_version_def cmp_cases list_cmp_def)

lemma version_le_iff: "v \<le> w \<longleftrightarrow> canon (components v) \<le> canon (components w)" for v w :: version
  by (auto simp: less_eq_version_def cmp_cases list_cmp_def)

lemma version_not_less: "\<not> v < w \<longleftrightarrow> w \<le> v" for v w :: version
  by (auto simp: version_less_iff version_le_iff)

lemma version_eq_iff: "version_eq v w \<longleftrightarrow> v \<le> w \<and> w \<le> v"
  by (auto simp: version_eq_def version_le_iff cmp_cases list_cmp_def)

lemma get_beyond: "length (components v) \<le> i \<Longrightarrow> get v i = 0"
  by (simp add: get_def)

lemma find_upt: "find P (map f [0..<n]) = Some x \<longleftrightarrow> (\<exists>i < n. P (f i) \<and> x = f i \<and> (\<forall>j < i. \<not> P (f j)))"
  by (auto simp: find_Some_iff)

lemma less_get_iff: "v < w \<longleftrightarrow> (\<exists>i. get v i < get w i \<and> (\<forall>j < i. get v j = get w j))" for v w :: version
proof -
  let ?n = "max (length (components v)) (length (components w))"
  have eq: "word_cmp a b = Equal \<longleftrightarrow> a = b" "word_cmp a b = Less \<longleftrightarrow> a < b" for a b by (auto simp: word_cmp_def)
  have "v < w \<longleftrightarrow> find (\<lambda>r. r \<noteq> Equal) (map (\<lambda>i. word_cmp (get v i) (get w i)) [0..<?n]) = Some Less"
    by (auto simp: less_version_def cmp_unfold split: option.splits)
  also have "\<dots> \<longleftrightarrow> (\<exists>i < ?n. get v i < get w i \<and> (\<forall>j < i. get v j = get w j))"
    unfolding find_upt using eq by (metis (no_types, lifting) ordering.distinct(1))
  also have "\<dots> \<longleftrightarrow> (\<exists>i. get v i < get w i \<and> (\<forall>j < i. get v j = get w j))"
    using get_beyond [of v] get_beyond [of w] by (metis less_irrefl max.bounded_iff not_le_imp_less)
  finally show ?thesis .
qed

section \<open>Constraints\<close>

datatype op = Lt | Le | Gt | Ge | Eq | Caret | Tilde

type_synonym constraint = "(op \<times> version) list"

definition op_prefixes :: "(string \<times> op) list" where
  "op_prefixes = [(''<='', Le), (''>='', Ge), (''=='', Eq), (''<'', Lt), (''>'', Gt), (''='', Eq), (''^'', Caret), (''~'', Tilde)]"

definition split_op :: "string \<Rightarrow> op \<times> string" where
  "split_op part = (case find (\<lambda>(p, _). starts_with part p) op_prefixes of
     Some (p, r) \<Rightarrow> (r, drop (length p) part)
   | None \<Rightarrow> (Eq, part))"

definition parse_part :: "string \<Rightarrow> string + op \<times> version" where
  "parse_part part =
     (let (r, rest) = split_op part
      in case parse_version (trim rest) of
           Some v \<Rightarrow> Inr (r, v)
         | None \<Rightarrow> Inl (''bad constraint '' @ [quote] @ part @ [quote]))"

fun collect_results :: "('e + 'a) list \<Rightarrow> 'e + 'a list" where
  "collect_results [] = Inr []"
| "collect_results (Inl e # rs) = Inl e"
| "collect_results (Inr x # rs) = (case collect_results rs of Inl e \<Rightarrow> Inl e | Inr xs \<Rightarrow> Inr (x # xs))"

definition constraint_parts :: "string \<Rightarrow> string list" where
  "constraint_parts s = filter (\<lambda>p. p \<noteq> []) (map trim (split_char (CHR '','') s))"

definition parse_constraint :: "string \<Rightarrow> string + constraint" where
  "parse_constraint s = collect_results (map parse_part (constraint_parts s))"

definition bump_at :: "version \<Rightarrow> nat \<Rightarrow> version" where
  "bump_at b i = Version ((take (Suc i) (components b))[i := components b ! i + 1])"

fun first_nonzero :: "64 word list \<Rightarrow> nat option" where
  "first_nonzero [] = None"
| "first_nonzero (c # cs) = (if c \<noteq> 0 then Some 0 else map_option Suc (first_nonzero cs))"

definition caret_index :: "version \<Rightarrow> nat" where
  "caret_index b = (case first_nonzero (components b) of Some i \<Rightarrow> i | None \<Rightarrow> length (components b) - 1)"

definition caret_upper :: "version \<Rightarrow> version" where
  "caret_upper b = bump_at b (caret_index b)"

definition tilde_index :: "version \<Rightarrow> nat" where
  "tilde_index b = (if length (components b) > 1 then 1 else 0)"

definition tilde_upper :: "version \<Rightarrow> version" where
  "tilde_upper b = bump_at b (tilde_index b)"

definition satisfies :: "version \<Rightarrow> op \<times> version \<Rightarrow> bool" where
  "satisfies v = (\<lambda>(r, b). case r of
     Lt \<Rightarrow> v < b
   | Le \<Rightarrow> v \<le> b
   | Gt \<Rightarrow> v > b
   | Ge \<Rightarrow> v \<ge> b
   | Eq \<Rightarrow> version_eq v b
   | Caret \<Rightarrow> v \<ge> b \<and> v < caret_upper b
   | Tilde \<Rightarrow> v \<ge> b \<and> v < tilde_upper b)"

definition matches :: "constraint \<Rightarrow> version \<Rightarrow> bool" where
  "matches c v \<longleftrightarrow> list_all (satisfies v) c"

section \<open>Choosing a version\<close>

type_synonym pattern = "string \<Rightarrow> string option list option"

definition key :: "string \<Rightarrow> pattern option \<Rightarrow> version option" where
  "key s pat = (case pat of
     None \<Rightarrow> parse_version s
   | Some re \<Rightarrow> (case re s of
       Some (Some m # groups) \<Rightarrow>
         if m \<noteq> s then None
         else let gs = map the (filter (\<lambda>g. g \<noteq> None) groups)
              in if gs = [] then parse_version m else parse_version (join ''.'' gs)
     | _ \<Rightarrow> None))"

text \<open>\<^verbatim>\<open>Iterator::max_by\<close>: the last of the greatest.\<close>

fun max_by :: "(version \<times> string) list \<Rightarrow> (version \<times> string) option" where
  "max_by [] = None"
| "max_by (x # xs) = (case max_by xs of
     None \<Rightarrow> Some x
   | Some y \<Rightarrow> if fst y < fst x then Some x else Some y)"

definition candidates :: "string list \<Rightarrow> string \<Rightarrow> pattern option \<Rightarrow> (version \<times> string) list" where
  "candidates tags pre pat =
     List.map_filter (\<lambda>s. map_option (\<lambda>k. (k, s)) (key s pat)) (List.map_filter (strip_prefix pre) tags)"

definition pick :: "string list \<Rightarrow> string \<Rightarrow> pattern option \<Rightarrow> string \<Rightarrow> constraint option \<Rightarrow> string option" where
  "pick tags pre pat current c = (case key current pat of
     None \<Rightarrow> None
   | Some cur \<Rightarrow> map_option snd
       (max_by (filter (\<lambda>(k, _). k > cur \<and> (case c of None \<Rightarrow> True | Some c' \<Rightarrow> matches c' k)) (candidates tags pre pat))))"

section \<open>What a constraint admits\<close>

lemma get_bump:
  "i < length (components b) \<Longrightarrow> get (bump_at b i) j = (if j < i then get b j else if j = i then get b i + 1 else 0)"
  by (auto simp: get_def bump_at_def nth_list_update)

lemma less_plus_one: "x < y + 1 \<longleftrightarrow> x \<le> y" if "y \<noteq> - 1" for x y :: "64 word"
proof -
  have "1 + y \<noteq> 0" using that by (metis add.commute max_word_wrap)
  then have "unat (y + 1) = Suc (unat y)" using unatSuc [of y] by (simp add: add.commute)
  then show ?thesis by (simp add: word_less_nat_alt word_le_nat_alt less_Suc_eq_le)
qed

lemma below_bump:
  assumes "i < length (components b)" and "get b i \<noteq> - 1"
  shows "b \<le> v \<and> v < bump_at b i \<longleftrightarrow> b \<le> v \<and> (\<forall>j \<le> i. get v j = get b j)"
proof (rule conj_cong [OF refl], rule iffI)
  assume "b \<le> v" and "v < bump_at b i"
  then obtain k where k: "get v k < get (bump_at b i) k" "\<forall>j < k. get v j = get (bump_at b i) j" by (auto simp: less_get_iff)
  have no: "\<not> (get v j < get b j \<and> (\<forall>l < j. get v l = get b l))" for j
    using \<open>b \<le> v\<close> version_not_less [of v b] by (auto simp: less_get_iff)
  have "k \<le> i" using k(1) get_bump [OF assms(1)] by (cases "k \<le> i") auto
  with k no [of k] get_bump [OF assms(1)] have "k = i" by (cases "k = i") auto
  with k have "get v i \<le> get b i" "\<forall>j < i. get v j = get b j"
    using assms get_bump [OF assms(1)] less_plus_one by auto
  with no [of i] show "\<forall>j \<le> i. get v j = get b j" by (auto simp: order.order_iff_strict)
next
  assume "\<forall>j \<le> i. get v j = get b j"
  then show "v < bump_at b i" unfolding less_get_iff
    using assms less_plus_one by (intro exI [of _ i]) (auto simp: get_bump)
qed

lemma first_nonzero_less: "first_nonzero cs = Some i \<Longrightarrow> i < length cs"
  by (induction cs arbitrary: i) (auto split: if_splits)

lemma caret_index_less: "components b \<noteq> [] \<Longrightarrow> caret_index b < length (components b)"
  by (auto simp: caret_index_def dest: first_nonzero_less split: option.splits)

lemma tilde_index_less: "components b \<noteq> [] \<Longrightarrow> tilde_index b < length (components b)"
  by (cases "components b") (auto simp: tilde_index_def)

text \<open>A parsed version has a component, so the bounds of \<^verbatim>\<open>^\<close> and \<^verbatim>\<open>~\<close> index inside it.\<close>

lemma parse_version_nonempty: "parse_version s = Some v \<Longrightarrow> components v \<noteq> []"
proof -
  have ne: "split_char (CHR ''.'') t \<noteq> []" for t by (induction t) (auto split: list.splits)
  have "those xs = Some [] \<Longrightarrow> xs = []" for xs :: "64 word option list" by (cases xs) (auto split: option.splits)
  moreover assume "parse_version s = Some v"
  ultimately show ?thesis using ne by (fastforce simp: parse_version_def Let_def split: if_splits)
qed

text \<open>Property C37: a caret admits exactly the versions from its bound on that agree with it up to its first
  non-zero component (its last one when all are zero), and a tilde those that agree with it in the first
  two components, as long as that component of the bound is not the greatest 64-bit number (where the
  bump wraps around).\<close>

theorem caret_and_tilde:
  assumes "parse_version s = Some b"
  shows "(get b (caret_index b) \<noteq> - 1 \<longrightarrow>
           (matches [(Caret, b)] v \<longleftrightarrow> b \<le> v \<and> (\<forall>j \<le> caret_index b. get v j = get b j)))
     \<and> (get b (tilde_index b) \<noteq> - 1 \<longrightarrow>
           (matches [(Tilde, b)] v \<longleftrightarrow> b \<le> v \<and> (\<forall>j \<le> tilde_index b. get v j = get b j)))"
  using below_bump [OF caret_index_less] below_bump [OF tilde_index_less] parse_version_nonempty [OF assms]
  by (simp_all add: matches_def satisfies_def caret_upper_def tilde_upper_def)

section \<open>What is picked\<close>

definition eligible :: "string list \<Rightarrow> string \<Rightarrow> pattern option \<Rightarrow> string \<Rightarrow> constraint option \<Rightarrow> string \<Rightarrow> version \<Rightarrow> bool" where
  "eligible tags pre pat current c s k \<longleftrightarrow>
     pre @ s \<in> set tags \<and> key s pat = Some k \<and> (\<exists>cur. key current pat = Some cur \<and> cur < k)
     \<and> (\<forall>c'. c = Some c' \<longrightarrow> matches c' k)"

lemma max_by_Some: "max_by xs = Some x \<Longrightarrow> x \<in> set xs \<and> (\<forall>y \<in> set xs. fst y \<le> fst x)"
proof (induction xs arbitrary: x)
  case (Cons y ys)
  show ?case
  proof (cases "max_by ys")
    case None
    then have "ys = []" by (cases ys) (auto split: option.splits if_splits)
    with Cons.prems show ?thesis by simp
  next
    case (Some z)
    with Cons.IH [OF Some] Cons.prems show ?thesis
      by (auto split: if_splits simp: version_not_less dest: less_imp_le order_trans)
  qed
qed simp

lemma max_by_None: "max_by xs = None \<longleftrightarrow> xs = []"
  by (cases xs) (auto split: option.splits)

lemma set_candidates: "(k, s) \<in> set (candidates tags pre pat) \<longleftrightarrow> pre @ s \<in> set tags \<and> key s pat = Some k"
  by (auto simp: candidates_def List.map_filter_def strip_prefix_Some_iff image_iff) force

lemma eligible_filter:
  assumes "key current pat = Some cur"
  shows "(k, s) \<in> set (filter (\<lambda>(k, _). k > cur \<and> (case c of None \<Rightarrow> True | Some c' \<Rightarrow> matches c' k)) (candidates tags pre pat))
    \<longleftrightarrow> eligible tags pre pat current c s k"
  using assms by (auto simp: eligible_def set_candidates split: option.splits)

text \<open>Property C27: what is picked is the newest eligible tag: one that is there with its prefix, parses,
  is above the current version and within the constraint, and no eligible tag is above it; nothing is
  picked only when no tag is eligible.\<close>

theorem pick_is_newest:
  "case pick tags pre pat current c of
     Some s \<Rightarrow> \<exists>k. eligible tags pre pat current c s k \<and> (\<forall>t k'. eligible tags pre pat current c t k' \<longrightarrow> k' \<le> k)
   | None \<Rightarrow> \<forall>t k. \<not> eligible tags pre pat current c t k"
proof (cases "key current pat")
  case None
  then show ?thesis by (simp add: pick_def eligible_def)
next
  case (Some cur)
  define xs where "xs = filter (\<lambda>(k, _). k > cur \<and> (case c of None \<Rightarrow> True | Some c' \<Rightarrow> matches c' k)) (candidates tags pre pat)"
  have xs: "(k, s) \<in> set xs \<longleftrightarrow> eligible tags pre pat current c s k" for k s
    unfolding xs_def by (rule eligible_filter [OF Some])
  have pick: "pick tags pre pat current c = map_option snd (max_by xs)" using Some by (simp add: pick_def xs_def)
  show ?thesis
  proof (cases "max_by xs")
    case None
    with pick xs show ?thesis by (simp add: max_by_None)
  next
    case (Some y)
    with pick xs max_by_Some [OF Some] show ?thesis by (cases y) force
  qed
qed

theorem pick_is_newest_witness:
  "eligible [''v1.96.4'', ''v1.98.0'', ''v1.97.2'', ''nightly''] ''v'' None ''1.96.4'' (Some [(Lt, Version [1, 98])]) ''1.97.2'' (Version [1, 97, 2])"
proof -
  have "pick [''v1.96.4'', ''v1.98.0'', ''v1.97.2'', ''nightly''] ''v'' None ''1.96.4'' (Some [(Lt, Version [1, 98])]) = Some ''1.97.2''"
    by code_simp
  moreover have "key ''1.97.2'' None = Some (Version [1, 97, 2])" by code_simp
  ultimately show ?thesis
    using pick_is_newest [of "[''v1.96.4'', ''v1.98.0'', ''v1.97.2'', ''nightly'']" "''v''" None "''1.96.4''" "Some [(Lt, Version [1, 98])]"]
    by (auto simp: eligible_def)
qed

theorem caret_and_tilde_witness:
  "matches [(Caret, Version [0, 3, 1])] (Version [0, 3, 9]) \<and> \<not> matches [(Caret, Version [0, 3, 1])] (Version [0, 4, 0])"
proof -
  have p: "parse_version ''0.3.1'' = Some (Version [0, 3, 1])" by code_simp
  have i: "caret_index (Version [0, 3, 1]) = 1" by code_simp
  have "get (Version [0, 3, 1]) 1 \<noteq> - 1" by code_simp
  moreover have "Version [0, 3, 1] \<le> Version [0, 3, 9]" by code_simp
  ultimately show ?thesis using caret_and_tilde [OF p, of "Version [0, 3, 9]"] caret_and_tilde [OF p, of "Version [0, 4, 0]"]
    unfolding i by (auto simp: le_Suc_eq numeral_2_eq_2 get_def)
qed

section \<open>Adding a bound\<close>

lemma split_on_append: "P c \<Longrightarrow> split_on P (a @ c # b) = split_on P a @ split_on P b"
  by (induction a) (auto split: list.splits simp: neq_Nil_conv)

lemma split_on_none: "\<forall>x \<in> set s. \<not> P x \<Longrightarrow> split_on P s = [s]"
  by (induction s) auto

lemma collect_append: "collect_results (xs @ ys) = (case collect_results xs of
    Inl e \<Rightarrow> Inl e | Inr as \<Rightarrow> (case collect_results ys of Inl e \<Rightarrow> Inl e | Inr bs \<Rightarrow> Inr (as @ bs)))"
  by (induction xs rule: collect_results.induct) (auto split: sum.splits)

definition version_char :: "char \<Rightarrow> bool" where
  "version_char c \<longleftrightarrow> is_digit c \<or> c \<in> {CHR ''.'', CHR ''+'', CHR ''v''}"

lemma those_SomeD: "those xs = Some ys \<Longrightarrow> x \<in> set xs \<Longrightarrow> x \<noteq> None"
  by (induction xs arbitrary: ys) (auto split: option.splits)

lemma split_on_covers: "x \<in> set s \<Longrightarrow> P x \<or> (\<exists>w \<in> set (split_on P s). x \<in> set w)"
  by (induction s) (auto split: list.splits)

lemma parse_unsigned_chars: "parse_unsigned w s = Some n \<Longrightarrow> x \<in> set s \<Longrightarrow> version_char x"
  by (auto simp: parse_unsigned_def version_char_def list_all_iff Let_def split: if_splits list.splits)

lemma parse_component_chars: "parse_component w \<noteq> None \<Longrightarrow> x \<in> set w \<Longrightarrow> version_char x"
  by (auto simp: parse_component_def dest: parse_unsigned_chars)

lemma parse_version_chars:
  assumes "parse_version s = Some k"
  shows "s \<noteq> [] \<and> (\<forall>x \<in> set s. version_char x)"
proof -
  define t where "t = (case strip_prefix ''v'' s of Some r \<Rightarrow> r | None \<Rightarrow> s)"
  from assms obtain ns where t: "t \<noteq> []" and ns: "those (map parse_component (split_char (CHR ''.'') t)) = Some ns"
    unfolding parse_version_def t_def [symmetric] by (auto simp: Let_def split: if_splits)
  have "version_char x" if "x \<in> set t" for x
    using split_on_covers [OF that, of "\<lambda>x. x = CHR ''.''"] those_SomeD [OF ns] parse_component_chars by (auto simp: version_char_def)
  moreover have "s = t \<or> s = CHR ''v'' # t" by (auto simp: t_def strip_prefix_Some_iff split: option.splits)
  moreover have "version_char (CHR ''v'')" by (simp add: version_char_def)
  ultimately show ?thesis using t by auto
qed

lemma version_char_plain: "version_char c \<Longrightarrow> \<not> is_space c \<and> c \<noteq> CHR '','' \<and> c \<noteq> CHR ''=''"
  by (auto simp: version_char_def is_digit_def is_space_def)

lemma dropWhile_hd: "s \<noteq> [] \<Longrightarrow> \<not> P (hd s) \<Longrightarrow> dropWhile P s = s"
  by (cases s) simp_all

lemma trim_plain: "s \<noteq> [] \<Longrightarrow> \<not> is_space (hd s) \<Longrightarrow> \<not> is_space (last s) \<Longrightarrow> trim s = s"
  by (simp add: trim_matches_def trim_start_matches_def trim_end_matches_def dropWhile_hd hd_rev)

lemma parse_bound:
  assumes "parse_version v = Some k"
  shows "parse_part (''<'' @ v) = Inr (Lt, k)" and "trim ('' <'' @ v) = ''<'' @ v" and "CHR '','' \<notin> set ('' <'' @ v)"
    and "trim (''<'' @ v) = ''<'' @ v"
proof -
  note ch = parse_version_chars [OF assms]
  have plain: "\<forall>x \<in> set v. \<not> is_space x \<and> x \<noteq> CHR '','' \<and> x \<noteq> CHR ''=''" using ch version_char_plain by blast
  then have ends: "\<not> is_space (hd v)" "\<not> is_space (last v)" "hd v \<noteq> CHR ''=''" using ch by auto
  have "split_op (''<'' @ v) = (Lt, v)"
    using ch ends by (cases v) (simp_all add: split_op_def op_prefixes_def starts_with_def)
  with trim_plain [of v] ch ends assms show "parse_part (''<'' @ v) = Inr (Lt, k)" by (simp add: parse_part_def)
  show t: "trim (''<'' @ v) = ''<'' @ v" using ch ends by (intro trim_plain) (auto simp: is_space_def)
  then show "trim ('' <'' @ v) = ''<'' @ v" by (simp add: trim_matches_def trim_start_matches_def is_space_def)
  show "CHR '','' \<notin> set ('' <'' @ v)" using plain by auto
qed

lemma parse_constraint_bound:
  assumes "parse_version v = Some k"
  shows "parse_constraint (''<'' @ v) = Inr [(Lt, k)]"
    and "parse_constraint c = Inr cs \<Longrightarrow> parse_constraint (c @ '', <'' @ v) = Inr (cs @ [(Lt, k)])"
proof -
  note b = parse_bound [OF assms]
  have none: "split_char (CHR '','') w = [w]" if "CHR '','' \<notin> set w" for w using that by (intro split_on_none) auto
  then have "split_char (CHR '','') (''<'' @ v) = [''<'' @ v]" and one: "split_char (CHR '','') ('' <'' @ v) = ['' <'' @ v]"
    using b(3) by (metis Un_iff set_append list.set_intros(2) append_Cons, metis)
  with b show "parse_constraint (''<'' @ v) = Inr [(Lt, k)]" by (simp add: parse_constraint_def constraint_parts_def)
  have "split_char (CHR '','') (c @ CHR '','' # '' <'' @ v) = split_char (CHR '','') c @ ['' <'' @ v]"
    by (simp only: split_on_append one)
  then have "constraint_parts (c @ '', <'' @ v) = constraint_parts c @ [''<'' @ v]" using b(2) by (simp add: constraint_parts_def)
  then show "parse_constraint c = Inr cs \<Longrightarrow> parse_constraint (c @ '', <'' @ v) = Inr (cs @ [(Lt, k)])"
    using b(1) by (simp add: parse_constraint_def collect_append)
qed

end
