(* ===== verification/Charts.thy ===== *)
theory Charts
  imports Versions
begin

text \<open>
  \<^verbatim>\<open>tools/update/src/defaults.rs\<close>: the image tags a chart defaults to. A built chart is a tree of
  directories with the contents of the two files that are read; a YAML document is what
  \<^verbatim>\<open>serde_yaml\<close> makes of it (the parameter \<open>yaml_of\<close>), numbers as they print.
\<close>

section \<open>Values\<close>

datatype yaml =
    YNull
  | YBool bool
  | YNumber string
  | YString string
  | YSeq "yaml list"
  | YMap "(yaml \<times> yaml) list"
  | YTagged yaml

type_synonym mapping = "(yaml \<times> yaml) list"

record chart =
  ch_name :: "string option"
  ch_app_version :: "string option"
  ch_values :: yaml

definition scalar :: "yaml \<Rightarrow> string option" where
  "scalar v =
     (let s = (case v of YString s \<Rightarrow> Some s | YNumber n \<Rightarrow> Some n | _ \<Rightarrow> None)
      in case s of Some t \<Rightarrow> if t \<noteq> [] \<and> t \<noteq> ''null'' then Some t else None | None \<Rightarrow> None)"

definition map_get :: "mapping \<Rightarrow> string \<Rightarrow> string option" where
  "map_get m k = Option.bind (map_of m (YString k)) scalar"

fun yaml_get :: "yaml \<Rightarrow> string \<Rightarrow> string option" where
  "yaml_get (YMap m) k = map_get m k"
| "yaml_get (YTagged v) k = yaml_get v k"
| "yaml_get v k = None"

text \<open>\<^verbatim>\<open>str::replace\<close> (for a pattern that is not empty), \<^verbatim>\<open>str::replacen\<close> with one replacement, and
  \<^verbatim>\<open>trim_start_matches\<close> with a string.\<close>

function replace_str :: "string \<Rightarrow> string \<Rightarrow> string \<Rightarrow> string" where
  "replace_str p t s =
     (if p = [] then s
      else case s of
             [] \<Rightarrow> []
           | c # r \<Rightarrow> (case strip_prefix p s of Some rest \<Rightarrow> t @ replace_str p t rest | None \<Rightarrow> c # replace_str p t r))"
  by pat_completeness auto

termination replace_str
  by (relation "measure (\<lambda>(p, t, s). length s)") (auto simp: strip_prefix_Some_iff)

declare replace_str.simps [simp del]

definition replace_first :: "string \<Rightarrow> string \<Rightarrow> string \<Rightarrow> string" where
  "replace_first p t s = (case split_once_str p s of Some (a, b) \<Rightarrow> a @ t @ b | None \<Rightarrow> s)"

function trim_prefixes :: "string \<Rightarrow> string \<Rightarrow> string" where
  "trim_prefixes p s =
     (if p = [] then s else case strip_prefix p s of Some r \<Rightarrow> trim_prefixes p r | None \<Rightarrow> s)"
  by pat_completeness auto

termination trim_prefixes
  by (relation "measure (\<lambda>(p, s). length s)") (auto simp: strip_prefix_Some_iff)

declare trim_prefixes.simps [simp del]

section \<open>Repositories and tags\<close>

definition normalize :: "string \<Rightarrow> string" where
  "normalize repo =
     (let r = trim_prefixes ''oci://'' repo;
          r' = (case find (starts_with r) [''docker.io/'', ''registry-1.docker.io/'', ''index.docker.io/''] of
                  Some p \<Rightarrow> drop (length p) r
                | None \<Rightarrow> r)
      in case strip_prefix ''library/'' r' of Some t \<Rightarrow> t | None \<Rightarrow> r')"

definition split_tag :: "string \<Rightarrow> string \<times> string option" where
  "split_tag s = (case rsplit_once (CHR '':'') s of
     Some (r, t) \<Rightarrow> if CHR ''/'' \<in> set t then (s, None) else (r, Some t)
   | None \<Rightarrow> (s, None))"

definition image_entries :: "mapping \<Rightarrow> (string \<times> string option) list" where
  "image_entries m =
     filter (\<lambda>(_, t). t \<noteq> None)
       (map (\<lambda>(_, v). split_tag v)
         (filter (\<lambda>(k, _). ends_with k ''Image'')
           (List.map_filter (\<lambda>(k, v). case (k, scalar v) of (YString s, Some t) \<Rightarrow> Some (s, t) | _ \<Rightarrow> None) m)))"

definition with_registry :: "mapping \<Rightarrow> string \<Rightarrow> string \<times> string option" where
  "with_registry m repo =
     (case map_get m ''registry'' of Some reg \<Rightarrow> reg @ ''/'' @ repo | None \<Rightarrow> repo, map_get m ''tag'')"

definition refs :: "mapping \<Rightarrow> (string \<times> string option) list" where
  "refs m =
     (let out = image_entries m
      in case (map_get m ''repository'', map_get m ''image'', map_get m ''version'') of
           (Some r, Some i, Some v) \<Rightarrow> out @ [(r @ ''/'' @ i, Some v)]
         | (Some r, _, _) \<Rightarrow> out @ [with_registry m r]
         | (None, Some i, _) \<Rightarrow> (case split_tag i of
               (r, Some t) \<Rightarrow> out @ [(r, Some t)]
             | (r, None) \<Rightarrow> out @ [with_registry m r])
         | (None, None, _) \<Rightarrow> out)"

text \<open>The mappings \<open>walk\<close> visits, in its order.\<close>

fun walk :: "yaml \<Rightarrow> mapping list"
  and walk_seq :: "yaml list \<Rightarrow> mapping list"
  and walk_map :: "(yaml \<times> yaml) list \<Rightarrow> mapping list" where
  "walk (YMap m) = m # walk_map m"
| "walk (YSeq vs) = walk_seq vs"
| "walk (YTagged v) = walk v"
| "walk YNull = []"
| "walk (YBool b) = []"
| "walk (YNumber n) = []"
| "walk (YString s) = []"
| "walk_seq [] = []"
| "walk_seq (v # vs) = walk v @ walk_seq vs"
| "walk_map [] = []"
| "walk_map ((k, v) # m) = walk v @ walk_map m"

definition expand :: "string option \<Rightarrow> string \<Rightarrow> string" where
  "expand app tag = (case app of
     Some a \<Rightarrow> replace_str ''{{.Chart.AppVersion}}'' a (replace_str ''{{ .Chart.AppVersion }}'' a tag)
   | None \<Rightarrow> tag)"

definition literal_tags :: "chart list \<Rightarrow> string \<Rightarrow> string list" where
  "literal_tags charts repository =
     (let named = concat (map (\<lambda>c. map (\<lambda>t. expand (ch_app_version c) t)
            (List.map_filter (\<lambda>(r, t). if normalize r = normalize repository then t else None)
              (concat (map refs (walk (ch_values c)))))) charts)
      in sort (remdups (filter (\<lambda>t. \<not> contains t ''{{'') named)))"

definition owner :: "chart list \<Rightarrow> string \<Rightarrow> chart option" where
  "owner charts repository =
     (case find (\<lambda>c. list_ex (\<lambda>(r, t). t = None \<and> normalize r = normalize repository) (concat (map refs (walk (ch_values c))))) charts of
        Some c \<Rightarrow> Some c
      | None \<Rightarrow> (case charts of [] \<Rightarrow> None | c # _ \<Rightarrow> Some c))"

definition older :: "chart list \<Rightarrow> chart \<Rightarrow> chart option" where
  "older old n = (case find (\<lambda>c. ch_name c = ch_name n) old of
     Some c \<Rightarrow> Some c
   | None \<Rightarrow> (case old of [] \<Rightarrow> None | c # _ \<Rightarrow> Some c))"

definition trim_v :: "string \<Rightarrow> string" where
  "trim_v = trim_start_matches (\<lambda>c. c = CHR ''v'')"

definition swap_version :: "string \<Rightarrow> (string \<times> string) list \<Rightarrow> string option" where
  "swap_version current pairs =
     map_option (\<lambda>(a, b). replace_first a b current) (find (\<lambda>(a, _). a \<noteq> [] \<and> contains current a) pairs)"

definition tag :: "chart list \<Rightarrow> chart list \<Rightarrow> string \<Rightarrow> string \<Rightarrow> string + string" where
  "tag old new repository current =
     (case literal_tags new repository of
        [t] \<Rightarrow> Inr t
      | _ # _ \<Rightarrow> Inl (repository @ '': chart defaults disagree'')
      | [] \<Rightarrow>
          (let n = owner new repository
           in case (Option.bind (Option.bind n (older old)) ch_app_version, Option.bind n ch_app_version) of
                (Some a, Some b) \<Rightarrow>
                  (case swap_version current [(a, b), (trim_v a, trim_v b)] of
                     Some t \<Rightarrow> Inr t
                   | None \<Rightarrow> Inl (repository @ '': no default tag''))
              | _ \<Rightarrow> Inl (repository @ '': no default tag and no appVersion'')))"

section \<open>The charts of a build\<close>

datatype dir = DirNode (dir_chart: "string option") (dir_values: "string option") (dir_subs: "(string \<times> dir) list option")

definition chart_of :: "(string \<Rightarrow> string + yaml) \<Rightarrow> string \<Rightarrow> string option \<Rightarrow> string + chart" where
  "chart_of yaml_of meta values =
     (case yaml_of meta of
        Inl e \<Rightarrow> Inl e
      | Inr m \<Rightarrow>
          (case (case values of Some s \<Rightarrow> yaml_of s | None \<Rightarrow> Inr YNull) of
             Inl e \<Rightarrow> Inl e
           | Inr vs \<Rightarrow> Inr \<lparr>ch_name = yaml_get m ''name'', ch_app_version = yaml_get m ''appVersion'', ch_values = vs\<rparr>))"

definition level_charts :: "(string \<Rightarrow> string + yaml) \<Rightarrow> dir list \<Rightarrow> string + chart list" where
  "level_charts yaml_of ds =
     collect_results (map (\<lambda>(m, vs). chart_of yaml_of m vs)
       (List.map_filter (\<lambda>d. map_option (\<lambda>m. (m, dir_values d)) (dir_chart d)) ds))"

definition next_level :: "dir list \<Rightarrow> dir list" where
  "next_level ds = concat (map (\<lambda>d. case dir_subs d of Some ss \<Rightarrow> map snd (sort_key fst ss) | None \<Rightarrow> []) ds)"

fun chart_levels :: "(string \<Rightarrow> string + yaml) \<Rightarrow> nat \<Rightarrow> dir list \<Rightarrow> string + chart list" where
  "chart_levels yaml_of 0 ds = Inr []"
| "chart_levels yaml_of (Suc n) ds =
     (case level_charts yaml_of ds of
        Inl e \<Rightarrow> Inl e
      | Inr cs \<Rightarrow> (case chart_levels yaml_of n (next_level ds) of Inl e \<Rightarrow> Inl e | Inr rest \<Rightarrow> Inr (cs @ rest)))"

definition charts :: "(string \<Rightarrow> string + yaml) \<Rightarrow> dir \<Rightarrow> string + chart list" where
  "charts yaml_of d = (case chart_levels yaml_of 5 [d] of
     Inl e \<Rightarrow> Inl e
   | Inr [] \<Rightarrow> Inl ''no Chart.yaml''
   | Inr cs \<Rightarrow> Inr cs)"

section \<open>The tag a follower moves to\<close>

lemma split_once_str_SomeD: "split_once_str p s = Some (a, b) \<Longrightarrow> s = a @ p @ b"
  by (induction p s arbitrary: a b rule: split_once_str.induct) (auto simp: strip_prefix_Some_iff split: if_splits option.splits)

lemma split_once_str_contains: "contains s p \<Longrightarrow> \<exists>a b. split_once_str p s = Some (a, b)"
  by (induction s) (auto simp: starts_with_def split: option.splits)

lemma replace_first_contained:
  assumes "contains s p"
  shows "\<exists>a b. s = a @ p @ b \<and> (\<forall>t. replace_first p t s = a @ t @ b)"
proof -
  from split_once_str_contains [OF assms] obtain a b where ab: "split_once_str p s = Some (a, b)" by blast
  then show ?thesis using split_once_str_SomeD [OF ab] by (auto simp: replace_first_def)
qed

text \<open>The tag an image moves to with its chart. When a tag is found, it is the only one the
  new charts name for the repository; or they name none, and the tag is the current one with the first
  occurrence of the old chart's version (with or without its leading v's) replaced by the new chart's, so
  it stays what it is when that version did not move.\<close>

theorem follower_tag:
  assumes "tag old new repository current = Inr t"
  shows "literal_tags new repository = [t] \<or>
    literal_tags new repository = [] \<and> (\<exists>n c a b. owner new repository = Some n \<and> older old n = Some c
      \<and> ch_app_version c = Some a \<and> ch_app_version n = Some b \<and> (a = b \<longrightarrow> t = current)
      \<and> (\<exists>x y p q. (p, q) \<in> {(a, b), (trim_v a, trim_v b)} \<and> p \<noteq> [] \<and> current = x @ p @ y \<and> t = x @ q @ y))"
proof (cases "literal_tags new repository")
  case Nil
  with assms obtain n c a b where o: "owner new repository = Some n" "older old n = Some c" "ch_app_version c = Some a" "ch_app_version n = Some b"
    and sw: "swap_version current [(a, b), (trim_v a, trim_v b)] = Some t"
    by (auto simp: tag_def Let_def bind_eq_Some_conv split: option.splits)
  from sw obtain p q where pq: "(p, q) \<in> {(a, b), (trim_v a, trim_v b)}" "p \<noteq> []" "contains current p" "t = replace_first p q current"
    by (auto simp: swap_version_def split: if_splits)
  from replace_first_contained [OF pq(3)] pq(4) obtain x y where xy: "current = x @ p @ y" "t = x @ q @ y" by auto
  have "a = b \<longrightarrow> t = current" using pq(1) xy by auto
  with Nil o pq(1,2) xy show ?thesis by blast
next
  case (Cons l ls)
  with assms show ?thesis by (cases ls) (simp_all add: tag_def)
qed

definition sample_chart :: "string \<Rightarrow> chart" where
  "sample_chart v = \<lparr>ch_name = Some ''top'', ch_app_version = Some v, ch_values = YMap []\<rparr>"

theorem follower_tag_witness:
  "\<exists>x y p q. p \<noteq> [] \<and> ''v3.4.3-ubi'' = x @ p @ y \<and> ''v3.5.0-ubi'' = x @ q @ y"
proof -
  have t: "tag [sample_chart ''v3.4.3''] [sample_chart ''v3.5.0''] ''quay.io/a'' ''v3.4.3-ubi'' = Inr ''v3.5.0-ubi''" by code_simp
  have none: "literal_tags [sample_chart ''v3.5.0''] ''quay.io/a'' = []" by code_simp
  from follower_tag [OF t] show ?thesis unfolding none
  proof (elim disjE conjE exE)
    fix x y p q :: string
    assume "p \<noteq> []" and "''v3.4.3-ubi'' = x @ p @ y" and "''v3.5.0-ubi'' = x @ q @ y"
    then show ?thesis by (intro exI conjI)
  qed simp
qed

end
