(* ===== verification/Pins.thy ===== *)
theory Pins
  imports Charts
begin

text \<open>
  \<^verbatim>\<open>tools/update\<close>: the pins (\<^verbatim>\<open>pin.rs\<close>), the registries that are asked for versions (\<^verbatim>\<open>oci.rs\<close>,
  \<^verbatim>\<open>helm.rs\<close>, \<^verbatim>\<open>github.rs\<close>), the hashes that nix computes (\<^verbatim>\<open>nix.rs\<close>) and the move of one pin
  (\<^verbatim>\<open>resolve.rs\<close>). The repository is a map from paths to contents; a call to the file system may fail
  (\<open>ue_faults\<close>, by the number of the call). Parsing and printing of a pin by \<^verbatim>\<open>serde_json\<close>, of an
  index by \<^verbatim>\<open>serde_yaml\<close>, regular expressions, what a URL answers, what a command that only reads the
  repository prints (\<open>ue_query\<close>) and what one that may change it does (\<open>ue_exec\<close>) are parameters. A write that fails leaves the file as it was. Of error texts the part that is not a path is kept.
\<close>

section \<open>Pins\<close>

datatype track = TrackSemver | TrackDigest

datatype source =
    GithubRelease string string "string option"
  | GithubTag string string "string option" "string option"
  | GitCommit string string string
  | HelmRepo string string
  | OciTag string "string option" "track option"
  | UrlSet string "bool option" "bool option" "bool option"
  | UrlTemplate string "string option" "string option" "string option"

record pin =
  pn_version :: string
  pn_hash :: "string option"
  pn_digest :: "string option"
  pn_hashes :: "(string \<times> string) list"
  pn_source :: source
  pn_constraint :: "string option"
  pn_hold :: "string option"
  pn_follows :: "string option"

datatype kind = Src | Chart | Image

definition parse_kind :: "string \<Rightarrow> kind option" where
  "parse_kind s = (if s = ''src'' then Some Src else if s = ''chart'' then Some Chart
     else if s = ''image'' then Some Image else None)"

record entry =
  en_id :: string
  en_name :: string
  en_kind :: kind
  en_path :: string
  en_pin :: pin

definition quoted :: "string \<Rightarrow> string" where
  "quoted s = [quote] @ s @ [quote]"

definition entry_attr :: "entry \<Rightarrow> string" where
  "entry_attr e = (case en_kind e of
     Src \<Rightarrow> quoted (en_name e)
   | Chart \<Rightarrow> ''charts.'' @ quoted (en_name e)
   | Image \<Rightarrow> ''images.'' @ quoted (en_name e))"

section \<open>The repository and what is outside it\<close>

type_synonym files = "string \<Rightarrow> string option"

record repo =
  rp_files :: files
  rp_calls :: nat
  rp_report :: "string list"
  rp_failed :: nat

record response =
  rs_status :: nat
  rs_headers :: "(string \<times> string) list"
  rs_json :: "json option"
  rs_text :: string

record up_env =
  ue_faults :: "nat \<Rightarrow> bool"
  ue_parse :: "string \<Rightarrow> string + pin"
  ue_print :: "pin \<Rightarrow> string"
  ue_regex :: "string \<Rightarrow> string + pattern"
  ue_index :: "string \<Rightarrow> string + (string \<times> string list) list"
  ue_yaml :: "string \<Rightarrow> string + yaml"
  ue_http :: "string \<Rightarrow> string \<Rightarrow> string option \<Rightarrow> string + response"
  ue_token :: "string option"
  ue_query :: "files \<Rightarrow> string list \<Rightarrow> string + bool \<times> string \<times> string"
  ue_got :: "string \<Rightarrow> string list"
  ue_store :: "string \<Rightarrow> dir"
  ue_system :: string
  ue_dirs :: "string \<Rightarrow> string list option"
  ue_exec :: "files \<Rightarrow> string \<Rightarrow> string list \<Rightarrow> (string + bool \<times> string \<times> string) \<times> files"
  ue_json :: "string \<Rightarrow> string + json"
  ue_toml :: "string \<Rightarrow> json option"

type_synonym 'a up = "(repo, string, 'a) sem"

definition fs_call :: "up_env \<Rightarrow> 'a up \<Rightarrow> 'a up" where
  "fs_call env m = (\<lambda>s. let s' = s\<lparr>rp_calls := Suc (rp_calls s)\<rparr>
     in if ue_faults env (rp_calls s) then (Inl ''io'', s') else m s')"

definition fs_read :: "up_env \<Rightarrow> string \<Rightarrow> string up" where
  "fs_read env p = fs_call env (\<lambda>s. (case rp_files s p of Some c \<Rightarrow> Inr c | None \<Rightarrow> Inl ''not found'', s))"

definition fs_write :: "up_env \<Rightarrow> string \<Rightarrow> string \<Rightarrow> unit up" where
  "fs_write env p c = fs_call env (\<lambda>s. (Inr (), s\<lparr>rp_files := (rp_files s)(p \<mapsto> c)\<rparr>))"

definition is_oci :: "source \<Rightarrow> bool" where
  "is_oci src = (case src of OciTag _ _ _ \<Rightarrow> True | _ \<Rightarrow> False)"

definition is_url_set :: "source \<Rightarrow> bool" where
  "is_url_set src = (case src of UrlSet _ _ _ _ \<Rightarrow> True | _ \<Rightarrow> False)"

definition check_pin :: "pin \<Rightarrow> string + pin" where
  "check_pin p =
     (if is_oci (pn_source p) then (if pn_digest p = None then Inl ''oci-tag needs digest'' else Inr p)
      else if is_url_set (pn_source p) then (if pn_hashes p = [] then Inl ''url-set needs hashes'' else Inr p)
      else if pn_hash p = None then Inl ''missing hash'' else Inr p)"

definition pin_read :: "up_env \<Rightarrow> string \<Rightarrow> pin up" where
  "pin_read env path = andthen (fs_read env path)
     (\<lambda>text. lift_result (case ue_parse env text of Inl e \<Rightarrow> Inl e | Inr p \<Rightarrow> check_pin p))"

definition pin_write :: "up_env \<Rightarrow> string \<Rightarrow> pin \<Rightarrow> unit up" where
  "pin_write env path p = fs_write env path (ue_print env p)"

definition save :: "up_env \<Rightarrow> entry \<Rightarrow> unit up" where
  "save env e = pin_write env (en_path e) (en_pin e)"

text \<open>Every pin under \<^verbatim>\<open>pkgs\<close>, sorted by id.\<close>

definition pin_path :: "string \<Rightarrow> string \<Rightarrow> string" where
  "pin_path sub name = ''pkgs/'' @ (if sub = [] then [] else sub @ ''/'') @ name @ ''/pin.json''"

definition discover_one :: "up_env \<Rightarrow> string \<Rightarrow> kind \<Rightarrow> string \<Rightarrow> entry list \<Rightarrow> entry list up" where
  "discover_one env sub k name out =
     (if k = Src \<and> name \<in> {''charts'', ''images''} then ret out
      else andthen (gets (\<lambda>s. rp_files s (pin_path sub name) \<noteq> None))
        (\<lambda>there. if \<not> there then ret out
           else andthen (pin_read env (pin_path sub name))
             (\<lambda>p. ret (out @ [\<lparr>en_id = (if sub = [] then name else sub @ ''/'' @ name), en_name = name, en_kind = k,
                 en_path = pin_path sub name, en_pin = p\<rparr>]))))"

definition discover_dir :: "up_env \<Rightarrow> string \<times> kind \<Rightarrow> entry list \<Rightarrow> entry list up" where
  "discover_dir env = (\<lambda>(sub, k) out. case ue_dirs env (''pkgs'' @ (if sub = [] then [] else ''/'' @ sub)) of
     None \<Rightarrow> ret out
   | Some names \<Rightarrow> andthen (fs_call env (ret ())) (\<lambda>_. fold_sem names (discover_one env sub k) out))"

definition discover :: "up_env \<Rightarrow> entry list up" where
  "discover env =
     andthen (fold_sem [([], Src), (''charts'', Chart), (''images'', Image)] (discover_dir env) [])
     (\<lambda>out. ret (sort_key en_id out))"

section \<open>Registries\<close>

text \<open>A request: what \<^verbatim>\<open>ureq\<close> returns is an error from status 400 on.\<close>

datatype call_error = Transport string | Status response

definition http_call :: "up_env \<Rightarrow> string \<Rightarrow> string \<Rightarrow> string option \<Rightarrow> call_error + response" where
  "http_call env verb url token = (case ue_http env verb url token of
     Inl e \<Rightarrow> Inl (Transport e)
   | Inr r \<Rightarrow> if 400 \<le> rs_status r then Inl (Status r) else Inr r)"

definition json_of :: "response \<Rightarrow> string + json" where
  "json_of r = (case rs_json r of Some j \<Rightarrow> Inr j | None \<Rightarrow> Inl ''json'')"

text \<open>A field of an object that holds a string or is absent, and an array of strings.\<close>

definition opt_string :: "json \<Rightarrow> string \<Rightarrow> string + string option" where
  "opt_string j k = (case jget j k of JStr t \<Rightarrow> Inr (Some t) | JNull \<Rightarrow> Inr None | _ \<Rightarrow> Inl ''json'')"

definition string_array :: "json \<Rightarrow> string + string list" where
  "string_array j = (case j of
     JArr vs \<Rightarrow> collect_results (map (\<lambda>v. case v of JStr t \<Rightarrow> Inr t | _ \<Rightarrow> Inl ''json'') vs)
   | _ \<Rightarrow> Inl ''json'')"

record registry =
  rg_host :: string
  rg_repo :: string
  rg_token :: "string option"

definition split_repository :: "string \<Rightarrow> string \<times> string" where
  "split_repository repository =
     (let r = trim_prefixes ''oci://'' repository
      in case split_once (CHR ''/'') r of
           Some (host, rest) \<Rightarrow>
             if CHR ''.'' \<in> set host \<or> CHR '':'' \<in> set host \<or> host = ''localhost''
             then (if host = ''docker.io'' then ''registry-1.docker.io'' else host, rest)
             else (''registry-1.docker.io'', r)
         | None \<Rightarrow> (''registry-1.docker.io'', ''library/'' @ r))"

definition registry_new :: "string \<Rightarrow> registry" where
  "registry_new repository = (let (h, r) = split_repository repository in \<lparr>rg_host = h, rg_repo = r, rg_token = None\<rparr>)"

fun token_parts :: "string list \<Rightarrow> string option \<Rightarrow> string list \<Rightarrow> (string option \<times> string list) option" where
  "token_parts [] realm query = Some (realm, query)"
| "token_parts (p # ps) realm query =
     (case split_once (CHR ''='') (trim p) of
        None \<Rightarrow> None
      | Some (k, v) \<Rightarrow>
          let v' = trim_matches (\<lambda>c. c = quote) v
          in if k = ''realm'' then token_parts ps (Some v') query else token_parts ps realm (query @ [k @ ''='' @ v']))"

definition token_url :: "string \<Rightarrow> string option" where
  "token_url challenge =
     (case strip_prefix ''Bearer '' challenge of
        None \<Rightarrow> None
      | Some params \<Rightarrow>
          (case token_parts (split_char (CHR '','') params) None [] of
             Some (Some realm, query) \<Rightarrow> Some (if query = [] then realm else realm @ ''?'' @ join ''&'' query)
           | _ \<Rightarrow> None))"

definition fetch_token :: "up_env \<Rightarrow> response \<Rightarrow> string + string option" where
  "fetch_token env r =
     (case token_url (case map_of (rs_headers r) ''www-authenticate'' of Some c \<Rightarrow> c | None \<Rightarrow> []) of
        None \<Rightarrow> Inl ''unsupported auth''
      | Some url \<Rightarrow>
          (case http_call env ''GET'' url None of
             Inl _ \<Rightarrow> Inl ''token''
           | Inr t \<Rightarrow>
               (case json_of t of
                  Inl e \<Rightarrow> Inl e
                | Inr j \<Rightarrow>
                    (case (opt_string j ''token'', opt_string j ''access_token'') of
                       (Inr a, Inr b) \<Rightarrow> Inr (if a = None then b else a)
                     | _ \<Rightarrow> Inl ''json''))))"

fun request_tries :: "nat \<Rightarrow> up_env \<Rightarrow> string \<Rightarrow> string \<Rightarrow> registry \<Rightarrow> (string + response) \<times> registry" where
  "request_tries 0 env verb url g = (Inl ''unauthorized'', g)"
| "request_tries (Suc n) env verb url g =
     (case http_call env verb url (rg_token g) of
        Inr r \<Rightarrow> (Inr r, g)
      | Inl (Transport e) \<Rightarrow> (Inl e, g)
      | Inl (Status r) \<Rightarrow>
          if rs_status r = 401 \<and> rg_token g = None
          then (case fetch_token env r of
                  Inl e \<Rightarrow> (Inl e, g)
                | Inr t \<Rightarrow> request_tries n env verb url (g\<lparr>rg_token := t\<rparr>))
          else (Inl ''status'', g))"

definition registry_request :: "up_env \<Rightarrow> string \<Rightarrow> string \<Rightarrow> registry \<Rightarrow> (string + response) \<times> registry" where
  "registry_request env verb url g = request_tries 2 env verb url g"

text \<open>\<open>next_link\<close>: None in the outer option is a slice out of order, which panics.\<close>

definition position :: "char \<Rightarrow> string \<Rightarrow> nat option" where
  "position c s = (if c \<in> set s then Some (length (takeWhile (\<lambda>x. x \<noteq> c) s)) else None)"

definition next_link :: "string \<Rightarrow> string option option" where
  "next_link h = (case (position (CHR ''<'') h, position (CHR ''>'') h) of
     (Some a, Some b) \<Rightarrow>
       if contains h (''rel='' @ quoted ''next'')
       then (if Suc a \<le> b then Some (Some (take (b - Suc a) (drop (Suc a) h))) else None)
       else Some None
   | _ \<Rightarrow> Some None)"

fun tag_pages :: "nat \<Rightarrow> up_env \<Rightarrow> string \<Rightarrow> registry \<Rightarrow> string list \<Rightarrow> (string + string list) \<times> registry" where
  "tag_pages 0 env path g acc = (Inr acc, g)"
| "tag_pages (Suc n) env path g acc =
     (case registry_request env ''GET'' (''https://'' @ rg_host g @ path) g of
        (Inl e, g') \<Rightarrow> (Inl e, g')
      | (Inr r, g') \<Rightarrow>
          (case (case map_of (rs_headers r) ''link'' of Some h \<Rightarrow> next_link h | None \<Rightarrow> Some None) of
             None \<Rightarrow> (Inl ''panic'', g')
           | Some following \<Rightarrow>
               (case json_of r of
                  Inl e \<Rightarrow> (Inl e, g')
                | Inr j \<Rightarrow>
                    (case (if jget j ''tags'' = JNull then Inr [] else string_array (jget j ''tags'')) of
                       Inl e \<Rightarrow> (Inl e, g')
                     | Inr ts \<Rightarrow>
                         (case following of
                            None \<Rightarrow> (Inr (acc @ ts), g')
                          | Some p \<Rightarrow> tag_pages n env p g' (acc @ ts))))))"

definition registry_tags :: "up_env \<Rightarrow> registry \<Rightarrow> (string + string list) \<times> registry" where
  "registry_tags env g = tag_pages 50 env (''/v2/'' @ rg_repo g @ ''/tags/list?n=1000'') g []"

definition registry_digest :: "up_env \<Rightarrow> string \<Rightarrow> registry \<Rightarrow> (string + string) \<times> registry" where
  "registry_digest env t g =
     (case registry_request env ''HEAD'' (''https://'' @ rg_host g @ ''/v2/'' @ rg_repo g @ ''/manifests/'' @ t) g of
        (Inl e, g') \<Rightarrow> (Inl e, g')
      | (Inr r, g') \<Rightarrow> (case map_of (rs_headers r) ''docker-content-digest'' of
          Some d \<Rightarrow> (Inr d, g')
        | None \<Rightarrow> (Inl ''no Docker-Content-Digest'', g')))"

definition trim_slashes :: "string \<Rightarrow> string" where
  "trim_slashes = trim_end_matches (\<lambda>c. c = CHR ''/'')"

definition parse_index :: "up_env \<Rightarrow> string \<Rightarrow> string \<Rightarrow> string + string list" where
  "parse_index env body chart = (case ue_index env body of
     Inl e \<Rightarrow> Inl e
   | Inr idx \<Rightarrow> Inr (case map_of idx chart of Some vs \<Rightarrow> vs | None \<Rightarrow> []))"

definition helm_versions :: "up_env \<Rightarrow> string \<Rightarrow> string \<Rightarrow> string + string list" where
  "helm_versions env r chart =
     (if starts_with r ''oci://''
      then (case fst (registry_tags env (registry_new (trim_slashes r @ ''/'' @ chart))) of
              Inl e \<Rightarrow> Inl e
            | Inr ts \<Rightarrow> Inr (map (replace_char (CHR ''_'') ''+'') ts))
      else case http_call env ''GET'' (trim_slashes r @ ''/index.yaml'') None of
             Inl _ \<Rightarrow> Inl ''index''
           | Inr b \<Rightarrow> parse_index env (rs_text b) chart)"

definition github_get :: "up_env \<Rightarrow> string \<Rightarrow> string + response" where
  "github_get env path = (case http_call env ''GET'' (''https://api.github.com'' @ path) (ue_token env) of
     Inl _ \<Rightarrow> Inl (''GET '' @ path)
   | Inr r \<Rightarrow> Inr r)"

definition PAGES :: nat where "PAGES = 3"

text \<open>The pages from \<open>i\<close> on; a page of fewer than 100 items is the last one. An item is read by \<open>item\<close>.\<close>

fun paged_from :: "nat \<Rightarrow> nat \<Rightarrow> up_env \<Rightarrow> string \<Rightarrow> (json \<Rightarrow> string + 'a) \<Rightarrow> 'a list \<Rightarrow> string + 'a list" where
  "paged_from 0 i env path item acc = Inr acc"
| "paged_from (Suc n) i env path item acc =
     (case github_get env (path @ ''?per_page=100&page='' @ nat_str i) of
        Inl e \<Rightarrow> Inl e
      | Inr r \<Rightarrow>
          (case rs_json r of
             Some (JArr vs) \<Rightarrow>
               (case collect_results (map item vs) of
                  Inl e \<Rightarrow> Inl e
                | Inr xs \<Rightarrow> if length xs < 100 then Inr (acc @ xs) else paged_from n (Suc i) env path item (acc @ xs))
           | _ \<Rightarrow> Inl ''json''))"

definition paged :: "up_env \<Rightarrow> string \<Rightarrow> (json \<Rightarrow> string + 'a) \<Rightarrow> string + 'a list" where
  "paged env path item = paged_from PAGES 1 env path item []"

record release =
  rl_tag_name :: string
  rl_draft :: bool
  rl_prerelease :: bool

definition json_release :: "json \<Rightarrow> string + release" where
  "json_release j = (case (jget j ''tag_name'', jget j ''draft'', jget j ''prerelease'') of
     (JStr t, JBool d, JBool p) \<Rightarrow> Inr \<lparr>rl_tag_name = t, rl_draft = d, rl_prerelease = p\<rparr>
   | _ \<Rightarrow> Inl ''json'')"

definition json_string :: "string \<Rightarrow> json \<Rightarrow> string + string" where
  "json_string k j = (case jget j k of JStr t \<Rightarrow> Inr t | _ \<Rightarrow> Inl ''json'')"

definition release_tags :: "up_env \<Rightarrow> string \<Rightarrow> string \<Rightarrow> string + string list" where
  "release_tags env o' r = (case paged env (''/repos/'' @ o' @ ''/'' @ r @ ''/releases'') json_release of
     Inl e \<Rightarrow> Inl e
   | Inr rs \<Rightarrow> Inr (map rl_tag_name (filter (\<lambda>x. \<not> rl_draft x \<and> \<not> rl_prerelease x) rs)))"

definition github_tags :: "up_env \<Rightarrow> string \<Rightarrow> string \<Rightarrow> string + string list" where
  "github_tags env o' r = paged env (''/repos/'' @ o' @ ''/'' @ r @ ''/tags'') (json_string ''name'')"

definition branch_head :: "up_env \<Rightarrow> string \<Rightarrow> string \<Rightarrow> string \<Rightarrow> string + string" where
  "branch_head env o' r branch = (case github_get env (''/repos/'' @ o' @ ''/'' @ r @ ''/commits/'' @ branch) of
     Inl e \<Rightarrow> Inl e
   | Inr p \<Rightarrow> (case json_of p of Inl e \<Rightarrow> Inl e | Inr j \<Rightarrow> json_string ''sha'' j))"

section \<open>Hashes\<close>

definition FAKE_HASH :: string where
  "FAKE_HASH = ''sha256-'' @ replicate 43 (CHR ''A'') @ ''=''"

definition nix_run :: "up_env \<Rightarrow> string list \<Rightarrow> string up" where
  "nix_run env args = (\<lambda>s. (case ue_query env (rp_files s) args of
     Inl e \<Rightarrow> Inl e
   | Inr (ok, out, err) \<Rightarrow> if ok then Inr (trim out) else Inl (''failed: '' @ trim err), s))"

definition last_line :: "string \<Rightarrow> string" where
  "last_line s = (case rev (lines s) of l # _ \<Rightarrow> l | [] \<Rightarrow> [])"

definition to_sri :: "up_env \<Rightarrow> string \<Rightarrow> string up" where
  "to_sri env h = nix_run env [''nix'', ''--extra-experimental-features'', ''nix-command'', ''hash'', ''convert'',
     ''--hash-algo'', ''sha256'', ''--to'', ''sri'', h]"

definition prefetch_unpack :: "up_env \<Rightarrow> string \<Rightarrow> string up" where
  "prefetch_unpack env url = andthen (nix_run env [''nix-prefetch-url'', ''--unpack'', ''--type'', ''sha256'', url])
     (\<lambda>h. to_sri env (last_line h))"

definition prefetch_file :: "up_env \<Rightarrow> string \<Rightarrow> string up" where
  "prefetch_file env url = andthen (nix_run env [''nix-prefetch-url'', ''--type'', ''sha256'', url])
     (\<lambda>h. to_sri env (last_line h))"

definition nix_build :: "up_env \<Rightarrow> string \<Rightarrow> string up" where
  "nix_build env attr = andthen (nix_run env [''nix'', ''--extra-experimental-features'', ''nix-command flakes'', ''build'',
       ''--no-link'', ''--print-out-paths'', ''--no-pure-eval'', ''.#'' @ attr])
     (\<lambda>out. ret (last_line out))"

definition parse_got :: "up_env \<Rightarrow> string \<Rightarrow> string option" where
  "parse_got env output = (case rev (ue_got env output) of h # _ \<Rightarrow> Some h | [] \<Rightarrow> None)"

definition fake_hash_build :: "up_env \<Rightarrow> string \<Rightarrow> string up" where
  "fake_hash_build env attr = (\<lambda>s.
     (case ue_query env (rp_files s) [''nix'', ''--extra-experimental-features'', ''nix-command flakes'', ''build'',
             ''--no-link'', ''--no-pure-eval'', ''.#'' @ attr] of
        Inl e \<Rightarrow> Inl e
      | Inr (ok, out, err) \<Rightarrow>
          if ok then Inl (attr @ '' built with a fake hash; is the hash used?'')
          else (case parse_got env err of Some h \<Rightarrow> Inr h | None \<Rightarrow> Inl (attr @ '': no hash mismatch in build log'')), s))"

section \<open>Where a pin moves\<close>

record update =
  up_version :: string
  up_digest :: "string option"

definition update_str :: "update \<Rightarrow> string" where
  "update_str u = (case up_digest u of Some d \<Rightarrow> up_version u @ ''@'' @ take 19 d | None \<Rightarrow> up_version u)"

definition pin_constraint :: "pin \<Rightarrow> bool \<Rightarrow> string + constraint option" where
  "pin_constraint p major = (case pn_constraint p of
     Some c \<Rightarrow> if major then Inr None else (case parse_constraint c of Inl e \<Rightarrow> Inl e | Inr cs \<Rightarrow> Inr (Some cs))
   | None \<Rightarrow> Inr None)"

definition opt_regex :: "up_env \<Rightarrow> string option \<Rightarrow> string + pattern option" where
  "opt_regex env p = (case p of
     None \<Rightarrow> Inr None
   | Some t \<Rightarrow> (case ue_regex env t of Inl e \<Rightarrow> Inl e | Inr re \<Rightarrow> Inr (Some re)))"

abbreviation prefix_of :: "string option \<Rightarrow> string" where
  "prefix_of p \<equiv> (case p of Some t \<Rightarrow> t | None \<Rightarrow> [])"

definition pick_from :: "string + string list \<Rightarrow> string \<Rightarrow> string + pattern option \<Rightarrow> pin \<Rightarrow> constraint option \<Rightarrow> string + string option" where
  "pick_from tags pre pat p c = (case tags of
     Inl e \<Rightarrow> Inl e
   | Inr ts \<Rightarrow> (case pat of Inl e \<Rightarrow> Inl e | Inr re \<Rightarrow> Inr (pick ts pre re (pn_version p) c)))"

definition latest_of :: "up_env \<Rightarrow> pin \<Rightarrow> constraint option \<Rightarrow> string + string option" where
  "latest_of env p c = (case pn_source p of
     GithubRelease o' r pre \<Rightarrow> pick_from (release_tags env o' r) (prefix_of pre) (Inr None) p c
   | GithubTag o' r pre pat \<Rightarrow> pick_from (github_tags env o' r) (prefix_of pre) (opt_regex env pat) p c
   | GitCommit o' r branch \<Rightarrow>
       (case branch_head env o' r branch of Inl e \<Rightarrow> Inl e | Inr h \<Rightarrow> Inr (if h \<noteq> pn_version p then Some h else None))
   | UrlTemplate url (Some o') (Some r) pre \<Rightarrow> pick_from (release_tags env o' r) (prefix_of pre) (Inr None) p c
   | UrlTemplate _ _ _ _ \<Rightarrow> Inr None
   | UrlSet _ _ _ _ \<Rightarrow> Inr None
   | HelmRepo r chart \<Rightarrow> pick_from (helm_versions env r chart) [] (Inr None) p c
   | OciTag _ _ _ \<Rightarrow> Inl ''unreachable'')"

definition latest_version :: "up_env \<Rightarrow> pin \<Rightarrow> bool \<Rightarrow> string + string option" where
  "latest_version env p major = (case pin_constraint p major of Inl e \<Rightarrow> Inl e | Inr c \<Rightarrow> latest_of env p c)"

text \<open>The version of an image: its own for one that tracks the digest, else the one that is picked.\<close>

definition image_version :: "up_env \<Rightarrow> pin \<Rightarrow> bool \<Rightarrow> registry \<Rightarrow> string option \<Rightarrow> track option \<Rightarrow> (string + string option) \<times> registry" where
  "image_version env p major g pat trk = (case trk of
     Some TrackDigest \<Rightarrow> (Inr (Some (pn_version p)), g)
   | _ \<Rightarrow> (case pin_constraint p major of
       Inl e \<Rightarrow> (Inl e, g)
     | Inr c \<Rightarrow> (case opt_regex env pat of
         Inl e \<Rightarrow> (Inl e, g)
       | Inr re \<Rightarrow> (case registry_tags env g of
           (Inl e, g') \<Rightarrow> (Inl e, g')
         | (Inr ts, g') \<Rightarrow> (Inr (pick ts [] re (pn_version p) c), g')))))"

definition latest :: "up_env \<Rightarrow> entry \<Rightarrow> bool \<Rightarrow> string + update option" where
  "latest env e major =
     (let p = en_pin e
      in case pn_source p of
           OciTag repository pat trk \<Rightarrow>
             (case image_version env p major (registry_new repository) pat trk of
                (Inl er, _) \<Rightarrow> Inl er
              | (Inr None, _) \<Rightarrow> Inr None
              | (Inr (Some v), g) \<Rightarrow>
                  (case fst (registry_digest env v g) of
                     Inl er \<Rightarrow> Inl er
                   | Inr d \<Rightarrow> Inr (if v \<noteq> pn_version p \<or> pn_digest p \<noteq> Some d then Some \<lparr>up_version = v, up_digest = Some d\<rparr> else None)))
         | _ \<Rightarrow> (case latest_version env p major of
                    Inl er \<Rightarrow> Inl er
                  | Inr r \<Rightarrow> Inr (map_option (\<lambda>v. \<lparr>up_version = v, up_digest = None\<rparr>) r)))"

definition archive_url :: "string \<Rightarrow> string \<Rightarrow> string \<Rightarrow> string" where
  "archive_url o' r ref = ''https://github.com/'' @ o' @ ''/'' @ r @ ''/archive/'' @ ref @ ''.tar.gz''"

definition fetch_url :: "pin \<Rightarrow> string option" where
  "fetch_url p = (case pn_source p of
     GithubRelease o' r pre \<Rightarrow> Some (archive_url o' r (''refs/tags/'' @ prefix_of pre @ pn_version p))
   | GithubTag o' r pre _ \<Rightarrow> Some (archive_url o' r (''refs/tags/'' @ prefix_of pre @ pn_version p))
   | GitCommit o' r _ \<Rightarrow> Some (archive_url o' r (pn_version p))
   | UrlTemplate url _ _ _ \<Rightarrow> Some (replace_str ''{version}'' (pn_version p) url)
   | _ \<Rightarrow> None)"

definition attr :: "up_env \<Rightarrow> entry \<Rightarrow> string" where
  "attr env e = ''legacyPackages.'' @ ue_system env @ ''.pinned.'' @ entry_attr e"

section \<open>The move of a pin\<close>

abbreviation set_pin :: "(pin \<Rightarrow> pin) \<Rightarrow> entry \<Rightarrow> entry" where
  "set_pin f e \<equiv> e\<lparr>en_pin := f (en_pin e)\<rparr>"

definition with_hash :: "string \<Rightarrow> entry \<Rightarrow> entry" where
  "with_hash h = set_pin (\<lambda>p. p\<lparr>pn_hash := Some h\<rparr>)"

definition with_derived :: "string \<Rightarrow> string \<Rightarrow> entry \<Rightarrow> entry" where
  "with_derived k h = set_pin (\<lambda>p. p\<lparr>pn_hashes := AList.update k h (pn_hashes p)\<rparr>)"

definition source_hash :: "up_env \<Rightarrow> entry \<Rightarrow> string up" where
  "source_hash env e = (case (pn_source (en_pin e), fetch_url (en_pin e)) of
     (UrlTemplate _ _ _ _, Some u) \<Rightarrow> prefetch_file env u
   | (_, Some u) \<Rightarrow> prefetch_unpack env u
   | (_, None) \<Rightarrow> andthen (save env (with_hash FAKE_HASH e)) (\<lambda>_. fake_hash_build env (attr env e)))"

definition rehash_derived :: "up_env \<Rightarrow> string \<Rightarrow> entry \<Rightarrow> entry up" where
  "rehash_derived env k e =
     andthen (save env (with_derived k FAKE_HASH e))
     (\<lambda>_. andthen (fake_hash_build env (attr env e))
     (\<lambda>got. andthen (save env (with_derived k got e))
     (\<lambda>_. ret (with_derived k got e))))"

definition rehash :: "up_env \<Rightarrow> update \<Rightarrow> entry \<Rightarrow> entry up" where
  "rehash env u e0 =
     (let e = set_pin (\<lambda>p. p\<lparr>pn_version := up_version u\<rparr>) e0
      in case up_digest u of
           Some d \<Rightarrow> (let e' = set_pin (\<lambda>p. p\<lparr>pn_digest := Some d\<rparr>) e in andthen (save env e') (\<lambda>_. ret e'))
         | None \<Rightarrow>
             andthen (source_hash env e)
             (\<lambda>h. andthen (save env (with_hash h e))
             (\<lambda>_. fold_sem (map fst (pn_hashes (en_pin e))) (rehash_derived env) (with_hash h e))))"

definition restore :: "up_env \<Rightarrow> string \<Rightarrow> string \<Rightarrow> unit up" where
  "restore env path original = fs_write env path original"

section \<open>What a move keeps\<close>

definition pin_ok :: "pin \<Rightarrow> bool" where
  "pin_ok p \<longleftrightarrow> check_pin p = Inr p"

lemma pin_ok_iff:
  "pin_ok p \<longleftrightarrow> (if is_oci (pn_source p) then pn_digest p \<noteq> None else if is_url_set (pn_source p) then pn_hashes p \<noteq> [] else pn_hash p \<noteq> None)"
  by (auto simp: pin_ok_def check_pin_def)

lemma pin_ok_updates [simp]:
  "pin_ok p \<Longrightarrow> pin_ok (p\<lparr>pn_version := v\<rparr>)" "pin_ok p \<Longrightarrow> pin_ok (p\<lparr>pn_digest := Some d\<rparr>)" "pin_ok p \<Longrightarrow> pin_ok (p\<lparr>pn_hash := Some h\<rparr>)"
  "pin_ok p \<Longrightarrow> pin_ok (p\<lparr>pn_constraint := c\<rparr>)" "pin_ok p \<Longrightarrow> pin_ok (p\<lparr>pn_hold := r\<rparr>)"
  by (auto simp: pin_ok_iff)

lemma update_not_Nil [simp]: "AList.update k v m \<noteq> []"
  by (cases m) auto

lemma pin_ok_derived [simp]: "pin_ok p \<Longrightarrow> pin_ok (p\<lparr>pn_hashes := AList.update k h (pn_hashes p)\<rparr>)"
  by (auto simp: pin_ok_iff)

text \<open>The same entry, at another version.\<close>

definition same_entry :: "entry \<Rightarrow> entry \<Rightarrow> bool" where
  "same_entry e e' \<longleftrightarrow> en_id e' = en_id e \<and> en_name e' = en_name e \<and> en_kind e' = en_kind e \<and> en_path e' = en_path e
     \<and> pn_source (en_pin e') = pn_source (en_pin e) \<and> (pin_ok (en_pin e) \<longrightarrow> pin_ok (en_pin e'))"

lemma same_entry_refl [simp]: "same_entry e e"
  by (simp add: same_entry_def)

lemma same_entry_trans: "same_entry a b \<Longrightarrow> same_entry b c \<Longrightarrow> same_entry a c"
  by (simp add: same_entry_def)

lemma same_entry_with [simp]: "same_entry e (with_hash h e)" "same_entry e (with_derived k h e)"
  by (simp_all add: same_entry_def with_hash_def with_derived_def)

text \<open>A property of the repository that a write of \<open>c\<close> to \<open>p\<close> keeps when \<open>ok p c\<close>; writing back what a
  file of \<open>A\<close> holds is such a write.\<close>

locale tree_inv =
  fixes P :: "repo \<Rightarrow> bool" and ok :: "string \<Rightarrow> string \<Rightarrow> bool" and A :: "string set"
  assumes P_calls: "P (s\<lparr>rp_calls := n\<rparr>) = P s"
    and P_report: "P (s\<lparr>rp_report := r\<rparr>) = P s"
    and P_failed: "P (s\<lparr>rp_failed := n\<rparr>) = P s"
    and P_write: "ok p c \<Longrightarrow> P s \<Longrightarrow> P (s\<lparr>rp_files := (rp_files s)(p \<mapsto> c)\<rparr>)"
    and P_read: "p \<in> A \<Longrightarrow> P s \<Longrightarrow> rp_files s p = Some c \<Longrightarrow> ok p c"
begin

lemma keeps_fs_call:
  assumes "keeps P m Q"
  shows "keeps P (fs_call env m) Q"
proof (rule keepsI)
  fix s x
  assume s: "P s"
  then have s': "P (s\<lparr>rp_calls := Suc (rp_calls s)\<rparr>)" by (simp add: P_calls)
  then show "P (snd (fs_call env m s))" using assms by (simp add: fs_call_def Let_def keeps_def)
  assume "fst (fs_call env m s) = Inr x"
  with s' assms show "Q x" by (auto simp: fs_call_def Let_def keeps_def split: if_splits)
qed

lemma keeps_fs_read_any: "(\<And>c. Q c) \<Longrightarrow> keeps P (fs_read env p) Q"
  unfolding fs_read_def by (rule keeps_fs_call) (auto simp: keeps_def)

lemma keeps_fs_read: "p \<in> A \<Longrightarrow> keeps P (fs_read env p) (ok p)"
  unfolding fs_read_def by (rule keeps_fs_call) (auto simp: keeps_def P_read split: option.splits)

lemma keeps_fs_write: "ok p c \<Longrightarrow> Q () \<Longrightarrow> keeps P (fs_write env p c) Q"
  unfolding fs_write_def by (rule keeps_fs_call) (simp add: keeps_def P_write)

lemma keeps_restore: "ok p c \<Longrightarrow> Q () \<Longrightarrow> keeps P (restore env p c) Q"
  unfolding restore_def by (rule keeps_fs_write)

lemma keeps_query: "(\<And>x. Q x) \<Longrightarrow> keeps P (nix_run env args) Q" "(\<And>x. Q x) \<Longrightarrow> keeps P (fake_hash_build env a) Q"
  by (simp_all add: keeps_def nix_run_def fake_hash_build_def)

lemma keeps_prefetch: "(\<And>x. Q x) \<Longrightarrow> keeps P (prefetch_file env u) Q" "(\<And>x. Q x) \<Longrightarrow> keeps P (prefetch_unpack env u) Q"
  "(\<And>x. Q x) \<Longrightarrow> keeps P (nix_build env a) Q"
  unfolding prefetch_file_def prefetch_unpack_def to_sri_def nix_build_def
  by (auto intro!: keeps_andthen_any keeps_query keeps_ret)

lemma keeps_save:
  assumes "same_entry e e'" and "pin_ok (en_pin e)" and "\<And>p. pin_ok p \<Longrightarrow> ok (en_path e) (ue_print env p)" and "Q ()"
  shows "keeps P (save env e') Q"
  using assms by (auto simp: save_def pin_write_def same_entry_def intro!: keeps_fs_write)

lemma keeps_source_hash:
  assumes "pin_ok (en_pin e)" and "\<And>p. pin_ok p \<Longrightarrow> ok (en_path e) (ue_print env p)"
  shows "keeps P (source_hash env e) (\<lambda>_. True)"
proof -
  have "keeps P (andthen (save env (with_hash FAKE_HASH e)) (\<lambda>_. fake_hash_build env (attr env e))) (\<lambda>_. True)"
    by (intro keeps_andthen_any keeps_save [OF _ assms] keeps_query) simp_all
  then show ?thesis
    unfolding source_hash_def by (auto split: source.split option.split intro: keeps_prefetch)
qed

lemma keeps_rehash:
  assumes "pin_ok (en_pin e)" and "\<And>p. pin_ok p \<Longrightarrow> ok (en_path e) (ue_print env p)"
  shows "keeps P (rehash env u e) (same_entry e)"
proof -
  let ?e = "set_pin (\<lambda>p. p\<lparr>pn_version := up_version u\<rparr>) e"
  have e: "same_entry e ?e" "pin_ok (en_pin ?e)" using assms(1) by (simp_all add: same_entry_def)
  have d: "same_entry e (set_pin (\<lambda>p. p\<lparr>pn_digest := Some d\<rparr>) ?e)" for d by (simp add: same_entry_def)
  have one: "keeps P (rehash_derived env k e') (same_entry e)" if "same_entry e e'" for k e'
  proof -
    have x: "same_entry e (with_derived k h e')" for h using that by (rule same_entry_trans) simp
    show ?thesis unfolding rehash_derived_def
      by (intro keeps_andthen_any keeps_save [OF x assms] keeps_query keeps_ret x TrueI)
  qed
  have h: "same_entry e (with_hash h ?e)" for h using e(1) by (rule same_entry_trans) simp
  show ?thesis
    unfolding rehash_def Let_def
    by (intro keeps_case_option keeps_andthen_any keeps_save [OF d assms] keeps_save [OF h assms] keeps_ret d TrueI
        keeps_source_hash keeps_fold_sem one h e(2)) (use assms in simp_all)
qed

lemma keeps_rehash_any:
  assumes "pin_ok (en_pin e)" and "\<And>p. pin_ok p \<Longrightarrow> ok (en_path e) (ue_print env p)"
  shows "keeps P (rehash env u e) (\<lambda>_. True)"
  by (rule keeps_True, rule keeps_rehash [OF assms])

end

text \<open>A pin file that reads as a pin.\<close>

definition readable :: "up_env \<Rightarrow> string \<Rightarrow> bool" where
  "readable env c \<longleftrightarrow> (\<exists>p. ue_parse env c = Inr p \<and> pin_ok p)"

definition all_readable :: "up_env \<Rightarrow> string set \<Rightarrow> repo \<Rightarrow> bool" where
  "all_readable env A s \<longleftrightarrow> (\<forall>p \<in> A. \<exists>c. rp_files s p = Some c \<and> readable env c)"

interpretation readable: tree_inv "all_readable env A" "\<lambda>p c. readable env c" A for env A
  by unfold_locales (auto simp: all_readable_def)

text \<open>Nothing but the files of \<open>A\<close> changes.\<close>

definition same_outside :: "files \<Rightarrow> string set \<Rightarrow> repo \<Rightarrow> bool" where
  "same_outside f A s \<longleftrightarrow> (\<forall>p. p \<notin> A \<longrightarrow> rp_files s p = f p)"

interpretation outside: tree_inv "same_outside f A" "\<lambda>p c. p \<in> A" A for f A
  by unfold_locales (auto simp: same_outside_def)

end
