(* ===== verification/Update.thy ===== *)
theory Update
  imports Pins
begin

text \<open>
  \<^verbatim>\<open>tools/update\<close>: the gates (\<^verbatim>\<open>gate.rs\<close>), the lockfiles (\<^verbatim>\<open>eco.rs\<close>) and the run itself (\<^verbatim>\<open>main.rs\<close>):
  the plan, the bump of pins in groups that are gated and held together, and the update of each
  ecosystem. Lines printed to the terminal are left out, the report is kept,
  with its arrow written \<^verbatim>\<open>->\<close>. The system nix runs on and the GitHub token are constants of a run
  (\<open>ue_system\<close>, \<open>ue_token\<close>).
\<close>

section \<open>Gates\<close>

datatype gate = Nixidy | Hosts | Cargo | Uv | Bun | Devenv

definition gate_str :: "gate \<Rightarrow> string" where
  "gate_str g = (case g of Nixidy \<Rightarrow> ''nixidy render'' | Hosts \<Rightarrow> ''host eval'' | Cargo \<Rightarrow> ''cargo check''
     | Uv \<Rightarrow> ''uv sync/ruff'' | Bun \<Rightarrow> ''bun build'' | Devenv \<Rightarrow> ''devenv shell'')"

text \<open>A \<^verbatim>\<open>BTreeSet<Gate>\<close>: in the order of the declaration.\<close>

definition gate_set :: "gate list \<Rightarrow> gate list" where
  "gate_set gs = filter (\<lambda>g. g \<in> set gs) [Nixidy, Hosts, Cargo, Uv, Bun, Devenv]"

definition CRATES :: "string list" where "CRATES = [''org-bridge'', ''tools/update'']"
definition DEVENVS :: "string list" where "DEVENVS = [''.'', ''embedded'', ''org-bridge'', ''apps/sveltekit-demo'']"

definition tail_lines :: "nat \<Rightarrow> string \<Rightarrow> string" where
  "tail_lines n output = join [newline] (rev (take n (rev (lines output))))"

definition command_str :: "string list \<Rightarrow> string \<Rightarrow> string \<Rightarrow> string" where
  "command_str args dir output = ''`'' @ join '' '' args @ ''` in '' @ dir @ '' failed:'' @ [newline] @ output"

text \<open>A command in a directory of the repository, which may change files.\<close>

definition exec :: "up_env \<Rightarrow> string \<Rightarrow> string list \<Rightarrow> (bool \<times> string \<times> string) up" where
  "exec env dir args = (\<lambda>s. case ue_exec env (rp_files s) dir args of (r, f) \<Rightarrow> (r, s\<lparr>rp_files := f\<rparr>))"

definition sh :: "up_env \<Rightarrow> string \<Rightarrow> string list \<Rightarrow> unit up" where
  "sh env dir args = andthen (exec env dir args)
     (\<lambda>(ok, out, err). if ok then ret () else throw (command_str args dir (tail_lines 20 (out @ err))))"

definition have_bin :: "up_env \<Rightarrow> string \<Rightarrow> bool up" where
  "have_bin env bin = gets (\<lambda>s. case ue_query env (rp_files s) [bin, ''--version''] of Inr (ok, _, _) \<Rightarrow> ok | Inl _ \<Rightarrow> False)"

definition nix :: "up_env \<Rightarrow> string list \<Rightarrow> string up" where
  "nix env args = (\<lambda>s. (case ue_query env (rp_files s) ([''nix'', ''--extra-experimental-features'', ''nix-command flakes''] @ args @ [''--no-pure-eval'']) of
     Inl e \<Rightarrow> Inl e
   | Inr (ok, out, err) \<Rightarrow>
       if ok then Inr (trim out)
       else Inl (trim (case find (\<lambda>l. contains l ''error'') (rev (lines err)) of Some l \<Rightarrow> l | None \<Rightarrow> [])), s))"

type_synonym host_evals = "(string \<times> (string + string)) list"

definition eval_host :: "up_env \<Rightarrow> string \<Rightarrow> string \<Rightarrow> host_evals \<Rightarrow> host_evals up" where
  "eval_host env cls n out =
     try_sem (nix env [''eval'', ''--raw'', ''.#'' @ cls @ ''.'' @ quoted n @ ''.config.system.build.toplevel.drvPath''])
       (\<lambda>e. ret (AList.update n (Inl e) out)) (\<lambda>d. ret (AList.update n (Inr d) out))"

definition eval_class :: "up_env \<Rightarrow> string \<Rightarrow> host_evals \<Rightarrow> host_evals up" where
  "eval_class env cls out =
     andthen (nix env [''eval'', ''--json'', ''.#'' @ cls, ''--apply'', ''builtins.attrNames''])
     (\<lambda>names. andthen (lift_result (case ue_json env names of Inl e \<Rightarrow> Inl e | Inr j \<Rightarrow> string_array j))
     (\<lambda>ns. fold_sem ns (eval_host env cls) out))"

definition eval_hosts :: "up_env \<Rightarrow> host_evals up" where
  "eval_hosts env = fold_sem [''nixosConfigurations'', ''darwinConfigurations''] (eval_class env) []"

definition regressions :: "host_evals \<Rightarrow> host_evals \<Rightarrow> string list" where
  "regressions before after =
     List.map_filter (\<lambda>(n, r). case (r, map_of before n) of (Inl e, Some (Inr _)) \<Rightarrow> Some (n @ '': '' @ e) | _ \<Rightarrow> None)
       (sort_key fst after)"

definition is_file :: "files \<Rightarrow> string \<Rightarrow> bool" where
  "is_file f p \<longleftrightarrow> f p \<noteq> None"

definition cargo_gate :: "up_env \<Rightarrow> unit up" where
  "cargo_gate env =
     andthen (for_each CRATES (\<lambda>c. andthen (gets (\<lambda>s. is_file (rp_files s) (c @ ''/Cargo.toml'')))
       (\<lambda>there. whenever there (sh env c [''cargo'', ''check'', ''--all-targets'']))))
     (\<lambda>_. andthen (gets (\<lambda>s. is_file (rp_files s) ''embedded/Cargo.toml''))
     (\<lambda>there. if \<not> there then ret ()
        else andthen (have_bin env ''devenv'')
          (\<lambda>d. whenever d (sh env ''embedded'' [''devenv'', ''shell'', ''--no-reload'', ''--'', ''cargo'', ''check'']))))"

definition run_gate :: "up_env \<Rightarrow> host_evals option \<Rightarrow> gate \<Rightarrow> unit up" where
  "run_gate env hosts_before g = (case g of
     Nixidy \<Rightarrow> andthen (nix env [''build'', ''--no-link'', ''.#legacyPackages.'' @ ue_system env @ ''.nixidyEnvs.'' @ ue_system env
         @ ''.prod.config.build.environmentPackage'']) (\<lambda>_. ret ())
   | Hosts \<Rightarrow> (case hosts_before of
       None \<Rightarrow> throw ''host baseline was not evaluated''
     | Some before \<Rightarrow> andthen (eval_hosts env) (\<lambda>after. let bad = regressions before after
         in if bad = [] then ret () else throw (join [newline] bad)))
   | Cargo \<Rightarrow> cargo_gate env
   | Uv \<Rightarrow> andthen (sh env ''pulumi'' [''uv'', ''sync'', ''--locked''])
       (\<lambda>_. sh env ''pulumi'' [''uv'', ''run'', ''--locked'', ''ruff'', ''check'', ''.'', ''--extend-exclude'', ''sdks''])
   | Bun \<Rightarrow> andthen (sh env ''apps/sveltekit-demo'' [''bun'', ''install'', ''--frozen-lockfile''])
       (\<lambda>_. sh env ''apps/sveltekit-demo'' [''bun'', ''run'', ''build''])
   | Devenv \<Rightarrow> andthen (have_bin env ''devenv'')
       (\<lambda>d. if \<not> d then ret ()
          else for_each DEVENVS (\<lambda>dir. sh env dir [''devenv'', ''shell'', ''--no-reload'', ''--'', ''true''])))"

section \<open>The plan\<close>

datatype eco = EFlake | EDevenv | ECargo | EUv | EBun

definition ALL_ECOS :: "eco list" where "ALL_ECOS = [EFlake, EDevenv, ECargo, EUv, EBun]"

definition eco_name :: "eco \<Rightarrow> string" where
  "eco_name e = (case e of EFlake \<Rightarrow> ''flake'' | EDevenv \<Rightarrow> ''devenv'' | ECargo \<Rightarrow> ''cargo'' | EUv \<Rightarrow> ''uv'' | EBun \<Rightarrow> ''bun'')"

definition parse_eco :: "string \<Rightarrow> eco option" where
  "parse_eco s = find (\<lambda>e. eco_name e = s) ALL_ECOS"

definition eco_gates :: "eco \<Rightarrow> gate list" where
  "eco_gates e = (case e of EFlake \<Rightarrow> [Nixidy, Hosts] | EDevenv \<Rightarrow> [Devenv] | ECargo \<Rightarrow> [Cargo] | EUv \<Rightarrow> [Uv] | EBun \<Rightarrow> [Bun])"

definition eco_sort :: "eco list \<Rightarrow> eco list" where
  "eco_sort es = filter (\<lambda>e. e \<in> set es) ALL_ECOS"

record plan =
  pl_kinds :: "kind list"
  pl_ecos :: "eco list"
  pl_pins :: "string list"
  pl_eco_pkgs :: "(eco \<times> string list) list"

fun plan_only :: "string list \<Rightarrow> kind list \<Rightarrow> eco list \<Rightarrow> string + kind list \<times> eco list" where
  "plan_only [] ks es = Inr (ks, es)"
| "plan_only (x # xs) ks es = (case (parse_kind x, parse_eco x) of
     (Some k, _) \<Rightarrow> plan_only xs (ks @ [k]) es
   | (None, Some e) \<Rightarrow> plan_only xs ks (es @ [e])
   | (None, None) \<Rightarrow> Inl (''unknown kind '' @ quoted x))"

definition add_pkg :: "eco \<Rightarrow> string \<Rightarrow> (eco \<times> string list) list \<Rightarrow> (eco \<times> string list) list" where
  "add_pkg e n m = AList.update e ((case map_of m e of Some ns \<Rightarrow> ns | None \<Rightarrow> []) @ [n]) m"

fun plan_pkgs :: "string list \<Rightarrow> string list \<Rightarrow> (eco \<times> string list) list \<Rightarrow> string + string list \<times> (eco \<times> string list) list" where
  "plan_pkgs [] pins m = Inr (pins, m)"
| "plan_pkgs (p # ps) pins m = (case split_once (CHR '':'') p of
     Some (e, name) \<Rightarrow> (case parse_eco e of
         Some eco \<Rightarrow> if eco = EDevenv then Inl (''bad --pkg '' @ quoted p) else plan_pkgs ps pins (add_pkg eco name m)
       | None \<Rightarrow> Inl (''bad --pkg '' @ quoted p))
   | None \<Rightarrow> plan_pkgs ps (pins @ [p]) m)"

definition make_plan :: "string list \<Rightarrow> string list \<Rightarrow> bool \<Rightarrow> string + plan" where
  "make_plan only pkg all_by_default =
     (case plan_only only [] [] of
        Inl e \<Rightarrow> Inl e
      | Inr (ks, es) \<Rightarrow>
          (case plan_pkgs pkg [] [] of
             Inl e \<Rightarrow> Inl e
           | Inr (pins, m) \<Rightarrow>
               (let explicit = (only \<noteq> [] \<or> pkg \<noteq> []);
                    ks1 = (if \<not> explicit then [Src, Chart, Image] else ks);
                    es1 = (if \<not> explicit \<and> all_by_default then ALL_ECOS else es);
                    ks2 = (if pins \<noteq> [] \<and> ks1 = [] then [Src, Chart, Image] else ks1)
                in Inr \<lparr>pl_kinds = ks2, pl_ecos = eco_sort (es1 @ map fst m), pl_pins = pins, pl_eco_pkgs = m\<rparr>)))"

section \<open>Pins in groups\<close>

definition pin_gates :: "up_env \<Rightarrow> files \<Rightarrow> entry \<Rightarrow> gate list" where
  "pin_gates env f e =
     (if en_kind e \<noteq> Src then [Nixidy]
      else let out = (case ue_query env f [''git'', ''grep'', ''-l'', ''-F'', ''-e'', ''pinned.'' @ en_name e,
                         ''-e'', ''pinned.'' @ quoted (en_name e), ''--'', ''*.nix''] of
                        Inr (_, o', _) \<Rightarrow> o'
                      | Inl _ \<Rightarrow> [])
           in gate_set (map (\<lambda>l. if starts_with l ''nixidy/'' then Nixidy else Hosts)
                (filter (\<lambda>l. \<not> starts_with l ''pkgs/'') (lines out))))"

record bumped =
  bm_entry :: entry
  bm_original :: string
  bm_new :: string

record group =
  gr_lead :: bumped
  gr_followers :: "bumped list"
  gr_to :: update

definition group_files :: "group \<Rightarrow> bumped list" where
  "group_files g = gr_lead g # gr_followers g"

definition group_label :: "group \<Rightarrow> string" where
  "group_label g =
     (let f = map (\<lambda>b. en_id (bm_entry b)) (gr_followers g); l = en_id (bm_entry (gr_lead g))
      in if f = [] then ''`'' @ l @ ''`'' else ''`'' @ l @ ''` (+ `'' @ join ''`, `'' f @ ''`)'')"

definition followers :: "entry list \<Rightarrow> string \<Rightarrow> entry list" where
  "followers all i = filter (\<lambda>f. pn_follows (en_pin f) = Some i) all"

record run_cfg =
  rc_all :: "entry list"
  rc_hosts_before :: "host_evals option"
  rc_no_gate :: bool
  rc_major :: bool

definition note_line :: "string \<Rightarrow> unit up" where
  "note_line l = (\<lambda>s. (Inr (), s\<lparr>rp_report := rp_report s @ [l]\<rparr>))"

definition count_failed :: "unit up" where
  "count_failed = (\<lambda>s. (Inr (), s\<lparr>rp_failed := Suc (rp_failed s)\<rparr>))"

definition run_gates :: "up_env \<Rightarrow> run_cfg \<Rightarrow> gate list \<Rightarrow> unit up" where
  "run_gates env cfg gs =
     (if rc_no_gate cfg then ret ()
      else for_each gs (\<lambda>g. wrap (\<lambda>e. ''fails '' @ gate_str g @ '': '' @ e) (run_gate env (rc_hosts_before cfg) g)))"

definition image_follower :: "up_env \<Rightarrow> chart list \<Rightarrow> chart list \<Rightarrow> string \<Rightarrow> entry \<Rightarrow> entry up" where
  "image_follower env old new repository f =
     andthen (lift_result (tag old new repository (pn_version (en_pin f))))
     (\<lambda>t. if t = pn_version (en_pin f) then ret f
        else andthen (lift_result (fst (registry_digest env t (registry_new repository))))
          (\<lambda>d. rehash env \<lparr>up_version = t, up_digest = Some d\<rparr> f))"

definition bump_follower :: "up_env \<Rightarrow> string \<Rightarrow> (chart list \<times> chart list) option \<Rightarrow> entry \<Rightarrow> entry up" where
  "bump_follower env version cs f = (case (pn_source (en_pin f), cs) of
     (OciTag repository _ _, Some (old, new)) \<Rightarrow> image_follower env old new repository f
   | (OciTag _ _ _, None) \<Rightarrow> throw ''no charts to read tags from''
   | _ \<Rightarrow> rehash env \<lparr>up_version = version, up_digest = None\<rparr> f)"

definition bump_followers_step :: "up_env \<Rightarrow> string \<Rightarrow> (chart list \<times> chart list) option \<Rightarrow> entry \<Rightarrow> bumped list \<Rightarrow> bumped list up" where
  "bump_followers_step env version cs f done' =
     andthen (fs_read env (en_path f))
     (\<lambda>original. try_sem (bump_follower env version cs f)
        (\<lambda>e. andthen (ignore (restore env (en_path f) original))
           (\<lambda>_. andthen (for_each done' (\<lambda>b. ignore (restore env (en_path (bm_entry b)) (bm_original b))))
           (\<lambda>_. throw (''follower `'' @ en_id f @ ''`: '' @ e))))
        (\<lambda>f'. andthen (fs_read env (en_path f))
           (\<lambda>new. ret (done' @ [\<lparr>bm_entry = f', bm_original = original, bm_new = new\<rparr>]))))"

definition bump_followers :: "up_env \<Rightarrow> run_cfg \<Rightarrow> entry \<Rightarrow> string \<Rightarrow> (chart list \<times> chart list) option \<Rightarrow> bumped list up" where
  "bump_followers env cfg lead version cs =
     fold_sem (followers (rc_all cfg) (en_id lead)) (bump_followers_step env version cs) []"

definition lead_charts :: "up_env \<Rightarrow> run_cfg \<Rightarrow> entry \<Rightarrow> chart list option up" where
  "lead_charts env cfg e =
     (if list_ex (\<lambda>f. is_oci (pn_source (en_pin f))) (followers (rc_all cfg) (en_id e))
      then andthen (nix_build env (attr env e))
        (\<lambda>out. andthen (lift_result (charts (ue_yaml env) (ue_store env out))) (\<lambda>cs. ret (Some cs)))
      else ret None)"

definition give_up :: "string \<Rightarrow> group list \<Rightarrow> group list up" where
  "give_up line gs = andthen count_failed (\<lambda>_. andthen (note_line line) (\<lambda>_. ret gs))"

definition give_back :: "up_env \<Rightarrow> entry \<Rightarrow> string \<Rightarrow> string \<Rightarrow> group list \<Rightarrow> group list up" where
  "give_back env e original line gs =
     andthen count_failed (\<lambda>_. andthen (restore env (en_path e) original) (\<lambda>_. andthen (note_line line) (\<lambda>_. ret gs)))"

definition bump_lead :: "up_env \<Rightarrow> run_cfg \<Rightarrow> entry \<Rightarrow> update \<Rightarrow> chart list option \<Rightarrow> (entry \<times> (chart list \<times> chart list) option) up" where
  "bump_lead env cfg e u before =
     andthen (rehash env u e)
     (\<lambda>e'. case before of
        None \<Rightarrow> ret (e', None)
      | Some b \<Rightarrow> andthen (lead_charts env cfg e') (\<lambda>a. ret (e', Some (b, case a of Some cs \<Rightarrow> cs | None \<Rightarrow> []))))"

definition fails_line :: "entry \<Rightarrow> update \<Rightarrow> string \<Rightarrow> string" where
  "fails_line e u why = ''- `'' @ en_id e @ ''`: failed to bump to '' @ update_str u @ '': '' @ why"

definition bump_group :: "up_env \<Rightarrow> run_cfg \<Rightarrow> entry \<Rightarrow> update \<Rightarrow> group list \<Rightarrow> group list up" where
  "bump_group env cfg e u gs =
     andthen (fs_read env (en_path e))
     (\<lambda>original. try_sem (lead_charts env cfg e)
        (\<lambda>er. give_up (''- `'' @ en_id e @ ''`: error reading charts: '' @ er) gs)
        (\<lambda>before. try_sem (bump_lead env cfg e u before)
           (\<lambda>er. give_back env e original (fails_line e u er) gs)
           (\<lambda>(e', cs). andthen (fs_read env (en_path e))
              (\<lambda>new. try_sem (bump_followers env cfg e' (up_version u) cs)
                 (\<lambda>er. give_back env e original (fails_line e u er) gs)
                 (\<lambda>fs. ret (gs @ [\<lparr>gr_lead = \<lparr>bm_entry = e', bm_original = original, bm_new = new\<rparr>, gr_followers = fs, gr_to = u\<rparr>]))))))"

definition bump_entry :: "up_env \<Rightarrow> run_cfg \<Rightarrow> entry \<Rightarrow> group list \<Rightarrow> group list up" where
  "bump_entry env cfg e gs = (case latest env e (rc_major cfg) of
     Inl er \<Rightarrow> give_up (''- `'' @ en_id e @ ''`: error checking: '' @ er) gs
   | Inr None \<Rightarrow> ret gs
   | Inr (Some u) \<Rightarrow> (case pn_hold (en_pin e) of
       Some reason \<Rightarrow> andthen (note_line (''- `'' @ en_id e @ ''`: held at '' @ pn_version (en_pin e) @ '' ('' @ update_str u
           @ '' available): '' @ reason)) (\<lambda>_. ret gs)
     | None \<Rightarrow> bump_group env cfg e u gs))"

definition report_bumped :: "up_env \<Rightarrow> group \<Rightarrow> unit up" where
  "report_bumped env g =
     andthen (lift_result (ue_parse env (bm_original (gr_lead g))))
     (\<lambda>p. note_line (''- '' @ group_label g @ '': '' @ pn_version p @ '' -> '' @ update_str (gr_to g)))"

text \<open>The date, as \<^verbatim>\<open>date -u +%F\<close> prints it.\<close>

definition today :: "up_env \<Rightarrow> files \<Rightarrow> string" where
  "today env f = (case ue_query env f [''date'', ''-u'', ''+%F''] of Inr (_, out, _) \<Rightarrow> trim out | Inl _ \<Rightarrow> [])"

definition held_pin :: "pin \<Rightarrow> update \<Rightarrow> string \<Rightarrow> pin" where
  "held_pin p u reason =
     (let c = (if parse_version (up_version u) \<noteq> None \<and> up_version u \<noteq> pn_version p
               then Some (case pn_constraint p of Some c \<Rightarrow> c @ '', <'' @ up_version u | None \<Rightarrow> ''<'' @ up_version u)
               else pn_constraint p)
      in p\<lparr>pn_constraint := c, pn_hold := Some reason\<rparr>)"

definition first_line :: "string \<Rightarrow> string" where
  "first_line s = (case lines s of l # _ \<Rightarrow> l | [] \<Rightarrow> s)"

definition hold :: "up_env \<Rightarrow> string \<Rightarrow> group \<Rightarrow> unit up" where
  "hold env why g =
     andthen (for_each (gr_followers g) (\<lambda>b. restore env (en_path (bm_entry b)) (bm_original b)))
     (\<lambda>_. andthen (lift_result (ue_parse env (bm_original (gr_lead g))))
     (\<lambda>p. andthen (gets (\<lambda>s. today env (rp_files s)))
     (\<lambda>d. andthen (pin_write env (en_path (bm_entry (gr_lead g)))
            (held_pin p (gr_to g) (update_str (gr_to g) @ '' '' @ first_line why @ '' ('' @ d @ '')'')))
     (\<lambda>_. andthen count_failed
     (\<lambda>_. note_line (''- '' @ group_label g @ '': '' @ update_str (gr_to g) @ '' '' @ first_line why @ ''; now held''))))))"

definition group_gates :: "up_env \<Rightarrow> files \<Rightarrow> group list \<Rightarrow> gate list" where
  "group_gates env f gs = gate_set (concat (map (\<lambda>g. concat (map (\<lambda>b. pin_gates env f (bm_entry b)) (group_files g))) gs))"

definition settle :: "up_env \<Rightarrow> group \<Rightarrow> string + unit \<Rightarrow> unit up" where
  "settle env g r = (case r of Inr _ \<Rightarrow> report_bumped env g | Inl why \<Rightarrow> hold env why g)"

definition gate_now :: "up_env \<Rightarrow> run_cfg \<Rightarrow> group list \<Rightarrow> (string + unit) up" where
  "gate_now env cfg gs = andthen (gets (\<lambda>s. group_gates env (rp_files s) gs))
     (\<lambda>gates. try_sem (run_gates env cfg gates) (\<lambda>e. ret (Inl e)) (\<lambda>_. ret (Inr ())))"

definition isolate :: "up_env \<Rightarrow> run_cfg \<Rightarrow> group \<Rightarrow> unit up" where
  "isolate env cfg g =
     andthen (for_each (group_files g) (\<lambda>b. fs_write env (en_path (bm_entry b)) (bm_new b)))
     (\<lambda>_. andthen (gate_now env cfg [g]) (settle env g))"

definition gate_groups :: "up_env \<Rightarrow> run_cfg \<Rightarrow> group list \<Rightarrow> unit up" where
  "gate_groups env cfg gs =
     (if gs = [] then ret ()
      else andthen (gate_now env cfg gs)
        (\<lambda>together. if \<not> isl together \<or> length gs = 1
           then for_each gs (\<lambda>g. settle env g together)
           else andthen (for_each (concat (map group_files gs)) (\<lambda>b. restore env (en_path (bm_entry b)) (bm_original b)))
             (\<lambda>_. for_each gs (isolate env cfg))))"

definition bump_pins :: "up_env \<Rightarrow> run_cfg \<Rightarrow> entry list \<Rightarrow> unit up" where
  "bump_pins env cfg entries = andthen (fold_sem entries (bump_entry env cfg) []) (gate_groups env cfg)"

section \<open>Lockfiles\<close>

definition CARGO_DIRS :: "string list" where
  "CARGO_DIRS = [''embedded'', ''embedded/boards/arduino-uno-r3'', ''org-bridge'', ''tools/update'']"
definition DEVENV_DIRS :: "string list" where
  "DEVENV_DIRS = [''.'', ''embedded'', ''org-bridge'', ''apps/sveltekit-demo'']"
definition BUN_DIR :: string where "BUN_DIR = ''apps/sveltekit-demo''"
definition UV_DIR :: string where "UV_DIR = ''pulumi''"

definition in_dir :: "string \<Rightarrow> string \<Rightarrow> string" where
  "in_dir d f = (if d = ''.'' then f else d @ ''/'' @ f)"

definition eco_run :: "up_env \<Rightarrow> string \<Rightarrow> string list \<Rightarrow> unit up" where
  "eco_run env dir args = andthen (exec env dir args)
     (\<lambda>(ok, out, err). if ok then ret () else throw (command_str args dir (tail_lines 15 err)))"

definition flake_inputs :: "up_env \<Rightarrow> string list up" where
  "flake_inputs env = andthen (fs_read env ''flake.lock'')
     (\<lambda>text. andthen (lift_result (ue_json env text))
     (\<lambda>lock. ret (case jget (jget (jget lock ''nodes'') (case as_str (jget lock ''root'') of Some r \<Rightarrow> r | None \<Rightarrow> ''root'')) ''inputs'' of
        JObj ms \<Rightarrow> map fst ms
      | _ \<Rightarrow> [])))"

definition flake :: "up_env \<Rightarrow> string list \<Rightarrow> unit up" where
  "flake env inputs = eco_run env ''.'' ([''nix'', ''--extra-experimental-features'', ''nix-command flakes'', ''flake'', ''update''] @ inputs)"

definition flake_all :: "up_env \<Rightarrow> unit up" where
  "flake_all env = andthen (flake_inputs env) (flake env)"

definition devenv :: "up_env \<Rightarrow> unit up" where
  "devenv env = for_each DEVENV_DIRS (\<lambda>d. andthen (gets (\<lambda>s. is_file (rp_files s) (in_dir d ''devenv.lock'')))
     (\<lambda>there. whenever there (eco_run env d [''devenv'', ''update''])))"

definition cargo_dirs :: "files \<Rightarrow> string list" where
  "cargo_dirs f = filter (\<lambda>d. is_file f (in_dir d ''Cargo.lock'')) CARGO_DIRS"

definition cargo_one :: "up_env \<Rightarrow> string list \<Rightarrow> string \<Rightarrow> unit up" where
  "cargo_one env packages d =
     try_sem (eco_run env d ([''cargo'', ''update''] @ concat (map (\<lambda>p. [''-p'', p]) packages)))
       (\<lambda>e. if packages \<noteq> [] \<and> contains e ''did not match any packages'' then ret () else throw e)
       (\<lambda>_. ret ())"

definition cargo :: "up_env \<Rightarrow> string list \<Rightarrow> unit up" where
  "cargo env packages = andthen (gets (\<lambda>s. cargo_dirs (rp_files s))) (\<lambda>ds. for_each ds (cargo_one env packages))"

definition uv :: "up_env \<Rightarrow> string list \<Rightarrow> unit up" where
  "uv env packages = eco_run env UV_DIR ([''uv'', ''lock''] @ (if packages = [] then [''--upgrade''] else [])
     @ concat (map (\<lambda>p. [''--upgrade-package'', p]) packages))"

definition bun :: "up_env \<Rightarrow> string list \<Rightarrow> bool \<Rightarrow> unit up" where
  "bun env packages major =
     andthen (eco_run env BUN_DIR ([''bun'', ''update''] @ (if major then [''--latest''] else []) @ packages))
     (\<lambda>_. eco_run env BUN_DIR [''bun2nix'', ''-o'', ''bun.nix''])"

text \<open>Manifests: a TOML document is what \<^verbatim>\<open>toml_edit\<close> reads, its tables as objects.\<close>

definition table_get :: "json \<Rightarrow> string \<Rightarrow> json list" where
  "table_get t k = (case t of JObj ms \<Rightarrow> (case map_of ms k of Some v \<Rightarrow> [v] | None \<Rightarrow> []) | _ \<Rightarrow> [])"

definition dependency_tables :: "json \<Rightarrow> json list" where
  "dependency_tables doc =
     (let names = [''dependencies'', ''dev-dependencies'', ''build-dependencies'']
      in concat (map (table_get doc) names)
         @ concat (map (\<lambda>ws. table_get ws ''dependencies'') (table_get doc ''workspace''))
         @ concat (map (\<lambda>ts. case ts of JObj ms \<Rightarrow> concat (map (\<lambda>(_, t). concat (map (table_get t) names)) ms) | _ \<Rightarrow> []) (table_get doc ''target'')))"

definition dep_req :: "json \<Rightarrow> string option" where
  "dep_req dep = (case dep of JStr r \<Rightarrow> Some r | _ \<Rightarrow> as_str (jget dep ''version''))"

definition table_reqs :: "json \<Rightarrow> (string \<times> string) list" where
  "table_reqs t = (case t of
     JObj ms \<Rightarrow> List.map_filter (\<lambda>(n, d). map_option (\<lambda>r. (n, r)) (dep_req d)) ms
   | _ \<Rightarrow> [])"

text \<open>A \<^verbatim>\<open>BTreeMap\<close> of requirements: the last one of a name wins; iterated in the order of names.\<close>

definition btree :: "(string \<times> string) list \<Rightarrow> (string \<times> string) list" where
  "btree rs = sort_key fst (fold (\<lambda>(k, v) m. AList.update k v m) rs [])"

definition manifest_reqs :: "up_env \<Rightarrow> string \<Rightarrow> (string \<times> string) list option" where
  "manifest_reqs env text = map_option (\<lambda>doc. btree (concat (map table_reqs (dependency_tables doc)))) (ue_toml env text)"

definition held_line :: "string \<Rightarrow> string option" where
  "held_line l = (case strip_prefix ''# hold:'' (trim l) of
     Some r \<Rightarrow> (case split_whitespace r of w # _ \<Rightarrow> Some w | [] \<Rightarrow> None)
   | None \<Rightarrow> None)"

definition held :: "string \<Rightarrow> string list" where
  "held text = List.map_filter held_line (lines text)"

definition names_dep :: "string \<Rightarrow> string \<Rightarrow> bool" where
  "names_dep name line =
     (let t = dropWhile is_space line
      in starts_with t (name @ '' '') \<or> starts_with t (name @ ''='') \<or> starts_with t (name @ ''.''))"

definition hold_mark :: "string \<Rightarrow> string \<Rightarrow> string \<Rightarrow> string" where
  "hold_mark name reason line = takeWhile is_space line @ ''# hold: '' @ name @ '' '' @ reason"

fun hold_lines :: "string \<Rightarrow> string \<Rightarrow> string list \<Rightarrow> string list" where
  "hold_lines name reason [] = []"
| "hold_lines name reason (l # ls) =
     (if names_dep name l then hold_mark name reason l # l # ls else l # hold_lines name reason ls)"

definition add_hold :: "string \<Rightarrow> string \<Rightarrow> string \<Rightarrow> string" where
  "add_hold text name reason = concat (map (\<lambda>l. l @ [newline]) (hold_lines name reason (lines text)))"

definition manifests :: "up_env \<Rightarrow> files \<Rightarrow> string \<Rightarrow> string list" where
  "manifests env f dir =
     in_dir dir ''Cargo.toml'' #
     concat (map (\<lambda>sub. case ue_dirs env (in_dir dir sub) of
         None \<Rightarrow> []
       | Some names \<Rightarrow> map (\<lambda>n. in_dir dir sub @ ''/'' @ n @ ''/Cargo.toml'')
           (filter (\<lambda>n. is_file f (in_dir dir sub @ ''/'' @ n @ ''/Cargo.toml'') \<and> n \<noteq> ''arduino-uno-r3'') names))
       [''boards'', ''shared'', ''apps''])"

definition eco_files :: "up_env \<Rightarrow> files \<Rightarrow> eco \<Rightarrow> string list" where
  "eco_files env f e = (case e of
     EFlake \<Rightarrow> [''flake.lock'']
   | EDevenv \<Rightarrow> map (\<lambda>d. in_dir d ''devenv.lock'') DEVENV_DIRS
   | ECargo \<Rightarrow> concat (map (\<lambda>d. manifests env f d @ [in_dir d ''Cargo.lock'']) (cargo_dirs f))
   | EUv \<Rightarrow> [''pulumi/uv.lock'', ''pulumi/pyproject.toml'']
   | EBun \<Rightarrow> map (in_dir BUN_DIR) [''bun.lock'', ''bun.nix'', ''package.json''])"

section \<open>The update of an ecosystem\<close>

text \<open>\<^verbatim>\<open>read_to_string(f).ok()\<close>, and the removal of a file that was not there before.\<close>

definition try_read :: "up_env \<Rightarrow> string \<Rightarrow> string option up" where
  "try_read env p = try_sem (fs_read env p) (\<lambda>_. ret None) (\<lambda>c. ret (Some c))"

definition fs_remove :: "up_env \<Rightarrow> string \<Rightarrow> unit up" where
  "fs_remove env p = fs_call env (\<lambda>s. (Inr (), s\<lparr>rp_files := (rp_files s)(p := None)\<rparr>))"

definition snapshot :: "up_env \<Rightarrow> string list \<Rightarrow> (string \<times> string option) list up" where
  "snapshot env ps = fold_sem ps (\<lambda>p acc. andthen (try_read env p) (\<lambda>c. ret (acc @ [(p, c)]))) []"

definition restore_one :: "up_env \<Rightarrow> string \<times> string option \<Rightarrow> unit up" where
  "restore_one env = (\<lambda>(p, c). case c of
     Some t \<Rightarrow> fs_write env p t
   | None \<Rightarrow> andthen (gets (\<lambda>s. is_file (rp_files s) p)) (\<lambda>there. whenever there (fs_remove env p)))"

definition restore_all :: "up_env \<Rightarrow> (string \<times> string option) list \<Rightarrow> unit up" where
  "restore_all env snap = for_each snap (restore_one env)"

definition changed :: "up_env \<Rightarrow> (string \<times> string option) list \<Rightarrow> string list up" where
  "changed env snap = fold_sem snap
     (\<lambda>(p, c) acc. andthen (try_read env p) (\<lambda>c'. ret (if c' \<noteq> c then acc @ [p] else acc))) []"

definition eco_update :: "up_env \<Rightarrow> run_cfg \<Rightarrow> eco \<Rightarrow> string list \<Rightarrow> unit up" where
  "eco_update env cfg e pkgs = (case e of
     EFlake \<Rightarrow> if pkgs \<noteq> [] then flake env pkgs else flake_all env
   | EDevenv \<Rightarrow> devenv env
   | ECargo \<Rightarrow> cargo env pkgs
   | EUv \<Rightarrow> uv env pkgs
   | EBun \<Rightarrow> bun env pkgs (rc_major cfg))"

definition revert :: "up_env \<Rightarrow> (string \<times> string option) list \<Rightarrow> string \<Rightarrow> unit up" where
  "revert env snap line = andthen (restore_all env snap) (\<lambda>_. andthen count_failed (\<lambda>_. note_line line))"

definition eco_gate :: "up_env \<Rightarrow> run_cfg \<Rightarrow> eco \<Rightarrow> (string \<times> string option) list \<Rightarrow> string list \<Rightarrow> unit up" where
  "eco_gate env cfg e snap ch =
     (if ch = [] then ret ()
      else try_sem (run_gates env cfg (gate_set (eco_gates e)))
        (\<lambda>why. revert env snap (''- '' @ eco_name e @ '': reverted, '' @ why))
        (\<lambda>_. note_line (''- '' @ eco_name e @ '': updated '' @ join '', '' ch)))"

definition eco_plain :: "up_env \<Rightarrow> run_cfg \<Rightarrow> eco \<Rightarrow> string list \<Rightarrow> (string \<times> string option) list \<Rightarrow> unit up" where
  "eco_plain env cfg e pkgs snap =
     try_sem (eco_update env cfg e pkgs)
       (\<lambda>err. revert env snap (''- '' @ eco_name e @ '': update failed: '' @ err))
       (\<lambda>_. andthen (changed env snap) (eco_gate env cfg e snap))"

text \<open>\<^verbatim>\<open>cargo upgrade --incompatible\<close> per lockfile.\<close>

definition read_all :: "up_env \<Rightarrow> string list \<Rightarrow> string \<Rightarrow> (string \<times> string) list up" where
  "read_all env ms lock = fold_sem (ms @ [lock])
     (\<lambda>p acc. andthen (try_read env p) (\<lambda>c. ret (case c of Some t \<Rightarrow> acc @ [(p, t)] | None \<Rightarrow> acc))) []"

definition is_manifest :: "string \<Rightarrow> bool" where
  "is_manifest p \<longleftrightarrow> p = ''Cargo.toml'' \<or> ends_with p ''/Cargo.toml''"

definition file_reqs :: "up_env \<Rightarrow> (string \<times> string) list \<Rightarrow> (string \<times> string) list" where
  "file_reqs env fs = btree (concat (List.map_filter (\<lambda>(p, c). if is_manifest p then manifest_reqs env c else None) fs))"

definition moved_reqs :: "(string \<times> string) list \<Rightarrow> (string \<times> string) list \<Rightarrow> (string \<times> string \<times> string) list" where
  "moved_reqs old new =
     List.map_filter (\<lambda>(n, r). case map_of old n of Some q \<Rightarrow> if q \<noteq> r then Some (n, q, r) else None | None \<Rightarrow> None) new"

definition upgrade :: "up_env \<Rightarrow> string \<Rightarrow> string list \<Rightarrow> string option \<Rightarrow> unit up" where
  "upgrade env dir excludes only =
     eco_run env dir ([''cargo'', ''upgrade'', ''--incompatible''] @ concat (map (\<lambda>x. [''--exclude'', x]) excludes)
       @ (case only of Some p \<Rightarrow> [''-p'', p] | None \<Rightarrow> []))"

definition restore_files :: "up_env \<Rightarrow> (string \<times> string) list \<Rightarrow> unit up" where
  "restore_files env fs = for_each fs (\<lambda>(p, c). fs_write env p c)"

definition moved_line :: "string \<Rightarrow> string \<times> string \<times> string \<Rightarrow> string" where
  "moved_line dir = (\<lambda>(n, q, r). ''- cargo ('' @ dir @ ''): `'' @ n @ ''` '' @ q @ '' -> '' @ r)"

definition mark_held :: "up_env \<Rightarrow> string \<Rightarrow> string \<Rightarrow> (string \<times> string) list \<Rightarrow> unit up" where
  "mark_held env n reason base =
     (case find (\<lambda>(p, c). is_manifest p \<and> (case manifest_reqs env c of Some m \<Rightarrow> n \<in> fst ` set m | None \<Rightarrow> False)) base of
        Some (p, c) \<Rightarrow> fs_write env p (add_hold c n reason)
      | None \<Rightarrow> ret ())"

definition upgrade_one ::
  "up_env \<Rightarrow> run_cfg \<Rightarrow> string \<Rightarrow> string list \<Rightarrow> string list \<Rightarrow> string \<times> string \<times> string \<Rightarrow> unit up" where
  "upgrade_one env cfg dir ms excludes = (\<lambda>(n, q, r).
     andthen (read_all env ms (in_dir dir ''Cargo.lock''))
     (\<lambda>base. try_sem (andthen (upgrade env dir excludes (Some n)) (\<lambda>_. run_gates env cfg [Cargo]))
        (\<lambda>_. andthen (restore_files env base)
           (\<lambda>_. andthen (gets (\<lambda>s. today env (rp_files s)))
           (\<lambda>d. andthen (mark_held env n (r @ '' fails cargo check ('' @ d @ '')'') base)
           (\<lambda>_. andthen count_failed
           (\<lambda>_. note_line (''- cargo ('' @ dir @ ''): `'' @ n @ ''` '' @ r @ '' fails cargo check; now held''))))))
        (\<lambda>_. note_line (moved_line dir (n, q, r)))))"

definition cargo_major_dir :: "up_env \<Rightarrow> run_cfg \<Rightarrow> string \<Rightarrow> unit up" where
  "cargo_major_dir env cfg dir =
     andthen (gets (\<lambda>s. manifests env (rp_files s) dir))
     (\<lambda>ms. andthen (read_all env ms (in_dir dir ''Cargo.lock''))
     (\<lambda>before. let excludes = concat (map (\<lambda>(_, c). held c) before)
        in try_sem (upgrade env dir excludes None)
             (\<lambda>err. andthen (restore_files env before)
                (\<lambda>_. andthen count_failed (\<lambda>_. note_line (''- cargo ('' @ dir @ ''): upgrade failed: '' @ err))))
             (\<lambda>_. andthen (read_all env ms (in_dir dir ''Cargo.lock''))
                (\<lambda>after. let moved = moved_reqs (file_reqs env before) (file_reqs env after)
                   in if moved = [] then ret ()
                      else try_sem (run_gates env cfg [Cargo])
                        (\<lambda>_. andthen (restore_files env before) (\<lambda>_. for_each moved (upgrade_one env cfg dir ms excludes)))
                        (\<lambda>_. for_each moved (\<lambda>m. note_line (moved_line dir m)))))))"

definition cargo_major :: "up_env \<Rightarrow> run_cfg \<Rightarrow> unit up" where
  "cargo_major env cfg = andthen (gets (\<lambda>s. cargo_dirs (rp_files s))) (\<lambda>ds. for_each ds (cargo_major_dir env cfg))"

definition run_eco :: "up_env \<Rightarrow> run_cfg \<Rightarrow> eco \<Rightarrow> string list \<Rightarrow> unit up" where
  "run_eco env cfg e pkgs =
     andthen (gets (\<lambda>s. eco_files env (rp_files s) e))
     (\<lambda>ps. andthen (snapshot env ps)
     (\<lambda>snap. if e = ECargo \<and> rc_major cfg \<and> pkgs = [] then cargo_major env cfg else eco_plain env cfg e pkgs snap))"

section \<open>The run\<close>

text \<open>A pin that is asked for and follows another stands for its lead.\<close>

definition resolve_pin :: "entry list \<Rightarrow> string \<Rightarrow> string + string" where
  "resolve_pin all p = (case find (\<lambda>e. en_id e = p) all of
     None \<Rightarrow> Inl (''no pin '' @ quoted p)
   | Some e \<Rightarrow> (case pn_follows (en_pin e) of
       Some lead \<Rightarrow> if list_ex (\<lambda>l. en_id l = lead) all then Inr lead else Inl (p @ '': follows unknown pin '' @ quoted lead)
     | None \<Rightarrow> Inr p))"

definition check_follows :: "entry list \<Rightarrow> (string + unit)" where
  "check_follows all = (case find (\<lambda>e. case pn_follows (en_pin e) of Some lead \<Rightarrow> \<not> list_ex (\<lambda>l. en_id l = lead) all | None \<Rightarrow> False) all of
     Some e \<Rightarrow> Inl (en_id e @ '': follows unknown pin '' @ quoted (case pn_follows (en_pin e) of Some l \<Rightarrow> l | None \<Rightarrow> []))
   | None \<Rightarrow> Inr ())"

definition select_entries :: "entry list \<Rightarrow> plan \<Rightarrow> string list \<Rightarrow> entry list" where
  "select_entries all pl pins =
     filter (\<lambda>e. pn_follows (en_pin e) = None \<and> en_kind e \<in> set (pl_kinds pl) \<and> (pins = [] \<or> en_id e \<in> set pins)) all"

definition chosen_entries :: "up_env \<Rightarrow> plan \<Rightarrow> (entry list \<times> entry list) up" where
  "chosen_entries env pl =
     andthen (discover env)
     (\<lambda>all. andthen (lift_result (collect_results (map (resolve_pin all) (pl_pins pl))))
     (\<lambda>pins. andthen (lift_result (check_follows all))
     (\<lambda>_. ret (all, select_entries all pl pins))))"

definition check_line :: "up_env \<Rightarrow> entry \<Rightarrow> string + string" where
  "check_line env e = (case latest env e False of
     Inr None \<Rightarrow> Inr ''up to date''
   | Inr (Some u) \<Rightarrow> Inr (case pn_hold (en_pin e) of
       Some r \<Rightarrow> ''held ('' @ update_str u @ '' available): '' @ r
     | None \<Rightarrow> ''-> '' @ update_str u)
   | Inl er \<Rightarrow> Inl er)"

definition run_check :: "up_env \<Rightarrow> string list \<Rightarrow> string list \<Rightarrow> unit up" where
  "run_check env only pkg =
     andthen (lift_result (make_plan only pkg False))
     (\<lambda>pl. andthen (chosen_entries env pl)
     (\<lambda>(all, es). let n = length (filter (\<lambda>e. isl (check_line env e)) es)
        in if n > 0 then throw (nat_str n @ '' pin(s) could not be checked'') else ret ()))"

definition baseline :: "up_env \<Rightarrow> bool \<Rightarrow> plan \<Rightarrow> entry list \<Rightarrow> host_evals option up" where
  "baseline env no_gate pl es =
     andthen (gets (\<lambda>s. \<not> no_gate \<and> (EFlake \<in> set (pl_ecos pl) \<or> list_ex (\<lambda>e. Hosts \<in> set (pin_gates env (rp_files s) e)) es)))
     (\<lambda>needs. if needs then andthen (eval_hosts env) (\<lambda>h. ret (Some h)) else ret None)"

definition bump_kind :: "up_env \<Rightarrow> run_cfg \<Rightarrow> entry list \<Rightarrow> kind \<Rightarrow> unit up" where
  "bump_kind env cfg es k = (let grp = filter (\<lambda>e. en_kind e = k) es in whenever (grp \<noteq> []) (bump_pins env cfg grp))"

definition write_summary :: "up_env \<Rightarrow> string option \<Rightarrow> unit up" where
  "write_summary env path = (case path of
     None \<Rightarrow> ret ()
   | Some p \<Rightarrow> andthen (gets rp_report)
       (\<lambda>r. fs_write env p (if r = [] then ''Nothing to update.'' @ [newline] else join [newline] r @ [newline])))"

text \<open>The exit status: 0, or 2 when something failed or was held.\<close>

definition run_bump :: "up_env \<Rightarrow> string list \<Rightarrow> string list \<Rightarrow> bool \<Rightarrow> bool \<Rightarrow> string option \<Rightarrow> nat up" where
  "run_bump env only pkg major no_gate path =
     andthen (lift_result (make_plan only pkg True))
     (\<lambda>pl. andthen (chosen_entries env pl)
     (\<lambda>(all, es). andthen (baseline env no_gate pl es)
     (\<lambda>hosts. let cfg = \<lparr>rc_all = all, rc_hosts_before = hosts, rc_no_gate = no_gate, rc_major = major\<rparr>
        in andthen (for_each [Src, Chart, Image] (bump_kind env cfg es))
           (\<lambda>_. andthen (for_each (pl_ecos pl) (\<lambda>e. run_eco env cfg e (case map_of (pl_eco_pkgs pl) e of Some ns \<Rightarrow> ns | None \<Rightarrow> [])))
           (\<lambda>_. andthen (write_summary env path)
           (\<lambda>_. gets (\<lambda>s. if rp_failed s > 0 then 2 else 0)))))))"

end
