(* ===== verification/Codec.thy ===== *)
theory Codec
  imports Prelude
begin

text \<open>A printer and a parser that are inverse to each other, for the sample environments: what \<^verbatim>\<open>serde\<close> is on the
  formats it derives.\<close>

text \<open>Lists of lists of strings as one string: an \<^verbatim>\<open>x\<close> before each character, a dot after each string, a
  semicolon after each list.\<close>

definition enc_string :: "string \<Rightarrow> string" where
  "enc_string s = concat (map (\<lambda>c. [CHR ''x'', c]) s) @ ''.''"

definition enc_list :: "string list \<Rightarrow> string" where
  "enc_list l = concat (map enc_string l) @ '';''"

definition enc_lists :: "string list list \<Rightarrow> string" where
  "enc_lists ls = concat (map enc_list ls)"

fun dec_lists :: "string \<Rightarrow> string \<Rightarrow> string list \<Rightarrow> string list list" where
  "dec_lists [] cur l = []"
| "dec_lists (t # r) cur l =
     (if t = CHR ''.'' then dec_lists r [] (l @ [cur])
      else if t = CHR '';'' then l # dec_lists r [] []
      else case r of [] \<Rightarrow> [] | c # r' \<Rightarrow> dec_lists r' (cur @ [c]) l)"

lemma dec_enc_string: "dec_lists (enc_string s @ r) cur l = dec_lists r [] (l @ [cur @ s])"
  by (induction s arbitrary: cur) (auto simp: enc_string_def)

lemma dec_enc_list: "dec_lists (enc_list xs @ r) [] l = (l @ xs) # dec_lists r [] []"
proof (induction xs arbitrary: l)
  case (Cons x xs)
  have "dec_lists (enc_list (x # xs) @ r) [] l = dec_lists (enc_string x @ (enc_list xs @ r)) [] l" by (simp add: enc_list_def)
  then show ?case by (simp only: dec_enc_string Cons.IH) simp
qed (simp add: enc_list_def)

lemma dec_enc_lists: "dec_lists (enc_lists ls) [] [] = ls"
  by (induction ls) (simp_all add: enc_lists_def dec_enc_list)

end
