(* ===== verification/Sample_Pins.thy ===== *)
theory Sample_Pins
  imports Pins Codec
begin

text \<open>
  A sample environment for \<^verbatim>\<open>tools/update\<close>: a printer and a parser of pins that are inverse to each other,
  as \<^verbatim>\<open>serde_json\<close> is on the derived format, and services that answer with constants.
\<close>

section \<open>A format for pins\<close>

definition opt_list :: "string option \<Rightarrow> string list" where
  "opt_list x = (case x of Some t \<Rightarrow> [t] | None \<Rightarrow> [])"

fun list_opt :: "string list \<Rightarrow> string option" where
  "list_opt [] = None"
| "list_opt (t # r) = Some t"

definition bool_list :: "bool option \<Rightarrow> string list" where
  "bool_list x = (case x of Some b \<Rightarrow> [if b then ''1'' else []] | None \<Rightarrow> [])"

definition list_bool :: "string list \<Rightarrow> bool option" where
  "list_bool l = map_option (\<lambda>t. t \<noteq> []) (list_opt l)"

definition track_list :: "track option \<Rightarrow> string list" where
  "track_list x = (case x of Some TrackDigest \<Rightarrow> [''1''] | Some TrackSemver \<Rightarrow> [[]] | None \<Rightarrow> [])"

definition list_track :: "string list \<Rightarrow> track option" where
  "list_track l = map_option (\<lambda>t. if t = [] then TrackSemver else TrackDigest) (list_opt l)"

fun source_lists :: "source \<Rightarrow> string list list" where
  "source_lists (GithubRelease a b p) = [[], [a, b], opt_list p]"
| "source_lists (GithubTag a b p q) = [[''t''], [a, b], opt_list p, opt_list q]"
| "source_lists (GitCommit a b c) = [[''c''], [a, b, c]]"
| "source_lists (HelmRepo a b) = [[''h''], [a, b]]"
| "source_lists (OciTag a p t) = [[''o''], [a], opt_list p, track_list t]"
| "source_lists (UrlSet u a b c) = [[''s''], [u], bool_list a, bool_list b, bool_list c]"
| "source_lists (UrlTemplate u a b c) = [[''u''], [u], opt_list a, opt_list b, opt_list c]"

fun lists_source :: "string list list \<Rightarrow> source option" where
  "lists_source [[], [a, b], p] = Some (GithubRelease a b (list_opt p))"
| "lists_source [[t], [a, b], p, q] = Some (GithubTag a b (list_opt p) (list_opt q))"
| "lists_source [[t], [a, b, c]] = Some (GitCommit a b c)"
| "lists_source [[t], [a, b]] = Some (HelmRepo a b)"
| "lists_source [[t], [a], p, q] = Some (OciTag a (list_opt p) (list_track q))"
| "lists_source [[t], [u], a, b, c] = Some (if t = ''s'' then UrlSet u (list_bool a) (list_bool b) (list_bool c)
     else UrlTemplate u (list_opt a) (list_opt b) (list_opt c))"
| "lists_source _ = None"

fun unpair :: "string list \<Rightarrow> (string \<times> string) list" where
  "unpair (k # v # r) = (k, v) # unpair r"
| "unpair _ = []"

definition sample_print :: "pin \<Rightarrow> string" where
  "sample_print p = enc_lists ([[pn_version p], opt_list (pn_hash p), opt_list (pn_digest p), concat (map (\<lambda>(k, v). [k, v]) (pn_hashes p)),
     opt_list (pn_constraint p), opt_list (pn_hold p), opt_list (pn_follows p)] @ source_lists (pn_source p))"

definition sample_parse :: "string \<Rightarrow> string + pin" where
  "sample_parse s = (case dec_lists s [] [] of
     [v] # h # d # hs # c # ho # f # src \<Rightarrow> (case lists_source src of
         Some so \<Rightarrow> Inr \<lparr>pn_version = v, pn_hash = list_opt h, pn_digest = list_opt d, pn_hashes = unpair hs, pn_source = so,
           pn_constraint = list_opt c, pn_hold = list_opt ho, pn_follows = list_opt f\<rparr>
       | None \<Rightarrow> Inl ''source'')
   | _ \<Rightarrow> Inl ''fields'')"

lemma opts [simp]: "list_opt (opt_list x) = x" "list_bool (bool_list b) = b" "list_track (track_list t) = t"
  by (auto simp: opt_list_def bool_list_def list_bool_def track_list_def list_track_def split: option.splits track.splits)

lemma source_roundtrip: "lists_source (source_lists s) = Some s"
  by (cases s) simp_all

lemma unpair_pairs: "unpair (concat (map (\<lambda>(k, v). [k, v]) m)) = m"
  by (induction m) auto

lemma sample_reads_back: "sample_parse (sample_print p) = Inr p"
  by (simp add: sample_parse_def sample_print_def dec_enc_lists source_roundtrip unpair_pairs)

definition sample_up_env :: up_env where
  "sample_up_env = \<lparr>ue_faults = (\<lambda>_. False), ue_parse = sample_parse, ue_print = sample_print, ue_regex = (\<lambda>_. Inl ''regex''),
     ue_index = (\<lambda>_. Inr [(''c'', [''1.0'', ''2.0''])]), ue_yaml = (\<lambda>_. Inl ''yaml''),
     ue_http = (\<lambda>_ _ _. Inr \<lparr>rs_status = 200, rs_headers = [], rs_json = None, rs_text = ''index''\<rparr>), ue_token = None,
     ue_query = (\<lambda>f args. Inr (args \<noteq> [] \<and> hd args = ''nix'' \<and> ''--print-out-paths'' \<notin> set args \<and> last args = ''--no-pure-eval'', ''out'', ''err'')),
     ue_got = (\<lambda>_. [''sha256-new'']), ue_store = (\<lambda>_. DirNode None None None), ue_system = ''x'', ue_dirs = (\<lambda>_. None),
     ue_exec = (\<lambda>f d args. (Inr (False, [], ''err''), f(''flake.lock'' \<mapsto> ''broken''))),
     ue_json = (\<lambda>_. Inl ''json''), ue_toml = (\<lambda>_. None)\<rparr>"

text \<open>A chart with a follower, both at version 1.0.\<close>

definition chart_pin :: "string option \<Rightarrow> pin" where
  "chart_pin follows = \<lparr>pn_version = ''1.0'', pn_hash = Some ''h'', pn_digest = None, pn_hashes = [], pn_source = HelmRepo ''r'' ''c'',
     pn_constraint = None, pn_hold = None, pn_follows = follows\<rparr>"

definition sample_lead :: entry where
  "sample_lead = \<lparr>en_id = ''charts/c'', en_name = ''c'', en_kind = Chart, en_path = ''a'', en_pin = chart_pin None\<rparr>"

definition sample_follower :: entry where
  "sample_follower = \<lparr>en_id = ''charts/d'', en_name = ''d'', en_kind = Chart, en_path = ''b'', en_pin = chart_pin (Some ''charts/c'')\<rparr>"

definition sample_repo :: repo where
  "sample_repo = \<lparr>rp_files = [''a'' \<mapsto> sample_print (chart_pin None), ''b'' \<mapsto> sample_print (chart_pin (Some ''charts/c'')), ''flake.lock'' \<mapsto> ''{}''],
     rp_calls = 0, rp_report = [], rp_failed = 0\<rparr>"

end
