(* ===== verification/Bumps.thy ===== *)
theory Bumps
  imports Update Sample_Pins
begin

text \<open>
  What a run of \<^verbatim>\<open>tools/update\<close> does to the pins. \<open>pin_inv\<close> extends the interface of \<^theory_text>\<open>Pins\<close> by
  what the writes of a bump need; every pin file stays readable and nothing else changes are its two
  instances. Then, without faults, a lead and its followers move, stay or are held as one.
\<close>

section \<open>Invariants of a bump\<close>

lemma set_gate_set [simp]: "set (gate_set gs) = set gs"
proof -
  have "g \<in> set [Nixidy, Hosts, Cargo, Uv, Bun, Devenv]" for g by (cases g) simp_all
  then show ?thesis by (auto simp only: gate_set_def set_filter)
qed

lemma pin_gates_sub: "set (pin_gates env f e) \<subseteq> {Nixidy, Hosts}"
  by (auto simp: pin_gates_def Let_def)

lemma group_gates_sub: "set (group_gates env f gs) \<subseteq> {Nixidy, Hosts}"
  using pin_gates_sub by (fastforce simp: group_gates_def)

locale pin_inv = tree_inv +
  fixes env :: up_env
  assumes ok_print: "p \<in> A \<Longrightarrow> pin_ok q \<Longrightarrow> ok p (ue_print env q)"
    and ok_hold: "p \<in> A \<Longrightarrow> ok p c \<Longrightarrow> ue_parse env c = Inr q \<Longrightarrow> ok p (ue_print env (held_pin q u r))"
begin

definition entry_in :: "entry \<Rightarrow> bool" where
  "entry_in e \<longleftrightarrow> en_path e \<in> A \<and> pin_ok (en_pin e)"

definition bumped_ok :: "bumped \<Rightarrow> bool" where
  "bumped_ok b \<longleftrightarrow> en_path (bm_entry b) \<in> A \<and> ok (en_path (bm_entry b)) (bm_original b) \<and> ok (en_path (bm_entry b)) (bm_new b)"

definition groups_ok :: "group list \<Rightarrow> bool" where
  "groups_ok gs \<longleftrightarrow> (\<forall>g \<in> set gs. \<forall>b \<in> set (group_files g). bumped_ok b)"

lemma keeps_move: "entry_in e \<Longrightarrow> keeps P (rehash env u e) (same_entry e)"
  by (rule keeps_rehash) (auto simp: entry_in_def ok_print)

lemma same_entry_in: "entry_in e \<Longrightarrow> same_entry e e' \<Longrightarrow> entry_in e'"
  by (auto simp: entry_in_def same_entry_def)

lemma keeps_report_line: "Q () \<Longrightarrow> keeps P (note_line l) Q" "Q () \<Longrightarrow> keeps P count_failed Q"
  by (simp_all add: keeps_def note_line_def count_failed_def P_report P_failed)

lemma keeps_bump_follower:
  assumes "entry_in f"
  shows "keeps P (bump_follower env v cs f) (same_entry f)"
proof -
  have img: "keeps P (image_follower env old new r f) (same_entry f)" for old new r
    unfolding image_follower_def by (intro keeps_andthen_any keeps_lift_result keeps_if keeps_ret keeps_move [OF assms] TrueI) simp
  show ?thesis
    unfolding bump_follower_def using img keeps_move [OF assms] by (auto split: source.split option.split intro: keeps_throw)
qed

lemma keeps_restore_all: "\<forall>b \<in> set bs. bumped_ok b \<Longrightarrow> keeps P (for_each bs (\<lambda>b. ignore (restore env (en_path (bm_entry b)) (bm_original b)))) (\<lambda>_. True)"
  by (intro keeps_for_each keeps_ignore keeps_restore) (auto simp: bumped_ok_def)

lemma keeps_bump_followers_step:
  assumes "entry_in f" and "\<forall>b \<in> set bs. bumped_ok b"
  shows "keeps P (bump_followers_step env v cs f bs) (\<lambda>bs'. \<forall>b \<in> set bs'. bumped_ok b)"
proof -
  have A: "en_path f \<in> A" using assms(1) by (simp add: entry_in_def)
  have b: "\<forall>b \<in> set (bs @ [\<lparr>bm_entry = f', bm_original = c, bm_new = n\<rparr>]). bumped_ok b"
    if "same_entry f f'" "ok (en_path f) c" "ok (en_path f) n" for f' c n
    using that A assms(2) by (auto simp: bumped_ok_def same_entry_def)
  have "keeps P (try_sem (bump_follower env v cs f)
        (\<lambda>e. andthen (ignore (restore env (en_path f) c))
           (\<lambda>_. andthen (for_each bs (\<lambda>b. ignore (restore env (en_path (bm_entry b)) (bm_original b)))) (\<lambda>_. throw (X e))))
        (\<lambda>f'. andthen (fs_read env (en_path f)) (\<lambda>n. ret (bs @ [\<lparr>bm_entry = f', bm_original = c, bm_new = n\<rparr>]))))
      (\<lambda>bs'. \<forall>b \<in> set bs'. bumped_ok b)" if c: "ok (en_path f) c" for c X
  proof (rule keeps_try_sem_post [OF keeps_bump_follower [OF assms(1)]])
    show "keeps P (andthen (ignore (restore env (en_path f) c))
        (\<lambda>_. andthen (for_each bs (\<lambda>b. ignore (restore env (en_path (bm_entry b)) (bm_original b)))) (\<lambda>_. throw (X e))))
      (\<lambda>bs'. \<forall>b \<in> set bs'. bumped_ok b)" for e
      by (intro keeps_andthen_any keeps_ignore keeps_restore c keeps_restore_all assms(2) keeps_throw TrueI)
  next
    fix f'
    assume "same_entry f f'"
    then show "keeps P (andthen (fs_read env (en_path f)) (\<lambda>n. ret (bs @ [\<lparr>bm_entry = f', bm_original = c, bm_new = n\<rparr>])))
        (\<lambda>bs'. \<forall>b \<in> set bs'. bumped_ok b)"
      by (intro keeps_andthen [OF keeps_fs_read [OF A]] keeps_ret b c)
  qed
  then show ?thesis unfolding bump_followers_step_def by (rule keeps_andthen [OF keeps_fs_read [OF A]])
qed

lemma keeps_bump_followers:
  assumes "\<forall>f \<in> set (rc_all cfg). entry_in f"
  shows "keeps P (bump_followers env cfg e v cs) (\<lambda>bs. \<forall>b \<in> set bs. bumped_ok b)"
  unfolding bump_followers_def
  by (intro keeps_fold_sem keeps_bump_followers_step) (use assms in \<open>auto simp: followers_def\<close>)

lemma keeps_lead_charts: "keeps P (lead_charts env cfg e) (\<lambda>_. True)"
  unfolding lead_charts_def by (intro keeps_if keeps_andthen_any keeps_prefetch keeps_lift_result keeps_ret TrueI)

lemma keeps_bump_lead:
  assumes "entry_in e"
  shows "keeps P (bump_lead env cfg e u before) (\<lambda>(e', _). same_entry e e')"
proof -
  have "keeps P (andthen (lead_charts env cfg e') (\<lambda>a. ret (e', Some (b, case a of Some cs \<Rightarrow> cs | None \<Rightarrow> [])))) (\<lambda>(e', _). same_entry e e')"
    if "same_entry e e'" for e' b
    using that by (intro keeps_andthen_any keeps_lead_charts keeps_ret) simp
  then show ?thesis unfolding bump_lead_def
    by (intro keeps_andthen [OF keeps_move [OF assms]]) (auto split: option.splits intro: keeps_ret)
qed

lemma keeps_give: "groups_ok gs \<Longrightarrow> keeps P (give_up l gs) groups_ok"
  "groups_ok gs \<Longrightarrow> ok (en_path e) c \<Longrightarrow> keeps P (give_back env e c l gs) groups_ok"
  unfolding give_up_def give_back_def by (intro keeps_andthen_any keeps_report_line keeps_restore keeps_ret TrueI; assumption)+

lemma keeps_bump_group:
  assumes "entry_in e" and "\<forall>f \<in> set (rc_all cfg). entry_in f" and gs: "groups_ok gs"
  shows "keeps P (bump_group env cfg e u gs) groups_ok"
  unfolding bump_group_def
proof (rule keeps_andthen)
  have A: "en_path e \<in> A" using assms(1) by (simp add: entry_in_def)
  show "keeps P (fs_read env (en_path e)) (ok (en_path e))" by (rule keeps_fs_read [OF A])
  fix c
  assume c: "ok (en_path e) c"
  have new: "groups_ok (gs @ [\<lparr>gr_lead = \<lparr>bm_entry = e', bm_original = c, bm_new = n\<rparr>, gr_followers = fs, gr_to = u\<rparr>])"
    if "same_entry e e'" "ok (en_path e) n" "\<forall>b \<in> set fs. bumped_ok b" for e' n fs
    using that gs c A by (auto simp: groups_ok_def group_files_def bumped_ok_def same_entry_def)
  show "keeps P (try_sem (lead_charts env cfg e)
      (\<lambda>er. give_up (''- `'' @ en_id e @ ''`: error reading charts: '' @ er) gs)
      (\<lambda>before. try_sem (bump_lead env cfg e u before) (\<lambda>er. give_back env e c (fails_line e u er) gs)
         (\<lambda>(e', cs). andthen (fs_read env (en_path e))
            (\<lambda>n. try_sem (bump_followers env cfg e' (up_version u) cs) (\<lambda>er. give_back env e c (fails_line e u er) gs)
               (\<lambda>fs. ret (gs @ [\<lparr>gr_lead = \<lparr>bm_entry = e', bm_original = c, bm_new = n\<rparr>, gr_followers = fs, gr_to = u\<rparr>])))))) groups_ok"
    by (intro keeps_try_sem keeps_lead_charts keeps_try_sem_post [OF keeps_bump_lead [OF assms(1)]] keeps_give gs c keeps_case_prod
        keeps_andthen [OF keeps_fs_read [OF A]] keeps_try_sem_post [OF keeps_bump_followers [OF assms(2)]] keeps_ret new) simp_all
qed

lemma keeps_bump_entry:
  assumes "entry_in e" and "\<forall>f \<in> set (rc_all cfg). entry_in f" and "groups_ok gs"
  shows "keeps P (bump_entry env cfg e gs) groups_ok"
  unfolding bump_entry_def
  using keeps_bump_group [OF assms] keeps_give(1) [OF assms(3)] assms(3)
  by (auto split: sum.split option.split intro!: keeps_andthen_any keeps_report_line keeps_ret)

lemma keeps_hold:
  assumes "\<forall>b \<in> set (group_files g). bumped_ok b"
  shows "keeps P (hold env why g) (\<lambda>_. True)"
proof -
  have g: "\<forall>b \<in> set (gr_followers g). bumped_ok b" "en_path (bm_entry (gr_lead g)) \<in> A"
    "ok (en_path (bm_entry (gr_lead g))) (bm_original (gr_lead g))"
    using assms by (auto simp: group_files_def bumped_ok_def)
  have "keeps P (pin_write env (en_path (bm_entry (gr_lead g))) (held_pin p u r)) (\<lambda>_. True)"
    if "ue_parse env (bm_original (gr_lead g)) = Inr p" for p u r
    unfolding pin_write_def by (rule keeps_fs_write [OF ok_hold [OF g(2,3) that] TrueI])
  then show ?thesis
    unfolding hold_def
    by (intro keeps_andthen_any [OF keeps_for_each] keeps_restore
        keeps_andthen [OF keeps_lift_result [where Q = "\<lambda>p. ue_parse env (bm_original (gr_lead g)) = Inr p"]]
        keeps_andthen_any keeps_gets keeps_report_line TrueI)
       (use g(1) in \<open>auto simp: bumped_ok_def\<close>)
qed

lemma keeps_settle: "\<forall>b \<in> set (group_files g). bumped_ok b \<Longrightarrow> keeps P (settle env g r) (\<lambda>_. True)"
  unfolding settle_def report_bumped_def
  by (cases r) (auto intro!: keeps_hold keeps_andthen_any keeps_lift_result keeps_report_line)

lemma keeps_eval_hosts: "keeps P (eval_hosts env) (\<lambda>_. True)"
proof -
  have nix: "keeps P (nix env args) (\<lambda>_. True)" for args by (simp add: keeps_def nix_def)
  have "keeps P (eval_class env cls out) (\<lambda>_. True)" for cls out
    unfolding eval_class_def
  proof (intro keeps_andthen_any nix keeps_lift_result TrueI)
    show "keeps P (fold_sem ns (eval_host env cls) out) (\<lambda>_. True)" for ns
    proof (rule keeps_fold_sem [where Q = "\<lambda>_. True"])
      show "keeps P (eval_host env cls n acc) (\<lambda>_. True)" for n acc
        unfolding eval_host_def by (rule keeps_try_sem [OF nix]) (rule keeps_ret, rule TrueI)+
    qed simp
  qed
  then show ?thesis unfolding eval_hosts_def by (rule keeps_fold_sem [where Q = "\<lambda>_. True"]) simp
qed

lemma keeps_pin_gate: "g \<in> {Nixidy, Hosts} \<Longrightarrow> keeps P (run_gate env h g) (\<lambda>_. True)"
proof -
  have nix: "keeps P (nix env args) (\<lambda>_. True)" for args by (simp add: keeps_def nix_def)
  assume "g \<in> {Nixidy, Hosts}"
  then show ?thesis
    by (auto simp: run_gate_def Let_def split: option.split intro!: keeps_andthen_any nix keeps_eval_hosts keeps_ret keeps_throw)
qed

lemma keeps_gate_now: "keeps P (gate_now env cfg gs) (\<lambda>_. True)"
proof -
  have "keeps P (run_gates env cfg gates) (\<lambda>_. True)" if "set gates \<subseteq> {Nixidy, Hosts}" for gates
    unfolding run_gates_def using that by (intro keeps_if keeps_ret keeps_for_each keeps_wrap keeps_pin_gate) auto
  then show ?thesis
    unfolding gate_now_def
    by (intro keeps_andthen [OF keeps_gets [where Q = "\<lambda>gates. set gates \<subseteq> {Nixidy, Hosts}"]] keeps_try_sem keeps_ret group_gates_sub TrueI)
qed

lemma keeps_gate_groups:
  assumes "groups_ok gs"
  shows "keeps P (gate_groups env cfg gs) (\<lambda>_. True)"
proof -
  have g: "\<forall>b \<in> set (group_files g). bumped_ok b" if "g \<in> set gs" for g using assms that by (simp add: groups_ok_def)
  have iso: "keeps P (isolate env cfg g) (\<lambda>_. True)" if "g \<in> set gs" for g
    unfolding isolate_def using g [OF that]
    by (intro keeps_andthen_any keeps_for_each keeps_fs_write keeps_gate_now keeps_settle) (auto simp: bumped_ok_def)
  show ?thesis
    unfolding gate_groups_def
    by (intro keeps_if keeps_ret keeps_andthen_any keeps_gate_now keeps_for_each keeps_settle keeps_restore iso TrueI)
       (use g in \<open>auto simp: bumped_ok_def\<close>)
qed

lemma keeps_bump_pins:
  assumes "\<forall>f \<in> set (rc_all cfg). entry_in f" and "set es \<subseteq> set (rc_all cfg)"
  shows "keeps P (bump_pins env cfg es) (\<lambda>_. True)"
proof -
  have "keeps P (fold_sem es (bump_entry env cfg) []) groups_ok"
    by (intro keeps_fold_sem keeps_bump_entry) (use assms in \<open>auto simp: groups_ok_def\<close>)
  then show ?thesis unfolding bump_pins_def by (rule keeps_andthen) (rule keeps_gate_groups)
qed

end

text \<open>What \<^verbatim>\<open>serde_json\<close> promises of a pin it wrote.\<close>

definition reads_back :: "up_env \<Rightarrow> bool" where
  "reads_back env \<longleftrightarrow> (\<forall>p. ue_parse env (ue_print env p) = Inr p)"

lemma held_pin_ok [simp]: "pin_ok p \<Longrightarrow> pin_ok (held_pin p u r)"
  by (simp add: held_pin_def Let_def)

definition readable_if :: "up_env \<Rightarrow> string set \<Rightarrow> repo \<Rightarrow> bool" where
  "readable_if env A s \<longleftrightarrow> (reads_back env \<longrightarrow> all_readable env A s)"

interpretation stays_readable: pin_inv "readable_if env A" "\<lambda>p c. reads_back env \<longrightarrow> readable env c" A env for env A
  by unfold_locales (auto simp: readable_if_def all_readable_def readable_def reads_back_def)

interpretation stays_outside: pin_inv "same_outside f A" "\<lambda>p c. p \<in> A" A env for f A env
  by unfold_locales auto

definition present :: "string \<Rightarrow> repo \<Rightarrow> bool" where
  "present p s \<longleftrightarrow> rp_files s p \<noteq> None"

interpretation stays_present: pin_inv "present p" "\<lambda>p c. True" UNIV env for p env
  by unfold_locales (auto simp: present_def)


section \<open>Without faults\<close>

abbreviation bpath :: "bumped \<Rightarrow> string" where
  "bpath b \<equiv> en_path (bm_entry b)"

lemma quiet:
  assumes "ue_faults env = (\<lambda>_. False)"
  shows "fs_read env p s = (case rp_files s p of Some c \<Rightarrow> Inr c | None \<Rightarrow> Inl ''not found'', s\<lparr>rp_calls := Suc (rp_calls s)\<rparr>)"
    and "fs_write env p c s = (Inr (), s\<lparr>rp_calls := Suc (rp_calls s), rp_files := (rp_files s)(p \<mapsto> c)\<rparr>)"
    and "restore env p c s = (Inr (), s\<lparr>rp_calls := Suc (rp_calls s), rp_files := (rp_files s)(p \<mapsto> c)\<rparr>)"
  using assms by (simp_all add: fs_read_def fs_write_def restore_def fs_call_def Let_def)

definition put_all :: "(string \<times> string) list \<Rightarrow> files \<Rightarrow> files" where
  "put_all ws f = fold (\<lambda>(p, c) g. g(p \<mapsto> c)) ws f"

lemma put_all_other: "p \<notin> fst ` set ws \<Longrightarrow> put_all ws f p = f p"
  unfolding put_all_def by (induction ws arbitrary: f) auto

lemma put_all_in: "distinct (map fst ws) \<Longrightarrow> (p, c) \<in> set ws \<Longrightarrow> put_all ws f p = Some c"
proof (induction ws arbitrary: f)
  case (Cons w ws)
  show ?case
  proof (cases "(p, c) = w")
    case True
    with Cons.prems(1) have "p \<notin> fst ` set ws" by force
    with True show ?thesis using put_all_other [of p ws "f(p \<mapsto> c)"] by (auto simp: put_all_def)
  next
    case False
    with Cons show ?thesis by (auto simp: put_all_def)
  qed
qed simp

lemma writes_gen:
  assumes "\<And>b s. m b s = (Inr (), s\<lparr>rp_calls := Suc (rp_calls s), rp_files := (rp_files s)(P b \<mapsto> C b)\<rparr>)"
  shows "\<exists>s'. for_each bs m s = (Inr (), s') \<and> rp_files s' = put_all (map (\<lambda>b. (P b, C b)) bs) (rp_files s)"
proof (induction bs arbitrary: s)
  case (Cons b bs)
  let ?s = "s\<lparr>rp_calls := Suc (rp_calls s), rp_files := (rp_files s)(P b \<mapsto> C b)\<rparr>"
  from Cons.IH [of ?s] obtain s' where "for_each bs m ?s = (Inr (), s')"
    and "rp_files s' = put_all (map (\<lambda>b. (P b, C b)) bs) ((rp_files s)(P b \<mapsto> C b))" by (auto simp: fun_upd_def)
  then have "for_each (b # bs) m s = (Inr (), s')" using assms [of b s] by (simp add: andthen_def)
  with \<open>rp_files s' = _\<close> show ?case by (auto simp: put_all_def)
qed (simp add: ret_def put_all_def)

lemma writes_all:
  assumes "ue_faults env = (\<lambda>_. False)"
  shows "\<exists>s'. for_each bs (\<lambda>b. fs_write env (P b) (C b)) s = (Inr (), s') \<and> rp_files s' = put_all (map (\<lambda>b. (P b, C b)) bs) (rp_files s)"
    and "\<exists>s'. for_each bs (\<lambda>b. restore env (P b) (C b)) s = (Inr (), s') \<and> rp_files s' = put_all (map (\<lambda>b. (P b, C b)) bs) (rp_files s)"
    and "\<exists>s'. for_each bs (\<lambda>b. ignore (restore env (P b) (C b))) s = (Inr (), s') \<and> rp_files s' = put_all (map (\<lambda>b. (P b, C b)) bs) (rp_files s)"
  by (rule writes_gen; simp add: quiet [OF assms] ignore_def)+

text \<open>The files that a list of bumped pins accounts for: each held its original in \<open>f0\<close> and holds its new
  contents now, and the rest is as in \<open>f0\<close>.\<close>

definition moved :: "files \<Rightarrow> bumped list \<Rightarrow> files \<Rightarrow> bool" where
  "moved f0 bs f \<longleftrightarrow> distinct (map bpath bs) \<and> (\<forall>b \<in> set bs. f0 (bpath b) = Some (bm_original b) \<and> f (bpath b) = Some (bm_new b))
     \<and> (\<forall>p. p \<notin> bpath ` set bs \<longrightarrow> f p = f0 p)"

lemma moved_put_back:
  assumes "moved f0 bs f" and "\<forall>p. p \<notin> insert q (bpath ` set bs) \<longrightarrow> g p = f0 p" and "q \<notin> bpath ` set bs" and "f0 q = Some c"
  shows "put_all (map (\<lambda>b. (bpath b, bm_original b)) bs) (g(q \<mapsto> c)) = f0"
proof
  fix p
  show "put_all (map (\<lambda>b. (bpath b, bm_original b)) bs) (g(q \<mapsto> c)) p = f0 p"
  proof (cases "p \<in> bpath ` set bs")
    case True
    then obtain b where b: "b \<in> set bs" "p = bpath b" by blast
    then have "put_all (map (\<lambda>b. (bpath b, bm_original b)) bs) (g(q \<mapsto> c)) p = Some (bm_original b)"
      using assms(1) by (intro put_all_in) (auto simp: moved_def comp_def)
    with b assms(1) show ?thesis by (simp add: moved_def)
  next
    case False
    then have "put_all (map (\<lambda>b. (bpath b, bm_original b)) bs) (g(q \<mapsto> c)) p = (g(q \<mapsto> c)) p"
      by (intro put_all_other) force
    with False assms(2,4) show ?thesis by auto
  qed
qed

lemma moved_snoc:
  assumes "moved f0 bs f" and "\<forall>p. p \<noteq> bpath b \<longrightarrow> g p = f p" and "bpath b \<notin> bpath ` set bs"
    and "f0 (bpath b) = Some (bm_original b)" and "g (bpath b) = Some (bm_new b)"
  shows "moved f0 (bs @ [b]) g"
  using assms unfolding moved_def by (auto simp: image_iff)

lemma follower_frame:
  assumes "pin_ok (en_pin f)" and "bump_follower env v cs f s = (r, s')"
  shows "p \<noteq> en_path f \<Longrightarrow> rp_files s' p = rp_files s p" and "r = Inr f' \<Longrightarrow> same_entry f f'"
proof -
  have k: "keeps (same_outside (rp_files s) {en_path f}) (bump_follower env v cs f) (same_entry f)"
    by (rule stays_outside.keeps_bump_follower) (simp add: stays_outside.entry_in_def assms(1))
  have "same_outside (rp_files s) {en_path f} s" by (simp add: same_outside_def)
  with k assms(2) have "same_outside (rp_files s) {en_path f} s' \<and> (\<forall>x. r = Inr x \<longrightarrow> same_entry f x)"
    unfolding keeps_def by (metis fst_conv snd_conv)
  then show "p \<noteq> en_path f \<Longrightarrow> rp_files s' p = rp_files s p" and "r = Inr f' \<Longrightarrow> same_entry f f'"
    by (auto simp: same_outside_def)
qed

lemma follower_present:
  assumes "pin_ok (en_pin f)" and "bump_follower env v cs f s = (r, s')" and "rp_files s p = Some c"
  shows "\<exists>c'. rp_files s' p = Some c'"
proof -
  have "keeps (present p) (bump_follower env v cs f) (same_entry f)"
    by (rule stays_present.keeps_bump_follower) (simp add: stays_present.entry_in_def assms(1))
  from keepsD [OF this, of s] assms(2,3) show ?thesis by (simp add: present_def)
qed

lemma follower_step:
  assumes q: "ue_faults env = (\<lambda>_. False)" and f: "pin_ok (en_pin f)" and c: "f0 (en_path f) = Some c"
    and mv: "moved f0 bs (rp_files s)" and new: "en_path f \<notin> bpath ` set bs"
    and step: "bump_followers_step env v cs f bs s = (r, s')"
  shows "(\<exists>e. r = Inl e \<and> rp_files s' = f0) \<or>
    (\<exists>b. r = Inr (bs @ [b]) \<and> moved f0 (bs @ [b]) (rp_files s') \<and> same_entry f (bm_entry b))"
proof -
  have here: "rp_files s (en_path f) = Some c" using mv new c by (auto simp: moved_def)
  let ?s1 = "s\<lparr>rp_calls := Suc (rp_calls s)\<rparr>"
  obtain x s2 where x: "bump_follower env v cs f ?s1 = (x, s2)" by (cases "bump_follower env v cs f ?s1")
  note fr = follower_frame [OF f x]
  show ?thesis
  proof (cases x)
    case (Inl e)
    let ?s3 = "s2\<lparr>rp_calls := Suc (rp_calls s2), rp_files := (rp_files s2)(en_path f \<mapsto> c)\<rparr>"
    obtain s4 where s4: "for_each bs (\<lambda>b. ignore (restore env (bpath b) (bm_original b)) :: unit up) ?s3 = (Inr (), s4)"
      and files: "rp_files s4 = put_all (map (\<lambda>b. (bpath b, bm_original b)) bs) ((rp_files s2)(en_path f \<mapsto> c))"
      using writes_all(3) [OF q, of bs bpath bm_original ?s3] by auto
    have "rp_files s4 = f0"
      unfolding files by (rule moved_put_back [OF mv _ new c]) (use fr(1) mv in \<open>auto simp: moved_def\<close>)
    moreover from step here x Inl s4 have "s' = s4" "isl r"
      by (auto simp: bump_followers_step_def andthen_def try_sem_def quiet [OF q] ignore_def throw_def)
    ultimately show ?thesis by (cases r) auto
  next
    case (Inr f')
    with fr(2) have same: "same_entry f f'" by blast
    obtain n where n: "rp_files s2 (en_path f) = Some n" using follower_present [OF f x] here by fastforce
    let ?b = "\<lparr>bm_entry = f', bm_original = c, bm_new = n\<rparr>"
    from step here x Inr n have "r = Inr (bs @ [?b])" "rp_files s' = rp_files s2"
      by (auto simp: bump_followers_step_def andthen_def try_sem_def quiet [OF q] ret_def)
    moreover have "moved f0 (bs @ [?b]) (rp_files s2)"
      by (rule moved_snoc [OF mv]) (use fr(1) same new c n in \<open>auto simp: same_entry_def\<close>)
    ultimately show ?thesis using same by auto
  qed
qed

lemma followers_moved:
  assumes q: "ue_faults env = (\<lambda>_. False)" and "\<forall>f \<in> set fs. pin_ok (en_pin f) \<and> f0 (en_path f) \<noteq> None"
    and "moved f0 bs (rp_files s)" and "distinct (map bpath bs @ map en_path fs)"
    and "fold_sem fs (bump_followers_step env v cs) bs s = (r, s')"
  shows "(\<exists>e. r = Inl e \<and> rp_files s' = f0) \<or>
    (\<exists>bs'. r = Inr (bs @ bs') \<and> moved f0 (bs @ bs') (rp_files s') \<and> list_all2 same_entry fs (map bm_entry bs'))"
  using assms(2-)
proof (induction fs arbitrary: bs s)
  case Nil
  then show ?case by (simp add: ret_def)
next
  case (Cons f fs)
  from Cons.prems(1) obtain c where f: "pin_ok (en_pin f)" "f0 (en_path f) = Some c" by auto
  have new: "en_path f \<notin> bpath ` set bs" using Cons.prems(3) by auto
  obtain x s1 where x: "bump_followers_step env v cs f bs s = (x, s1)" by (cases "bump_followers_step env v cs f bs s")
  from follower_step [OF q f Cons.prems(2) new x] show ?case
  proof (elim disjE exE conjE)
    fix e
    assume "x = Inl e" "rp_files s1 = f0"
    with Cons.prems(4) x show ?thesis by (auto simp: andthen_def)
  next
    fix b
    assume b: "x = Inr (bs @ [b])" "moved f0 (bs @ [b]) (rp_files s1)" "same_entry f (bm_entry b)"
    then have path: "bpath b = en_path f" by (simp add: same_entry_def)
    have "fold_sem fs (bump_followers_step env v cs) (bs @ [b]) s1 = (r, s')" using Cons.prems(4) x b(1) by (simp add: andthen_def)
    moreover have "distinct (map bpath (bs @ [b]) @ map en_path fs)" using Cons.prems(3) path by auto
    ultimately show ?thesis using Cons.IH [of "bs @ [b]" s1] Cons.prems(1) b(2,3) by fastforce
  qed
qed

lemma moved_append:
  assumes "moved f0 bs f1" and "moved f1 bs' f2" and "bpath ` set bs \<inter> bpath ` set bs' = {}"
  shows "moved f0 (bs @ bs') f2"
proof -
  have old: "f1 (bpath b) = f0 (bpath b)" if "b \<in> set bs'" for b
    using assms(1,3) that by (simp add: moved_def disjoint_iff image_iff) metis
  have new: "f2 (bpath b) = f1 (bpath b)" if "b \<in> set bs" for b
    using assms(2,3) that by (simp add: moved_def disjoint_iff image_iff) metis
  show ?thesis using assms old new by (auto simp: moved_def image_Un)
qed

lemma moved_Nil [simp]: "moved f [] f"
  by (simp add: moved_def)

lemma moved_files_cong: "moved f0 bs f \<Longrightarrow> f = g \<Longrightarrow> moved f0 bs g"
  by simp

lemma lead_frame:
  assumes "pin_ok (en_pin e)" and "bump_lead env cfg e u before s = (r, s')"
  shows "p \<noteq> en_path e \<Longrightarrow> rp_files s' p = rp_files s p" and "rp_files s p = Some c \<Longrightarrow> \<exists>c'. rp_files s' p = Some c'"
    and "r = Inr (e', cs) \<Longrightarrow> same_entry e e'"
proof -
  have k: "keeps (same_outside (rp_files s) {en_path e}) (bump_lead env cfg e u before) (\<lambda>(e', _). same_entry e e')"
    by (rule stays_outside.keeps_bump_lead) (simp add: stays_outside.entry_in_def assms(1))
  have "same_outside (rp_files s) {en_path e} s" by (simp add: same_outside_def)
  with k assms(2) have "same_outside (rp_files s) {en_path e} s' \<and> (\<forall>x. r = Inr x \<longrightarrow> (case x of (e', _) \<Rightarrow> same_entry e e'))"
    unfolding keeps_def by (metis fst_conv snd_conv)
  then show "p \<noteq> en_path e \<Longrightarrow> rp_files s' p = rp_files s p" and "r = Inr (e', cs) \<Longrightarrow> same_entry e e'"
    by (auto simp: same_outside_def)
  have "keeps (present p) (bump_lead env cfg e u before) (\<lambda>(e', _). same_entry e e')"
    by (rule stays_present.keeps_bump_lead) (simp add: stays_present.entry_in_def assms(1))
  from keepsD [OF this, of s] assms(2) show "rp_files s p = Some c \<Longrightarrow> \<exists>c'. rp_files s' p = Some c'" by (simp add: present_def)
qed

lemma lead_charts_pure: "snd (lead_charts env cfg e s) = s"
  by (simp add: lead_charts_def nix_build_def nix_run_def andthen_def lift_result_def ret_def split: sum.splits prod.splits)

text \<open>The paths of a lead and its followers, and the group that bumps them.\<close>

definition unit_entries :: "entry list \<Rightarrow> entry \<Rightarrow> entry list" where
  "unit_entries all e = e # followers all (en_id e)"

definition group_of :: "entry list \<Rightarrow> entry \<Rightarrow> group \<Rightarrow> bool" where
  "group_of all e g \<longleftrightarrow> list_all2 same_entry (unit_entries all e) (map bm_entry (group_files g))"

lemma same_entries_paths: "list_all2 same_entry es (map bm_entry bs) \<Longrightarrow> map bpath bs = map en_path es"
  by (induction bs arbitrary: es) (auto simp: list_all2_Cons2 same_entry_def)

abbreviation all_files :: "group list \<Rightarrow> bumped list" where
  "all_files gs \<equiv> concat (map group_files gs)"

lemma distinct_middle: "distinct (xs @ y # zs) \<Longrightarrow> y \<notin> set zs \<and> set xs \<inter> set zs = {}"
  by auto

text \<open>The followers after the lead: all of them moved, or none.\<close>

lemma followers_after_lead:
  assumes q: "ue_faults env = (\<lambda>_. False)" and all: "\<forall>f \<in> set (unit_entries (rc_all cfg) e). pin_ok (en_pin f) \<and> f0 (en_path f) \<noteq> None"
    and lead: "moved f0 (bs @ [l]) (rp_files s)" and same: "same_entry e (bm_entry l)"
    and d: "distinct (map bpath bs @ map en_path (unit_entries (rc_all cfg) e))"
    and run: "bump_followers env cfg (bm_entry l) v cs (s\<lparr>rp_calls := n\<rparr>) = (r, s')"
  shows "(\<exists>er. r = Inl er \<and> rp_files s' = rp_files s) \<or>
    (\<exists>fs. r = Inr fs \<and> moved f0 (bs @ l # fs) (rp_files s') \<and> list_all2 same_entry (unit_entries (rc_all cfg) e) (map bm_entry (l # fs)))"
proof -
  let ?fs = "followers (rc_all cfg) (en_id e)"
  have fold: "fold_sem ?fs (bump_followers_step env v cs) [] (s\<lparr>rp_calls := n\<rparr>) = (r, s')"
    using run same by (simp add: bump_followers_def same_entry_def)
  have "bpath l = en_path e" using same by (simp add: same_entry_def)
  then have apart: "bpath ` set (bs @ [l]) \<inter> en_path ` set ?fs = {}"
    using distinct_middle [OF d [unfolded unit_entries_def list.map]] by (simp only: set_append set_map image_Un list.set image_insert image_empty) blast
  have fs: "\<forall>f \<in> set ?fs. pin_ok (en_pin f) \<and> rp_files s (en_path f) \<noteq> None"
  proof
    fix f
    assume f: "f \<in> set ?fs"
    with apart have "en_path f \<notin> bpath ` set (bs @ [l])" by blast
    with lead have "rp_files s (en_path f) = f0 (en_path f)" by (simp add: moved_def)
    with all f show "pin_ok (en_pin f) \<and> rp_files s (en_path f) \<noteq> None" by (auto simp: unit_entries_def)
  qed
  have "distinct (map bpath [] @ map en_path ?fs)" using d by (simp add: unit_entries_def)
  from followers_moved [OF q fs _ this fold] have "(\<exists>er. r = Inl er \<and> rp_files s' = rp_files s) \<or>
      (\<exists>bs'. r = Inr bs' \<and> moved (rp_files s) bs' (rp_files s') \<and> list_all2 same_entry ?fs (map bm_entry bs'))" by simp
  then show ?thesis
  proof (elim disjE exE conjE)
    fix fs
    assume fs: "r = Inr fs" "moved (rp_files s) fs (rp_files s')" "list_all2 same_entry ?fs (map bm_entry fs)"
    have "bpath ` set fs = en_path ` set ?fs" using same_entries_paths [OF fs(3)] by (metis set_map)
    with apart have "bpath ` set (bs @ [l]) \<inter> bpath ` set fs = {}" by simp
    from moved_append [OF lead fs(2) this] fs same show ?thesis by (simp add: unit_entries_def)
  qed simp
qed

lemma group_moved:
  assumes q: "ue_faults env = (\<lambda>_. False)" and all: "\<forall>f \<in> set (unit_entries (rc_all cfg) e). pin_ok (en_pin f) \<and> f0 (en_path f) \<noteq> None"
    and mv: "moved f0 (all_files gs) (rp_files s)" and d: "distinct (map bpath (all_files gs) @ map en_path (unit_entries (rc_all cfg) e))"
    and run: "bump_group env cfg e u gs s = (r, s')"
  shows "r = Inr gs \<and> moved f0 (all_files gs) (rp_files s') \<or>
    (\<exists>g. r = Inr (gs @ [g]) \<and> moved f0 (all_files (gs @ [g])) (rp_files s') \<and> group_of (rc_all cfg) e g)"
proof -
  from all obtain c where e: "pin_ok (en_pin e)" and c: "f0 (en_path e) = Some c" by (auto simp: unit_entries_def)
  have free: "en_path e \<notin> bpath ` set (all_files gs)" using d by (auto simp: unit_entries_def)
  with mv c have here: "rp_files s (en_path e) = Some c" by (auto simp: moved_def)
  let ?s1 = "s\<lparr>rp_calls := Suc (rp_calls s)\<rparr>"
  obtain x where x: "lead_charts env cfg e ?s1 = (x, ?s1)" using lead_charts_pure [of env cfg e ?s1] by (cases "lead_charts env cfg e ?s1") auto
  show ?thesis
  proof (cases x)
    case (Inl er)
    with run here x have "r = Inr gs" "rp_files s' = rp_files s"
      by (auto simp: bump_group_def andthen_def try_sem_def quiet [OF q] give_up_def count_failed_def note_line_def ret_def)
    with mv show ?thesis by simp
  next
    case (Inr before)
    obtain y s2 where y: "bump_lead env cfg e u before ?s1 = (y, s2)" by (cases "bump_lead env cfg e u before ?s1")
    note lf = lead_frame [OF e y]
    have undo: "moved f0 (all_files gs) ((rp_files t)(en_path e \<mapsto> c))" if "\<forall>p. p \<noteq> en_path e \<longrightarrow> rp_files t p = rp_files s p" for t
      by (rule moved_files_cong [OF mv], rule ext) (use that here in auto)
    show ?thesis
    proof (cases y)
      case (Inl er)
      with run here x \<open>x = Inr before\<close> y have "r = Inr gs" "rp_files s' = (rp_files s2)(en_path e \<mapsto> c)"
        by (auto simp: bump_group_def andthen_def try_sem_def quiet [OF q] give_back_def count_failed_def note_line_def ret_def)
      with undo [of s2] lf(1) show ?thesis by simp
    next
      case (Inr z)
      obtain e' cs where z: "z = (e', cs)" by (cases z)
      with lf(3) Inr have same: "same_entry e e'" by blast
      obtain n where n: "rp_files s2 (en_path e) = Some n" using lf(2) here by fastforce
      let ?s3 = "s2\<lparr>rp_calls := Suc (rp_calls s2)\<rparr>"
      let ?lead = "\<lparr>bm_entry = e', bm_original = c, bm_new = n\<rparr>"
      obtain w s4 where w: "bump_followers env cfg e' (up_version u) cs ?s3 = (w, s4)" by (cases "bump_followers env cfg e' (up_version u) cs ?s3")
      have lead: "moved f0 (all_files gs @ [?lead]) (rp_files s2)"
        by (rule moved_snoc [OF mv]) (use lf(1) same free c n in \<open>auto simp: same_entry_def\<close>)
      have w': "bump_followers env cfg (bm_entry ?lead) (up_version u) cs ?s3 = (w, s4)" using w by simp
      from followers_after_lead [OF q all lead _ d w'] same have
        "(\<exists>er. w = Inl er \<and> rp_files s4 = rp_files s2) \<or>
         (\<exists>bs. w = Inr bs \<and> moved f0 (all_files gs @ ?lead # bs) (rp_files s4)
            \<and> list_all2 same_entry (unit_entries (rc_all cfg) e) (map bm_entry (?lead # bs)))" by simp
      then show ?thesis
      proof (elim disjE exE conjE)
        fix er
        assume "w = Inl er" "rp_files s4 = rp_files s2"
        with run here x \<open>x = Inr before\<close> y Inr z n w have "r = Inr gs" "rp_files s' = (rp_files s2)(en_path e \<mapsto> c)"
          by (auto simp: bump_group_def andthen_def try_sem_def quiet [OF q] give_back_def count_failed_def note_line_def ret_def)
        with undo [of s2] lf(1) show ?thesis by simp
      next
        fix bs
        assume bs: "w = Inr bs" "moved f0 (all_files gs @ ?lead # bs) (rp_files s4)"
          "list_all2 same_entry (unit_entries (rc_all cfg) e) (map bm_entry (?lead # bs))"
        let ?g = "\<lparr>gr_lead = ?lead, gr_followers = bs, gr_to = u\<rparr>"
        have "r = Inr (gs @ [?g])" "s' = s4" using run here x \<open>x = Inr before\<close> y Inr z n w bs(1)
          by (auto simp: bump_group_def andthen_def try_sem_def quiet [OF q] ret_def)
        moreover have "group_of (rc_all cfg) e ?g" using bs(3) by (simp add: group_of_def group_files_def)
        ultimately show ?thesis using bs(2) by (auto simp: group_files_def)
      qed
    qed
  qed
qed

lemma entry_moved:
  assumes q: "ue_faults env = (\<lambda>_. False)" and all: "\<forall>f \<in> set (unit_entries (rc_all cfg) e). pin_ok (en_pin f) \<and> f0 (en_path f) \<noteq> None"
    and mv: "moved f0 (all_files gs) (rp_files s)" and d: "distinct (map bpath (all_files gs) @ map en_path (unit_entries (rc_all cfg) e))"
    and run: "bump_entry env cfg e gs s = (r, s')"
  shows "r = Inr gs \<and> moved f0 (all_files gs) (rp_files s') \<or>
    (\<exists>g. r = Inr (gs @ [g]) \<and> moved f0 (all_files (gs @ [g])) (rp_files s') \<and> group_of (rc_all cfg) e g)"
proof (cases "\<exists>u. latest env e (rc_major cfg) = Inr (Some u) \<and> pn_hold (en_pin e) = None")
  case True
  then obtain u where "bump_entry env cfg e gs = bump_group env cfg e u gs" by (auto simp: bump_entry_def)
  with run group_moved [OF q all mv d] show ?thesis by simp
next
  case False
  with run have "r = Inr gs" "rp_files s' = rp_files s"
    by (auto simp: bump_entry_def give_up_def count_failed_def note_line_def andthen_def ret_def split: sum.splits option.splits)
  with mv show ?thesis by simp
qed

lemma group_of_paths: "group_of all e g \<Longrightarrow> map bpath (group_files g) = map en_path (unit_entries all e)"
  unfolding group_of_def by (rule same_entries_paths)

lemma distinct_parts: "distinct (xs @ ys @ zs) \<Longrightarrow> distinct (xs @ ys) \<and> distinct (xs @ zs)"
  by auto

lemma entries_moved:
  assumes q: "ue_faults env = (\<lambda>_. False)"
    and "\<forall>e \<in> set es. \<forall>f \<in> set (unit_entries (rc_all cfg) e). pin_ok (en_pin f) \<and> f0 (en_path f) \<noteq> None"
    and "moved f0 (all_files gs) (rp_files s)"
    and "distinct (map bpath (all_files gs) @ concat (map (\<lambda>e. map en_path (unit_entries (rc_all cfg) e)) es))"
    and "fold_sem es (bump_entry env cfg) gs s = (r, s')"
  shows "\<exists>gs' es'. r = Inr (gs @ gs') \<and> moved f0 (all_files (gs @ gs')) (rp_files s') \<and> set es' \<subseteq> set es \<and> list_all2 (group_of (rc_all cfg)) es' gs'"
  using assms(2-)
proof (induction es arbitrary: gs s)
  case Nil
  then show ?case by (intro exI [of _ "[]"]) (simp add: ret_def)
next
  case (Cons e es)
  obtain x s1 where x: "bump_entry env cfg e gs s = (x, s1)" by (cases "bump_entry env cfg e gs s")
  have e: "\<forall>f \<in> set (unit_entries (rc_all cfg) e). pin_ok (en_pin f) \<and> f0 (en_path f) \<noteq> None" using Cons.prems(1) by simp
  note apart = distinct_parts [OF Cons.prems(3) [unfolded list.map concat.simps]]
  have d: "distinct (map bpath (all_files gs) @ map en_path (unit_entries (rc_all cfg) e))" using apart by (rule conjunct1)
  from entry_moved [OF q e Cons.prems(2) d x] show ?case
  proof (elim disjE exE conjE)
    assume "x = Inr gs" "moved f0 (all_files gs) (rp_files s1)"
    moreover have "distinct (map bpath (all_files gs) @ concat (map (\<lambda>e. map en_path (unit_entries (rc_all cfg) e)) es))"
      using apart by (rule conjunct2)
    ultimately obtain gs' es' where "r = Inr (gs @ gs')" "moved f0 (all_files (gs @ gs')) (rp_files s')" "set es' \<subseteq> set es"
        "list_all2 (group_of (rc_all cfg)) es' gs'"
      using Cons.IH [of gs s1] Cons.prems(1,4) x by (fastforce simp: andthen_def)
    then show ?thesis by (intro exI [of _ gs'] exI [of _ es']) auto
  next
    fix g
    assume g: "x = Inr (gs @ [g])" "moved f0 (all_files (gs @ [g])) (rp_files s1)" "group_of (rc_all cfg) e g"
    have "distinct (map bpath (all_files (gs @ [g])) @ concat (map (\<lambda>e. map en_path (unit_entries (rc_all cfg) e)) es))"
      using Cons.prems(3) group_of_paths [OF g(3)] by simp
    then obtain gs' es' where "r = Inr ((gs @ [g]) @ gs')" "moved f0 (all_files ((gs @ [g]) @ gs')) (rp_files s')" "set es' \<subseteq> set es"
        "list_all2 (group_of (rc_all cfg)) es' gs'"
      using Cons.IH [of "gs @ [g]" s1] Cons.prems(1,4) x g(1,2) by (fastforce simp: andthen_def)
    then show ?thesis using g(3) by (intro exI [of _ "g # gs'"] exI [of _ "e # es'"]) auto
  qed
qed

section \<open>Gating\<close>

lemma eval_hosts_pure: "snd (eval_hosts env s) = s"
proof -
  have pure: "keeps (\<lambda>t. t = s) (nix env args) (\<lambda>_. True)" for args by (simp add: keeps_def nix_def)
  have host: "keeps (\<lambda>t. t = s) (eval_host env cls n acc) (\<lambda>_. True)" for cls n acc
    unfolding eval_host_def by (rule keeps_try_sem [OF pure]) (rule keeps_ret, rule TrueI)+
  have "keeps (\<lambda>t. t = s) (eval_class env cls out) (\<lambda>_. True)" for cls out
    unfolding eval_class_def
  proof (intro keeps_andthen_any pure keeps_lift_result TrueI)
    show "keeps (\<lambda>t. t = s) (fold_sem ns (eval_host env cls) out) (\<lambda>_. True)" for ns
      by (rule keeps_fold_sem [where Q = "\<lambda>_. True"]) (rule host, simp)
  qed
  then have "keeps (\<lambda>t. t = s) (eval_hosts env) (\<lambda>_. True)"
    unfolding eval_hosts_def by (rule keeps_fold_sem [where Q = "\<lambda>_. True"]) simp
  then show ?thesis by (auto dest: keepsD)
qed

lemma pin_gate_pure: "g \<in> {Nixidy, Hosts} \<Longrightarrow> \<exists>r. run_gate env h g s = (r, s)"
proof -
  obtain r where r: "eval_hosts env s = (r, s)" using eval_hosts_pure [of env s] by (cases "eval_hosts env s") auto
  assume "g \<in> {Nixidy, Hosts}"
  then show ?thesis
    using r by (auto simp: run_gate_def andthen_def nix_def Let_def ret_def throw_def split: sum.splits option.splits if_splits prod.splits)
qed

lemma run_gates_iff:
  assumes "set gs \<subseteq> {Nixidy, Hosts}"
  shows "snd (run_gates env cfg gs s) = s \<and>
    (fst (run_gates env cfg gs s) = Inr () \<longleftrightarrow> rc_no_gate cfg \<or> (\<forall>g \<in> set gs. fst (run_gate env (rc_hosts_before cfg) g s) = Inr ()))"
  using assms
proof (induction gs)
  case (Cons g gs)
  from Cons.prems obtain r where r: "run_gate env (rc_hosts_before cfg) g s = (r, s)" using pin_gate_pure by (metis insert_subset list.simps(15))
  with Cons show ?case by (cases r) (auto simp: run_gates_def andthen_def wrap_def ret_def)
qed (simp add: run_gates_def ret_def)

definition gates_pass :: "up_env \<Rightarrow> run_cfg \<Rightarrow> entry list \<Rightarrow> repo \<Rightarrow> bool" where
  "gates_pass env cfg es t \<longleftrightarrow> fst (run_gates env cfg (gate_set (concat (map (pin_gates env (rp_files t)) es))) t) = Inr ()"

lemma same_entry_gates: "same_entry e e' \<Longrightarrow> pin_gates env f e' = pin_gates env f e"
  by (simp add: same_entry_def pin_gates_def)

lemma group_gates_one:
  assumes "group_of all e g"
  shows "concat (map (\<lambda>b. pin_gates env f (bm_entry b)) (group_files g)) = concat (map (pin_gates env f) (unit_entries all e))"
proof -
  have "list_all2 same_entry es (map bm_entry bs) \<Longrightarrow> concat (map (\<lambda>b. pin_gates env f (bm_entry b)) bs) = concat (map (pin_gates env f) es)" for es bs
    by (induction bs arbitrary: es) (auto simp: list_all2_Cons2 same_entry_gates)
  with assms show ?thesis by (simp add: group_of_def)
qed

lemma gate_now_result:
  assumes "gate_now env cfg gs s = (r, s')"
  shows "s' = s" and "r = Inr (Inr ()) \<or> (\<exists>e. r = Inr (Inl e))"
    and "r = Inr (Inr ()) \<Longrightarrow> g \<in> set gs \<Longrightarrow> group_of all e g \<Longrightarrow> gates_pass env cfg (unit_entries all e) s"
proof -
  note run = run_gates_iff [OF group_gates_sub [of env "rp_files s" gs], of env cfg s]
  obtain x where x: "run_gates env cfg (group_gates env (rp_files s) gs) s = (x, s)" using run by (metis prod.collapse)
  with assms have r: "s' = s" "r = (case x of Inl e \<Rightarrow> Inr (Inl e) | Inr _ \<Rightarrow> Inr (Inr ()))"
    by (auto simp: gate_now_def andthen_def gets_def try_sem_def ret_def split: sum.splits)
  then show "s' = s" and "r = Inr (Inr ()) \<or> (\<exists>e. r = Inr (Inl e))" by (auto split: sum.splits)
  assume "r = Inr (Inr ())" and g: "g \<in> set gs" "group_of all e g"
  with r x have "fst (run_gates env cfg (group_gates env (rp_files s) gs) s) = Inr ()" by (auto split: sum.splits)
  moreover have sub: "set (gate_set (concat (map (pin_gates env (rp_files s)) (unit_entries all e)))) \<subseteq> set (group_gates env (rp_files s) gs)"
    using g(1) unfolding group_gates_def set_gate_set group_gates_one [OF g(2), symmetric] by auto
  ultimately show "gates_pass env cfg (unit_entries all e) s"
    unfolding gates_pass_def using run run_gates_iff [OF subset_trans [OF sub group_gates_sub], of env cfg s] sub by blast
qed

text \<open>What becomes of a lead and its followers: nothing; or the lead alone records why its update was refused;
  or all of them hold what passed their gates.\<close>

definition unit_kept :: "run_cfg \<Rightarrow> files \<Rightarrow> files \<Rightarrow> entry \<Rightarrow> bool" where
  "unit_kept cfg f0 f e \<longleftrightarrow> (\<forall>x \<in> set (unit_entries (rc_all cfg) e). f (en_path x) = f0 (en_path x))"

definition unit_held :: "up_env \<Rightarrow> run_cfg \<Rightarrow> files \<Rightarrow> files \<Rightarrow> entry \<Rightarrow> bool" where
  "unit_held env cfg f0 f e \<longleftrightarrow> (\<forall>x \<in> set (followers (rc_all cfg) (en_id e)). f (en_path x) = f0 (en_path x))
     \<and> (\<exists>c p u why. f0 (en_path e) = Some c \<and> ue_parse env c = Inr p \<and> f (en_path e) = Some (ue_print env (held_pin p u why)))"

definition unit_passed :: "up_env \<Rightarrow> run_cfg \<Rightarrow> files \<Rightarrow> entry \<Rightarrow> bool" where
  "unit_passed env cfg f e \<longleftrightarrow> (\<exists>t. gates_pass env cfg (unit_entries (rc_all cfg) e) t
     \<and> (\<forall>x \<in> set (unit_entries (rc_all cfg) e). rp_files t (en_path x) = f (en_path x)))"

definition unit_settled :: "up_env \<Rightarrow> run_cfg \<Rightarrow> files \<Rightarrow> files \<Rightarrow> entry \<Rightarrow> bool" where
  "unit_settled env cfg f0 f e \<longleftrightarrow> unit_kept cfg f0 f e \<or> unit_held env cfg f0 f e \<or> unit_passed env cfg f e"

lemma unit_settled_cong:
  assumes "\<And>p. p \<in> en_path ` set (unit_entries (rc_all cfg) e) \<Longrightarrow> f p = g p"
  shows "unit_settled env cfg f0 f e = unit_settled env cfg f0 g e"
proof -
  have eq: "f (en_path x) = g (en_path x)" if "x \<in> set (unit_entries (rc_all cfg) e)" for x using assms that by blast
  then have "f (en_path e) = g (en_path e)" "\<And>x. x \<in> set (followers (rc_all cfg) (en_id e)) \<Longrightarrow> f (en_path x) = g (en_path x)"
    by (auto simp: unit_entries_def)
  with eq show ?thesis by (simp add: unit_settled_def unit_kept_def unit_held_def unit_passed_def)
qed

lemma hold_result:
  assumes q: "ue_faults env = (\<lambda>_. False)" and parse: "ue_parse env (bm_original (gr_lead g)) = Inr p"
  shows "\<exists>s' reason. hold env why g s = (Inr (), s') \<and> rp_files s' =
    (put_all (map (\<lambda>b. (bpath b, bm_original b)) (gr_followers g)) (rp_files s))(bpath (gr_lead g) \<mapsto> ue_print env (held_pin p (gr_to g) reason))"
proof -
  from writes_all(2) [OF q, of "gr_followers g" bpath bm_original s] obtain s1 where
    "for_each (gr_followers g) (\<lambda>b. restore env (bpath b) (bm_original b)) s = (Inr (), s1)"
    and "rp_files s1 = put_all (map (\<lambda>b. (bpath b, bm_original b)) (gr_followers g)) (rp_files s)" by blast
  then show ?thesis
    by (auto simp: hold_def andthen_def lift_result_def gets_def parse pin_write_def quiet [OF q] count_failed_def note_line_def)
qed

lemma settle_held:
  assumes q: "ue_faults env = (\<lambda>_. False)" and g: "group_of (rc_all cfg) e g" and parse: "ue_parse env (bm_original (gr_lead g)) = Inr p"
    and orig: "\<forall>b \<in> set (group_files g). f0 (bpath b) = Some (bm_original b)" and d: "distinct (map bpath (group_files g))"
  shows "\<exists>s'. settle env g (Inl why) s = (Inr (), s') \<and> unit_settled env cfg f0 (rp_files s') e
    \<and> (\<forall>p. p \<notin> bpath ` set (group_files g) \<longrightarrow> rp_files s' p = rp_files s p)"
proof -
  from hold_result [OF q parse, of why s] obtain s' reason where run: "hold env why g s = (Inr (), s')"
    and f: "rp_files s' = (put_all (map (\<lambda>b. (bpath b, bm_original b)) (gr_followers g)) (rp_files s))
      (bpath (gr_lead g) \<mapsto> ue_print env (held_pin p (gr_to g) reason))" by blast
  have paths: "bpath (gr_lead g) = en_path e" "map bpath (gr_followers g) = map en_path (followers (rc_all cfg) (en_id e))"
    using group_of_paths [OF g] by (simp_all add: group_files_def unit_entries_def)
  have "rp_files s' (bpath b) = f0 (bpath b)" if b: "b \<in> set (gr_followers g)" for b
  proof -
    have "bpath b \<noteq> bpath (gr_lead g)" using d b by (auto simp: group_files_def image_iff)
    moreover have "put_all (map (\<lambda>b. (bpath b, bm_original b)) (gr_followers g)) (rp_files s) (bpath b) = Some (bm_original b)"
      using d b by (intro put_all_in) (auto simp: group_files_def comp_def)
    ultimately show ?thesis using orig b f by (simp add: group_files_def)
  qed
  then have "\<forall>x \<in> set (followers (rc_all cfg) (en_id e)). rp_files s' (en_path x) = f0 (en_path x)"
    using arg_cong [OF paths(2), of set] by (metis (no_types, lifting) image_iff set_map)
  moreover have "f0 (en_path e) = Some (bm_original (gr_lead g))" using orig paths(1) by (auto simp: group_files_def)
  ultimately have "unit_held env cfg f0 (rp_files s') e" using parse f paths(1) by (auto simp: unit_held_def)
  moreover have "rp_files s' p = rp_files s p" if "p \<notin> bpath ` set (group_files g)" for p
    using that f put_all_other [of p "map (\<lambda>b. (bpath b, bm_original b)) (gr_followers g)" "rp_files s"] by (force simp: group_files_def)
  ultimately show ?thesis using run by (auto simp: settle_def unit_settled_def)
qed

lemma settle_bumped:
  assumes "ue_parse env (bm_original (gr_lead g)) = Inr p"
  shows "\<exists>s'. settle env g (Inr x) s = (Inr (), s') \<and> rp_files s' = rp_files s"
  using assms by (simp add: settle_def report_bumped_def andthen_def lift_result_def note_line_def)

text \<open>A group whose files hold what \<open>f0\<close> had, applied and gated alone.\<close>

lemma isolate_result:
  assumes q: "ue_faults env = (\<lambda>_. False)" and g: "group_of (rc_all cfg) e g" and parse: "ue_parse env (bm_original (gr_lead g)) = Inr p"
    and orig: "\<forall>b \<in> set (group_files g). f0 (bpath b) = Some (bm_original b)" and d: "distinct (map bpath (group_files g))"
  shows "\<exists>s'. isolate env cfg g s = (Inr (), s') \<and> unit_settled env cfg f0 (rp_files s') e
    \<and> (\<forall>p. p \<notin> bpath ` set (group_files g) \<longrightarrow> rp_files s' p = rp_files s p)"
proof -
  from writes_all(1) [OF q, of "group_files g" bpath bm_new s] obtain s1 where
    s1: "for_each (group_files g) (\<lambda>b. fs_write env (bpath b) (bm_new b)) s = (Inr (), s1)"
    and f1: "rp_files s1 = put_all (map (\<lambda>b. (bpath b, bm_new b)) (group_files g)) (rp_files s)" by blast
  have rest: "rp_files s1 p = rp_files s p" if "p \<notin> bpath ` set (group_files g)" for p
    using that unfolding f1 by (intro put_all_other) force
  obtain r where r: "gate_now env cfg [g] s1 = (r, s1)" using gate_now_result(1) by (metis prod.collapse)
  from gate_now_result(2) [OF r] show ?thesis
  proof (elim disjE exE)
    assume ok: "r = Inr (Inr ())"
    have "gates_pass env cfg (unit_entries (rc_all cfg) e) s1" by (rule gate_now_result(3) [OF r ok _ g]) simp
    then have "unit_settled env cfg f0 (rp_files s1) e" by (auto simp: unit_settled_def unit_passed_def)
    moreover obtain s' where "settle env g (Inr ()) s1 = (Inr (), s')" "rp_files s' = rp_files s1" using settle_bumped [OF parse] by blast
    ultimately show ?thesis using s1 r ok rest by (auto simp: isolate_def andthen_def)
  next
    fix why
    assume "r = Inr (Inl why)"
    moreover obtain s' where "settle env g (Inl why) s1 = (Inr (), s')" "unit_settled env cfg f0 (rp_files s') e"
      "\<forall>p. p \<notin> bpath ` set (group_files g) \<longrightarrow> rp_files s' p = rp_files s1 p" using settle_held [OF q g parse orig d] by blast
    ultimately show ?thesis using s1 r rest by (auto simp: isolate_def andthen_def)
  qed
qed

definition pairs_ok :: "up_env \<Rightarrow> run_cfg \<Rightarrow> files \<Rightarrow> entry list \<Rightarrow> group list \<Rightarrow> bool" where
  "pairs_ok env cfg f0 es gs \<longleftrightarrow> list_all2 (group_of (rc_all cfg)) es gs \<and> distinct (map bpath (all_files gs))
     \<and> (\<forall>g \<in> set gs. \<exists>p. ue_parse env (bm_original (gr_lead g)) = Inr p) \<and> (\<forall>b \<in> set (all_files gs). f0 (bpath b) = Some (bm_original b))"

lemma pairs_ok_Cons:
  assumes "pairs_ok env cfg f0 (e # es) (g # gs)"
  shows "group_of (rc_all cfg) e g" and "\<exists>p. ue_parse env (bm_original (gr_lead g)) = Inr p"
    and "\<forall>b \<in> set (group_files g). f0 (bpath b) = Some (bm_original b)" and "distinct (map bpath (group_files g))"
    and "pairs_ok env cfg f0 es gs" and "en_path ` set (unit_entries (rc_all cfg) e) \<inter> bpath ` set (all_files gs) = {}"
proof -
  have "en_path ` set (unit_entries (rc_all cfg) e) = bpath ` set (group_files g)" if "group_of (rc_all cfg) e g"
    using group_of_paths [OF that] by (metis set_map)
  then show "group_of (rc_all cfg) e g" "\<exists>p. ue_parse env (bm_original (gr_lead g)) = Inr p"
    "\<forall>b \<in> set (group_files g). f0 (bpath b) = Some (bm_original b)" "distinct (map bpath (group_files g))"
    "pairs_ok env cfg f0 es gs" "en_path ` set (unit_entries (rc_all cfg) e) \<inter> bpath ` set (all_files gs) = {}"
    using assms by (auto simp: pairs_ok_def)
qed

lemma isolate_all:
  assumes q: "ue_faults env = (\<lambda>_. False)" and "pairs_ok env cfg f0 es gs"
  shows "\<exists>s'. for_each gs (isolate env cfg) s = (Inr (), s') \<and> (\<forall>e \<in> set es. unit_settled env cfg f0 (rp_files s') e)
    \<and> (\<forall>p. p \<notin> bpath ` set (all_files gs) \<longrightarrow> rp_files s' p = rp_files s p)"
  using assms(2)
proof (induction gs arbitrary: es s)
  case Nil
  then show ?case by (simp add: pairs_ok_def ret_def)
next
  case (Cons g gs)
  then obtain e es' where es: "es = e # es'" by (cases es) (auto simp: pairs_ok_def)
  note c = pairs_ok_Cons [OF Cons.prems [unfolded es]]
  from c(2) obtain p where "ue_parse env (bm_original (gr_lead g)) = Inr p" by blast
  from isolate_result [OF q c(1) this c(3,4), of s] obtain s1 where s1: "isolate env cfg g s = (Inr (), s1)"
    "unit_settled env cfg f0 (rp_files s1) e" "\<forall>p. p \<notin> bpath ` set (group_files g) \<longrightarrow> rp_files s1 p = rp_files s p" by blast
  from Cons.IH [OF c(5), of s1] obtain s' where s': "for_each gs (isolate env cfg) s1 = (Inr (), s')"
    "\<forall>e \<in> set es'. unit_settled env cfg f0 (rp_files s') e" "\<forall>p. p \<notin> bpath ` set (all_files gs) \<longrightarrow> rp_files s' p = rp_files s1 p" by blast
  have "unit_settled env cfg f0 (rp_files s') e = unit_settled env cfg f0 (rp_files s1) e"
    by (rule unit_settled_cong) (use c(6) s'(3) in blast)
  with s1 s' show ?case unfolding es by (auto simp: andthen_def image_Un)
qed

lemma settle_all:
  assumes "\<forall>g \<in> set gs. \<exists>p. ue_parse env (bm_original (gr_lead g)) = Inr p"
  shows "\<exists>s'. for_each gs (\<lambda>g. settle env g (Inr ())) s = (Inr (), s') \<and> rp_files s' = rp_files s"
  using assms
proof (induction gs arbitrary: s)
  case (Cons g gs)
  then obtain p where "ue_parse env (bm_original (gr_lead g)) = Inr p" by auto
  from settle_bumped [OF this] obtain s1 where "settle env g (Inr ()) s = (Inr (), s1)" "rp_files s1 = rp_files s" by blast
  with Cons show ?case by (fastforce simp: andthen_def)
qed (simp add: ret_def)

lemma gate_groups_result:
  assumes q: "ue_faults env = (\<lambda>_. False)" and ok: "pairs_ok env cfg f0 es gs" and mv: "moved f0 (all_files gs) (rp_files s)"
  shows "\<exists>s'. gate_groups env cfg gs s = (Inr (), s') \<and> (\<forall>e \<in> set es. unit_settled env cfg f0 (rp_files s') e)
    \<and> (\<forall>p. p \<notin> bpath ` set (all_files gs) \<longrightarrow> rp_files s' p = f0 p)"
proof (cases "gs = []")
  case True
  with ok mv show ?thesis by (simp add: gate_groups_def pairs_ok_def ret_def moved_def)
next
  case False
  obtain r where r: "gate_now env cfg gs s = (r, s)" using gate_now_result(1) by (metis prod.collapse)
  from gate_now_result(2) [OF r] show ?thesis
  proof (elim disjE exE)
    assume pass: "r = Inr (Inr ())"
    obtain s' where s': "for_each gs (\<lambda>g. settle env g (Inr ())) s = (Inr (), s')" "rp_files s' = rp_files s"
      using settle_all ok by (metis pairs_ok_def)
    have "unit_settled env cfg f0 (rp_files s') e" if "e \<in> set es" for e
    proof -
      from ok that obtain g where "g \<in> set gs" "group_of (rc_all cfg) e g" unfolding pairs_ok_def by (metis list_all2_conv_all_nth in_set_conv_nth)
      from gate_now_result(3) [OF r pass this] s'(2) show ?thesis by (auto simp: unit_settled_def unit_passed_def)
    qed
    with False r pass s' mv show ?thesis by (auto simp: gate_groups_def andthen_def moved_def)
  next
    fix why
    assume bad: "r = Inr (Inl why)"
    show ?thesis
    proof (cases "length gs = 1")
      case True
      with ok obtain g e where ge: "gs = [g]" "es = [e]" by (cases gs; cases es) (auto simp: pairs_ok_def)
      note c = pairs_ok_Cons [OF ok [unfolded ge]]
      from c(2) obtain p where "ue_parse env (bm_original (gr_lead g)) = Inr p" by blast
      from settle_held [OF q c(1) this c(3,4), of why s] False r bad mv ge show ?thesis
        by (fastforce simp: gate_groups_def andthen_def ret_def moved_def)
    next
      case more: False
      from writes_all(2) [OF q, of "all_files gs" bpath bm_original s] obtain s1 where
        s1: "for_each (all_files gs) (\<lambda>b. restore env (bpath b) (bm_original b)) s = (Inr (), s1)"
        and f1: "rp_files s1 = put_all (map (\<lambda>b. (bpath b, bm_original b)) (all_files gs)) (rp_files s)" by blast
      have rest: "rp_files s1 p = f0 p" if "p \<notin> bpath ` set (all_files gs)" for p
        using mv that put_all_other [of p "map (\<lambda>b. (bpath b, bm_original b)) (all_files gs)" "rp_files s"] unfolding f1 moved_def by force
      from isolate_all [OF q ok, of s1] obtain s' where s': "for_each gs (isolate env cfg) s1 = (Inr (), s')"
        "\<forall>e \<in> set es. unit_settled env cfg f0 (rp_files s') e" "\<forall>p. p \<notin> bpath ` set (all_files gs) \<longrightarrow> rp_files s' p = rp_files s1 p" by blast
      have "gate_groups env cfg gs s = (Inr (), s')"
        using False more r bad s1 s'(1) by (simp add: gate_groups_def andthen_def)
      with s'(2,3) rest show ?thesis by auto
    qed
  qed
qed

lemma unit_paths_apart:
  assumes "distinct (map en_path all)" and "distinct (map en_id all)" and "set es \<subseteq> set all" and "distinct es"
    and "\<forall>e \<in> set es. pn_follows (en_pin e) = None"
  shows "distinct (concat (map (\<lambda>e. map en_path (unit_entries all e)) es))"
proof -
  have inj: "inj_on en_path (set all)" "inj_on en_id (set all)" using assms(1,2) by (simp_all add: distinct_map)
  have sub: "set (unit_entries all e) \<subseteq> set all" if "e \<in> set es" for e
    using that assms(3) by (auto simp: unit_entries_def followers_def)
  have "distinct (concat (map (unit_entries all) es))"
    using assms(3-5)
  proof (induction es)
    case (Cons e es)
    have "distinct (unit_entries all e)"
      using Cons.prems assms(1) by (auto simp: unit_entries_def followers_def distinct_map)
    moreover have "set (unit_entries all e) \<inter> set (unit_entries all e') = {}" if "e' \<in> set es" for e'
    proof -
      have "e \<noteq> e'" "e \<in> set all" "e' \<in> set all" using that Cons.prems by auto
      with inj(2) have "en_id e \<noteq> en_id e'" by (auto dest: inj_onD)
      with that Cons.prems \<open>e \<noteq> e'\<close> show ?thesis by (auto simp: unit_entries_def followers_def)
    qed
    ultimately show ?case using Cons by auto
  qed simp
  moreover have "inj_on en_path (set (concat (map (unit_entries all) es)))" using inj(1) by (rule inj_on_subset) (use sub in auto)
  ultimately have "distinct (map en_path (concat (map (unit_entries all) es)))" by (simp add: distinct_map)
  then show ?thesis by (simp add: map_concat comp_def)
qed

lemma files_in_units:
  assumes "list_all2 (group_of all) es gs" and "b \<in> set (all_files gs)"
  shows "\<exists>e \<in> set es. bpath b \<in> en_path ` set (unit_entries all e)"
proof -
  from assms(2) obtain g where g: "g \<in> set gs" "b \<in> set (group_files g)" by auto
  with assms(1) obtain e where e: "e \<in> set es" "group_of all e g" by (metis list_all2_conv_all_nth in_set_conv_nth)
  have "bpath b \<in> set (map bpath (group_files g))" using g(2) by simp
  with e(1) group_of_paths [OF e(2)] show ?thesis by auto
qed

lemma leads_parse:
  assumes "list_all2 (group_of all) es gs" and "moved f0 (all_files gs) f" and "g \<in> set gs"
    and "\<forall>e \<in> set es. \<exists>c p. f0 (en_path e) = Some c \<and> ue_parse env c = Inr p"
  shows "\<exists>p. ue_parse env (bm_original (gr_lead g)) = Inr p"
proof -
  from assms(1,3) obtain e where e: "e \<in> set es" "group_of all e g" by (metis list_all2_conv_all_nth in_set_conv_nth)
  then have "bpath (gr_lead g) = en_path e" using group_of_paths [OF e(2)] by (simp add: group_files_def unit_entries_def)
  moreover have "gr_lead g \<in> set (all_files gs)" using assms(3) by (auto simp: group_files_def)
  ultimately have "f0 (en_path e) = Some (bm_original (gr_lead g))" using assms(2) by (metis moved_def)
  with assms(4) e(1) show ?thesis by fastforce
qed


section \<open>Three gaps\<close>

text \<open>Whether the hosts have to be evaluated before the run is decided by the leads alone, but a group is gated
  for its followers too. When only a follower is used by a host, the host gate has nothing to compare
  with and fails, whatever the update.\<close>

lemma follower_host_gate_fails:
  assumes "EFlake \<notin> set (pl_ecos pl)" and "\<forall>e \<in> set es. Hosts \<notin> set (pin_gates env (rp_files s) e)"
    and "Hosts \<in> set gs" and "set gs \<subseteq> {Nixidy, Hosts}" and "\<not> rc_no_gate cfg" and "baseline env False pl es s = (Inr (rc_hosts_before cfg), s')"
  shows "fst (run_gates env cfg gs t) \<noteq> Inr ()"
proof -
  have "rc_hosts_before cfg = None"
    using assms(1,2,6) by (auto simp: baseline_def andthen_def gets_def ret_def list_ex_iff split: if_splits)
  then have "fst (run_gate env (rc_hosts_before cfg) Hosts t) \<noteq> Inr ()" by (simp add: run_gate_def throw_def)
  with run_gates_iff [OF assms(4), of env cfg t] assms(3,5) show ?thesis by blast
qed

text \<open>A pin whose lead follows another pin itself belongs to no unit of a run, so it never moves.\<close>

lemma chained_follower_never_moves:
  assumes "pn_follows (en_pin f) = Some i" and "\<forall>e \<in> set all. en_id e = i \<longrightarrow> pn_follows (en_pin e) \<noteq> None"
    and "e \<in> set (select_entries all pl pins)"
  shows "f \<notin> set (unit_entries all e)"
  using assms by (auto simp: unit_entries_def followers_def select_entries_def)

text \<open>A follower whose file cannot be read ends the loop at once: the followers before it keep their new
  versions, while the lead is put back.\<close>

lemma unreadable_follower_keeps_the_others:
  assumes "rp_files s (en_path f) = None"
  shows "\<exists>err s'. bump_followers_step env v cs f bs s = (Inl err, s') \<and> rp_files s' = rp_files s"
  using assms by (auto simp: bump_followers_step_def andthen_def fs_read_def fs_call_def Let_def)

section \<open>A sample run\<close>

definition sample_cfg :: run_cfg where
  "sample_cfg = \<lparr>rc_all = [sample_lead, sample_follower], rc_hosts_before = None, rc_no_gate = False, rc_major = False\<rparr>"

lemma sample_entries:
  "pin_ok (en_pin sample_lead)" "pin_ok (en_pin sample_follower)" "rc_all sample_cfg = [sample_lead, sample_follower]"
  "en_path sample_lead = ''a''" "en_path sample_follower = ''b''" "en_id sample_lead \<noteq> en_id sample_follower"
  "pn_follows (en_pin sample_lead) = None" "reads_back sample_up_env" "ue_faults sample_up_env = (\<lambda>_. False)"
  "ue_parse sample_up_env = sample_parse"
  by (simp_all add: sample_lead_def sample_follower_def sample_cfg_def chart_pin_def pin_ok_iff is_oci_def is_url_set_def
      reads_back_def sample_up_env_def sample_reads_back)

lemma sample_files:
  "rp_files sample_repo ''a'' = Some (sample_print (chart_pin None))"
  "rp_files sample_repo ''b'' = Some (sample_print (chart_pin (Some ''charts/c'')))"
  by (simp_all add: sample_repo_def)



text \<open>In this run the lead and its follower both move to 2.0.\<close>

lemma sample_run_moves:
  "map (\<lambda>p. map_option (\<lambda>c. map_sum id pn_version (sample_parse c))
     (rp_files (snd (bump_pins sample_up_env sample_cfg [sample_lead] sample_repo)) p)) [''a'', ''b''] = [Some (Inr ''2.0''), Some (Inr ''2.0'')]"
  by code_simp

end
