(* ===== verification/Lockfiles.thy ===== *)
theory Lockfiles
  imports Bumps Damage
begin

text \<open>
  What the rest of \<^verbatim>\<open>tools/update\<close> keeps: a refused version stays out by the constraint that the hold
  writes, a lockfile update that fails or does not pass its gates leaves the files as they were, and a
  dependency marked as held is read back as held.
\<close>

section \<open>A hold keeps its version out\<close>

lemma matches_append: "matches (a @ b) v \<longleftrightarrow> matches a v \<and> matches b v"
  by (simp add: matches_def)

text \<open>Property C28: a refused version is not offered again. When an update to a proper version is held, the
  constraint in the pin parses, and it admits exactly the versions below the refused one that the
  constraint from before admits; so no later check picks the refused version or a newer one.\<close>

theorem held_version_stays_out:
  assumes "parse_version (up_version u) = Some k" and "up_version u \<noteq> pn_version p"
    and "pin_constraint p False = Inr before"
  shows "\<exists>cs. pin_constraint (held_pin p u why) False = Inr (Some cs)
     \<and> (\<forall>v. matches cs v \<longleftrightarrow> v < k \<and> (case before of Some c \<Rightarrow> matches c v | None \<Rightarrow> True))"
proof (cases "pn_constraint p")
  case None
  with assms parse_constraint_bound(1) [OF assms(1)] show ?thesis
    by (auto simp: held_pin_def pin_constraint_def matches_def satisfies_def)
next
  case (Some c)
  with assms(3) obtain cs where cs: "parse_constraint c = Inr cs" "before = Some cs"
    by (auto simp: pin_constraint_def split: sum.splits)
  with Some assms(1,2) parse_constraint_bound(2) [OF assms(1) cs(1)] show ?thesis
    by (auto simp: held_pin_def pin_constraint_def matches_append) (auto simp: matches_def satisfies_def)
qed

definition sample_pin :: "string \<Rightarrow> pin" where
  "sample_pin v = \<lparr>pn_version = v, pn_hash = Some ''h'', pn_digest = None, pn_hashes = [], pn_source = HelmRepo ''r'' ''c'',
     pn_constraint = Some ''>=1'', pn_hold = None, pn_follows = None\<rparr>"

theorem held_version_stays_out_witness:
  "\<exists>cs. pin_constraint (held_pin (sample_pin ''1.96'') \<lparr>up_version = ''1.98'', up_digest = None\<rparr> ''x'') False = Inr (Some cs)
     \<and> \<not> matches cs (Version [1, 98]) \<and> matches cs (Version [1, 97])"
proof -
  have k: "parse_version (up_version \<lparr>up_version = ''1.98'', up_digest = None\<rparr>) = Some (Version [1, 98])" by code_simp
  have c: "pin_constraint (sample_pin ''1.96'') False = Inr (Some [(Ge, Version [1])])" by code_simp
  have n: "up_version \<lparr>up_version = ''1.98'', up_digest = None\<rparr> \<noteq> pn_version (sample_pin ''1.96'')" by (simp add: sample_pin_def)
  have lt: "Version [1, 97] < Version [1, 98]" "matches [(Ge, Version [1])] (Version [1, 97])" by code_simp+
  have irr: "\<not> Version [1, 98] < Version [1, 98]" by simp
  from held_version_stays_out [OF k n c, of "''x''"] lt irr show ?thesis by auto
qed

section \<open>A lockfile that fails is restored\<close>

lemma quiet_eco:
  assumes "ue_faults env = (\<lambda>_. False)"
  shows "try_read env p s = (Inr (rp_files s p), s\<lparr>rp_calls := Suc (rp_calls s)\<rparr>)"
    and "fs_write env p c s = (Inr (), s\<lparr>rp_calls := Suc (rp_calls s), rp_files := (rp_files s)(p \<mapsto> c)\<rparr>)"
    and "fs_remove env p s = (Inr (), s\<lparr>rp_calls := Suc (rp_calls s), rp_files := (rp_files s)(p := None)\<rparr>)"
  using assms by (auto simp: try_read_def fs_read_def fs_write_def fs_remove_def fs_call_def Let_def try_sem_def ret_def split: option.splits)

lemma snapshot_result:
  assumes q: "ue_faults env = (\<lambda>_. False)"
  shows "\<exists>s'. snapshot env ps s = (Inr (map (\<lambda>p. (p, rp_files s p)) ps), s') \<and> rp_files s' = rp_files s"
proof -
  have "\<exists>s'. fold_sem ps (\<lambda>p acc. andthen (try_read env p) (\<lambda>c. ret (acc @ [(p, c)]))) acc s
      = (Inr (acc @ map (\<lambda>p. (p, rp_files s p)) ps), s') \<and> rp_files s' = rp_files s" for acc
  proof (induction ps arbitrary: acc s)
    case (Cons p ps)
    from Cons.IH [of "acc @ [(p, rp_files s p)]" "s\<lparr>rp_calls := Suc (rp_calls s)\<rparr>"] show ?case
      by (auto simp: andthen_def quiet_eco [OF q] ret_def)
  qed (simp add: ret_def)
  from this [of "[]"] show ?thesis by (simp add: snapshot_def)
qed

lemma restore_one_result:
  assumes q: "ue_faults env = (\<lambda>_. False)"
  shows "\<exists>s'. restore_one env (p, c) s = (Inr (), s') \<and> rp_files s' = (rp_files s)(p := c)"
  by (cases c) (auto simp: restore_one_def quiet_eco [OF q] andthen_def gets_def whenever_def ret_def is_file_def)

lemma restore_all_result:
  assumes q: "ue_faults env = (\<lambda>_. False)"
  shows "\<exists>s'. restore_all env (map (\<lambda>p. (p, f0 p)) ps) s = (Inr (), s') \<and> (\<forall>p \<in> set ps. rp_files s' p = f0 p)"
proof -
  have "\<exists>s'. restore_all env (map (\<lambda>p. (p, f0 p)) ps) s = (Inr (), s')
      \<and> (\<forall>p. p \<in> set ps \<longrightarrow> rp_files s' p = f0 p) \<and> (\<forall>p. p \<notin> set ps \<longrightarrow> rp_files s' p = rp_files s p)"
  proof (induction ps arbitrary: s)
    case (Cons p ps)
    from restore_one_result [OF q, of p "f0 p" s] obtain s1 where
      s1: "restore_one env (p, f0 p) s = (Inr (), s1)" "rp_files s1 = (rp_files s)(p := f0 p)" by blast
    from Cons.IH [of s1] obtain s' where s': "restore_all env (map (\<lambda>p. (p, f0 p)) ps) s1 = (Inr (), s')"
      "\<forall>p. p \<in> set ps \<longrightarrow> rp_files s' p = f0 p" "\<forall>p. p \<notin> set ps \<longrightarrow> rp_files s' p = rp_files s1 p" by blast
    have "restore_all env (map (\<lambda>p. (p, f0 p)) (p # ps)) s = (Inr (), s')"
      using s1(1) s'(1) by (simp add: restore_all_def andthen_def)
    moreover have "\<forall>q. q \<in> set (p # ps) \<longrightarrow> rp_files s' q = f0 q" using s' s1(2) by (metis fun_upd_same set_ConsD)
    moreover have "\<forall>q. q \<notin> set (p # ps) \<longrightarrow> rp_files s' q = rp_files s q" using s' s1(2) by simp
    ultimately show ?case by blast
  qed (simp add: restore_all_def ret_def)
  then show ?thesis by blast
qed

lemma changed_result:
  assumes q: "ue_faults env = (\<lambda>_. False)"
  shows "\<exists>s'. changed env (map (\<lambda>p. (p, f0 p)) ps) s = (Inr (filter (\<lambda>p. rp_files s p \<noteq> f0 p) ps), s') \<and> rp_files s' = rp_files s"
proof -
  have "\<exists>s'. fold_sem (map (\<lambda>p. (p, f0 p)) ps) (\<lambda>(p, c) acc. andthen (try_read env p) (\<lambda>c'. ret (if c' \<noteq> c then acc @ [p] else acc))) acc s
      = (Inr (acc @ filter (\<lambda>p. rp_files s p \<noteq> f0 p) ps), s') \<and> rp_files s' = rp_files s" for acc
  proof (induction ps arbitrary: acc s)
    case (Cons p ps)
    from Cons.IH [of "if rp_files s p \<noteq> f0 p then acc @ [p] else acc" "s\<lparr>rp_calls := Suc (rp_calls s)\<rparr>"] show ?case
      by (auto simp: andthen_def quiet_eco [OF q] ret_def split: if_splits)
  qed (simp add: ret_def)
  from this [of "[]"] show ?thesis by (simp add: changed_def)
qed

lemma revert_result:
  assumes q: "ue_faults env = (\<lambda>_. False)"
  shows "\<exists>s'. revert env (map (\<lambda>p. (p, f0 p)) ps) l s = (Inr (), s') \<and> (\<forall>p \<in> set ps. rp_files s' p = f0 p)"
  using restore_all_result [OF q, of f0 ps s] by (auto simp: revert_def andthen_def count_failed_def note_line_def)



section \<open>Dependencies marked as held\<close>

lemma trim_end_front: "a \<noteq> [] \<Longrightarrow> \<not> P (last a) \<Longrightarrow> trim_end_matches P (a @ b) = a @ trim_end_matches P b"
  by (auto simp: trim_end_matches_def dropWhile_append dropWhile_hd hd_rev)

lemma first_word:
  assumes "is_space c" and "name \<noteq> []" and "\<forall>x \<in> set name. \<not> is_space x" and "r = [] \<or> is_space (hd r)"
  shows "\<exists>ws. split_whitespace (c # name @ r) = name # ws"
proof (cases r)
  case Nil
  with assms split_on_none [of name is_space] show ?thesis by (simp add: split_whitespace_def)
next
  case (Cons d r')
  with assms split_on_append [of is_space d name r'] split_on_none [of name is_space] show ?thesis by (simp add: split_whitespace_def)
qed

lemma held_mark:
  assumes "name \<noteq> []" and "\<forall>c \<in> set name. \<not> is_space c"
  shows "held_line (hold_mark name reason l) = Some name"
proof -
  have h: "\<not> is_space (CHR ''#'')" and sp: "is_space (CHR '' '')" by (simp_all add: is_space_def)
  have "dropWhile is_space (hold_mark name reason l) = ''# hold: '' @ name @ '' '' @ reason"
    unfolding hold_mark_def by (subst dropWhile_append2) (use h in \<open>auto dest: set_takeWhileD\<close>)
  then have "trim (hold_mark name reason l) = trim_end_matches is_space ((''# hold: '' @ name) @ '' '' @ reason)"
    by (simp add: trim_matches_def trim_start_matches_def)
  also have "\<dots> = (''# hold: '' @ name) @ trim_end_matches is_space ('' '' @ reason)"
    by (rule trim_end_front) (use assms in auto)
  finally have t: "strip_prefix ''# hold:'' (trim (hold_mark name reason l)) = Some (CHR '' '' # name @ trim_end_matches is_space ('' '' @ reason))"
    by simp
  have "trim_end_matches is_space ('' '' @ reason) = [] \<or> is_space (hd (trim_end_matches is_space ('' '' @ reason)))"
    using trim_end_matches_prefix [of "'' '' @ reason" is_space] sp by (metis append_Cons append_Nil hd_append2 list.sel(1))
  from first_word [OF sp assms this] t show ?thesis by (auto simp: held_line_def)
qed

lemma hold_lines_held:
  assumes "name \<noteq> []" and "\<forall>c \<in> set name. \<not> is_space c"
  shows "set (List.map_filter held_line (hold_lines name reason ls)) =
    set (List.map_filter held_line ls) \<union> (if list_ex (names_dep name) ls then {name} else {})"
  using held_mark [OF assms] by (induction ls) (auto simp: List.map_filter_simps split: option.splits)

lemma hold_lines_plain: "list_all plain ls \<Longrightarrow> plain name \<Longrightarrow> plain reason \<Longrightarrow> list_all plain (hold_lines name reason ls)"
proof -
  have "plain l \<Longrightarrow> plain name \<Longrightarrow> plain reason \<Longrightarrow> plain (hold_mark name reason l)" for l
    by (auto simp: hold_mark_def plain_def newline_def carriage_def dest: set_takeWhileD)
  then show "list_all plain ls \<Longrightarrow> plain name \<Longrightarrow> plain reason \<Longrightarrow> list_all plain (hold_lines name reason ls)"
    by (induction ls) auto
qed

text \<open>A mark is read back. When a dependency that has a line of its own in a manifest is marked
  as held, the dependencies read as held are the ones from before and it; when it has none (it is a
  table of its own, say), nothing changes in them.\<close>

lemma holds_read_back:
  assumes "name \<noteq> []" and "\<forall>c \<in> set name. \<not> is_space c" and "carriage \<notin> set manifest" and "plain reason"
  shows "set (held (add_hold manifest name reason)) =
    set (held manifest) \<union> (if list_ex (names_dep name) (lines manifest) then {name} else {})"
proof -
  have "plain name" using assms(2) by (auto simp: plain_def is_space_def newline_def carriage_def)
  moreover have "list_all plain (lines manifest)" using lines_plain [OF assms(3)] by (simp add: list_all_iff)
  ultimately have "lines (add_hold manifest name reason) = hold_lines name reason (lines manifest)"
    using assms(4) by (simp add: add_hold_def lines_of_lines hold_lines_plain)
  then show ?thesis using hold_lines_held [OF assms(1,2)] by (simp add: held_def)
qed

lemma holds_read_back_witness:
  "set (held (add_hold (''[dependencies]'' @ [newline] @ ''libc = 0.2'') ''libc'' ''0.3 fails'')) = {''libc''}"
proof -
  have m: "held (''[dependencies]'' @ [newline] @ ''libc = 0.2'') = []" by code_simp
  have l: "list_ex (names_dep ''libc'') (lines (''[dependencies]'' @ [newline] @ ''libc = 0.2''))" by code_simp
  have "\<forall>c \<in> set ''libc''. \<not> is_space c" by (simp add: is_space_def)
  moreover have "carriage \<notin> set (''[dependencies]'' @ [newline] @ ''libc = 0.2'')" by (simp add: carriage_def newline_def)
  moreover have "plain ''0.3 fails''" by (simp add: plain_def newline_def carriage_def)
  ultimately have "set (held (add_hold (''[dependencies]'' @ [newline] @ ''libc = 0.2'') ''libc'' ''0.3 fails'')) =
      set (held (''[dependencies]'' @ [newline] @ ''libc = 0.2'')) \<union>
      (if list_ex (names_dep ''libc'') (lines (''[dependencies]'' @ [newline] @ ''libc = 0.2'')) then {''libc''} else {})"
    by (rule holds_read_back [rotated]) simp
  then show ?thesis unfolding m if_P [OF l] by simp
qed

text \<open>A dependency with a table of its own is reported as held, but its manifest gets no mark.\<close>

lemma table_dependency_gets_no_mark:
  "held (add_hold (''[dependencies.serde]'' @ [newline] @ ''version = 1'' @ [newline]) ''serde'' ''2 fails cargo check'') = []"
  by code_simp

end
