(* ===== verification/Seerr.thy ===== *)
theory Seerr
  imports Prelude
begin

text \<open>
  \<^verbatim>\<open>apps/seerr-sso/src/main.rs\<close>: the proxy that signs people in to Seerr as themselves. The two servers
  (oauth2-proxy and Seerr) are one parameter: \<open>sx_http\<close> takes a request and the state of the world to an
  answer, or a transport error, and a new state. The settings file, \<^verbatim>\<open>serde_json\<close>, HMAC, SHA-256 and the
  clock are parameters too; the clock is read by the number of the reading, in milliseconds.
  Requests are served one after the other. Header names are lower case, as \<^verbatim>\<open>hyper\<close> has them. The state
  keeps every exchange on the wire, for the statements; log lines and sleeps are left out.
\<close>

section \<open>HTTP\<close>

type_synonym headers = "(string \<times> string) list"

record hreq =
  hq_method :: string
  hq_url :: string
  hq_headers :: headers
  hq_body :: "string option"

record hresp =
  hs_status :: nat
  hs_headers :: headers
  hs_body :: "string + string"

definition nul :: char where "nul = CHR 0x00"

text \<open>\<^verbatim>\<open>HeaderValue::to_str\<close>, and what \<^verbatim>\<open>HeaderValue\<close> accepts.\<close>

definition to_str :: "string \<Rightarrow> string option" where
  "to_str v = (if list_all (\<lambda>c. c = CHR 0x09 \<or> (32 \<le> (of_char c :: int) \<and> of_char c < (127 :: int))) v then Some v else None)"

definition valid_value :: "string \<Rightarrow> bool" where
  "valid_value v \<longleftrightarrow> list_all (\<lambda>c. c = CHR 0x09 \<or> (32 \<le> (of_char c :: int) \<and> of_char c \<noteq> (127 :: int))) v"

definition header_get :: "headers \<Rightarrow> string \<Rightarrow> string option" where
  "header_get h n = map_of h n"

definition header_all :: "headers \<Rightarrow> string \<Rightarrow> string list" where
  "header_all h n = map snd (filter (\<lambda>(k, _). k = n) h)"

section \<open>Configuration\<close>

definition ADMIN :: nat where "ADMIN = 2"
definition FAMILY :: nat where "FAMILY = 32 + 16384 + 4194304 + 67108864"
definition AUTH_CACHE :: nat where "AUTH_CACHE = 15000"

record cfg =
  cf_upstream :: string
  cf_auth_url :: string
  cf_settings_file :: string
  cf_key :: string
  cf_admin_groups :: "string list"
  cf_family_groups :: "string list"
  cf_family_perms :: nat
  cf_ttl :: nat
  cf_link_jellyfin :: bool

definition env_or :: "(string \<Rightarrow> string option) \<Rightarrow> string \<Rightarrow> string \<Rightarrow> string" where
  "env_or vars name dflt = (case vars name of Some v \<Rightarrow> if v \<noteq> [] then v else dflt | None \<Rightarrow> dflt)"

definition comma_list :: "string \<Rightarrow> string list" where
  "comma_list s = filter (\<lambda>w. w \<noteq> []) (map trim (split_char (CHR '','') s))"

definition parse_u64 :: "string \<Rightarrow> string + nat" where
  "parse_u64 s =
     (case parse_uint 64 s of
        Some n \<Rightarrow> Inr n
      | None \<Rightarrow> Inl (let ds = (case s of c # r \<Rightarrow> if c = CHR ''+'' then r else s | [] \<Rightarrow> [])
                     in if s = [] then ''cannot parse integer from empty string''
                        else if ds = [] \<or> \<not> list_all is_digit ds then ''invalid digit found in string''
                        else ''number too large to fit in target type''))"

definition from_env :: "(string \<Rightarrow> string option) \<Rightarrow> (string \<Rightarrow> string + string) \<Rightarrow> string + cfg" where
  "from_env vars read =
     (let key_file = env_or vars ''SSO_KEY_FILE'' ''/secrets/key/password'' in
      case read key_file of
        Inl e \<Rightarrow> Inl (key_file @ '': '' @ e)
      | Inr content \<Rightarrow>
          let key = trim content in
          if length key < 16 then Inl (key_file @ '': the key must be at least 16 bytes'')
          else case parse_u64 (env_or vars ''FAMILY_PERMISSIONS'' (nat_str FAMILY)) of
                 Inl e \<Rightarrow> Inl (''FAMILY_PERMISSIONS: '' @ e)
               | Inr perms \<Rightarrow>
                   case parse_u64 (env_or vars ''SESSION_TTL_SECS'' ''1800'') of
                     Inl e \<Rightarrow> Inl (''SESSION_TTL_SECS: '' @ e)
                   | Inr ttl \<Rightarrow>
                       Inr \<lparr>cf_upstream = trim_end_matches (\<lambda>c. c = CHR ''/'') (env_or vars ''UPSTREAM'' ''http://127.0.0.1:5055''),
                            cf_auth_url = env_or vars ''AUTH_URL'' ''http://oauth2-proxy.identity.svc.cluster.local:4180/oauth2/auth'',
                            cf_settings_file = env_or vars ''SETTINGS_FILE'' ''/app/config/settings.json'',
                            cf_key = key,
                            cf_admin_groups = comma_list (env_or vars ''ADMIN_GROUPS'' ''admin''),
                            cf_family_groups = comma_list (env_or vars ''FAMILY_GROUPS'' ''family''),
                            cf_family_perms = perms,
                            cf_ttl = 1000 * ttl,
                            cf_link_jellyfin = (env_or vars ''LINK_JELLYFIN'' ''true'' = ''true'')\<rparr>)"

definition permissions :: "cfg \<Rightarrow> string list \<Rightarrow> nat option" where
  "permissions cfg groups =
     (let has = (\<lambda>wanted. list_ex (\<lambda>g. g \<in> set wanted) groups)
      in if has (cf_admin_groups cfg) then Some ADMIN
         else if has (cf_family_groups cfg) then Some (cf_family_perms cfg)
         else None)"

section \<open>Identities\<close>

record identity =
  in_email :: string
  in_username :: string
  in_groups :: "string list"

definition header_text :: "headers \<Rightarrow> string \<Rightarrow> string option" where
  "header_text h n =
     (case Option.bind (header_get h n) to_str of
        Some v \<Rightarrow> if trim v \<noteq> [] then Some (trim v) else None
      | None \<Rightarrow> None)"

definition identity_from :: "headers \<Rightarrow> identity option" where
  "identity_from h =
     (let user = header_text h ''x-auth-request-user'' in
      case (case header_text h ''x-auth-request-email'' of
              Some e \<Rightarrow> Some e
            | None \<Rightarrow> (case user of Some u \<Rightarrow> if CHR ''@'' \<in> set u then Some u else None | None \<Rightarrow> None)) of
        None \<Rightarrow> None
      | Some e \<Rightarrow>
          let email = map to_lower e in
          Some \<lparr>in_email = email,
                in_username = (case header_text h ''x-auth-request-preferred-username'' of
                                 Some n \<Rightarrow> n
                               | None \<Rightarrow> (case user of Some u \<Rightarrow> u | None \<Rightarrow> hd (split_char (CHR ''@'') email))),
                in_groups = (case header_text h ''x-auth-request-groups'' of Some g \<Rightarrow> comma_list g | None \<Rightarrow> [])\<rparr>)"

definition eq_ignore_case :: "json \<Rightarrow> string \<Rightarrow> string \<Rightarrow> bool" where
  "eq_ignore_case v k want = (case as_str (jget v k) of Some s \<Rightarrow> map to_lower s = map to_lower want | None \<Rightarrow> False)"

definition find_user :: "json list \<Rightarrow> identity \<Rightarrow> json option" where
  "find_user users i =
     (let candidates = filter (\<lambda>u. as_i64 (jget u ''id'') \<noteq> Some 1) users in
      case find (\<lambda>u. eq_ignore_case u ''email'' (in_email i)) candidates of
        Some u \<Rightarrow> Some u
      | None \<Rightarrow> find (\<lambda>u. eq_ignore_case u ''jellyfinUsername'' (in_username i)) candidates)"

definition session_cookie :: "string list \<Rightarrow> string option" where
  "session_cookie cookies =
     (case List.map_filter (\<lambda>c. strip_prefix ''connect.sid='' (hd (split_char (CHR '';'') c))) cookies of
        [] \<Rightarrow> None
      | sid # _ \<Rightarrow> Some sid)"

definition drop_request_header :: "string \<Rightarrow> bool" where
  "drop_request_header name \<longleftrightarrow> name \<in>
     {''connection'', ''keep-alive'', ''proxy-authenticate'', ''proxy-authorization'', ''te'', ''trailer'', ''transfer-encoding'',
      ''upgrade'', ''content-length'', ''cookie'', ''authorization'', ''x-api-key'', ''x-api-user'', ''x-forwarded-proto''}"

definition drop_response_header :: "string \<Rightarrow> bool" where
  "drop_response_header name \<longleftrightarrow> name \<in>
     {''connection'', ''keep-alive'', ''proxy-authenticate'', ''te'', ''trailer'', ''transfer-encoding'', ''upgrade'', ''content-length''}"

section \<open>State\<close>

record 'w sso_env =
  sx_http :: "hreq \<Rightarrow> 'w \<Rightarrow> (string + hresp) \<times> 'w"
  sx_read :: "string \<Rightarrow> 'w \<Rightarrow> string + string"
  sx_json :: "string \<Rightarrow> string + json"
  sx_ser :: "json \<Rightarrow> string"
  sx_hmac :: "string \<Rightarrow> string \<Rightarrow> string"
  sx_sha :: "string \<Rightarrow> string"
  sx_clock :: "nat \<Rightarrow> nat"

record session =
  ss_sid :: string
  ss_perms :: nat
  ss_at :: nat

type_synonym exchange = "hreq \<times> (string + hresp)"

record 'w app =
  ap_sessions :: "(string \<times> session) list"
  ap_identities :: "(string \<times> nat \<times> identity) list"
  ap_reads :: nat
  ap_world :: 'w
  ap_wire :: "exchange list"

datatype failure = Failure nat string

type_synonym ('w, 'a) ssm = "('w app, failure, 'a) sem"

definition now :: "'w sso_env \<Rightarrow> ('w, nat) ssm" where
  "now env = (\<lambda>s. (Inr (sx_clock env (ap_reads s)), s\<lparr>ap_reads := Suc (ap_reads s)\<rparr>))"

text \<open>A request with a header value that is not allowed is never sent.\<close>

definition send :: "'w sso_env \<Rightarrow> string \<Rightarrow> hreq \<Rightarrow> ('w, hresp) ssm" where
  "send env what rq = (\<lambda>s.
     if list_all (\<lambda>(_, v). valid_value v) (hq_headers rq)
     then (case sx_http env rq (ap_world s) of
             (a, w) \<Rightarrow> ((case a of Inl e \<Rightarrow> Inl (Failure 502 (what @ '': '' @ e)) | Inr r \<Rightarrow> Inr r),
                       s\<lparr>ap_world := w, ap_wire := ap_wire s @ [(rq, a)]\<rparr>))
     else (Inl (Failure 502 (what @ '': builder error'')), s))"

definition hex_digit :: "nat \<Rightarrow> char" where
  "hex_digit n = (if n < 10 then char_of (48 + n) else char_of (87 + n))"

definition hex :: "string \<Rightarrow> string" where
  "hex b = concat (map (\<lambda>x. [hex_digit (of_char x div 16), hex_digit (of_char x mod 16)]) b)"

definition password :: "'w sso_env \<Rightarrow> cfg \<Rightarrow> string \<Rightarrow> string" where
  "password env cfg email = hex (sx_hmac env (cf_key cfg) (''seerr-sso:v1:'' @ map to_lower email))"

section \<open>Requests to Seerr\<close>

definition response_text :: "hresp \<Rightarrow> string" where
  "response_text r = (case hs_body r of Inr t \<Rightarrow> t | Inl _ \<Rightarrow> [])"

definition json_or_null :: "'w sso_env \<Rightarrow> hresp \<Rightarrow> json" where
  "json_or_null env r = (case sx_json env (response_text r) of Inr v \<Rightarrow> v | Inl _ \<Rightarrow> JNull)"

definition api_key :: "'w sso_env \<Rightarrow> cfg \<Rightarrow> ('w, string) ssm" where
  "api_key env cfg =
     andthen (gets (\<lambda>s. sx_read env (cf_settings_file cfg) (ap_world s)))
     (\<lambda>file. case file of
        Inl e \<Rightarrow> throw (Failure 503 (cf_settings_file cfg @ '': '' @ e))
      | Inr t \<Rightarrow> (case sx_json env t of
          Inl e \<Rightarrow> throw (Failure 503 (cf_settings_file cfg @ '': '' @ e))
        | Inr v \<Rightarrow> (case as_str (jget (jget v ''main'') ''apiKey'') of
            Some k \<Rightarrow> if k \<noteq> [] then ret k else throw (Failure 503 ''Seerr has no API key yet'')
          | None \<Rightarrow> throw (Failure 503 ''Seerr has no API key yet''))))"

definition proto :: "string \<times> string" where "proto = (''x-forwarded-proto'', ''https'')"
definition json_type :: "string \<times> string" where "json_type = (''content-type'', ''application/json'')"

definition api_request :: "'w sso_env \<Rightarrow> cfg \<Rightarrow> string \<Rightarrow> string \<Rightarrow> json option \<Rightarrow> string \<Rightarrow> hreq" where
  "api_request env cfg m path body key =
     \<lparr>hq_method = m, hq_url = cf_upstream cfg @ ''/api/v1'' @ path,
      hq_headers = [(''x-api-key'', key), proto] @ (if body = None then [] else [json_type]),
      hq_body = map_option (sx_ser env) body\<rparr>"

definition api :: "'w sso_env \<Rightarrow> cfg \<Rightarrow> string \<Rightarrow> string \<Rightarrow> json option \<Rightarrow> ('w, nat \<times> json) ssm" where
  "api env cfg m path body =
     andthen (api_key env cfg)
     (\<lambda>key. andthen (send env (''seerr '' @ path) (api_request env cfg m path body key))
     (\<lambda>r. ret (hs_status r, json_or_null env r)))"

definition login_request :: "'w sso_env \<Rightarrow> cfg \<Rightarrow> string \<Rightarrow> string \<Rightarrow> hreq" where
  "login_request env cfg email pw =
     \<lparr>hq_method = ''POST'', hq_url = cf_upstream cfg @ ''/api/v1/auth/local'', hq_headers = [json_type, proto],
      hq_body = Some (sx_ser env (JObj [(''email'', JStr email), (''password'', JStr pw)]))\<rparr>"

definition set_cookies :: "hresp \<Rightarrow> string list" where
  "set_cookies r = List.map_filter to_str (header_all (hs_headers r) ''set-cookie'')"

definition login :: "'w sso_env \<Rightarrow> cfg \<Rightarrow> string \<Rightarrow> string \<Rightarrow> ('w, string option) ssm" where
  "login env cfg email pw =
     andthen (send env ''seerr login'' (login_request env cfg email pw))
     (\<lambda>r. if hs_status r = 200
          then (case session_cookie (set_cookies r) of
                  Some sid \<Rightarrow> ret (Some sid)
                | None \<Rightarrow> throw (Failure 502 ''seerr login set no session cookie''))
          else if hs_status r = 403 then ret None
          else throw (Failure 502 (''seerr login: HTTP '' @ nat_str (hs_status r) @ '' '' @ take 200 (response_text r))))"

definition user_id :: "json \<Rightarrow> int" where
  "user_id u = (case as_i64 (jget u ''id'') of Some i \<Rightarrow> i | None \<Rightarrow> 0)"

definition str_or :: "json \<Rightarrow> string \<Rightarrow> string \<Rightarrow> string" where
  "str_or u k dflt = (case as_str (jget u k) of Some s \<Rightarrow> s | None \<Rightarrow> dflt)"

definition array_items :: "json \<Rightarrow> json list" where
  "array_items v = (case as_array v of Some vs \<Rightarrow> vs | None \<Rightarrow> [])"

definition jellyfin_id :: "json \<Rightarrow> identity \<Rightarrow> string option" where
  "jellyfin_id jf i =
     Option.bind (find (\<lambda>j. eq_ignore_case j ''username'' (in_username i)) (array_items jf)) (\<lambda>j. as_str (jget j ''id''))"

definition import_body :: "string \<Rightarrow> json" where
  "import_body jid = JObj [(''jellyfinUserIds'', JArr [JStr jid])]"

definition import_user :: "'w sso_env \<Rightarrow> cfg \<Rightarrow> identity \<Rightarrow> string \<Rightarrow> ('w, int \<times> string) ssm" where
  "import_user env cfg i jid =
     andthen (api env cfg ''POST'' ''/user/import-from-jellyfin'' (Some (import_body jid)))
     (\<lambda>(status, made). case (if status = 201 then array_items made else []) of
        u # _ \<Rightarrow> ret (user_id u, str_or u ''email'' (in_username i))
      | [] \<Rightarrow> throw (Failure 502 (''importing Jellyfin user '' @ in_username i @ '': HTTP '' @ nat_str status)))"

definition create_body :: "identity \<Rightarrow> string \<Rightarrow> json" where
  "create_body i pw = JObj [(''email'', JStr (in_email i)), (''username'', JStr (in_username i)), (''password'', JStr pw)]"

definition create_user :: "'w sso_env \<Rightarrow> cfg \<Rightarrow> identity \<Rightarrow> string \<Rightarrow> ('w, int \<times> string) ssm" where
  "create_user env cfg i pw =
     andthen (api env cfg ''POST'' ''/user'' (Some (create_body i pw)))
     (\<lambda>(status, made). if status = 201 then ret (user_id made, in_email i)
        else if status = 409
        then throw (Failure 503 (in_email i @ '' is the email of the break-glass Seerr user; the Seerr bootstrap has not moved it yet''))
        else throw (Failure 502 (''creating Seerr user for '' @ in_username i @ '': HTTP '' @ nat_str status)))"

definition ensure_user :: "'w sso_env \<Rightarrow> cfg \<Rightarrow> identity \<Rightarrow> string \<Rightarrow> ('w, int \<times> string) ssm" where
  "ensure_user env cfg i pw =
     andthen (api env cfg ''GET'' ''/user?take=1000&skip=0'' None)
     (\<lambda>(_, listing). case find_user (array_items (jget listing ''results'')) i of
        Some u \<Rightarrow> ret (user_id u, str_or u ''email'' (in_email i))
      | None \<Rightarrow>
          if cf_link_jellyfin cfg
          then andthen (api env cfg ''GET'' ''/settings/jellyfin/users'' None)
               (\<lambda>(_, jf). case jellyfin_id jf i of
                  Some jid \<Rightarrow> import_user env cfg i jid
                | None \<Rightarrow> create_user env cfg i pw)
          else create_user env cfg i pw)"

section \<open>Sessions\<close>

definition as_u64 :: "json \<Rightarrow> nat option" where
  "as_u64 v = (case v of JInt i \<Rightarrow> if 0 \<le> i \<and> i < 2 ^ 64 then Some (nat i) else None | _ \<Rightarrow> None)"

definition user_path :: "int \<Rightarrow> string \<Rightarrow> string" where
  "user_path uid what = ''/user/'' @ int_str uid @ ''/settings/'' @ what"

definition perms_body :: "nat \<Rightarrow> json" where
  "perms_body perms = JObj [(''permissions'', JInt (int perms))]"

definition set_permissions :: "'w sso_env \<Rightarrow> cfg \<Rightarrow> int \<Rightarrow> nat \<Rightarrow> ('w, unit) ssm" where
  "set_permissions env cfg uid perms =
     andthen (api env cfg ''GET'' (user_path uid ''permissions'') None)
     (\<lambda>(_, current). if as_u64 (jget current ''permissions'') = Some perms then ret ()
        else andthen (api env cfg ''POST'' (user_path uid ''permissions'') (Some (perms_body perms)))
             (\<lambda>(status, _). if_err (status \<noteq> 200)
                (Failure 502 (''setting permissions of Seerr user '' @ int_str uid @ '': HTTP '' @ nat_str status))))"

definition sign_in :: "'w sso_env \<Rightarrow> cfg \<Rightarrow> int \<Rightarrow> string \<Rightarrow> string \<Rightarrow> ('w, string) ssm" where
  "sign_in env cfg uid email pw =
     andthen (login env cfg email pw)
     (\<lambda>l. case l of
        Some sid \<Rightarrow> ret sid
      | None \<Rightarrow>
          andthen (api env cfg ''POST'' (user_path uid ''password'') (Some (JObj [(''newPassword'', JStr pw)])))
          (\<lambda>(status, _). if status \<noteq> 204
             then throw (Failure 502 (''setting the password of Seerr user '' @ int_str uid @ '': HTTP '' @ nat_str status))
             else andthen (login env cfg email pw)
                  (\<lambda>l. case l of
                     Some sid \<Rightarrow> ret sid
                   | None \<Rightarrow> throw (Failure 502 (''Seerr refuses the derived password of user '' @ int_str uid)))))"

definition sid_header :: "string \<Rightarrow> string \<times> string" where
  "sid_header sid = (''cookie'', ''connect.sid='' @ sid)"

definition me_request :: "cfg \<Rightarrow> string \<Rightarrow> hreq" where
  "me_request cfg sid = \<lparr>hq_method = ''GET'', hq_url = cf_upstream cfg @ ''/api/v1/auth/me'', hq_headers = [sid_header sid, proto], hq_body = None\<rparr>"

fun works :: "'w sso_env \<Rightarrow> cfg \<Rightarrow> string \<Rightarrow> nat \<Rightarrow> ('w, bool) ssm" where
  "works env cfg sid 0 = ret False"
| "works env cfg sid (Suc n) =
     andthen (send env ''seerr auth/me'' (me_request cfg sid))
     (\<lambda>r. if hs_status r = 200 then ret True else works env cfg sid n)"

definition make_session :: "'w sso_env \<Rightarrow> cfg \<Rightarrow> identity \<Rightarrow> nat \<Rightarrow> ('w, session) ssm" where
  "make_session env cfg i perms =
     (let pw = password env cfg (in_email i) in
      andthen (ensure_user env cfg i pw)
      (\<lambda>(uid, email). if uid = 1 \<or> uid = 0 then throw (Failure 502 ''refusing to sign anyone in as Seerr user 1'')
         else andthen (set_permissions env cfg uid perms)
         (\<lambda>_. andthen (sign_in env cfg uid email pw)
         (\<lambda>sid. andthen (works env cfg sid 8)
         (\<lambda>ok. if ok then andthen (now env) (\<lambda>t. ret \<lparr>ss_sid = sid, ss_perms = perms, ss_at = t\<rparr>)
              else throw (Failure 502 (''Seerr user '' @ int_str uid @ [CHR 0x27] @ ''s new session is not accepted'')))))))"

definition logout_request :: "cfg \<Rightarrow> string \<Rightarrow> hreq" where
  "logout_request cfg sid = \<lparr>hq_method = ''POST'', hq_url = cf_upstream cfg @ ''/api/v1/auth/logout'', hq_headers = [sid_header sid, proto], hq_body = None\<rparr>"

definition drop_session :: "'w sso_env \<Rightarrow> cfg \<Rightarrow> string \<Rightarrow> ('w, unit) ssm" where
  "drop_session env cfg key = (\<lambda>s.
     case map_of (ap_sessions s) key of
       None \<Rightarrow> (Inr (), s)
     | Some old \<Rightarrow> ignore (send env ''logout'' (logout_request cfg (ss_sid old))) (s\<lparr>ap_sessions := AList.delete key (ap_sessions s)\<rparr>))"

definition cached :: "'w sso_env \<Rightarrow> cfg \<Rightarrow> identity \<Rightarrow> nat \<Rightarrow> bool \<Rightarrow> ('w, session option) ssm" where
  "cached env cfg i perms force =
     andthen (gets (\<lambda>s. map_of (ap_sessions s) (in_email i)))
     (\<lambda>c. case c of
        None \<Rightarrow> ret None
      | Some ss \<Rightarrow> if force \<or> ss_perms ss \<noteq> perms then ret None
                  else andthen (now env) (\<lambda>t. ret (if t - ss_at ss < cf_ttl cfg then Some ss else None)))"

definition put_session :: "string \<Rightarrow> session \<Rightarrow> ('w, unit) ssm" where
  "put_session key ss = (\<lambda>s. (Inr (), s\<lparr>ap_sessions := AList.update key ss (ap_sessions s)\<rparr>))"

definition session_for :: "'w sso_env \<Rightarrow> cfg \<Rightarrow> identity \<Rightarrow> nat \<Rightarrow> bool \<Rightarrow> ('w, session) ssm" where
  "session_for env cfg i perms force =
     andthen (cached env cfg i perms force)
     (\<lambda>c. case c of
        Some ss \<Rightarrow> ret ss
      | None \<Rightarrow> andthen (cached env cfg i perms force)
          (\<lambda>c. case c of
             Some ss \<Rightarrow> ret ss
           | None \<Rightarrow> andthen (make_session env cfg i perms)
               (\<lambda>ss. andthen (drop_session env cfg (in_email i))
               (\<lambda>_. andthen (put_session (in_email i) ss) (\<lambda>_. ret ss)))))"

section \<open>Serving a request\<close>

record client_req =
  cq_method :: string
  cq_path :: string
  cq_path_and_query :: "string option"
  cq_headers :: headers
  cq_body :: "string + string"

record client_resp =
  cs_status :: nat
  cs_headers :: headers
  cs_body :: string

definition plain :: "nat \<Rightarrow> string \<Rightarrow> client_resp" where
  "plain status body = \<lparr>cs_status = status, cs_headers = [(''content-type'', ''text/plain; charset=utf-8'')], cs_body = body\<rparr>"

definition credential :: "client_req \<Rightarrow> string \<Rightarrow> string" where
  "credential q n = (case Option.bind (header_get (cq_headers q) n) to_str of Some v \<Rightarrow> v | None \<Rightarrow> [])"

definition cache_key :: "'w sso_env \<Rightarrow> string \<Rightarrow> string \<Rightarrow> string" where
  "cache_key env cookie auth = hex (sx_sha env (cookie @ [nul] @ auth))"

definition auth_request :: "cfg \<Rightarrow> string \<Rightarrow> string \<Rightarrow> hreq" where
  "auth_request cfg cookie auth =
     \<lparr>hq_method = ''GET'', hq_url = cf_auth_url cfg,
      hq_headers = (if cookie = [] then [] else [(''cookie'', cookie)]) @ (if auth = [] then [] else [(''authorization'', auth)]),
      hq_body = None\<rparr>"

definition young :: "'w sso_env \<Rightarrow> nat \<Rightarrow> ('w, bool) ssm" where
  "young env t0 = andthen (now env) (\<lambda>t. ret (t - t0 < AUTH_CACHE))"

fun retain_young :: "'w sso_env \<Rightarrow> (string \<times> nat \<times> identity) list \<Rightarrow> ('w, (string \<times> nat \<times> identity) list) ssm" where
  "retain_young env [] = ret []"
| "retain_young env ((k, t0, i) # es) =
     andthen (young env t0) (\<lambda>b. andthen (retain_young env es) (\<lambda>r. ret (if b then (k, t0, i) # r else r)))"

definition remember :: "'w sso_env \<Rightarrow> string \<Rightarrow> identity \<Rightarrow> ('w, unit) ssm" where
  "remember env key i =
     andthen (gets ap_identities)
     (\<lambda>es. andthen (if length es > 1024 then retain_young env es else ret es)
     (\<lambda>es. andthen (now env)
     (\<lambda>t s. (Inr (), s\<lparr>ap_identities := AList.update key (t, i) es\<rparr>))))"

definition ask :: "'w sso_env \<Rightarrow> cfg \<Rightarrow> string \<Rightarrow> string \<Rightarrow> ('w, identity) ssm" where
  "ask env cfg cookie auth =
     andthen (send env ''oauth2-proxy'' (auth_request cfg cookie auth))
     (\<lambda>r. if hs_status r = 200 \<or> hs_status r = 202
          then (case identity_from (hs_headers r) of
                  None \<Rightarrow> throw (Failure 403 ''oauth2-proxy gave no email'')
                | Some i \<Rightarrow> andthen (remember env (cache_key env cookie auth) i) (\<lambda>_. ret i))
          else if hs_status r = 401 \<or> hs_status r = 403 then throw (Failure 401 ''no valid oauth2-proxy session'')
          else throw (Failure 502 (''oauth2-proxy: HTTP '' @ nat_str (hs_status r))))"

definition identify :: "'w sso_env \<Rightarrow> cfg \<Rightarrow> client_req \<Rightarrow> ('w, identity) ssm" where
  "identify env cfg q =
     (let cookie = credential q ''cookie''; auth = credential q ''authorization'' in
      if cookie = [] \<and> auth = [] then throw (Failure 401 ''no oauth2-proxy session'')
      else andthen (gets (\<lambda>s. map_of (ap_identities s) (cache_key env cookie auth)))
           (\<lambda>c. case c of
              None \<Rightarrow> ask env cfg cookie auth
            | Some (t0, i) \<Rightarrow> andthen (young env t0) (\<lambda>b. if b then ret i else ask env cfg cookie auth)))"

definition forward_request :: "cfg \<Rightarrow> client_req \<Rightarrow> string \<Rightarrow> string \<Rightarrow> hreq" where
  "forward_request cfg q body sid =
     \<lparr>hq_method = cq_method q,
      hq_url = cf_upstream cfg @ (case cq_path_and_query q of Some p \<Rightarrow> p | None \<Rightarrow> ''/''),
      hq_headers = filter (\<lambda>(n, _). \<not> drop_request_header n) (cq_headers q) @ [sid_header sid, proto],
      hq_body = Some body\<rparr>"

definition passes_back :: "string \<times> string \<Rightarrow> bool" where
  "passes_back = (\<lambda>(n, v).
     let seerr_cookie = (n = ''set-cookie'' \<and> (case to_str v of Some t \<Rightarrow> starts_with t ''connect.sid='' | None \<Rightarrow> False))
     in \<not> drop_response_header n \<and> \<not> seerr_cookie)"

definition forward :: "'w sso_env \<Rightarrow> cfg \<Rightarrow> client_req \<Rightarrow> string \<Rightarrow> string \<Rightarrow> ('w, client_resp) ssm" where
  "forward env cfg q body sid =
     andthen (send env ''seerr'' (forward_request cfg q body sid))
     (\<lambda>r. case hs_body r of
        Inl e \<Rightarrow> throw (Failure 502 (''seerr body: '' @ e))
      | Inr b \<Rightarrow> ret \<lparr>cs_status = hs_status r, cs_headers = filter passes_back (hs_headers r), cs_body = b\<rparr>)"

definition proxied :: "'w sso_env \<Rightarrow> cfg \<Rightarrow> client_req \<Rightarrow> identity \<Rightarrow> nat \<Rightarrow> string \<Rightarrow> ('w, client_resp) ssm" where
  "proxied env cfg q i perms body =
     andthen (session_for env cfg i perms False)
     (\<lambda>ss. andthen (forward env cfg q body (ss_sid ss))
     (\<lambda>resp. if cs_status resp = 403 \<and> cq_path q = ''/api/v1/auth/me''
        then andthen (now env)
             (\<lambda>t. if t - ss_at ss > 5000
                  then andthen (session_for env cfg i perms True) (\<lambda>ss. forward env cfg q body (ss_sid ss))
                  else ret resp)
        else ret resp))"

definition serve :: "'w sso_env \<Rightarrow> cfg \<Rightarrow> client_req \<Rightarrow> ('w, client_resp) ssm" where
  "serve env cfg q =
     andthen (identify env cfg q)
     (\<lambda>i. case permissions cfg (in_groups i) of
        None \<Rightarrow> throw (Failure 403 ''your groups do not give access to Seerr'')
      | Some perms \<Rightarrow>
          if header_get (cq_headers q) ''upgrade'' \<noteq> None then throw (Failure 501 ''upgrades are not proxied'')
          else if cq_method q = ''POST'' \<and> cq_path q = ''/api/v1/auth/logout''
          then ret (plain 200 (''{'' @ [quote] @ ''status'' @ [quote] @ '':'' @ [quote] @ ''ok'' @ [quote] @ ''}''))
          else case cq_body q of
                 Inl e \<Rightarrow> throw (Failure 413 (''request body: '' @ e))
               | Inr body \<Rightarrow> proxied env cfg q i perms body)"

definition handle :: "'w sso_env \<Rightarrow> cfg \<Rightarrow> client_req \<Rightarrow> 'w app \<Rightarrow> client_resp \<times> 'w app" where
  "handle env cfg q s =
     (case serve env cfg q s of
        (Inr r, s') \<Rightarrow> (r, s')
      | (Inl (Failure status msg), s') \<Rightarrow> (plain status (if status \<ge> 500 then ''seerr-sso: Seerr is not available'' else msg), s'))"

section \<open>What an operation leaves alone\<close>

text \<open>A predicate on the state that reading the clock and sending requests of a kind \<open>R\<close> keep.\<close>

locale traffic =
  fixes P :: "'w app \<Rightarrow> bool" and R :: "hreq \<Rightarrow> bool"
  assumes reads: "P s \<Longrightarrow> P (s\<lparr>ap_reads := n\<rparr>)"
    and wire: "P s \<Longrightarrow> R rq \<Longrightarrow> P (s\<lparr>ap_world := w, ap_wire := ap_wire s @ [(rq, a)]\<rparr>)"
begin

lemma keeps_now: "keeps P (now env) (\<lambda>_. True)"
  by (simp add: keeps_def now_def reads)

lemma keeps_send: "R rq \<Longrightarrow> keeps P (send env what rq) (\<lambda>_. True)"
  by (auto simp: keeps_def send_def wire split: prod.split sum.split)

lemma keeps_young: "keeps P (young env t) (\<lambda>_. True)"
  unfolding young_def by (intro keeps_andthen_any keeps_now keeps_ret TrueI)

lemma keeps_retain_young: "keeps P (retain_young env es) (\<lambda>_. True)"
  by (induction env es rule: retain_young.induct) (auto intro!: keeps_andthen_any keeps_young keeps_ret)

lemma keeps_cached: "keeps P (cached env cfg i perms force) (\<lambda>_. True)"
  unfolding cached_def by (auto intro!: keeps_andthen_any keeps_gets keeps_now keeps_ret split: option.split)

end

locale seerr_traffic = traffic P R for P :: "'w app \<Rightarrow> bool" and R +
  fixes env :: "'w sso_env" and cfg :: cfg
  assumes R_api: "R (api_request env cfg m path body key)" and R_login: "R (login_request env cfg email pw)"
    and R_me: "R (me_request cfg sid)" and R_logout: "R (logout_request cfg sid)"
begin

lemma keeps_api: "keeps P (api env cfg m path body) (\<lambda>_. True)"
  unfolding api_def api_key_def
  by (auto intro!: keeps_andthen_any keeps_gets keeps_send R_api keeps_ret keeps_throw split: sum.split option.split)

lemma keeps_login: "keeps P (login env cfg email pw) (\<lambda>_. True)"
  unfolding login_def by (auto intro!: keeps_andthen_any keeps_send R_login keeps_ret keeps_throw split: option.split)

lemma keeps_ensure_user: "keeps P (ensure_user env cfg i pw) (\<lambda>_. True)"
proof -
  have "keeps P (create_user env cfg i pw) (\<lambda>_. True)"
    unfolding create_user_def by (auto intro!: keeps_andthen_any keeps_api keeps_ret keeps_throw)
  moreover have "keeps P (import_user env cfg i jid) (\<lambda>_. True)" for jid
    unfolding import_user_def by (auto intro!: keeps_andthen_any keeps_api keeps_ret keeps_throw split: list.split)
  ultimately show ?thesis
    unfolding ensure_user_def by (auto intro!: keeps_andthen_any keeps_api keeps_ret split: option.split)
qed

lemma keeps_set_permissions: "keeps P (set_permissions env cfg uid perms) (\<lambda>_. True)"
  unfolding set_permissions_def by (auto intro!: keeps_andthen_any keeps_api keeps_ret keeps_if_err)

lemma keeps_sign_in: "keeps P (sign_in env cfg uid email pw) (\<lambda>_. True)"
  unfolding sign_in_def by (auto intro!: keeps_andthen_any keeps_api keeps_login keeps_ret keeps_throw split: option.split)

lemma keeps_works: "keeps P (works env cfg sid n) (\<lambda>_. True)"
  by (induction n) (auto intro!: keeps_andthen_any keeps_send R_me keeps_ret)

lemma keeps_make_session: "keeps P (make_session env cfg i perms) (\<lambda>_. True)"
  unfolding make_session_def Let_def
  by (auto intro!: keeps_andthen_any keeps_ensure_user keeps_set_permissions keeps_sign_in keeps_works keeps_now keeps_ret keeps_throw)

end

definition same_tables :: "'w app \<Rightarrow> 'w app \<Rightarrow> bool" where
  "same_tables s0 s \<longleftrightarrow> ap_sessions s = ap_sessions s0 \<and> ap_identities s = ap_identities s0"

definition sent :: "(hreq \<Rightarrow> bool) \<Rightarrow> exchange list \<Rightarrow> 'w app \<Rightarrow> bool" where
  "sent R w s \<longleftrightarrow> (\<exists>new. ap_wire s = w @ new \<and> (\<forall>e \<in> set new. R (fst e)))"

definition own_request :: "cfg \<Rightarrow> hreq \<Rightarrow> bool" where
  "own_request cfg rq \<longleftrightarrow> (\<forall>q body sid. rq \<noteq> forward_request cfg q body sid)"

lemma sentI: "ap_wire s = w \<Longrightarrow> sent R w s"
  by (simp add: sent_def)

lemma sent_trans: "sent R w s \<Longrightarrow> sent R (ap_wire s) s' \<Longrightarrow> sent R w s'"
  unfolding sent_def by (metis UnE append.assoc set_append)

lemma sent_weaken: "sent R w s \<Longrightarrow> (\<And>rq. R rq \<Longrightarrow> R' rq) \<Longrightarrow> sent R' w s"
  unfolding sent_def by blast

lemma sent_subset: "sent R w s \<Longrightarrow> set w \<subseteq> set (ap_wire s)"
  by (auto simp: sent_def)

lemma own_requests:
  "own_request cfg (api_request env cfg m path body key)" "own_request cfg (login_request env cfg email pw)"
  "own_request cfg (me_request cfg sid)" "own_request cfg (logout_request cfg sid)" "own_request cfg (auth_request cfg c a)"
proof -
  have "(''x-api-key'', key) \<notin> set (hq_headers (forward_request cfg q b sid))"
    "sid_header sid \<in> set (hq_headers (forward_request cfg q b sid))"
    "hq_body (forward_request cfg q b sid) = Some b" for q b sid
    by (simp_all add: forward_request_def drop_request_header_def sid_header_def proto_def)
  moreover have "(''x-api-key'', key) \<in> set (hq_headers (api_request env cfg m path body key))"
    by (simp add: api_request_def)
  moreover have "sid_header sid \<notin> set (hq_headers (login_request env cfg email pw))" for sid
    by (simp add: login_request_def sid_header_def json_type_def proto_def)
  ultimately show "own_request cfg (api_request env cfg m path body key)" "own_request cfg (login_request env cfg email pw)"
    "own_request cfg (me_request cfg sid)" "own_request cfg (logout_request cfg sid)" "own_request cfg (auth_request cfg c a)"
    unfolding own_request_def by (metis, metis, (simp add: me_request_def logout_request_def auth_request_def forward_request_def)+)
qed

interpretation tables: seerr_traffic "same_tables s0" "\<lambda>_. True" env cfg for s0 env cfg
  by unfold_locales (simp_all add: same_tables_def)

interpretation grows: seerr_traffic "sent (\<lambda>_. True) w" "\<lambda>_. True" env cfg for w env cfg
  by unfold_locales (auto simp: sent_def)

interpretation asks: traffic "sent R w" R for R w
  by unfold_locales (auto simp: sent_def)

interpretation prepares: seerr_traffic "sent (own_request cfg) w" "own_request cfg" env cfg for w env cfg
  by unfold_locales (simp_all add: own_requests)

section \<open>Who a request is made for\<close>

text \<open>A request was answered, with a response that satisfies \<open>Q\<close>.\<close>

definition answered :: "exchange list \<Rightarrow> hreq \<Rightarrow> (hresp \<Rightarrow> bool) \<Rightarrow> bool" where
  "answered w rq Q \<longleftrightarrow> (\<exists>r. (rq, Inr r) \<in> set w \<and> Q r)"

text \<open>oauth2-proxy said that these credentials are those of an identity.\<close>

definition vouched :: "cfg \<Rightarrow> exchange list \<Rightarrow> string \<Rightarrow> string \<Rightarrow> identity \<Rightarrow> bool" where
  "vouched cfg w cookie auth i \<longleftrightarrow>
     answered w (auth_request cfg cookie auth) (\<lambda>r. hs_status r \<in> {200, 202} \<and> identity_from (hs_headers r) = Some i)"

text \<open>Seerr named an account for an identity: in its listing, as an import, or as a new account.\<close>

definition listed :: "'w sso_env \<Rightarrow> identity \<Rightarrow> int \<Rightarrow> string \<Rightarrow> hresp \<Rightarrow> bool" where
  "listed env i uid email r \<longleftrightarrow>
     (case find_user (array_items (jget (json_or_null env r) ''results'')) i of
        Some u \<Rightarrow> uid = user_id u \<and> email = str_or u ''email'' (in_email i) | None \<Rightarrow> False)"

definition imported :: "'w sso_env \<Rightarrow> identity \<Rightarrow> int \<Rightarrow> string \<Rightarrow> hresp \<Rightarrow> bool" where
  "imported env i uid email r \<longleftrightarrow> hs_status r = 201 \<and>
     (case array_items (json_or_null env r) of
        u # _ \<Rightarrow> uid = user_id u \<and> email = str_or u ''email'' (in_username i) | [] \<Rightarrow> False)"

definition account :: "'w sso_env \<Rightarrow> cfg \<Rightarrow> exchange list \<Rightarrow> identity \<Rightarrow> int \<Rightarrow> string \<Rightarrow> bool" where
  "account env cfg w i uid email \<longleftrightarrow>
     (\<exists>key. answered w (api_request env cfg ''GET'' ''/user?take=1000&skip=0'' None key) (listed env i uid email))
   \<or> (\<exists>jid key. answered w (api_request env cfg ''POST'' ''/user/import-from-jellyfin'' (Some (import_body jid)) key) (imported env i uid email))
   \<or> (\<exists>key. answered w (api_request env cfg ''POST'' ''/user'' (Some (create_body i (password env cfg (in_email i)))) key)
        (\<lambda>r. hs_status r = 201 \<and> uid = user_id (json_or_null env r) \<and> email = in_email i))"

definition permitted :: "'w sso_env \<Rightarrow> cfg \<Rightarrow> exchange list \<Rightarrow> int \<Rightarrow> nat \<Rightarrow> bool" where
  "permitted env cfg w uid perms \<longleftrightarrow>
     (\<exists>key. answered w (api_request env cfg ''GET'' (user_path uid ''permissions'') None key)
        (\<lambda>r. as_u64 (jget (json_or_null env r) ''permissions'') = Some perms))
   \<or> (\<exists>key. answered w (api_request env cfg ''POST'' (user_path uid ''permissions'') (Some (perms_body perms)) key)
        (\<lambda>r. hs_status r = 200))"

definition logged_in :: "'w sso_env \<Rightarrow> cfg \<Rightarrow> exchange list \<Rightarrow> string \<Rightarrow> string \<Rightarrow> string \<Rightarrow> bool" where
  "logged_in env cfg w email pw sid \<longleftrightarrow>
     answered w (login_request env cfg email pw) (\<lambda>r. hs_status r = 200 \<and> session_cookie (set_cookies r) = Some sid)"

text \<open>The session \<open>sid\<close> is one that Seerr gave to the account of a person with this email, with their
  password, after it had these permissions, and the account is not the first one.\<close>

definition signed_in :: "'w sso_env \<Rightarrow> cfg \<Rightarrow> exchange list \<Rightarrow> string \<Rightarrow> nat \<Rightarrow> string \<Rightarrow> bool" where
  "signed_in env cfg w email perms sid \<longleftrightarrow>
     (\<exists>i uid name. in_email i = email \<and> uid \<noteq> 0 \<and> uid \<noteq> 1 \<and> account env cfg w i uid name
        \<and> permitted env cfg w uid perms \<and> logged_in env cfg w name (password env cfg email) sid)"

lemma answered_mono: "set w \<subseteq> set w' \<Longrightarrow> answered w rq Q \<Longrightarrow> answered w' rq Q"
  by (auto simp: answered_def)

lemma wire_mono:
  assumes "set w \<subseteq> set w'"
  shows "vouched cfg w c a i \<Longrightarrow> vouched cfg w' c a i"
    and "account env cfg w i uid name \<Longrightarrow> account env cfg w' i uid name"
    and "permitted env cfg w uid perms \<Longrightarrow> permitted env cfg w' uid perms"
    and "logged_in env cfg w name pw sid \<Longrightarrow> logged_in env cfg w' name pw sid"
  unfolding vouched_def account_def permitted_def logged_in_def using answered_mono [OF assms] by blast+

lemma signed_in_mono: "set w \<subseteq> set w' \<Longrightarrow> signed_in env cfg w email perms sid \<Longrightarrow> signed_in env cfg w' email perms sid"
  unfolding signed_in_def using wire_mono(2,3,4) [of w w'] by blast

lemma send_Inr: "send env what rq s = (Inr r, s') \<Longrightarrow> ap_wire s' = ap_wire s @ [(rq, Inr r)]"
  by (auto simp: send_def split: if_splits prod.splits sum.splits)

lemma api_Inr:
  assumes "api env cfg m path body s = (Inr (st, v), s')" and "\<And>r. st = hs_status r \<Longrightarrow> v = json_or_null env r \<Longrightarrow> Q r"
  shows "\<exists>key. answered (ap_wire s') (api_request env cfg m path body key) Q"
  using assms unfolding api_def answered_def by (fastforce simp: andthen_Inr_iff sem_simps dest!: send_Inr)

lemma login_Inr:
  assumes "login env cfg email pw s = (Inr (Some sid), s')"
  shows "logged_in env cfg (ap_wire s') email pw sid"
  using assms unfolding login_def logged_in_def answered_def
  by (auto simp: andthen_Inr_iff sem_simps split: if_splits option.splits dest!: send_Inr)

text \<open>What was on the wire before an operation is there after it.\<close>

lemma grows_set:
  assumes "keeps (sent (\<lambda>_. True) (ap_wire s)) m Q" and "m s = (x, s')"
  shows "set (ap_wire s) \<subseteq> set (ap_wire s')"
  using assms sent_subset [of "\<lambda>_. True" "ap_wire s" s'] by (metis keepsD sentI snd_conv)

lemma create_user_Inr:
  assumes "create_user env cfg i (password env cfg (in_email i)) s = (Inr (uid, name), s')"
  shows "account env cfg (ap_wire s') i uid name"
proof -
  obtain st v s1 where api: "api env cfg ''POST'' ''/user'' (Some (create_body i (password env cfg (in_email i)))) s = (Inr (st, v), s1)"
    and "st = 201" and "s' = s1" and "uid = user_id v" and "name = in_email i"
    using assms unfolding create_user_def by (auto simp: andthen_Inr_iff sem_simps split: if_splits)
  then show ?thesis unfolding account_def by (intro disjI2 api_Inr [OF api [folded \<open>s' = s1\<close>]]) simp
qed

lemma import_user_Inr:
  assumes "import_user env cfg i jid s = (Inr (uid, name), s')"
  shows "account env cfg (ap_wire s') i uid name"
proof -
  obtain st v s1 u us where api: "api env cfg ''POST'' ''/user/import-from-jellyfin'' (Some (import_body jid)) s = (Inr (st, v), s1)"
    and "st = 201" and "s' = s1" and "array_items v = u # us" and "uid = user_id u" and "name = str_or u ''email'' (in_username i)"
    using assms unfolding import_user_def by (auto simp: andthen_Inr_iff sem_simps split: if_splits list.splits)
  then have "\<exists>key. answered (ap_wire s') (api_request env cfg ''POST'' ''/user/import-from-jellyfin'' (Some (import_body jid)) key) (imported env i uid name)"
    by (intro api_Inr [OF api [folded \<open>s' = s1\<close>]]) (simp add: imported_def)
  then show ?thesis unfolding account_def by (rule disjI2 [OF disjI1 [OF exI [of _ jid]]])
qed

lemma ensure_user_Inr:
  assumes "ensure_user env cfg i (password env cfg (in_email i)) s = (Inr (uid, name), s')"
  shows "account env cfg (ap_wire s') i uid name"
proof -
  obtain st v s1 where api: "api env cfg ''GET'' ''/user?take=1000&skip=0'' None s = (Inr (st, v), s1)"
    and rest: "(case find_user (array_items (jget v ''results'')) i of
        Some u \<Rightarrow> ret (user_id u, str_or u ''email'' (in_email i))
      | None \<Rightarrow>
          if cf_link_jellyfin cfg
          then andthen (api env cfg ''GET'' ''/settings/jellyfin/users'' None)
               (\<lambda>(_, jf). case jellyfin_id jf i of
                  Some jid \<Rightarrow> import_user env cfg i jid
                | None \<Rightarrow> create_user env cfg i (password env cfg (in_email i)))
          else create_user env cfg i (password env cfg (in_email i))) s1 = (Inr (uid, name), s')"
    using assms unfolding ensure_user_def by (auto simp: andthen_Inr_iff)
  show ?thesis
  proof (cases "find_user (array_items (jget v ''results'')) i")
    case None
    with rest show ?thesis
      by (auto simp: andthen_Inr_iff split: if_splits option.splits dest: create_user_Inr import_user_Inr)
  next
    case (Some u)
    with rest have "s' = s1" and "uid = user_id u" and "name = str_or u ''email'' (in_email i)" by (simp_all add: sem_simps)
    with Some show ?thesis unfolding account_def
      by (intro disjI1 api_Inr [OF api [folded \<open>s' = s1\<close>]]) (simp add: listed_def)
  qed
qed

lemma set_permissions_Inr:
  assumes "set_permissions env cfg uid perms s = (Inr (), s')"
  shows "permitted env cfg (ap_wire s') uid perms"
proof -
  obtain st v s1 where api: "api env cfg ''GET'' (user_path uid ''permissions'') None s = (Inr (st, v), s1)"
    and rest: "(if as_u64 (jget v ''permissions'') = Some perms then ret ()
        else andthen (api env cfg ''POST'' (user_path uid ''permissions'') (Some (perms_body perms)))
             (\<lambda>(status, _). if_err (status \<noteq> 200)
                (Failure 502 (''setting permissions of Seerr user '' @ int_str uid @ '': HTTP '' @ nat_str status)))) s1 = (Inr (), s')"
    using assms unfolding set_permissions_def by (auto simp: andthen_Inr_iff)
  show ?thesis
  proof (cases "as_u64 (jget v ''permissions'') = Some perms")
    case True
    with rest have "s' = s1" by (simp add: sem_simps)
    with True show ?thesis unfolding permitted_def by (intro disjI1 api_Inr [OF api [folded \<open>s' = s1\<close>]]) simp
  next
    case False
    with rest obtain st' v' where set: "api env cfg ''POST'' (user_path uid ''permissions'') (Some (perms_body perms)) s1 = (Inr (st', v'), s')"
      and "st' = 200" by (auto simp: andthen_Inr_iff if_err_def sem_simps split: if_splits)
    then show ?thesis unfolding permitted_def by (intro disjI2 api_Inr [OF set]) simp
  qed
qed

lemma sign_in_Inr:
  assumes "sign_in env cfg uid email pw s = (Inr sid, s')"
  shows "logged_in env cfg (ap_wire s') email pw sid"
  using assms unfolding sign_in_def
  by (auto simp: andthen_Inr_iff sem_simps split: option.splits if_splits dest: login_Inr)

lemma make_session_Inr:
  assumes "make_session env cfg i perms s = (Inr ss, s')"
  shows "signed_in env cfg (ap_wire s') (in_email i) perms (ss_sid ss) \<and> ss_perms ss = perms"
proof -
  let ?pw = "password env cfg (in_email i)"
  obtain uid name s1 s2 sid s3 s4 where u: "ensure_user env cfg i ?pw s = (Inr (uid, name), s1)" and uid: "uid \<noteq> 1" "uid \<noteq> 0"
    and p: "set_permissions env cfg uid perms s1 = (Inr (), s2)" and l: "sign_in env cfg uid name ?pw s2 = (Inr sid, s3)"
    and w: "works env cfg sid 8 s3 = (Inr True, s4)" and ss: "ss_sid ss = sid" "ss_perms ss = perms" and s': "ap_wire s' = ap_wire s4"
    using assms unfolding make_session_def Let_def
    by (auto simp: andthen_Inr_iff sem_simps now_def split: if_splits)
  have "set (ap_wire s1) \<subseteq> set (ap_wire s2)" by (rule grows_set [OF grows.keeps_set_permissions p])
  moreover have "set (ap_wire s2) \<subseteq> set (ap_wire s3)" by (rule grows_set [OF grows.keeps_sign_in l])
  moreover have "set (ap_wire s3) \<subseteq> set (ap_wire s')" unfolding s' by (rule grows_set [OF grows.keeps_works w])
  ultimately have "account env cfg (ap_wire s') i uid name" and "permitted env cfg (ap_wire s') uid perms"
    and "logged_in env cfg (ap_wire s') name ?pw sid"
    using ensure_user_Inr [OF u] set_permissions_Inr [OF p] sign_in_Inr [OF l] wire_mono(2,3,4) by (meson subset_trans)+
  with uid ss show ?thesis unfolding signed_in_def by blast
qed

section \<open>The tables\<close>

text \<open>Every cached identity was vouched for, and every session is one of the person it is kept for.\<close>

definition sound :: "'w sso_env \<Rightarrow> cfg \<Rightarrow> 'w app \<Rightarrow> bool" where
  "sound env cfg s \<longleftrightarrow>
     (\<forall>(k, _, i) \<in> set (ap_identities s). \<exists>c a. nul \<notin> set c \<and> k = cache_key env c a \<and> vouched cfg (ap_wire s) c a i)
   \<and> (\<forall>(e, ss) \<in> set (ap_sessions s). signed_in env cfg (ap_wire s) e (ss_perms ss) (ss_sid ss))"

lemma sound_grows:
  assumes "sound env cfg s" and "same_tables s s'" and "set (ap_wire s) \<subseteq> set (ap_wire s')"
  shows "sound env cfg s'"
  using assms wire_mono(1) [OF assms(3)] signed_in_mono [OF assms(3)] unfolding sound_def same_tables_def by fastforce

lemma hex_digit_inject: "m < 16 \<Longrightarrow> n < 16 \<Longrightarrow> hex_digit m = hex_digit n \<Longrightarrow> m = n"
  by (auto simp: hex_digit_def split: if_splits dest!: arg_cong [where f = "of_char :: char \<Rightarrow> nat"])

lemma hex_inject: "hex a = hex b \<Longrightarrow> a = b"
proof (induction a arbitrary: b)
  case Nil
  then show ?case by (cases b) (simp_all add: hex_def)
next
  case (Cons x a)
  then obtain y b' where b: "b = y # b'" by (cases b) (simp_all add: hex_def)
  have lt: "(of_char c :: nat) < 256" for c :: char by (rule nat_of_char_less_256)
  have "hex_digit (of_char x div 16) = hex_digit (of_char y div 16)" and "hex_digit (of_char x mod 16) = hex_digit (of_char y mod 16)"
    and tail: "hex a = hex b'"
    using Cons.prems b by (simp_all add: hex_def)
  then have "of_char x div 16 = (of_char y div 16 :: nat)" and "of_char x mod 16 = (of_char y mod 16 :: nat)"
    using lt [of x] lt [of y] by (auto intro!: hex_digit_inject simp: less_mult_imp_div_less)
  then have "(of_char x :: nat) = of_char y" by (metis div_mult_mod_eq)
  then have "x = y" by simp
  with b Cons.IH [OF tail] show ?case by simp
qed

lemma cache_key_inject:
  assumes "inj (sx_sha env)" and "cache_key env c a = cache_key env c' a'" and "nul \<notin> set c" and "nul \<notin> set c'"
  shows "c = c' \<and> a = a'"
proof -
  have "c @ nul # a = c' @ nul # a'"
    using injD [OF assms(1) hex_inject [OF assms(2) [unfolded cache_key_def]]] by simp
  then have "Some (c, a) = Some (c', a')"
    using split_once_append [OF assms(3), of a] split_once_append [OF assms(4), of a'] by metis
  then show ?thesis by simp
qed

lemma credential_no_nul: "nul \<notin> set (credential q n)"
proof -
  have "\<not> (nul = CHR 0x09 \<or> (32 \<le> (of_char nul :: int) \<and> of_char nul < (127 :: int)))" by (simp add: nul_def)
  then have "nul \<notin> set v" if "to_str u = Some v" for u v
    using that unfolding to_str_def list_all_iff by (metis option.distinct(1) option.inject)
  then show ?thesis unfolding credential_def by (cases "header_get (cq_headers q) n") (auto split: option.split)
qed

lemma map_of_update_set: "x \<in> set (AList.update k v xs) \<Longrightarrow> x = (k, v) \<or> x \<in> set xs"
  by (induction xs) (auto split: if_splits)

lemma retain_young_subset: "keeps (\<lambda>_. True) (retain_young env es) (\<lambda>es'. set es' \<subseteq> set es)"
proof (induction env es rule: retain_young.induct)
  case (2 env k t0 i es)
  have "keeps (\<lambda>_. True) (ret (if b then (k, t0, i) # r else r)) (\<lambda>es'. set es' \<subseteq> set ((k, t0, i) # es))" if "set r \<subseteq> set es" for b r
    using that by (intro keeps_ret) auto
  then have "keeps (\<lambda>_. True) (andthen (retain_young env es) (\<lambda>r. ret (if b then (k, t0, i) # r else r)))
      (\<lambda>es'. set es' \<subseteq> set ((k, t0, i) # es))" for b
    by (rule keeps_andthen [OF 2])
  then show ?case unfolding retain_young.simps by (rule keeps_andthen_any [rotated]) (simp add: keeps_def)
qed (simp add: keeps_ret)

lemma now_eq: "now env s = (Inr (sx_clock env (ap_reads s)), s\<lparr>ap_reads := Suc (ap_reads s)\<rparr>)"
  by (simp add: now_def)

lemma sound_step:
  assumes "sound env cfg s" and "keeps (same_tables s) m Q" and "keeps (sent (\<lambda>_. True) (ap_wire s)) m Q'"
  shows "sound env cfg (snd (m s))"
proof (rule sound_grows [OF assms(1)])
  show "same_tables s (snd (m s))" by (rule keepsD [OF assms(2)]) (simp add: same_tables_def)
  show "set (ap_wire s) \<subseteq> set (ap_wire (snd (m s)))" by (rule grows_set [OF assms(3), of "fst (m s)"]) simp
qed

lemma sent_step: "keeps (sent R (ap_wire s)) m Q \<Longrightarrow> sent R (ap_wire s) (snd (m s))"
  by (erule keepsD) (simp add: sent_def)

lemma young_eq: "young env t s = (Inr (sx_clock env (ap_reads s) - t < AUTH_CACHE), s\<lparr>ap_reads := Suc (ap_reads s)\<rparr>)"
  by (simp add: young_def sem_defs now_eq)

lemma sound_reads [simp]: "sound env cfg (s\<lparr>ap_reads := n\<rparr>) \<longleftrightarrow> sound env cfg s"
  by (simp add: sound_def)

lemma retain_young_keeps_tables:
  assumes "retain_young env es s = (r, s1)"
  shows "same_tables s s1 \<and> ap_wire s1 = ap_wire s \<and> (\<forall>es'. r = Inr es' \<longrightarrow> set es' \<subseteq> set es)"
proof -
  have "same_tables s s1" using keepsD [OF tables.keeps_retain_young, of s s env es] assms by (simp add: same_tables_def)
  moreover have "sent (\<lambda>_. False) (ap_wire s) s1"
    using sent_step [OF asks.keeps_retain_young, of "\<lambda>_. False" s env es] assms by simp
  moreover have "\<forall>es'. r = Inr es' \<longrightarrow> set es' \<subseteq> set es"
    using retain_young_subset [of env es] assms unfolding keeps_def by (metis fst_conv)
  ultimately show ?thesis by (auto simp: sent_def) (metis list.set_intros(1) neq_Nil_conv surj_pair)
qed

lemma remember_spec:
  assumes "sound env cfg s" and "vouched cfg (ap_wire s) c a i" and "nul \<notin> set c"
    and "remember env (cache_key env c a) i s = (r, s')"
  shows "sound env cfg s' \<and> ap_wire s' = ap_wire s"
proof -
  let ?prune = "if length (ap_identities s) > 1024 then retain_young env (ap_identities s) else ret (ap_identities s)"
  obtain p s1 where p: "?prune s = (p, s1)" by fastforce
  have s1: "same_tables s s1" "ap_wire s1 = ap_wire s" "\<And>es. p = Inr es \<Longrightarrow> set es \<subseteq> set (ap_identities s)"
    using p retain_young_keeps_tables [of env "ap_identities s" s p s1]
    by (auto simp: ret_apply same_tables_def split: if_splits)
  show ?thesis
  proof (cases p)
    case (Inl e)
    with p assms(1,4) s1 show ?thesis
      by (auto simp: remember_def andthen_def gets_apply intro: sound_grows)
  next
    case (Inr es)
    with p assms(4) s1 have s': "s' = s1\<lparr>ap_reads := Suc (ap_reads s1), ap_identities := AList.update (cache_key env c a) (sx_clock env (ap_reads s1), i) es\<rparr>"
      by (auto simp: remember_def andthen_def gets_apply now_eq)
    show ?thesis using assms(1,2,3) s1 Inr unfolding s' sound_def same_tables_def by (fastforce dest!: map_of_update_set)
  qed
qed

lemma ask_spec:
  assumes "sound env cfg s" and "nul \<notin> set c" and "ask env cfg c a s = (r, s')"
  shows "sound env cfg s' \<and> sent (\<lambda>rq. rq = auth_request cfg c a) (ap_wire s) s' \<and> (\<forall>i. r = Inr i \<longrightarrow> vouched cfg (ap_wire s') c a i)"
proof -
  obtain x s1 where x: "send env ''oauth2-proxy'' (auth_request cfg c a) s = (x, s1)" by fastforce
  have s1: "sound env cfg s1"
    using sound_step [OF assms(1) tables.keeps_send [OF TrueI] grows.keeps_send [OF TrueI]] x by (metis snd_conv)
  have w1: "sent (\<lambda>rq. rq = auth_request cfg c a) (ap_wire s) s1"
    using sent_step [OF asks.keeps_send, of "\<lambda>rq. rq = auth_request cfg c a" "auth_request cfg c a" s env "''oauth2-proxy''"] x by simp
  show ?thesis
  proof (cases "\<exists>resp i. x = Inr resp \<and> hs_status resp \<in> {200, 202} \<and> identity_from (hs_headers resp) = Some i")
    case True
    then obtain resp i where resp: "x = Inr resp" "hs_status resp \<in> {200, 202}" "identity_from (hs_headers resp) = Some i" by blast
    with x have v: "vouched cfg (ap_wire s1) c a i" by (auto simp: vouched_def answered_def dest!: send_Inr)
    obtain y s2 where y: "remember env (cache_key env c a) i s1 = (y, s2)" by fastforce
    with remember_spec [OF s1 v assms(2) y] v w1 x resp assms(3) show ?thesis
      by (auto simp: ask_def andthen_def ret_apply sent_def split: sum.splits)
  next
    case False
    with x assms(3) s1 w1 show ?thesis
      by (auto simp: ask_def andthen_def throw_apply split: sum.splits if_splits option.splits)
  qed
qed

lemma identify_spec:
  assumes "inj (sx_sha env)" and "sound env cfg s" and "identify env cfg q s = (r, s')"
  shows "sound env cfg s' \<and> sent (\<lambda>rq. rq = auth_request cfg (credential q ''cookie'') (credential q ''authorization'')) (ap_wire s) s'
    \<and> (\<forall>i. r = Inr i \<longrightarrow> vouched cfg (ap_wire s') (credential q ''cookie'') (credential q ''authorization'') i)"
proof -
  define c a where "c = credential q ''cookie''" and "a = credential q ''authorization''"
  have c0: "nul \<notin> set c" unfolding c_def by (rule credential_no_nul)
  have run: "(if c = [] \<and> a = [] then throw (Failure 401 ''no oauth2-proxy session'')
      else andthen (gets (\<lambda>s. map_of (ap_identities s) (cache_key env c a)))
           (\<lambda>e. case e of
              None \<Rightarrow> ask env cfg c a
            | Some (t0, i) \<Rightarrow> andthen (young env t0) (\<lambda>b. if b then ret i else ask env cfg c a))) s = (r, s')"
    using assms(3) unfolding identify_def Let_def c_def a_def .
  have asked: ?thesis if "ask env cfg c a s0 = (r, s')" and "sound env cfg s0" and "ap_wire s0 = ap_wire s" for s0
    using ask_spec [OF that(2) c0 that(1)] that(3) unfolding c_def a_def by simp
  show ?thesis
  proof (cases "c = [] \<and> a = []")
    case True
    with run assms(2) show ?thesis by (auto simp: throw_apply sent_def)
  next
    case False
    note here = False
    show ?thesis
    proof (cases "map_of (ap_identities s) (cache_key env c a)")
      case None
      with here run asked [of s] assms(2) show ?thesis by (auto simp: andthen_def gets_apply)
    next
      case (Some e)
      obtain t0 i where e: "e = (t0, i)" by (cases e)
      from Some e have "(cache_key env c a, t0, i) \<in> set (ap_identities s)" by (simp add: map_of_SomeD)
      with assms(2) obtain c' a' where "nul \<notin> set c'" "cache_key env c a = cache_key env c' a'" and v: "vouched cfg (ap_wire s) c' a' i"
        unfolding sound_def by fastforce
      with cache_key_inject [OF assms(1) _ c0] v have "vouched cfg (ap_wire s) c a i" by metis
      with here run Some e asked [of "s\<lparr>ap_reads := Suc (ap_reads s)\<rparr>"] assms(2) show ?thesis
        by (auto simp: andthen_def gets_apply young_eq ret_apply sent_def c_def a_def split: if_splits)
    qed
  qed
qed

section \<open>A request and its session\<close>

lemma make_session_spec:
  assumes "sound env cfg s" and "make_session env cfg i perms s = (r, s')"
  shows "sound env cfg s' \<and> sent (own_request cfg) (ap_wire s) s'
    \<and> (\<forall>ss. r = Inr ss \<longrightarrow> signed_in env cfg (ap_wire s') (in_email i) perms (ss_sid ss) \<and> ss_perms ss = perms)"
proof -
  have "sound env cfg s'"
    using sound_step [OF assms(1) tables.keeps_make_session grows.keeps_make_session] assms(2) by (metis snd_conv)
  moreover have "sent (own_request cfg) (ap_wire s) s'"
    using sent_step [OF prepares.keeps_make_session] assms(2) by (metis snd_conv)
  ultimately show ?thesis using assms(2) make_session_Inr by blast
qed

lemma drop_session_spec:
  assumes "sound env cfg s" and "drop_session env cfg k s = (r, s')"
  shows "r = Inr () \<and> sound env cfg s' \<and> sent (own_request cfg) (ap_wire s) s'"
proof (cases "map_of (ap_sessions s) k")
  case None
  with assms show ?thesis by (simp add: drop_session_def sent_def)
next
  case (Some old)
  let ?s = "s\<lparr>ap_sessions := AList.delete k (ap_sessions s)\<rparr>" and ?m = "send env ''logout'' (logout_request cfg (ss_sid old))"
  have s': "r = Inr ()" "s' = snd (?m ?s)" using assms(2) Some by (simp_all add: drop_session_def ignore_apply)
  have "set (AList.delete k (ap_sessions s)) \<subseteq> set (ap_sessions s)" by (simp add: AList.delete_eq)
  with assms(1) have "sound env cfg ?s" unfolding sound_def by fastforce
  then have "sound env cfg s'" unfolding s' by (rule sound_step [OF _ tables.keeps_send [OF TrueI] grows.keeps_send [OF TrueI]])
  moreover have "sent (own_request cfg) (ap_wire ?s) s'" unfolding s' by (rule sent_step [OF asks.keeps_send [where R = "own_request cfg", OF own_requests(4)]])
  ultimately show ?thesis using s' by simp
qed

lemma cached_spec:
  assumes "sound env cfg s" and "cached env cfg i perms force s = (r, s')"
  shows "sound env cfg s' \<and> ap_wire s' = ap_wire s
    \<and> (\<forall>ss. r = Inr (Some ss) \<longrightarrow> signed_in env cfg (ap_wire s') (in_email i) perms (ss_sid ss))"
proof (cases "map_of (ap_sessions s) (in_email i)")
  case None
  with assms show ?thesis by (auto simp: cached_def sem_defs)
next
  case (Some ss)
  then have "(in_email i, ss) \<in> set (ap_sessions s)" by (rule map_of_SomeD)
  with assms(1) have "signed_in env cfg (ap_wire s) (in_email i) (ss_perms ss) (ss_sid ss)" unfolding sound_def by fastforce
  with assms Some show ?thesis by (auto simp: cached_def sem_defs now_eq split: if_splits)
qed

lemma session_for_spec:
  assumes "sound env cfg s" and "session_for env cfg i perms force s = (r, s')"
  shows "sound env cfg s' \<and> sent (own_request cfg) (ap_wire s) s'
    \<and> (\<forall>ss. r = Inr ss \<longrightarrow> signed_in env cfg (ap_wire s') (in_email i) perms (ss_sid ss))"
proof -
  let ?cached = "cached env cfg i perms force"
  have total: "\<exists>x s1. ?cached t = (Inr x, s1)" for t by (auto simp: cached_def sem_defs now_eq split: option.split)
  obtain x s1 where x: "?cached s = (Inr x, s1)" using total by blast
  obtain y s2 where y: "?cached s1 = (Inr y, s2)" using total by blast
  have s1: "sound env cfg s1" "ap_wire s1 = ap_wire s" using cached_spec [OF assms(1) x] by auto
  have s2: "sound env cfg s2" "ap_wire s2 = ap_wire s" using cached_spec [OF s1(1) y] s1 by auto
  obtain z s3 where z: "make_session env cfg i perms s2 = (z, s3)" by fastforce
  note made = make_session_spec [OF s2(1) z]
  obtain d s4 where d: "drop_session env cfg (in_email i) s3 = (d, s4)" by fastforce
  note dropped = drop_session_spec [OF conjunct1 [OF made] d]
  show ?thesis
  proof (cases "x = None \<and> y = None \<and> (\<exists>ss. z = Inr ss)")
    case False
    with assms x y z made s2 cached_spec [OF assms(1) x] cached_spec [OF s1(1) y] show ?thesis
      by (cases x; cases y; cases z) (auto simp: session_for_def andthen_def ret_apply sent_def)
  next
    case True
    then obtain ss where ss: "z = Inr ss" by blast
    with True x y z d dropped assms(2) have r: "r = Inr ss" "s' = s4\<lparr>ap_sessions := AList.update (in_email i) ss (ap_sessions s4)\<rparr>"
      by (auto simp: session_for_def andthen_def ret_apply put_session_def)
    have w: "sent (own_request cfg) (ap_wire s) s4" using made dropped s2 sent_trans by metis
    have own: "signed_in env cfg (ap_wire s4) (in_email i) perms (ss_sid ss)" "ss_perms ss = perms"
      using made ss dropped by (auto intro: signed_in_mono [OF sent_subset])
    moreover have "sound env cfg s'"
      using dropped own unfolding r sound_def by (fastforce dest!: map_of_update_set)
    ultimately show ?thesis using r w by (simp add: sent_def)
  qed
qed

text \<open>What one request adds to the wire: the program's own requests, and the forwarded one with a session
  of the person it is made for.\<close>

definition traced :: "'w sso_env \<Rightarrow> cfg \<Rightarrow> client_req \<Rightarrow> identity \<Rightarrow> nat \<Rightarrow> 'w app \<Rightarrow> 'w app \<Rightarrow> bool" where
  "traced env cfg q i perms s s' \<longleftrightarrow> sound env cfg s' \<and>
     sent (\<lambda>rq. own_request cfg rq \<or> (\<exists>body sid. rq = forward_request cfg q body sid \<and> signed_in env cfg (ap_wire s') (in_email i) perms sid))
       (ap_wire s) s'"

lemma traced_trans: "traced env cfg q i perms s s1 \<Longrightarrow> traced env cfg q i perms s1 s2 \<Longrightarrow> traced env cfg q i perms s s2"
proof -
  assume 1: "traced env cfg q i perms s s1" and 2: "traced env cfg q i perms s1 s2"
  have "set (ap_wire s1) \<subseteq> set (ap_wire s2)" using 2 sent_subset unfolding traced_def by blast
  note mono = signed_in_mono [OF this]
  let ?R = "\<lambda>rq. own_request cfg rq \<or> (\<exists>body sid. rq = forward_request cfg q body sid \<and> signed_in env cfg (ap_wire s2) (in_email i) perms sid)"
  have "sent ?R (ap_wire s) s1" using 1 mono unfolding traced_def by (blast intro: sent_weaken)
  with 2 show ?thesis unfolding traced_def using sent_trans by blast
qed

lemma traced_own: "sound env cfg s' \<Longrightarrow> sent (own_request cfg) (ap_wire s) s' \<Longrightarrow> traced env cfg q i perms s s'"
  unfolding traced_def by (blast intro: sent_weaken)

lemma forward_traced:
  assumes "sound env cfg s" and "signed_in env cfg (ap_wire s) (in_email i) perms sid"
  shows "traced env cfg q i perms s (snd (forward env cfg q body sid s))"
proof -
  obtain x s1 where x: "send env ''seerr'' (forward_request cfg q body sid) s = (x, s1)" by fastforce
  have s1: "snd (forward env cfg q body sid s) = s1"
    using x by (auto simp: forward_def andthen_def ret_apply throw_apply split: sum.splits)
  have "sound env cfg s1" using sound_step [OF assms(1) tables.keeps_send [OF TrueI] grows.keeps_send [OF TrueI]] x by (metis snd_conv)
  moreover have w: "sent (\<lambda>rq. rq = forward_request cfg q body sid) (ap_wire s) s1"
    using sent_step [OF asks.keeps_send, of "\<lambda>rq. rq = forward_request cfg q body sid" "forward_request cfg q body sid" s env "''seerr''"] x by simp
  moreover have "signed_in env cfg (ap_wire s1) (in_email i) perms sid" by (rule signed_in_mono [OF sent_subset [OF w] assms(2)])
  ultimately show ?thesis unfolding s1 traced_def by (blast intro: sent_weaken)
qed

lemma proxied_traced:
  assumes "sound env cfg s"
  shows "traced env cfg q i perms s (snd (proxied env cfg q i perms body s))"
proof -
  have round: "traced env cfg q i perms t (snd (forward env cfg q body (ss_sid ss) t'))"
    if "sound env cfg t" and "session_for env cfg i perms f t = (Inr ss, t')" for t t' ss f
    using session_for_spec [OF that] by (blast intro: traced_trans traced_own forward_traced)
  have alone: "traced env cfg q i perms t t'" if "sound env cfg t" and "session_for env cfg i perms f t = (x, t')" for t t' x f
    using session_for_spec [OF that] by (blast intro: traced_own)
  obtain x s1 where x: "session_for env cfg i perms False s = (x, s1)" by fastforce
  show ?thesis
  proof (cases x)
    case (Inl e)
    with x alone [OF assms x] show ?thesis by (simp add: proxied_def andthen_def)
  next
    case (Inr ss)
    obtain y s2 where y: "forward env cfg q body (ss_sid ss) s1 = (y, s2)" by fastforce
    from round [OF assms x [unfolded Inr]] y have s2: "traced env cfg q i perms s s2" by simp
    show ?thesis
    proof (cases "\<exists>resp. y = Inr resp \<and> cs_status resp = 403 \<and> cq_path q = ''/api/v1/auth/me''
        \<and> sx_clock env (ap_reads s2) - ss_at ss > 5000")
      case False
      from s2 have "traced env cfg q i perms s (s2\<lparr>ap_reads := n\<rparr>)" for n by (simp add: traced_def sent_def)
      with x Inr y False s2 show ?thesis
        by (cases y) (auto simp: proxied_def andthen_def ret_apply now_eq)
    next
      case True
      let ?s = "s2\<lparr>ap_reads := Suc (ap_reads s2)\<rparr>"
      obtain z s3 where z: "session_for env cfg i perms True ?s = (z, s3)" by fastforce
      have s: "sound env cfg ?s" and t: "traced env cfg q i perms s ?s" using s2 by (simp_all add: traced_def sent_def)
      have "snd (proxied env cfg q i perms body s) = (case z of Inl e \<Rightarrow> s3 | Inr ss \<Rightarrow> snd (forward env cfg q body (ss_sid ss) s3))"
        using x Inr y True z by (auto simp: proxied_def andthen_def ret_apply now_eq split: sum.split)
      with t alone [OF s z] round [OF s, of True _ s3] z show ?thesis by (cases z) (auto intro: traced_trans)
    qed
  qed
qed

lemma forward_request_sid:
  assumes "forward_request cfg q body sid = forward_request cfg q' body' sid'"
  shows "sid = sid'"
proof -
  have "last (butlast (hq_headers (forward_request cfg q body sid))) = sid_header sid" for q body sid
    by (simp add: forward_request_def butlast_append)
  with assms have "sid_header sid = sid_header sid'" by metis
  then show ?thesis by (simp add: sid_header_def)
qed

definition start :: "'w \<Rightarrow> 'w app" where
  "start w = \<lparr>ap_sessions = [], ap_identities = [], ap_reads = 0, ap_world = w, ap_wire = []\<rparr>"

definition serve_all :: "'w sso_env \<Rightarrow> cfg \<Rightarrow> client_req list \<Rightarrow> 'w app \<Rightarrow> 'w app" where
  "serve_all env cfg qs s = fold (\<lambda>q s. snd (handle env cfg q s)) qs s"

lemma handle_snd: "snd (handle env cfg q s) = snd (serve env cfg q s)"
  by (auto simp: handle_def split: prod.split sum.split failure.split)

lemma serve_traced:
  assumes "inj (sx_sha env)" and "sound env cfg s" and "serve env cfg q s = (r, s')"
  shows "sound env cfg s' \<and> (\<exists>s1. sent (\<lambda>rq. rq = auth_request cfg (credential q ''cookie'') (credential q ''authorization'')) (ap_wire s) s1
    \<and> (s' = s1 \<or> (\<exists>i perms. vouched cfg (ap_wire s1) (credential q ''cookie'') (credential q ''authorization'') i
          \<and> permissions cfg (in_groups i) = Some perms \<and> traced env cfg q i perms s1 s')))"
proof -
  obtain x s1 where x: "identify env cfg q s = (x, s1)" by fastforce
  note known = identify_spec [OF assms(1,2) x]
  show ?thesis
  proof (cases "s' = s1")
    case True
    with known show ?thesis by blast
  next
    case False
    with x assms(3) obtain i perms body where i: "x = Inr i" "permissions cfg (in_groups i) = Some perms"
      and p: "proxied env cfg q i perms body s1 = (r, s')"
      by (auto simp: serve_def andthen_def ret_apply throw_apply split: sum.splits option.splits if_splits)
    with known have "traced env cfg q i perms s1 s'" using proxied_traced [of env cfg s1 q i perms body] by simp
    with known i show ?thesis unfolding traced_def by blast
  qed
qed

lemma serve_all_sound: "inj (sx_sha env) \<Longrightarrow> sound env cfg s \<Longrightarrow> sound env cfg (serve_all env cfg qs s)"
proof (induction qs arbitrary: s)
  case (Cons q qs)
  then have "sound env cfg (snd (handle env cfg q s))"
    using serve_traced [of env cfg s q] unfolding handle_snd by (metis prod.collapse)
  with Cons show ?case by (simp add: serve_all_def)
qed (simp add: serve_all_def)


section \<open>A sample\<close>

text \<open>A Seerr with the break-glass user and one person, who signs in through oauth2-proxy.\<close>

definition sample_cfg :: cfg where
  "sample_cfg = \<lparr>cf_upstream = ''u'', cf_auth_url = ''a'', cf_settings_file = ''f'', cf_key = ''k'', cf_admin_groups = [''admin''],
     cf_family_groups = [''family''], cf_family_perms = 32, cf_ttl = 1000, cf_link_jellyfin = True\<rparr>"

definition sample_answer :: "nat \<Rightarrow> headers \<Rightarrow> string \<Rightarrow> string + hresp" where
  "sample_answer status h body = Inr \<lparr>hs_status = status, hs_headers = h, hs_body = Inr body\<rparr>"

definition sample_http :: "hreq \<Rightarrow> string + hresp" where
  "sample_http rq =
     (if hq_url rq = ''a'' then sample_answer 202 [(''x-auth-request-email'', ''K@x''), (''x-auth-request-groups'', ''family'')] []
      else if hq_url rq = ''u/api/v1/user?take=1000&skip=0'' then sample_answer 200 [] ''users''
      else if hq_url rq = ''u/api/v1/auth/local'' then sample_answer 200 [(''set-cookie'', ''connect.sid=s1; Path=/'')] []
      else sample_answer 200 [] ''ok'')"

definition sample_json :: "string \<Rightarrow> string + json" where
  "sample_json t =
     (if t = ''users'' then Inr (JObj [(''results'', JArr [JObj [(''id'', JInt 1), (''email'', JStr ''k@x'')], JObj [(''id'', JInt 3), (''email'', JStr ''k@x'')]])])
      else if t = ''settings'' then Inr (JObj [(''main'', JObj [(''apiKey'', JStr ''key'')])])
      else Inl ''no'')"

definition sample_sso :: "unit sso_env" where
  "sample_sso = \<lparr>sx_http = (\<lambda>rq w. (sample_http rq, w)), sx_read = (\<lambda>_ _. Inr ''settings''), sx_json = sample_json,
     sx_ser = (\<lambda>_. ''b''), sx_hmac = (\<lambda>k m. m), sx_sha = (\<lambda>t. t), sx_clock = (\<lambda>n. n)\<rparr>"

definition sample_request :: client_req where
  "sample_request = \<lparr>cq_method = ''GET'', cq_path = ''/r'', cq_path_and_query = Some ''/r'',
     cq_headers = [(''cookie'', ''c''), (''x-api-key'', ''mine'')], cq_body = Inr []\<rparr>"

definition sample_served :: "(failure + client_resp) \<times> unit app" where
  "sample_served = serve sample_sso sample_cfg sample_request (start ())"

lemma sample_forwarded:
  "(forward_request sample_cfg sample_request [] ''s1'', sample_answer 200 [] ''ok'') \<in> set (ap_wire (snd sample_served))"
  by code_simp


text \<open>The status of the listing is not looked at: when Seerr fails to list its users, the person is taken
  for unknown and a new account is asked for.\<close>

lemma failed_listing_is_no_users:
  assumes "api env cfg ''GET'' ''/user?take=1000&skip=0'' None s = (Inr (500, JNull), s1)" and "\<not> cf_link_jellyfin cfg"
  shows "ensure_user env cfg i pw s = create_user env cfg i pw s1"
  using assms by (simp add: ensure_user_def andthen_def array_items_def find_user_def)

end
