(* ===== verification/Calendar.thy ===== *)
theory Calendar
  imports Prelude
begin

text \<open>
  Dates from a count of seconds: \<^verbatim>\<open>civil\<close>, \<^verbatim>\<open>fmt_time\<close>, \<^verbatim>\<open>rfc2822\<close> and \<^verbatim>\<open>age\<close> of
  \<^verbatim>\<open>apps/app-bootstrap/src/alert_digest.rs\<close>, and \<^verbatim>\<open>rfc3339_now\<close> of \<^verbatim>\<open>apps/letterboxd-sync/src/lib.rs\<close>, which
  repeats the arithmetic of \<^verbatim>\<open>civil\<close>. The reference is the Gregorian calendar, given by its first day and
  by the day after each day.
\<close>

section \<open>Operations\<close>

definition civil :: "int \<Rightarrow> int \<times> int \<times> int" where
  "civil days =
     (let z = days + 719468;
          era = z div 146097;
          doe = z mod 146097;
          yoe = (doe - doe div 1460 + doe div 36524 - doe div 146096) div 365;
          doy = doe - (365 * yoe + yoe div 4 - yoe div 100);
          mp = (5 * doy + 2) div 153;
          m = (if mp < 10 then mp + 3 else mp - 9)
      in (yoe + era * 400 + (if m \<le> 2 then 1 else 0), m, doy - (153 * mp + 2) div 5 + 1))"

text \<open>\<^verbatim>\<open>{:0w}\<close> of an \<^verbatim>\<open>i64\<close>: the sign is one of the \<open>w\<close> places.\<close>

definition padi :: "nat \<Rightarrow> int \<Rightarrow> string" where
  "padi w i = (if i < 0 then ''-'' @ pad0 (w - 1) (nat (- i)) else pad0 w (nat i))"

definition fmt_time :: "int \<Rightarrow> string" where
  "fmt_time t =
     (let (y, m, d) = civil (t div 86400); s = t mod 86400
      in padi 4 y @ ''-'' @ padi 2 m @ ''-'' @ padi 2 d @ '' '' @ padi 2 (s div 3600) @ '':'' @ padi 2 (s mod 3600 div 60) @ '' UTC'')"

definition rfc2822 :: "int \<Rightarrow> string" where
  "rfc2822 t =
     (let (y, m, d) = civil (t div 86400); s = t mod 86400;
          weekday = [''Thu'', ''Fri'', ''Sat'', ''Sun'', ''Mon'', ''Tue'', ''Wed''] ! nat (t div 86400 mod 7);
          month = [''Jan'', ''Feb'', ''Mar'', ''Apr'', ''May'', ''Jun'', ''Jul'', ''Aug'', ''Sep'', ''Oct'', ''Nov'', ''Dec''] ! nat (m - 1)
      in weekday @ '', '' @ padi 2 d @ '' '' @ month @ '' '' @ padi 4 y @ '' '' @ padi 2 (s div 3600) @ '':''
         @ padi 2 (s mod 3600 div 60) @ '':'' @ padi 2 (s mod 60) @ '' +0000'')"

definition age :: "int \<Rightarrow> string" where
  "age secs =
     (if secs \<le> 59 then ''<1m''
      else if secs \<le> 3599 then int_str (secs div 60) @ ''m''
      else if secs \<le> 86399 then int_str (secs div 3600) @ ''h'' @ padi 2 (secs mod 3600 div 60) @ ''m''
      else int_str (secs div 86400) @ ''d'' @ int_str (secs mod 86400 div 3600) @ ''h'')"

text \<open>\<^verbatim>\<open>rfc3339_now\<close>, of the seconds and milliseconds the clock shows.\<close>

definition rfc3339 :: "int \<Rightarrow> nat \<Rightarrow> string" where
  "rfc3339 secs ms =
     (let (year, month, day) = civil (secs div 86400); rem = secs mod 86400
      in padi 4 year @ ''-'' @ padi 2 month @ ''-'' @ padi 2 day @ ''T'' @ padi 2 (rem div 3600) @ '':'' @ padi 2 (rem mod 3600 div 60)
         @ '':'' @ padi 2 (rem mod 60) @ ''.'' @ pad0 3 ms @ ''Z'')"

section \<open>The Gregorian calendar\<close>

definition leap :: "int \<Rightarrow> bool" where
  "leap y \<longleftrightarrow> 4 dvd y \<and> (\<not> 100 dvd y \<or> 400 dvd y)"

definition month_len :: "int \<Rightarrow> int \<Rightarrow> int" where
  "month_len y m = (if m = 2 then (if leap y then 29 else 28) else if m \<in> {4, 6, 9, 11} then 30 else 31)"

fun next_day :: "int \<times> int \<times> int \<Rightarrow> int \<times> int \<times> int" where
  "next_day (y, m, d) = (if d < month_len y m then (y, m, d + 1) else if m < 12 then (y, m + 1, 1) else (y + 1, 1, 1))"

section \<open>The year of an era\<close>

text \<open>Years begin in March: the \<open>r\<close>-th year of the \<open>q\<close>-th group of four of the \<open>c\<close>-th century of an era.\<close>

lemma year_of_era:
  fixes c q r doy :: int
  assumes "0 \<le> c" "c < 4" "0 \<le> q" "q < 25" "0 \<le> r" "r < 4" "0 \<le> doy"
    and "doy \<le> 364 \<or> doy = 365 \<and> r = 3 \<and> (q < 24 \<or> c = 3)"
    and doe: "doe = 36524 * c + 1461 * q + 365 * r + doy"
  shows "(doe - doe div 1460 + doe div 36524 - doe div 146096) div 365 = 100 * c + 4 * q + r"
proof -
  define last where "last = (c = 3 \<and> q = 24 \<and> r = 3 \<and> doy = 365)"
  define k where "k = (24 * c + q + 365 * r + doy) div 1460"
  have k: "k = (if 24 * c + q + 365 * r + doy < 1460 then 0 else 1)"
    unfolding k_def using assms by (auto intro: int_div_pos_eq)
  have "doe div 1460 = 25 * c + q + k"
    unfolding k_def by (simp add: doe)
  moreover have "doe div 36524 = (if last then 4 else c)"
    unfolding last_def using assms by (auto intro!: int_div_pos_eq)
  moreover have "doe div 146096 = (if last then 1 else 0)"
    unfolding last_def using assms by (auto intro!: int_div_pos_eq)
  ultimately have "doe - doe div 1460 + doe div 36524 - doe div 146096 = 365 * (100 * c + 4 * q + r) + (doy - k)"
    unfolding last_def using doe by (auto split: if_splits)
  moreover have "0 \<le> doy - k" "doy - k < 365" using assms k by (auto split: if_splits)
  ultimately show ?thesis by (simp add: int_div_pos_eq)
qed

section \<open>Days and dates\<close>

definition march_len :: "int \<Rightarrow> int \<Rightarrow> int" where
  "march_len yoe mp = (if mp = 11 then (if leap (yoe + 1) then 29 else 28) else if mp \<in> {1, 3, 6, 8} then 30 else 31)"

definition in_era :: "int \<Rightarrow> int \<Rightarrow> int \<Rightarrow> bool" where
  "in_era yoe mp d \<longleftrightarrow> 0 \<le> yoe \<and> yoe < 400 \<and> 0 \<le> mp \<and> mp < 12 \<and> 1 \<le> d \<and> d \<le> march_len yoe mp"

definition day_of :: "int \<Rightarrow> int \<Rightarrow> int \<Rightarrow> int \<Rightarrow> int" where
  "day_of era yoe mp d = 146097 * era + (365 * yoe + yoe div 4 - yoe div 100) + ((153 * mp + 2) div 5 + d - 1) - 719468"

definition date_of :: "int \<Rightarrow> int \<Rightarrow> int \<Rightarrow> int \<Rightarrow> int \<times> int \<times> int" where
  "date_of era yoe mp d = (yoe + era * 400 + (if mp < 10 then 0 else 1), if mp < 10 then mp + 3 else mp - 9, d)"

lemma months:
  assumes "0 \<le> mp" "mp < (12 :: int)"
  obtains "mp = 0" | "mp = 1" | "mp = 2" | "mp = 3" | "mp = 4" | "mp = 5" | "mp = 6" | "mp = 7" | "mp = 8" | "mp = 9" | "mp = 10" | "mp = 11"
proof -
  have "mp = 0 \<or> mp = 1 \<or> mp = 2 \<or> mp = 3 \<or> mp = 4 \<or> mp = 5 \<or> mp = 6 \<or> mp = 7 \<or> mp = 8 \<or> mp = 9 \<or> mp = 10 \<or> mp = 11"
    using assms by arith
  with that show thesis by blast
qed

lemma month_of_day:
  assumes "0 \<le> mp" "mp < 12" "1 \<le> d" "d \<le> march_len yoe mp"
  shows "(5 * ((153 * mp + 2) div 5 + d - 1) + 2) div 153 = mp \<and> 0 \<le> (153 * mp + 2) div 5 + d - 1
    \<and> ((153 * mp + 2) div 5 + d - 1 \<le> 364 \<or> (153 * mp + 2) div 5 + d - 1 = 365 \<and> leap (yoe + 1))"
  using assms(1,2) by (cases rule: months) (use assms(3,4) in \<open>auto simp: march_len_def split: if_splits \<close>)

lemma leap_end:
  assumes "leap (yoe + 1)" and yoe: "yoe = 100 * c + 4 * q + r" and "0 \<le> c" "c < 4" "0 \<le> q" "q < 25" "0 \<le> r" "r < (4 :: int)"
  shows "r = 3 \<and> (q < 24 \<or> c = 3)"
proof -
  have "4 dvd 100 * c + 4 * q + r + 1" using assms(1) yoe by (simp add: leap_def)
  then have r: "r = 3" using assms(7,8) by presburger
  have "c = 3" if "q = 24"
  proof -
    have "yoe + 1 = 100 * (c + 1)" using yoe r that by simp
    with assms(1) have "100 * 4 dvd 100 * (c + 1)" unfolding leap_def by simp
    then have "4 dvd c + 1" by (metis dvd_mult_cancel_left zero_neq_numeral)
    with assms(3,4) show ?thesis by presburger
  qed
  with r assms(6) show ?thesis by force
qed

text \<open>The parts of a year of the era.\<close>

lemma year_parts:
  assumes "0 \<le> yoe" "yoe < (400 :: int)"
  obtains c q r where "0 \<le> c" "c < 4" "0 \<le> q" "q < 25" "0 \<le> r" "r < 4" "yoe = 100 * c + 4 * q + r"
proof
  let ?x = "yoe mod 100"
  show "0 \<le> yoe div 100" "yoe div 100 < 4" using assms by auto
  have "0 \<le> ?x" "?x < 100" by simp_all
  then show "0 \<le> ?x div 4" "?x div 4 < 25" by auto
  show "0 \<le> ?x mod 4" "?x mod 4 < 4" by simp_all
  show "yoe = 100 * (yoe div 100) + 4 * (?x div 4) + ?x mod 4" by simp
qed

lemma year_divs:
  assumes "yoe = 100 * c + 4 * q + r" "0 \<le> q" "q < 25" "0 \<le> r" "r < (4 :: int)"
  shows "yoe div 4 = 25 * c + q" "yoe div 100 = c"
  using assms int_div_pos_eq [of yoe 4 "25 * c + q" r] int_div_pos_eq [of yoe 100 c "4 * q + r"] by simp_all

lemma civil_day_of:
  assumes "in_era yoe mp d"
  shows "civil (day_of era yoe mp d) = date_of era yoe mp d"
proof -
  let ?doy = "(153 * mp + 2) div 5 + d - 1"
  define doe where "doe = 365 * yoe + yoe div 4 - yoe div 100 + ?doy"
  have y: "0 \<le> yoe" "yoe < 400" and mp: "0 \<le> mp" "mp < 12" "1 \<le> d" "d \<le> march_len yoe mp" using assms by (simp_all add: in_era_def)
  obtain c q r where b: "0 \<le> c" "c < 4" "0 \<le> q" "q < 25" "0 \<le> r" "r < 4" and yoe: "yoe = 100 * c + 4 * q + r" by (rule year_parts [OF y])
  have md: "(5 * ?doy + 2) div 153 = mp" "0 \<le> ?doy" and late: "?doy \<le> 364 \<or> ?doy = 365 \<and> r = 3 \<and> (q < 24 \<or> c = 3)"
    using month_of_day [OF mp] leap_end [OF _ yoe b] by auto
  have doe: "doe = 36524 * c + 1461 * q + 365 * r + ?doy" using year_divs [OF yoe b(3-6)] yoe by (simp add: doe_def)
  have y365: "(doe - doe div 1460 + doe div 36524 - doe div 146096) div 365 = yoe"
    using year_of_era [OF b md(2) late doe] yoe by simp
  have "0 \<le> doe" "doe < 146097" using doe b md(2) late by auto
  moreover have z: "day_of era yoe mp d + 719468 = 146097 * era + doe" by (simp add: day_of_def doe_def)
  ultimately have era: "(day_of era yoe mp d + 719468) div 146097 = era" and doe': "(day_of era yoe mp d + 719468) mod 146097 = doe"
    unfolding z by (simp_all add: int_div_pos_eq int_mod_pos_eq)
  have doy: "doe - (365 * yoe + yoe div 4 - yoe div 100) = ?doy" by (simp add: doe_def)
  show ?thesis unfolding civil_def Let_def era doe' y365 doy md(1) date_of_def using mp by simp
qed

lemma day_exists: obtains era yoe mp d where "in_era yoe mp d" "n = day_of era yoe mp d"
proof -
  define z doe e where "z = n + 719468" and "doe = z mod 146097" and "e = doe div 36524"
  define c where "c = (if e = 4 then 3 else e)"
  define t where "t = doe - 36524 * c"
  define q s where "q = t div 1461" and "s = t mod 1461"
  define r where "r = (if s = 1460 then 3 else s div 365)"
  define yoe doy where "yoe = 100 * c + 4 * q + r" and "doy = s - 365 * r"
  define mp d where "mp = (5 * doy + 2) div 153" and "d = doy - (153 * mp + 2) div 5 + 1"
  have doe: "0 \<le> doe" "doe < 146097" by (simp_all add: doe_def)
  have e: "doe = 36524 * e + doe mod 36524" "0 \<le> doe mod 36524" "doe mod 36524 < 36524" by (simp_all add: e_def)
  then have c: "0 \<le> c" "c < 4" "0 \<le> t" "t < 36524 \<or> c = 3 \<and> t = 36524" using doe unfolding c_def t_def by (auto split: if_splits)
  have t: "t = 1461 * q + s" "0 \<le> s" "s < 1461" by (simp_all add: q_def s_def)
  with c have q: "0 \<le> q" "q < 25" by auto
  have "s = 365 * (s div 365) + s mod 365" "0 \<le> s mod 365" "s mod 365 < 365" by simp_all
  with t have r: "0 \<le> r" "r < 4" "0 \<le> doy" "doy \<le> 364 \<or> doy = 365 \<and> s = 1460" unfolding r_def doy_def by (auto split: if_splits)
  have late: "r = 3 \<and> (q < 24 \<or> c = 3)" if "s = 1460" using that c t q by (auto simp: r_def)
  have yoe: "0 \<le> yoe" "yoe < 400" using c q r by (simp_all add: yoe_def)
  have "leap (yoe + 1)" if "s = 1460"
  proof (cases "q = 24")
    case True
    with late [OF that] show ?thesis by (simp add: yoe_def leap_def)
  next
    case False
    then have "\<not> 100 dvd 100 * c + 4 * (q + 1)" using q by presburger
    moreover have y: "yoe + 1 = 100 * c + 4 * (q + 1)" and "4 dvd 100 * c + 4 * (q + 1)" using late [OF that] by (simp_all add: yoe_def)
    ultimately show ?thesis unfolding leap_def y by blast
  qed
  then have leap: "doy \<le> 364 \<or> doy = 365 \<and> leap (yoe + 1)" using r(4) by blast
  have "0 \<le> mp \<and> mp < 12 \<and> 5 * doy + 2 = 153 * mp + (5 * doy + 2) mod 153 \<and> 0 \<le> (5 * doy + 2) mod 153 \<and> (5 * doy + 2) mod 153 < 153"
    using r(3) leap unfolding mp_def by auto
  then have mp: "0 \<le> mp" "mp < 12" and lo: "153 * mp \<le> 5 * doy + 2" and hi: "5 * doy + 2 < 153 * mp + 153" by linarith+
  from mp have "1 \<le> d \<and> d \<le> march_len yoe mp"
    by (cases rule: months) (use lo hi leap in \<open>auto simp: d_def march_len_def\<close>)
  with yoe mp have era: "in_era yoe mp d" by (simp add: in_era_def)
  have "z = 146097 * (z div 146097) + doe" by (simp add: doe_def)
  moreover have "doe = 36524 * c + 1461 * q + s" using t(1) by (simp add: t_def)
  ultimately have "n = day_of (z div 146097) yoe mp d"
    using year_divs [OF yoe_def q r(1,2)] unfolding day_of_def d_def doy_def by (simp add: yoe_def z_def)
  with era show thesis using that by blast
qed

lemma leap_era: "leap (y + 400 * era) = leap y"
proof -
  have "(4 :: int) dvd 400 * era" "(100 :: int) dvd 400 * era" "(400 :: int) dvd 400 * era" by simp_all
  then show ?thesis unfolding leap_def by (simp add: dvd_add_left_iff)
qed

lemma march_month_len:
  assumes "in_era yoe mp d" and "date_of era yoe mp d = (y, m, d)"
  shows "month_len y m = march_len yoe mp"
proof -
  have "0 \<le> mp" "mp < 12" using assms(1) by (simp_all add: in_era_def)
  moreover have "leap (yoe + era * 400 + 1) = leap (yoe + 1)" using leap_era [of "yoe + 1" era] by (simp add: algebra_simps)
  ultimately show ?thesis
    by (cases rule: months) (use assms(2) in \<open>auto simp: date_of_def month_len_def march_len_def\<close>)
qed

lemma month_end: "0 \<le> mp \<Longrightarrow> mp < 11 \<Longrightarrow> (153 * (mp + 1) + 2) div 5 = (153 * mp + 2) div 5 + march_len yoe mp"
proof -
  assume "0 \<le> mp" "mp < 11"
  then have "0 \<le> mp" "mp < 12" by simp_all
  then show ?thesis by (cases rule: months) (use \<open>mp < 11\<close> in \<open>simp_all add: march_len_def\<close>)
qed

lemma year_end:
  assumes "0 \<le> yoe" "yoe < (400 :: int)"
  shows "365 * (yoe + 1) + (yoe + 1) div 4 - (yoe + 1) div 100 + (if yoe = 399 then 1 else 0)
       = 365 * yoe + yoe div 4 - yoe div 100 + 337 + march_len yoe 11"
proof -
  obtain c q r where b: "0 \<le> c" "c < 4" "0 \<le> q" "q < 25" "0 \<le> r" "r < 4" and yoe: "yoe = 100 * c + 4 * q + r" by (rule year_parts [OF assms])
  note d = year_divs [OF yoe b(3-6)]
  show ?thesis
  proof (cases "r = 3")
    case False
    then have "(yoe + 1) div 4 = 25 * c + q" "(yoe + 1) div 100 = c" "yoe \<noteq> 399" "\<not> leap (yoe + 1)"
      using year_divs [of "yoe + 1" c q "r + 1"] yoe b leap_end [OF _ yoe b] by auto
    with d show ?thesis by (simp add: march_len_def)
  next
    case True
    note r3 = True
    show ?thesis
    proof (cases "q = 24")
      case True
      then have "(yoe + 1) div 4 = 25 * (c + 1)" "(yoe + 1) div 100 = c + 1" "yoe = 399 \<longleftrightarrow> c = 3"
        using year_divs [of "yoe + 1" "c + 1" 0 0] yoe r3 by auto
      moreover have "leap (yoe + 1) \<longleftrightarrow> c = 3"
        using leap_end [OF _ yoe b] True yoe r3 by (auto simp: leap_def)
      ultimately show ?thesis using d True yoe r3 by (simp add: march_len_def)
    next
      case False
      then have "(yoe + 1) div 4 = 25 * c + (q + 1)" "(yoe + 1) div 100 = c" "yoe \<noteq> 399"
        using year_divs [of "yoe + 1" c "q + 1" 0] yoe r3 b by auto
      moreover have "leap (yoe + 1)"
      proof -
        have "\<not> 100 dvd 100 * c + 4 * (q + 1)" using False b(3,4) by presburger
        moreover have y: "yoe + 1 = 100 * c + 4 * (q + 1)" and "4 dvd 100 * c + 4 * (q + 1)" using yoe r3 by simp_all
        ultimately show ?thesis unfolding leap_def y by blast
      qed
      ultimately show ?thesis using d by (simp add: march_len_def)
    qed
  qed
qed

lemma next_day_of:
  assumes "in_era yoe mp d"
  shows "\<exists>era' yoe' mp' d'. in_era yoe' mp' d' \<and> day_of era yoe mp d + 1 = day_of era' yoe' mp' d'
           \<and> next_day (date_of era yoe mp d) = date_of era' yoe' mp' d'"
proof -
  have b: "0 \<le> yoe" "yoe < 400" "0 \<le> mp" "mp < 12" "1 \<le> d" "d \<le> march_len yoe mp" using assms by (simp_all add: in_era_def)
  define y m where "y = yoe + era * 400 + (if mp < 10 then 0 else 1)" and "m = (if mp < 10 then mp + 3 else mp - 9)"
  then have ymd: "date_of era yoe mp d = (y, m, d)" by (simp add: date_of_def)
  note len = march_month_len [OF assms ymd]
  have pos: "1 \<le> march_len a mp'" for a mp' by (simp add: march_len_def)
  consider (day) "d < march_len yoe mp" | (month) "d = march_len yoe mp" "mp < 11" | (year) "d = march_len yoe mp" "mp = 11" "yoe < 399"
    | (era) "d = march_len yoe mp" "mp = 11" "yoe = 399" using b by fastforce
  then show ?thesis
  proof cases
    case day
    then have "in_era yoe mp (d + 1)" and "day_of era yoe mp d + 1 = day_of era yoe mp (d + 1)"
      and "next_day (date_of era yoe mp d) = date_of era yoe mp (d + 1)"
      using b len unfolding ymd by (simp_all add: in_era_def day_of_def date_of_def y_def m_def)
    then show ?thesis by blast
  next
    case month
    then have "in_era yoe (mp + 1) 1" and "day_of era yoe mp d + 1 = day_of era yoe (mp + 1) 1"
      using b pos month_end [of mp yoe] by (simp_all add: in_era_def day_of_def)
    moreover have "next_day (date_of era yoe mp d) = date_of era yoe (mp + 1) 1"
      using month len b(3) unfolding ymd by (auto simp: date_of_def y_def m_def split: if_splits)
    ultimately show ?thesis by blast
  next
    case year
    then have "in_era (yoe + 1) 0 1" and "day_of era yoe mp d + 1 = day_of era (yoe + 1) 0 1"
      using b pos year_end [OF b(1,2)] by (simp_all add: in_era_def day_of_def)
    moreover have "next_day (date_of era yoe mp d) = date_of era (yoe + 1) 0 1"
      using year len unfolding ymd by (auto simp: date_of_def y_def m_def)
    ultimately show ?thesis by blast
  next
    case era
    then have "in_era 0 0 1" and "day_of era yoe mp d + 1 = day_of (era + 1) 0 0 1"
      using b pos year_end [OF b(1,2)] by (simp_all add: in_era_def day_of_def)
    moreover have "next_day (date_of era yoe mp d) = date_of (era + 1) 0 0 1"
      using era len unfolding ymd by (auto simp: date_of_def y_def m_def)
    ultimately show ?thesis by blast
  qed
qed

lemma civil_next: "civil (n + 1) = next_day (civil n)"
proof -
  obtain era yoe mp d where n: "in_era yoe mp d" "n = day_of era yoe mp d" by (rule day_exists)
  from next_day_of [OF n(1), of era] obtain era' yoe' mp' d' where "in_era yoe' mp' d'" "n + 1 = day_of era' yoe' mp' d'"
    and nx: "next_day (date_of era yoe mp d) = date_of era' yoe' mp' d'" unfolding n(2) by blast
  then have "civil (n + 1) = date_of era' yoe' mp' d'" by (simp add: civil_day_of)
  with nx n show "civil (n + 1) = next_day (civil n)" by (simp only: civil_day_of)
qed

lemma civil_0: "civil 0 = (1970, 1, 1)"
proof -
  have "in_era 369 10 1" by (simp add: in_era_def march_len_def)
  from civil_day_of [OF this, of 4] show ?thesis by (simp add: day_of_def date_of_def)
qed

text \<open>Property C22: the date arithmetic is the Gregorian calendar. Day 0 is the first of January 1970, and each
  day is followed by the day after it, in both directions from there without end: with leap years
  every four years, but not every hundred, but every four hundred.\<close>

theorem civil_is_the_calendar: "civil 0 = (1970, 1, 1) \<and> civil (n + 1) = next_day (civil n)"
  by (simp add: civil_0 civil_next)

section \<open>Times that compare as strings\<close>

lemma less_append_iff:
  "length a = length a' \<Longrightarrow> (a @ b :: string) < a' @ b' \<longleftrightarrow> a < a' \<or> a = a' \<and> b < b'"
  by (induction a a' rule: list_induct2) auto

text \<open>A number in exactly \<open>w\<close> places.\<close>

fun places :: "nat \<Rightarrow> nat \<Rightarrow> string" where
  "places 0 n = []"
| "places (Suc w) n = places w (n div 10) @ [char_of (48 + n mod 10)]"

lemma length_places [simp]: "length (places w n) = w"
  by (induction w arbitrary: n) auto

lemma places_0: "places w 0 = replicate w (CHR ''0'')"
proof (induction w)
  case (Suc w)
  have "(char_of (48 :: nat) :: char) = CHR ''0''" by code_simp
  with Suc show ?case by (simp add: replicate_append_same)
qed simp

lemma nat_str_places: "n < 10 ^ w \<Longrightarrow> 0 < w \<Longrightarrow> pad0 w n = places w n"
proof (induction w arbitrary: n)
  case (Suc w)
  show ?case
  proof (cases "n < 10")
    case True
    then have "nat_str n = [char_of (48 + n)]" by (subst nat_str.simps) simp
    with True show ?thesis by (simp add: pad0_def places_0)
  next
    case False
    then have n: "nat_str n = nat_str (n div 10) @ [char_of (48 + n mod 10)]" by (subst nat_str.simps) simp
    have "0 < w" using Suc.prems False by (cases w) auto
    moreover have "n div 10 < 10 ^ w" using Suc.prems by (simp add: less_mult_imp_div_less)
    ultimately show ?thesis using Suc.IH [of "n div 10"] n by (simp add: pad0_def)
  qed
qed simp

lemma digit_less: "a < b \<Longrightarrow> b < 10 \<Longrightarrow> (char_of (48 + a :: nat) :: char) < char_of (48 + b)"
  by (simp add: less_char_def)

lemma places_less: "m < n \<Longrightarrow> n < 10 ^ w \<Longrightarrow> places w m < places w n"
proof (induction w arbitrary: m n)
  case (Suc w)
  have n: "n div 10 < 10 ^ w" using Suc.prems(2) by (simp add: less_mult_imp_div_less)
  show ?case
  proof (cases "m div 10 = n div 10")
    case True
    then have "m mod 10 < n mod 10" using Suc.prems(1) by (metis div_mult_mod_eq nat_add_left_cancel_less)
    with True digit_less [of "m mod 10" "n mod 10"] show ?thesis by (simp add: less_append_iff)
  next
    case False
    then have "m div 10 < n div 10" using Suc.prems(1) by (metis div_le_mono le_neq_implies_less less_imp_le_nat)
    with Suc.IH [OF _ n] show ?thesis by (simp add: less_append_iff)
  qed
qed simp

definition fits :: "nat \<Rightarrow> int \<Rightarrow> bool" where "fits w i \<longleftrightarrow> 0 \<le> i \<and> i < 10 ^ w"

lemma padi_less:
  assumes "fits w i" "fits w j" "0 < w"
  shows "length (padi w i) = w" and "padi w i @ a < padi w j @ b \<longleftrightarrow> i < j \<or> i = j \<and> a < b"
proof -
  have p: "padi w k = places w (nat k)" "nat k < 10 ^ w" if "fits w k" for k
    using that assms(3) nat_str_places [of "nat k" w] by (simp_all add: fits_def padi_def nat_less_iff)
  show "length (padi w i) = w" using p assms by simp
  have l: "length (padi w i) = length (padi w j)" using p assms by simp
  have less: "padi w k < padi w k'" if "k < k'" "fits w k" "fits w k'" for k k'
    using that places_less [of "nat k" "nat k'" w] p by (simp add: fits_def)
  have "padi w i < padi w j \<longleftrightarrow> i < j" using less assms(1,2) by (metis less_asym linorder_neqE)
  moreover have "padi w i = padi w j \<longleftrightarrow> i = j" using less assms(1,2) by (metis less_irrefl linorder_neqE)
  ultimately show "padi w i @ a < padi w j @ b \<longleftrightarrow> i < j \<or> i = j \<and> a < b" by (simp add: less_append_iff [OF l])
qed

lemma civil_fields: "civil n = (y, m, d) \<Longrightarrow> 1 \<le> m \<and> m \<le> 12 \<and> 1 \<le> d \<and> d \<le> 31"
proof -
  assume c: "civil n = (y, m, d)"
  obtain era yoe mp d' where n: "in_era yoe mp d'" "n = day_of era yoe mp d'" by (rule day_exists)
  then have "date_of era yoe mp d' = (y, m, d)" using c by (simp add: civil_day_of)
  moreover have "march_len yoe mp \<le> 31" by (simp add: march_len_def)
  ultimately show ?thesis using n(1) by (auto simp: in_era_def date_of_def split: if_splits)
qed

lemma civil_mono: "n < n' \<Longrightarrow> civil n < civil n'"
proof (induction "nat (n' - n)" arbitrary: n')
  case (Suc k)
  have "civil (n' - 1 + 1) = next_day (civil (n' - 1))" by (rule civil_next)
  moreover have "x < next_day x" for x by (cases x) auto
  ultimately have "civil (n' - 1) < civil n'" by simp
  moreover have "civil n \<le> civil (n' - 1)" using Suc by (cases "n = n' - 1") (auto intro: less_imp_le)
  ultimately show ?case by simp
qed simp

lemma civil_year:
  assumes "0 \<le> n" "n < 2932897" and "civil n = (y, m, d)"
  shows "fits 4 y" "fits 2 m" "fits 2 d"
proof -
  have "in_era 399 10 1" by (simp add: in_era_def march_len_def)
  from civil_day_of [OF this, of 24] have "civil 2932897 = (10000, 1, 1)" by (simp add: day_of_def date_of_def)
  with civil_mono [OF assms(2)] assms(3) have "y \<le> 9999" using civil_fields [OF assms(3)] by auto
  moreover have "1970 \<le> y" using civil_mono [of 0 n] assms civil_0 by (cases "n = 0") auto
  ultimately show "fits 4 y" by (simp add: fits_def)
  show "fits 2 m" "fits 2 d" using civil_fields [OF assms(3)] by (simp_all add: fits_def)
qed

lemma div_mod_lex:
  fixes x y b :: int
  assumes "0 < b"
  shows "x div b < y div b \<or> x div b = y div b \<and> (x mod b < y mod b \<or> x mod b = y mod b \<and> Q) \<longleftrightarrow> x < y \<or> x = y \<and> Q"
proof (cases "x div b = y div b")
  case True
  moreover have "x = b * (x div b) + x mod b" "y = b * (y div b) + y mod b" by simp_all
  ultimately have "x mod b < y mod b \<longleftrightarrow> x < y" "x mod b = y mod b \<longleftrightarrow> x = y" by (metis add_less_cancel_left, metis)
  with True show ?thesis by auto
next
  case False
  then have "x div b < y div b \<longleftrightarrow> x < y" using assms zdiv_mono1 [of x y b] zdiv_mono1 [of y x b] by (metis linorder_not_less less_le)
  with False show ?thesis by auto
qed

lemma rfc3339_less:
  assumes s: "0 \<le> s" "s < 253402300800" and s': "0 \<le> s'" "s' < 253402300800" and ms: "ms < 1000" "ms' < 1000"
  shows "rfc3339 s ms < rfc3339 s' ms' \<longleftrightarrow> s < s' \<or> s = s' \<and> ms < ms'"
proof -
  obtain y m d where c: "civil (s div 86400) = (y, m, d)" by (cases "civil (s div 86400)")
  obtain y' m' d' where c': "civil (s' div 86400) = (y', m', d')" by (cases "civil (s' div 86400)")
  let ?r = "s mod 86400" and ?r' = "s' mod 86400"
  have days: "0 \<le> s div 86400" "s div 86400 < 2932897" "0 \<le> s' div 86400" "s' div 86400 < 2932897" using s s' by auto
  note f = civil_year [OF days(1,2) c] civil_year [OF days(3,4) c']
  have g: "fits 2 (t div 3600)" "fits 2 (t mod 3600 div 60)" "fits 2 (t mod 60)" if "0 \<le> t" "t < 86400" for t
    using that by (auto simp: fits_def)
  have p: "pad0 3 k = padi 3 (int k)" "fits 3 (int k)" if "k < 1000" for k using that by (simp_all add: padi_def fits_def)
  have ymd: "y < y' \<or> y = y' \<and> (m < m' \<or> m = m' \<and> d < d') \<longleftrightarrow> s div 86400 < s' div 86400"
    "y = y' \<and> m = m' \<and> d = d' \<longleftrightarrow> s div 86400 = s' div 86400"
    using civil_mono [of "s div 86400" "s' div 86400"] civil_mono [of "s' div 86400" "s div 86400"] c c'
    by (cases "s div 86400" "s' div 86400" rule: linorder_cases; auto)+
  have r: "0 \<le> ?r" "?r < 86400" "0 \<le> ?r'" "?r' < 86400" by simp_all
  have hms: "?r div 3600 < ?r' div 3600 \<or> ?r div 3600 = ?r' div 3600 \<and> (?r mod 3600 div 60 < ?r' mod 3600 div 60
      \<or> ?r mod 3600 div 60 = ?r' mod 3600 div 60 \<and> (?r mod 60 < ?r' mod 60 \<or> ?r mod 60 = ?r' mod 60 \<and> Q)) \<longleftrightarrow> ?r < ?r' \<or> ?r = ?r' \<and> Q" for Q
    using div_mod_lex [of 3600 ?r ?r' Q] div_mod_lex [of 60 "?r mod 3600" "?r' mod 3600" Q] by (simp add: mod_mod_cancel)
  have "rfc3339 s ms < rfc3339 s' ms' \<longleftrightarrow> (y < y' \<or> y = y' \<and> (m < m' \<or> m = m' \<and> (d < d' \<or> d = d' \<and> (?r < ?r' \<or> ?r = ?r' \<and> ms < ms'))))"
    unfolding rfc3339_def c c' Let_def prod.case using f g [OF r(1,2)] g [OF r(3,4)] p [OF ms(1)] p [OF ms(2)]
    by (simp add: padi_less hms [symmetric])
  also have "\<dots> \<longleftrightarrow> s div 86400 < s' div 86400 \<or> s div 86400 = s' div 86400 \<and> (?r < ?r' \<or> ?r = ?r' \<and> ms < ms')"
    using ymd by blast
  also have "\<dots> \<longleftrightarrow> s < s' \<or> s = s' \<and> ms < ms'" by (rule div_mod_lex) simp
  finally show ?thesis .
qed

text \<open>Property C39: the timestamps of the sync compare as strings the way they compare as times, from 1970
  to the end of the year 9999; the cursors it keeps rely on it.\<close>

theorem timestamps_compare_as_strings:
  assumes "0 \<le> s" "s < 253402300800" "ms < 1000" and "0 \<le> s'" "s' < 253402300800" "ms' < 1000"
  shows "rfc3339 s ms \<le> rfc3339 s' ms' \<longleftrightarrow> (s, ms) \<le> (s', ms')"
  using rfc3339_less [OF assms(4,5,1,2,6,3)] by (auto simp: linorder_not_less [symmetric])

theorem timestamps_compare_as_strings_witness:
  "rfc3339 999999999 999 = ''2001-09-09T01:46:39.999Z'' \<and> rfc3339 1000000000 0 = ''2001-09-09T01:46:40.000Z''
   \<and> rfc3339 999999999 999 \<le> rfc3339 1000000000 0"
proof (intro conjI)
  show "rfc3339 999999999 999 = ''2001-09-09T01:46:39.999Z''" by code_simp
  show "rfc3339 1000000000 0 = ''2001-09-09T01:46:40.000Z''" by code_simp
  show "rfc3339 999999999 999 \<le> rfc3339 1000000000 0"
    using timestamps_compare_as_strings [of 999999999 999 1000000000 0] by simp
qed

end
