(* ===== verification/Bootstrap.thy ===== *)
theory Bootstrap
  imports Codec "HOL-Library.Word"
begin

text \<open>
  \<^verbatim>\<open>apps/app-bootstrap/src/common.rs\<close>: Base64 on 32-bit words, the retry of a call, and the client of the
  Kubernetes API for Secrets and ConfigMaps. The API server is a parameter (\<open>kb_http\<close>): a request and the
  state of the world give an answer, or a transport error, and a new state. \<^verbatim>\<open>serde_json\<close> is a
  parameter. Trace spans, sleeps and log lines are left out.
\<close>

unbundle bit_operations_syntax

section \<open>Base64\<close>

definition T :: string where
  "T = ''ABCDEFGHIJKLMNOPQRSTUVWXYZabcdefghijklmnopqrstuvwxyz0123456789+/''"

function chunks :: "nat \<Rightarrow> 'a list \<Rightarrow> 'a list list" where
  "chunks n xs = (if xs = [] \<or> n = 0 then [] else take n xs # chunks n (drop n xs))"
  by pat_completeness auto
termination by (relation "measure (\<lambda>(n, xs). length xs)") auto

declare chunks.simps [simp del]

definition byte_at :: "string \<Rightarrow> nat \<Rightarrow> 32 word" where
  "byte_at c i = (if i < length c then word_of_nat (of_char (c ! i)) else 0)"

definition b64_chunk :: "string \<Rightarrow> string" where
  "b64_chunk c =
     (let n = push_bit 16 (byte_at c 0) OR push_bit 8 (byte_at c 1) OR byte_at c 2
      in map (\<lambda>i. if i \<le> length c then T ! unat (drop_bit (18 - 6 * i) n AND 63) else CHR ''='') [0..<4])"

definition b64 :: "string \<Rightarrow> string" where
  "b64 input = concat (map b64_chunk (chunks 3 input))"

fun position :: "'a \<Rightarrow> 'a list \<Rightarrow> nat option" where
  "position x [] = None"
| "position x (y # ys) = (if x = y then Some 0 else map_option Suc (position x ys))"

definition unb64_step :: "32 word \<times> nat \<times> string \<Rightarrow> nat \<Rightarrow> 32 word \<times> nat \<times> string" where
  "unb64_step = (\<lambda>(acc, bits, out) v.
     let acc = push_bit 6 acc OR word_of_nat v; bits = bits + 6
     in if bits \<ge> 8
        then let bits = bits - 8 in (acc AND (push_bit bits 1 - 1), bits, out @ [char_of (unat (drop_bit bits acc))])
        else (acc, bits, out))"

fun unb64_loop :: "32 word \<times> nat \<times> string \<Rightarrow> string \<Rightarrow> string + string" where
  "unb64_loop (acc, bits, out) [] = Inr out"
| "unb64_loop st (c # cs) = (case position c T of None \<Rightarrow> Inl ''invalid base64'' | Some v \<Rightarrow> unb64_loop (unb64_step st v) cs)"

definition unb64 :: "string \<Rightarrow> string + string" where
  "unb64 input = unb64_loop (0, 0, []) (filter (\<lambda>c. c \<noteq> CHR ''='') input)"

section \<open>Secrets of the program itself\<close>

definition secret :: "(string \<Rightarrow> string option) \<Rightarrow> (string \<Rightarrow> string + string) \<Rightarrow> string \<Rightarrow> string + string" where
  "secret vars read name =
     (case vars (name @ ''_FILE'') of
        Some path \<Rightarrow> (case read path of Inl e \<Rightarrow> Inl e | Inr t \<Rightarrow> Inr (trim_end_matches (\<lambda>c. c = newline \<or> c = carriage) t))
      | None \<Rightarrow> (case vars name of Some v \<Rightarrow> Inr v | None \<Rightarrow> Inl (''set '' @ name @ ''_FILE or '' @ name)))"

definition hex_byte :: "char \<Rightarrow> string" where
  "hex_byte c = map (\<lambda>n. char_of (if n < 10 then 48 + n else 87 + n)) [of_char c div 16, of_char c mod (16 :: nat)]"

text \<open>\<^verbatim>\<open>random_password\<close>, of the 24 bytes that were read.\<close>

definition random_password :: "string \<Rightarrow> string" where
  "random_password buf = ''A!'' @ concat (map hex_byte buf)"

section \<open>Retries\<close>

fun tries :: "nat \<Rightarrow> ('s, 'e, 'a) sem \<Rightarrow> ('s, 'e, 'a) sem" where
  "tries 0 f = f"
| "tries (Suc n) f = try_sem f (\<lambda>_. tries n f) ret"

definition retry :: "nat \<Rightarrow> ('s, 'e, 'a) sem \<Rightarrow> ('s, 'e, 'a) sem" where
  "retry attempts f = tries (attempts - 1) f"

section \<open>The Kubernetes API\<close>

record kreq =
  kr_method :: string
  kr_url :: string
  kr_token :: string
  kr_type :: "string option"
  kr_body :: "json option"

record 'w kube_env =
  kb_http :: "kreq \<Rightarrow> 'w \<Rightarrow> (string + nat \<times> string) \<times> 'w"
  kb_json :: "string \<Rightarrow> string + json"
  kb_status :: "nat \<Rightarrow> string"

record kube =
  ku_api :: string
  ku_token :: string
  ku_namespace :: string

type_synonym ('w, 'a) kbm = "('w, string, 'a) sem"

definition kube_send :: "'w kube_env \<Rightarrow> kube \<Rightarrow> string \<Rightarrow> string \<Rightarrow> string option \<Rightarrow> json option \<Rightarrow> ('w, nat \<times> string) kbm" where
  "kube_send env ku m url ct body =
     kb_http env \<lparr>kr_method = m, kr_url = url, kr_token = ku_token ku, kr_type = ct, kr_body = body\<rparr>"

definition is_success :: "nat \<Rightarrow> bool" where "is_success status \<longleftrightarrow> 200 \<le> status \<and> status < 300"

definition ok :: "'w kube_env \<Rightarrow> nat \<times> string \<Rightarrow> string \<Rightarrow> ('w, string) kbm" where
  "ok env r what =
     (if is_success (fst r) then ret (snd r)
      else throw (what @ '': HTTP '' @ kb_status env (fst r) @ '': '' @ take 300 (snd r)))"

definition decode :: "'w kube_env \<Rightarrow> string \<Rightarrow> ('w, json) kbm" where
  "decode env body = lift_result (kb_json env body)"

definition objects_url :: "kube \<Rightarrow> string \<Rightarrow> string" where
  "objects_url ku plural = ku_api ku @ ''/api/v1/namespaces/'' @ ku_namespace ku @ ''/'' @ plural"

definition object_url :: "kube \<Rightarrow> string \<Rightarrow> string \<Rightarrow> string" where
  "object_url ku plural name = objects_url ku plural @ ''/'' @ name"

text \<open>\<^verbatim>\<open>String::from_utf8\<close>: well-formed UTF-8.\<close>

definition cont :: "nat \<Rightarrow> bool" where "cont b \<longleftrightarrow> 128 \<le> b \<and> b \<le> 191"

fun utf8 :: "nat list \<Rightarrow> bool" where
  "utf8 [] = True"
| "utf8 (a # r) =
     (if a < 128 then utf8 r
      else if 194 \<le> a \<and> a \<le> 223 then (case r of b # r \<Rightarrow> cont b \<and> utf8 r | _ \<Rightarrow> False)
      else if 224 \<le> a \<and> a \<le> 239
      then (case r of b # c # r \<Rightarrow> cont b \<and> (a = 224 \<longrightarrow> 160 \<le> b) \<and> (a = 237 \<longrightarrow> b \<le> 159) \<and> cont c \<and> utf8 r | _ \<Rightarrow> False)
      else if 240 \<le> a \<and> a \<le> 244
      then (case r of b # c # d # r \<Rightarrow> cont b \<and> (a = 240 \<longrightarrow> 144 \<le> b) \<and> (a = 244 \<longrightarrow> b \<le> 143) \<and> cont c \<and> cont d \<and> utf8 r | _ \<Rightarrow> False)
      else False)"

definition from_utf8 :: "string \<Rightarrow> string + string" where
  "from_utf8 s = (if utf8 (map of_char s) then Inr s else Inl ''invalid utf-8 sequence'')"

definition get_secret :: "'w kube_env \<Rightarrow> kube \<Rightarrow> string \<Rightarrow> ('w, nat \<times> string) kbm" where
  "get_secret env ku name = kube_send env ku ''GET'' (object_url ku ''secrets'' name) None None"

definition secret_value :: "'w kube_env \<Rightarrow> kube \<Rightarrow> string \<Rightarrow> string \<Rightarrow> ('w, string option) kbm" where
  "secret_value env ku name key =
     andthen (get_secret env ku name)
     (\<lambda>r. if fst r = 404 then ret None
          else andthen (ok env r ''get secret'')
               (\<lambda>body. andthen (decode env body)
               (\<lambda>cur. case as_str (jget (jget cur ''data'') key) of
                  Some v \<Rightarrow> andthen (lift_result (unb64 v)) (\<lambda>b. andthen (lift_result (from_utf8 b)) (\<lambda>t. ret (Some t)))
                | None \<Rightarrow> ret None)))"

definition config_map_keys :: "'w kube_env \<Rightarrow> kube \<Rightarrow> string \<Rightarrow> ('w, string list) kbm" where
  "config_map_keys env ku name =
     andthen (kube_send env ku ''GET'' (object_url ku ''configmaps'' name) None None)
     (\<lambda>r. if fst r = 404 then ret []
          else andthen (ok env r ''get configmap'')
               (\<lambda>body. andthen (decode env body)
               (\<lambda>cur. ret (case jget cur ''data'' of JObj ms \<Rightarrow> map fst ms | _ \<Rightarrow> []))))"

definition merge_patch :: "string option" where "merge_patch = Some ''application/merge-patch+json''"

definition config_map_set :: "'w kube_env \<Rightarrow> kube \<Rightarrow> string \<Rightarrow> string \<Rightarrow> string \<Rightarrow> ('w, unit) kbm" where
  "config_map_set env ku name key val =
     (let url = objects_url ku ''configmaps'';
          body = JObj [(''apiVersion'', JStr ''v1''), (''kind'', JStr ''ConfigMap''), (''metadata'', JObj [(''name'', JStr name)]),
                       (''data'', JObj [(key, JStr val)])]
      in andthen (kube_send env ku ''PATCH'' (object_url ku ''configmaps'' name) merge_patch (Some body))
         (\<lambda>r. if fst r = 404
              then andthen (kube_send env ku ''POST'' url (Some ''application/json'') (Some body))
                   (\<lambda>r. andthen (ok env r ''create configmap'') (\<lambda>_. ret ()))
              else andthen (ok env r ''patch configmap'') (\<lambda>_. ret ())))"

text \<open>A \<^verbatim>\<open>BTreeMap\<close> collected from pairs: by key, the last of equal keys.\<close>

definition btree :: "(string \<times> 'v) list \<Rightarrow> (string \<times> 'v) list" where
  "btree kvs = map (\<lambda>k. (k, the (map_of (rev kvs) k))) (sort (remdups (map fst kvs)))"

definition secret_body :: "string \<Rightarrow> (string \<times> string) list \<Rightarrow> json" where
  "secret_body name data =
     JObj [(''apiVersion'', JStr ''v1''), (''kind'', JStr ''Secret''), (''metadata'', JObj [(''name'', JStr name)]), (''type'', JStr ''Opaque''),
           (''stringData'', JObj (map (\<lambda>(k, v). (k, JStr v)) (btree data)))]"

definition post_secret :: "'w kube_env \<Rightarrow> kube \<Rightarrow> string \<Rightarrow> (string \<times> string) list \<Rightarrow> ('w, nat \<times> string) kbm" where
  "post_secret env ku name data =
     kube_send env ku ''POST'' (objects_url ku ''secrets'') (Some ''application/json'') (Some (secret_body name data))"

definition patch_secret :: "'w kube_env \<Rightarrow> kube \<Rightarrow> string \<Rightarrow> (string \<times> string) list \<Rightarrow> ('w, nat \<times> string) kbm" where
  "patch_secret env ku name data = kube_send env ku ''PATCH'' (object_url ku ''secrets'' name) merge_patch (Some (secret_body name data))"

definition ensure_secret :: "'w kube_env \<Rightarrow> kube \<Rightarrow> string \<Rightarrow> (string \<times> string) list \<Rightarrow> ('w, bool) kbm" where
  "ensure_secret env ku name data =
     andthen (get_secret env ku name)
     (\<lambda>r. if fst r = 404
          then andthen (post_secret env ku name data)
               (\<lambda>r. andthen (ok env r ''create secret'') (\<lambda>_. ret True))
          else andthen (ok env r ''get secret'')
               (\<lambda>body. andthen (decode env body)
               (\<lambda>cur. if list_all (\<lambda>(k, v). as_str (jget (jget cur ''data'') k) = Some (b64 v)) data then ret False
                      else andthen (patch_secret env ku name data)
                           (\<lambda>r. andthen (ok env r ''patch secret'') (\<lambda>_. ret True)))))"

section \<open>Decoding an encoding\<close>

lemma position_nth: "distinct ys \<Longrightarrow> i < length ys \<Longrightarrow> position (ys ! i) ys = Some i"
  by (induction ys arbitrary: i) (auto simp: nth_Cons split: nat.split)

lemma T_facts: "length T = 64" "distinct T" "CHR ''='' \<notin> set T"
  by code_simp+

definition sextet :: "32 word \<Rightarrow> nat \<Rightarrow> nat" where
  "sextet n i = unat (drop_bit (18 - 6 * i) n AND 63)"

lemma sextet_less: "sextet n i < 64"
proof -
  have "drop_bit (18 - 6 * i) n AND 63 \<le> 63" by (rule word_and_le1)
  then show ?thesis unfolding sextet_def by (simp add: word_le_nat_alt)
qed

lemma position_sextet [simp]: "position (T ! sextet n i) T = Some (sextet n i)" "T ! sextet n i \<noteq> CHR ''=''"
  using sextet_less [of n i] T_facts by (auto intro!: position_nth) (metis nth_mem)

lemma of_char_bit: "bit (of_char a :: nat) i \<Longrightarrow> i < 8"
proof -
  have "take_bit 8 (of_char a :: nat) = of_char a" by (simp add: take_bit_eq_mod)
  then show "bit (of_char a :: nat) i \<Longrightarrow> i < 8" by (metis bit_take_bit_iff)
qed

lemma char_of_unat:
  assumes "\<And>i. i < 8 \<Longrightarrow> bit w i \<longleftrightarrow> bit (of_char a :: nat) i"
  shows "char_of (unat (w :: 32 word)) = a"
proof -
  have "take_bit 8 (unat w) = of_char a"
    by (rule bit_eqI) (use assms of_char_bit in \<open>auto simp: bit_take_bit_iff bit_unsigned_iff\<close>)
  then show ?thesis by (simp add: char_of_eq_iff)
qed

lemma masks: "(63 :: 32 word) = mask 6" "(15 :: 32 word) = mask 4" "(3 :: 32 word) = mask 2"
  by (simp_all add: mask_eq_exp_minus_1)

lemma bit_char_word: "bit (word_of_nat (of_char a) :: 32 word) i \<longleftrightarrow> i < 8 \<and> bit (of_char a :: nat) i"
proof -
  have "(word_of_nat (of_char a) :: 32 word) = word_of_int (int (of_char a))" by simp
  then have "bit (word_of_nat (of_char a) :: 32 word) i \<longleftrightarrow> i < 32 \<and> bit (int (of_char a)) i"
    by (simp add: bit_word_of_int_iff del: of_nat_of_char of_int_of_nat_eq)
  then show ?thesis using of_char_bit by (auto simp: bit_of_nat_iff_bit simp del: of_nat_of_char)
qed

lemma word_sextet: "word_of_nat (sextet n i) = drop_bit (18 - 6 * i) n AND (mask 6 :: 32 word)"
  by (simp add: sextet_def masks(1) [symmetric])

lemma eight: "i < (8::nat) \<Longrightarrow> i = 0 \<or> i = 1 \<or> i = 2 \<or> i = 3 \<or> i = 4 \<or> i = 5 \<or> i = 6 \<or> i = 7" by arith

lemma bit_group:
  fixes n :: "32 word"
  assumes n: "n = push_bit 16 (word_of_nat (of_char a)) OR push_bit 8 (word_of_nat (of_char b)) OR word_of_nat (of_char c)"
  shows "bit n j \<longleftrightarrow> (16 \<le> j \<and> j < 24 \<and> bit (of_char a :: nat) (j - 16)) \<or> (8 \<le> j \<and> j < 16 \<and> bit (of_char b :: nat) (j - 8))
     \<or> (j < 8 \<and> bit (of_char c :: nat) j)"
  unfolding n by (auto simp: bit_or_iff bit_push_bit_iff bit_char_word)

lemma bit_sextet: "bit (word_of_nat (sextet n i) :: 32 word) j \<longleftrightarrow> j < 6 \<and> bit n (18 - 6 * i + j)"
  unfolding word_sextet by (auto simp: bit_and_iff bit_drop_bit_eq bit_mask_iff)

text \<open>The bytes of a group come out again.\<close>

lemma group_bits:
  fixes n :: "32 word"
  assumes n: "n = push_bit 16 (word_of_nat (of_char a)) OR push_bit 8 (word_of_nat (of_char b)) OR word_of_nat (of_char c)"
  defines "v \<equiv> \<lambda>i. word_of_nat (sextet n i) :: 32 word"
  shows "char_of (unat (drop_bit 4 (push_bit 6 (v 0) OR v 1))) = a"
    and "char_of (unat (drop_bit 2 (push_bit 6 ((push_bit 6 (v 0) OR v 1) AND mask 4) OR v 2))) = b"
    and "char_of (unat (push_bit 6 ((push_bit 6 ((push_bit 6 (v 0) OR v 1) AND mask 4) OR v 2) AND mask 2) OR v 3)) = c"
  unfolding v_def
  by (rule char_of_unat, drule eight,
      simp only: bit_or_iff bit_and_iff bit_push_bit_iff bit_drop_bit_eq bit_mask_iff o_apply bit_sextet bit_group [OF n],
      elim disjE; simp add: numeral_2_eq_2)+

lemma bits_mask: "push_bit k 1 - 1 = (mask k :: 32 word)"
  by (simp add: mask_eq_exp_minus_1 push_bit_eq_mult)

lemma unb64_steps:
  "unb64_step (acc, 0, out) v = (push_bit 6 acc OR word_of_nat v, 6, out)"
  "unb64_step (acc, 6, out) v = ((push_bit 6 acc OR word_of_nat v) AND mask 4, 4, out @ [char_of (unat (drop_bit 4 (push_bit 6 acc OR word_of_nat v)))])"
  "unb64_step (acc, 4, out) v = ((push_bit 6 acc OR word_of_nat v) AND mask 2, 2, out @ [char_of (unat (drop_bit 2 (push_bit 6 acc OR word_of_nat v)))])"
  "unb64_step (acc, 2, out) v = (0, 0, out @ [char_of (unat (push_bit 6 acc OR word_of_nat v))])"
  by (simp_all add: unb64_step_def bits_mask del: push_bit_of_1)

definition group_word :: "char \<Rightarrow> char \<Rightarrow> char \<Rightarrow> 32 word" where
  "group_word a b c = push_bit 16 (word_of_nat (of_char a)) OR push_bit 8 (word_of_nat (of_char b)) OR word_of_nat (of_char c)"

lemma upt_4: "[0..<4] = [0, 1, 2, 3 :: nat]"
  by (simp add: upt_rec)

lemma b64_chunks:
  defines "z \<equiv> CHR 0x00"
  shows "b64_chunk [a, b, c] = map (\<lambda>i. T ! sextet (group_word a b c) i) [0, 1, 2, 3]"
    and "b64_chunk [a, b] = map (\<lambda>i. T ! sextet (group_word a b z) i) [0, 1, 2] @ ''=''"
    and "b64_chunk [a] = map (\<lambda>i. T ! sextet (group_word a z z) i) [0, 1] @ ''==''"
  by (simp_all add: b64_chunk_def upt_4 byte_at_def group_word_def sextet_def z_def Let_def)

lemma unb64_groups:
  "unb64_loop (0, 0, out) (map (\<lambda>i. T ! sextet (group_word a b c) i) [0, 1, 2, 3] @ rest) = unb64_loop (0, 0, out @ [a, b, c]) rest"
  "unb64_loop (0, 0, out) (map (\<lambda>i. T ! sextet (group_word a b c) i) [0, 1, 2]) = Inr (out @ [a, b])"
  "unb64_loop (0, 0, out) (map (\<lambda>i. T ! sextet (group_word a b c) i) [0, 1]) = Inr (out @ [a])"
  using group_bits [of "group_word a b c" a b c, OF group_word_def] by (simp_all add: unb64_steps)

lemma filter_T: "filter (\<lambda>c. c \<noteq> CHR ''='') (map (\<lambda>i. T ! sextet n i) is) = map (\<lambda>i. T ! sextet n i) is"
  by (induction "is") simp_all

lemma unb64_b64: "unb64_loop (0, 0, out) (filter (\<lambda>c. c \<noteq> CHR ''='') (b64 xs)) = Inr (out @ xs)"
proof (induction "length xs" arbitrary: xs out rule: less_induct)
  case less
  consider "xs = []" | a where "xs = [a]" | a b where "xs = [a, b]" | a b c r where "xs = a # b # c # r"
    by (metis list.exhaust)
  then show ?case
  proof cases
    case 1
    then show ?thesis by (simp add: b64_def chunks.simps)
  next
    case (2 a)
    then have "b64 xs = b64_chunk [a]" by (simp add: b64_def chunks.simps)
    then show ?thesis unfolding 2 by (simp only: b64_chunks filter_append filter_T) (simp add: unb64_groups del: list.map One_nat_def)
  next
    case (3 a b)
    then have "b64 xs = b64_chunk [a, b]" by (simp add: b64_def chunks.simps)
    then show ?thesis unfolding 3 by (simp only: b64_chunks filter_append filter_T) (simp add: unb64_groups del: list.map One_nat_def)
  next
    case (4 a b c r)
    have "b64 xs = b64_chunk [a, b, c] @ b64 r" unfolding b64_def 4 by (subst chunks.simps) (simp add: numeral_3_eq_3)
    with less [of r "out @ [a, b, c]"] 4 show ?thesis
      by (simp only: filter_append b64_chunks filter_T unb64_groups) simp
  qed
qed

text \<open>Base64 reads back what it writes: decoding the encoding of any bytes gives these bytes, with the
  padding of one and of two bytes at the end, on 32-bit words.\<close>

lemma base64_roundtrip: "unb64 (b64 xs) = Inr xs"
  using unb64_b64 [of "[]" xs] by (simp add: unb64_def)

section \<open>Secrets\<close>

text \<open>What the Kubernetes API promises for Secrets. \<open>store\<close> is what is stored under a name, by key. A read that
  succeeds changes nothing and shows the values in Base64, and one that is answered 404 finds nothing;
  a create that succeeds stores the string data, a merge patch that succeeds adds it to what is there.\<close>

definition secrets_api :: "'w kube_env \<Rightarrow> kube \<Rightarrow> ('w \<Rightarrow> string \<Rightarrow> (string \<rightharpoonup> string) option) \<Rightarrow> bool" where
  "secrets_api env ku store \<longleftrightarrow>
     (\<forall>w w' name st body. get_secret env ku name w = (Inr (st, body), w') \<longrightarrow>
        store w' = store w \<and> (st = 404 \<longrightarrow> store w name = None)
        \<and> (is_success st \<longrightarrow> (\<exists>d cur. store w name = Some d \<and> kb_json env body = Inr cur
              \<and> (\<forall>k. as_str (jget (jget cur ''data'') k) = map_option b64 (d k)))))
   \<and> (\<forall>w w' name data st body. post_secret env ku name data w = (Inr (st, body), w') \<longrightarrow>
        is_success st \<longrightarrow> store w' = (store w)(name \<mapsto> map_of (btree data)))
   \<and> (\<forall>w w' name data d st body. patch_secret env ku name data w = (Inr (st, body), w') \<longrightarrow>
        is_success st \<longrightarrow> store w name = Some d \<longrightarrow> store w' = (store w)(name \<mapsto> d ++ map_of (btree data)))"

lemma b64_inject: "b64 x = b64 y \<Longrightarrow> x = y"
  using unb64_b64 [of "[]" x] unb64_b64 [of "[]" y] by (metis append_Nil sum.inject(2))

lemma map_of_btree: "distinct (map fst data) \<Longrightarrow> map_of (btree data) = map_of data"
proof (rule ext)
  fix k
  assume d: "distinct (map fst data)"
  have "map_of (rev data) = map_of data" using d by (simp add: map_of_inject_set rev_map [symmetric])
  then have "btree data = map (\<lambda>k. (k, the (map_of data k))) (sort (remdups (map fst data)))" by (simp add: btree_def)
  then have "map_of (btree data) k = (if k \<in> fst ` set data then Some (the (map_of data k)) else None)"
    by (simp add: map_of_map_restrict restrict_map_def)
  moreover have "k \<in> fst ` set data \<longleftrightarrow> map_of data k \<noteq> None" by (simp add: map_of_eq_None_iff)
  ultimately show "map_of (btree data) k = map_of data k" by (cases "map_of data k") simp_all
qed

lemma ensure_secret_stores:
  assumes api: "secrets_api env ku store" and "distinct (map fst data)"
    and run: "ensure_secret env ku name data w = (Inr changed, w')"
  shows "\<exists>d'. store w' = (store w)(name := Some d') \<and> map_of data \<subseteq>\<^sub>m d'
       \<and> (\<forall>d k. store w name = Some d \<longrightarrow> k \<notin> fst ` set data \<longrightarrow> d' k = d k) \<and> (changed \<or> store w' = store w)"
proof -
  note [simp] = map_of_btree [OF assms(2)]
  obtain st body w1 where get: "get_secret env ku name w = (Inr (st, body), w1)"
    using run unfolding ensure_secret_def by (auto simp: andthen_Inr_iff)
  have w1: "store w1 = store w" and none: "st = 404 \<Longrightarrow> store w name = None" using api get unfolding secrets_api_def by blast+
  show ?thesis
  proof (cases "st = 404")
    case True
    with run get obtain st' body' where post: "post_secret env ku name data w1 = (Inr (st', body'), w')"
      and "is_success st'" "changed" by (auto simp: ensure_secret_def andthen_Inr_iff ok_def sem_simps split: if_splits)
    with api have "store w' = (store w1)(name \<mapsto> map_of (btree data))" unfolding secrets_api_def by blast
    with w1 none [OF True] \<open>changed\<close> show ?thesis by auto
  next
    case False
    with run get have succ: "is_success st" by (auto simp: ensure_secret_def andthen_Inr_iff ok_def sem_simps split: if_splits)
    then obtain d cur where d: "store w name = Some d" and cur: "kb_json env body = Inr cur"
      and data: "\<And>k. as_str (jget (jget cur ''data'') k) = map_option b64 (d k)"
      using api [unfolded secrets_api_def, THEN conjunct1, rule_format, OF get] by auto
    show ?thesis
    proof (cases "list_all (\<lambda>(k, v). as_str (jget (jget cur ''data'') k) = Some (b64 v)) data")
      case True
      with run get False succ cur have "w' = w1" "\<not> changed"
        by (auto simp: ensure_secret_def andthen_Inr_iff ok_def decode_def lift_result_def sem_simps split: if_splits)
      moreover have "d k = Some v" if "map_of data k = Some v" for k v
      proof -
        have "as_str (jget (jget cur ''data'') k) = Some (b64 v)" using map_of_SomeD [OF that] True by (fastforce simp: list_all_iff)
        with data [of k] show ?thesis by (cases "d k") (auto dest: b64_inject)
      qed
      then have "map_of data \<subseteq>\<^sub>m d" by (auto simp: map_le_def)
      ultimately show ?thesis using d w1 by (intro exI [of _ d]) auto
    next
      case changes: False
      with run get False succ cur obtain st' body' where patch: "patch_secret env ku name data w1 = (Inr (st', body'), w')"
        and "is_success st'" "changed" by (auto simp: ensure_secret_def andthen_Inr_iff ok_def decode_def lift_result_def sem_simps split: if_splits)
      with api d w1 have "store w' = (store w1)(name \<mapsto> d ++ map_of (btree data))" unfolding secrets_api_def by (metis (no_types))
      with w1 d \<open>changed\<close> show ?thesis by (auto simp: map_add_dom_app_simps dom_map_of_conv_image_fst)
    qed
  qed
qed

text \<open>Property C20: a secret that was ensured reads back. When the API keeps its promises, after \<^verbatim>\<open>ensure_secret\<close>
  returns Ok every value it was given is what \<^verbatim>\<open>secret_value\<close> returns for its key, through the Base64 of the
  API; other Secrets are untouched, and when it reports no change nothing has changed.\<close>

theorem secret_reads_back:
  assumes "secrets_api env ku store" and "distinct (map fst data)" and "(k, v) \<in> set data" and "utf8 (map of_char v)"
    and "ensure_secret env ku name data w = (Inr changed, w1)" and "secret_value env ku name k w1 = (Inr x, w2)"
  shows "x = Some v \<and> (\<forall>n. n \<noteq> name \<longrightarrow> store w1 n = store w n) \<and> (changed \<or> store w1 = store w)"
proof -
  obtain d where d: "store w1 = (store w)(name := Some d)" "map_of data \<subseteq>\<^sub>m d" and c: "changed \<or> store w1 = store w"
    using ensure_secret_stores [OF assms(1,2,5)] by blast
  have dk: "d k = Some v" using d(2) assms(2,3) by (metis domI map_le_def map_of_is_SomeI)
  obtain st body w' where get: "get_secret env ku name w1 = (Inr (st, body), w')"
    using assms(6) unfolding secret_value_def by (auto simp: andthen_Inr_iff)
  note shown = assms(1) [unfolded secrets_api_def, THEN conjunct1, rule_format, OF get]
  have st: "st \<noteq> 404" using shown d(1) by auto
  with assms(6) get have "is_success st" by (auto simp: secret_value_def andthen_Inr_iff ok_def sem_simps split: if_splits)
  with shown d(1) obtain cur where "kb_json env body = Inr cur" and "as_str (jget (jget cur ''data'') k) = Some (b64 v)"
    using dk by auto
  moreover have "unb64 (b64 v) = Inr v" using unb64_b64 [of "[]" v] by (simp add: unb64_def)
  ultimately have "x = Some v"
    using assms(4,6) get st \<open>is_success st\<close> by (simp add: secret_value_def andthen_def ok_def decode_def lift_result_def sem_simps from_utf8_def)
  with c d(1) show ?thesis by simp
qed

text \<open>\<^verbatim>\<open>ensure_secret\<close> is meant to make the Secret hold exactly the data; keys that are there already stay.\<close>

lemma other_keys_stay:
  assumes "secrets_api env ku store" and "distinct (map fst data)" and "ensure_secret env ku name data w = (Inr changed, w1)"
    and "store w name = Some d" and "d k = Some v" and "k \<notin> fst ` set data"
  shows "\<exists>d'. store w1 name = Some d' \<and> d' k = Some v"
  using ensure_secret_stores [OF assms(1-3)] assms(4-6) by fastforce

section \<open>A sample API\<close>

type_synonym secrets = "(string \<times> (string \<times> string) list) list"

definition sample_kube :: kube where
  "sample_kube = \<lparr>ku_api = ''h'', ku_token = ''t'', ku_namespace = ''n''\<rparr>"

definition string_data :: "json \<Rightarrow> (string \<times> string) list" where
  "string_data body = (case jget body ''stringData'' of JObj ms \<Rightarrow> map (\<lambda>(k, v). (k, case v of JStr t \<Rightarrow> t | _ \<Rightarrow> [])) ms | _ \<Rightarrow> [])"

definition sample_secrets :: "kreq \<Rightarrow> secrets \<Rightarrow> (string + nat \<times> string) \<times> secrets" where
  "sample_secrets rq w =
     (let place = strip_prefix (objects_url sample_kube ''secrets'' @ ''/'') (kr_url rq);
          body = (case kr_body rq of Some b \<Rightarrow> b | None \<Rightarrow> JNull)
      in if kr_method rq = ''POST''
         then (case as_str (jget (jget body ''metadata'') ''name'') of
                 Some n \<Rightarrow> if map_of w n = None then (Inr (201, []), (n, string_data body) # w) else (Inr (409, []), w)
               | None \<Rightarrow> (Inr (400, []), w))
         else case Option.bind place (map_of w) of
                None \<Rightarrow> (Inr (404, []), w)
              | Some d \<Rightarrow> if kr_method rq = ''GET'' then (Inr (200, enc_lists (map (\<lambda>(k, v). [k, v]) d)), w)
                         else (Inr (200, []), (the place, string_data body @ d) # w))"

definition sample_kube_env :: "secrets kube_env" where
  "sample_kube_env = \<lparr>kb_http = sample_secrets,
     kb_json = (\<lambda>s. Inr (JObj [(''data'', JObj (map (\<lambda>kv. (kv ! 0, JStr (b64 (kv ! 1)))) (dec_lists s [] [])))])),
     kb_status = nat_str\<rparr>"

definition sample_store :: "secrets \<Rightarrow> string \<Rightarrow> (string \<rightharpoonup> string) option" where
  "sample_store w n = map_option map_of (map_of w n)"

lemma string_data_body: "string_data (secret_body name data) = btree data"
  by (simp add: string_data_def secret_body_def comp_def case_prod_unfold)

lemma shown_data:
  "as_str (jget (JObj (map (\<lambda>kv. (kv ! 0, JStr (b64 (kv ! 1)))) (map (\<lambda>(k, v). [k, v]) d))) k) = map_option b64 (map_of d k)"
  by (induction d) auto

lemma sample_api: "secrets_api sample_kube_env sample_kube sample_store"
proof -
  have url: "strip_prefix (objects_url sample_kube ''secrets'' @ ''/'') (object_url sample_kube ''secrets'' name) = Some name" for name
    unfolding object_url_def by (metis append.assoc strip_prefix_append)
  have name: "as_str (jget (jget (secret_body name data) ''metadata'') ''name'') = Some name" for name data
    by (simp add: secret_body_def)
  have get: "get_secret sample_kube_env sample_kube name w = (case map_of w name of None \<Rightarrow> (Inr (404, []), w)
      | Some d \<Rightarrow> (Inr (200, enc_lists (map (\<lambda>(k, v). [k, v]) d)), w))" for name w
    by (simp add: get_secret_def kube_send_def sample_kube_env_def sample_secrets_def url split: option.split)
  have post: "post_secret sample_kube_env sample_kube name data w = (if map_of w name = None then (Inr (201, []), (name, btree data) # w) else (Inr (409, []), w))" for name data w
    by (simp add: post_secret_def kube_send_def sample_kube_env_def sample_secrets_def name string_data_body)
  have patch: "patch_secret sample_kube_env sample_kube name data w = (case map_of w name of None \<Rightarrow> (Inr (404, []), w)
      | Some d \<Rightarrow> (Inr (200, []), (name, btree data @ d) # w))" for name data w
    by (simp add: patch_secret_def kube_send_def sample_kube_env_def sample_secrets_def url string_data_body split: option.split)
  have read: "sample_store w' = sample_store w \<and> (st = 404 \<longrightarrow> sample_store w name = None)
      \<and> (is_success st \<longrightarrow> (\<exists>d cur. sample_store w name = Some d \<and> kb_json sample_kube_env body = Inr cur
            \<and> (\<forall>k. as_str (jget (jget cur ''data'') k) = map_option b64 (d k))))"
    if "get_secret sample_kube_env sample_kube name w = (Inr (st, body), w')" for w w' name st body
  proof (cases "map_of w name")
    case None
    with that show ?thesis by (simp add: get sample_store_def is_success_def)
  next
    case (Some d)
    with that have "body = enc_lists (map (\<lambda>(k, v). [k, v]) d)" "st = 200" "w' = w" by (simp_all add: get)
    with Some show ?thesis using shown_data [of d] by (simp add: sample_store_def sample_kube_env_def dec_enc_lists del: map_map)
  qed
  show ?thesis unfolding secrets_api_def using read
    by (auto simp: post patch is_success_def sample_store_def fun_eq_iff map_add_def split: option.splits if_splits)
qed

definition sample_ensured :: "(string + bool) \<times> secrets" where
  "sample_ensured = ensure_secret sample_kube_env sample_kube ''s'' [(''user'', ''me''), (''pass'', ''x y'')] [(''s'', [(''user'', ''you''), (''old'', ''1'')])]"

theorem secret_reads_back_witness:
  "fst sample_ensured = Inr True \<and> fst (secret_value sample_kube_env sample_kube ''s'' ''pass'' (snd sample_ensured)) = Inr (Some ''x y'')"
proof
  show c: "fst sample_ensured = Inr True" by code_simp
  let ?r = "secret_value sample_kube_env sample_kube ''s'' ''pass'' (snd sample_ensured)"
  have "\<not> isl (fst ?r)" by code_simp
  then obtain x where x: "fst ?r = Inr x" by (cases "fst ?r") auto
  have "ensure_secret sample_kube_env sample_kube ''s'' [(''user'', ''me''), (''pass'', ''x y'')] [(''s'', [(''user'', ''you''), (''old'', ''1'')])]
      = (Inr True, snd sample_ensured)" using c unfolding sample_ensured_def by (metis prod.collapse)
  moreover have "?r = (Inr x, snd ?r)" using x by (metis prod.collapse)
  moreover have "utf8 (map of_char ''x y'')" by code_simp
  ultimately have "x = Some ''x y''"
    using secret_reads_back [OF sample_api, of "[(''user'', ''me''), (''pass'', ''x y'')]" "''pass''" "''x y''"] by simp
  with x show "fst ?r = Inr (Some ''x y'')" by simp
qed

end
