(* ===== verification/Digest.thy ===== *)
theory Digest
  imports Calendar Bootstrap "HOL-Library.Multiset"
begin

text \<open>
  \<^verbatim>\<open>apps/app-bootstrap/src/alert_digest.rs\<close>: which alerts go where in the daily digest, the mail made of them,
  and its delivery. Prometheus and Alertmanager are what a request for JSON returns. The mail server is a
  function that says which lines it sends after each piece it is sent; when no line is left the connection
  is closed. Trace spans, timeouts (an error of the connection) and log lines are left out.
\<close>

section \<open>Alerts\<close>

type_synonym labels = "(string \<times> string) list"

record alert =
  al_labels :: labels
  al_since :: "int option"
  al_summary :: string

record digest =
  dg_firing :: "alert list"
  dg_resolved :: "alert list"
  dg_silenced :: "(alert \<times> string) list"

definition label :: "alert \<Rightarrow> string \<Rightarrow> string" where
  "label a key = (case map_of (al_labels a) key of Some v \<Rightarrow> v | None \<Rightarrow> [])"

definition scope :: "alert \<Rightarrow> string" where
  "scope a =
     (let place = (if label a ''instance'' = [] then label a ''node'' else label a ''instance'');
          parts = filter (\<lambda>p. p \<noteq> []) [label a ''namespace'', place]
      in if parts = [] then ''-'' else join ''/'' parts)"

definition rank :: "alert \<Rightarrow> nat \<times> string \<times> string" where
  "rank a =
     (let severity = (if label a ''severity'' = ''critical'' then 0 else if label a ''severity'' = ''warning'' then 1
                      else if label a ''severity'' = ''info'' then 3 else 2)
      in (severity, label a ''alertname'', scope a))"

text \<open>\<^verbatim>\<open>-\<close> on \<^verbatim>\<open>i64\<close>, in a release build.\<close>

definition sub_i64 :: "int \<Rightarrow> int \<Rightarrow> int" where
  "sub_i64 a b = (a - b + 2 ^ 63) mod 2 ^ 64 - 2 ^ 63"

definition trim_end :: "string \<Rightarrow> string" where
  "trim_end = trim_end_matches is_space"

definition alert_line :: "int \<Rightarrow> alert \<Rightarrow> string" where
  "alert_line now a =
     (let severity = (if label a ''severity'' = [] then ''unknown'' else label a ''severity'');
          since = (case al_since a of None \<Rightarrow> ''since unknown''
                   | Some t \<Rightarrow> ''since '' @ fmt_time t @ '' ('' @ age (sub_i64 now t) @ '')'')
      in trim_end (severity @ '' '' @ label a ''alertname'' @ '' '' @ scope a @ '' '' @ since @ '' '' @ al_summary a))"

definition digest_is_empty :: "digest \<Rightarrow> bool" where
  "digest_is_empty d \<longleftrightarrow> dg_firing d = [] \<and> dg_resolved d = [] \<and> dg_silenced d = []"

definition sections :: "digest \<Rightarrow> nat \<Rightarrow> int \<Rightarrow> (string \<times> string list) list" where
  "sections d hours now =
     [(''Firing now ('' @ nat_str (length (dg_firing d)) @ '')'', map (alert_line now) (dg_firing d)),
      (''Fired in the last '' @ nat_str hours @ ''h, resolved ('' @ nat_str (length (dg_resolved d)) @ '')'', map (alert_line now) (dg_resolved d)),
      (''Silenced or inhibited ('' @ nat_str (length (dg_silenced d)) @ '')'',
         map (\<lambda>(a, why). alert_line now a @ '' ['' @ why @ '']'') (dg_silenced d))]"

definition subject :: "digest \<Rightarrow> int \<Rightarrow> string" where
  "subject d now =
     ''[alerts] '' @ nat_str (length (dg_firing d)) @ '' firing, '' @ nat_str (length (dg_resolved d)) @ '' resolved, ''
     @ nat_str (length (dg_silenced d)) @ '' silenced ('' @ take 10 (fmt_time now) @ '')''"

definition digest_text :: "digest \<Rightarrow> nat \<Rightarrow> int \<Rightarrow> string" where
  "digest_text d hours now =
     ''Alert digest, '' @ fmt_time now @ [newline]
     @ concat (map (\<lambda>(title, ls). [newline] @ title @ [newline]
         @ (if ls = [] then ''  none'' @ [newline] else concat (map (\<lambda>l. ''  '' @ l @ [newline]) ls))) (sections d hours now))"

definition escape :: "string \<Rightarrow> string" where
  "escape s = replace_char (CHR ''>'') ''&gt;'' (replace_char (CHR ''<'') ''&lt;'' (replace_char (CHR ''&'') ''&amp;'' s))"

definition html :: "digest \<Rightarrow> nat \<Rightarrow> int \<Rightarrow> string" where
  "html d hours now =
     ''<h2>Alert digest, '' @ fmt_time now @ ''</h2>'' @ [newline]
     @ concat (map (\<lambda>(title, ls). ''<h3>'' @ escape title @ ''</h3>'' @ [newline] @ ''<ul>'' @ [newline]
         @ (if ls = [] then ''<li>none</li>'' @ [newline] else [])
         @ concat (map (\<lambda>l. ''<li><code>'' @ escape l @ ''</code></li>'' @ [newline]) ls) @ ''</ul>'' @ [newline]) (sections d hours now))"

section \<open>Sorting alerts\<close>

definition items :: "json \<Rightarrow> json list" where
  "items v = (case as_array v of Some vs \<Rightarrow> vs | None \<Rightarrow> [])"

definition labels_of :: "json \<Rightarrow> labels" where
  "labels_of v = (case v of JObj ms \<Rightarrow> btree (List.map_filter (\<lambda>(k, v). map_option (Pair k) (as_str v)) ms) | _ \<Rightarrow> [])"

text \<open>\<^verbatim>\<open>str::parse::<f64>\<close> with the values that are no numbers, and \<^verbatim>\<open>as i64\<close>.\<close>

datatype sample = Finite f64 | Infinite bool | NaN

definition parse_sample :: "rounding \<Rightarrow> string \<Rightarrow> sample option" where
  "parse_sample fl s =
     (let (neg, body) = (case s of c # r \<Rightarrow> if c = CHR ''-'' then (True, r) else if c = CHR ''+'' then (False, r) else (False, s)
                                 | [] \<Rightarrow> (False, []));
          b = map to_lower body
      in if b = ''inf'' \<or> b = ''infinity'' then Some (Infinite neg)
         else if b = ''nan'' then Some NaN
         else map_option Finite (parse_f64 fl s))"

fun sample_i64 :: "sample \<Rightarrow> int" where
  "sample_i64 (Finite x) = cast_i64 (trunc x)"
| "sample_i64 (Infinite neg) = (if neg then - (2 ^ 63) else 2 ^ 63 - 1)"
| "sample_i64 NaN = 0"

definition jat :: "json \<Rightarrow> nat \<Rightarrow> json" where
  "jat v i = (case v of JArr vs \<Rightarrow> if i < length vs then vs ! i else JNull | _ \<Rightarrow> JNull)"

definition series :: "rounding \<Rightarrow> json \<Rightarrow> (labels \<times> sample) list" where
  "series fl v =
     List.map_filter (\<lambda>s. Option.bind (as_str (jat (jget s ''value'') 1))
         (\<lambda>t. map_option (Pair (AList.delete ''alertstate'' (labels_of (jget s ''metric'')))) (parse_sample fl t)))
       (items (jget (jget v ''data'') ''result''))"

definition rule_summaries :: "json \<Rightarrow> (string \<times> string) list" where
  "rule_summaries rules =
     btree (List.map_filter (\<lambda>r. case (as_str (jget r ''name''), as_str (jget (jget r ''annotations'') ''summary'')) of
              (Some name, Some summary) \<Rightarrow> if contains summary ''{{'' then None else Some (name, summary)
            | _ \<Rightarrow> None)
       (concat (map (\<lambda>g. items (jget g ''rules'')) (items (jget (jget rules ''data'') ''groups'')))))"

definition suppressed :: "json \<Rightarrow> (labels \<times> string) list" where
  "suppressed am =
     map (\<lambda>a. (labels_of (jget a ''labels''),
               if items (jget (jget a ''status'') ''silencedBy'') \<noteq> [] then ''silenced'' else ''inhibited''))
       (filter (\<lambda>a. as_str (jget (jget a ''status'') ''state'') = Some ''suppressed'') (items am))"

definition current :: "json \<Rightarrow> (labels \<times> string) list" where
  "current active =
     map (\<lambda>a. (labels_of (jget a ''labels''), case as_str (jget (jget a ''annotations'') ''summary'') of Some s \<Rightarrow> s | None \<Rightarrow> []))
       (filter (\<lambda>a. as_str (jget a ''state'') = Some ''firing'') (items (jget (jget active ''data'') ''alerts'')))"

definition ignored :: "string list \<Rightarrow> labels \<Rightarrow> bool" where
  "ignored ign l = (case map_of l ''alertname'' of Some n \<Rightarrow> n \<in> set ign | None \<Rightarrow> False)"

definition since_of :: "(labels \<times> sample) list \<Rightarrow> labels \<Rightarrow> int option" where
  "since_of started l = map_option (\<lambda>(_, t). sample_i64 t) (find (\<lambda>(s, _). s = l) started)"

text \<open>Alertmanager's alert holds all the labels of Prometheus's and more.\<close>

definition held_back :: "(labels \<times> string) list \<Rightarrow> labels \<Rightarrow> string option" where
  "held_back held l = map_option snd (find (\<lambda>(s, _). list_all (\<lambda>(k, v). map_of s k = Some v) l) held)"

definition add_current :: "(labels \<Rightarrow> int option) \<Rightarrow> string list \<Rightarrow> (labels \<times> string) list \<Rightarrow> labels \<times> string \<Rightarrow> digest \<Rightarrow> digest" where
  "add_current since ign held = (\<lambda>(l, summary) d.
     if ignored ign l then d
     else let a = \<lparr>al_labels = l, al_since = since l, al_summary = summary\<rparr>
          in case held_back held l of
               Some why \<Rightarrow> d\<lparr>dg_silenced := dg_silenced d @ [(a, why)]\<rparr>
             | None \<Rightarrow> d\<lparr>dg_firing := dg_firing d @ [a]\<rparr>)"

definition add_resolved :: "(labels \<Rightarrow> int option) \<Rightarrow> string list \<Rightarrow> (labels \<times> string) list \<Rightarrow> (string \<times> string) list \<Rightarrow> labels \<times> sample \<Rightarrow> digest \<Rightarrow> digest" where
  "add_resolved since ign cur summaries = (\<lambda>(l, _) d.
     if ignored ign l \<or> list_ex (\<lambda>(c, _). c = l) cur then d
     else let summary = (case Option.bind (map_of l ''alertname'') (map_of summaries) of Some s \<Rightarrow> s | None \<Rightarrow> [])
          in d\<lparr>dg_resolved := dg_resolved d @ [\<lparr>al_labels = l, al_since = since l, al_summary = summary\<rparr>]\<rparr>)"

definition classify_alerts :: "rounding \<Rightarrow> json \<Rightarrow> json \<Rightarrow> json \<Rightarrow> json \<Rightarrow> json \<Rightarrow> string list \<Rightarrow> digest" where
  "classify_alerts fl active fired started rules am ign =
     (let since = since_of (series fl started);
          cur = current active;
          d = fold (add_current since ign (suppressed am)) cur \<lparr>dg_firing = [], dg_resolved = [], dg_silenced = []\<rparr>;
          d = fold (add_resolved since ign cur (rule_summaries rules)) (series fl fired) d
      in \<lparr>dg_firing = sort_key rank (dg_firing d), dg_resolved = sort_key rank (dg_resolved d),
          dg_silenced = sort_key (\<lambda>(a, _). rank a) (dg_silenced d)\<rparr>)"

section \<open>The mail\<close>

definition crlf :: string where "crlf = [carriage, newline]"

definition mail_host :: "string \<Rightarrow> string" where
  "mail_host from = last (split_char (CHR ''@'') from)"

definition mail_part :: "string \<Rightarrow> string \<Rightarrow> string \<Rightarrow> string" where
  "mail_part boundary kind body =
     ''--'' @ boundary @ crlf @ ''Content-Type: '' @ kind @ ''; charset=utf-8'' @ crlf @ ''Content-Transfer-Encoding: base64'' @ crlf @ crlf
     @ join crlf (chunks 76 (b64 body)) @ crlf"

definition message :: "string \<Rightarrow> string \<Rightarrow> string \<Rightarrow> string \<Rightarrow> string \<Rightarrow> int \<Rightarrow> string" where
  "message from to subj txt htm now =
     (let boundary = ''alert-digest-'' @ int_str now
      in ''From: Alert digest <'' @ from @ ''>'' @ crlf @ ''To: <'' @ to @ ''>'' @ crlf @ ''Subject: '' @ subj @ crlf @ ''Date: '' @ rfc2822 now @ crlf
         @ ''Message-ID: <alert-digest-'' @ int_str now @ ''@'' @ mail_host from @ ''>'' @ crlf @ ''MIME-Version: 1.0'' @ crlf
         @ ''Content-Type: multipart/alternative; boundary='' @ [quote] @ boundary @ [quote] @ crlf @ crlf
         @ mail_part boundary ''text/plain'' txt @ mail_part boundary ''text/html'' htm @ ''--'' @ boundary @ ''--'')"

text \<open>A connection: the lines the server has sent and that were not read, and everything it was sent.\<close>

record 'w conn =
  cn_lines :: "string list"
  cn_sent :: "string list"
  cn_server :: 'w

record 'w mail_env =
  me_greet :: "'w \<Rightarrow> string + string list \<times> 'w"
  me_reply :: "string \<Rightarrow> 'w \<Rightarrow> string + string list \<times> 'w"

type_synonym ('w, 'a) mlm = "('w conn, string, 'a) sem"

definition write_all :: "'w mail_env \<Rightarrow> string \<Rightarrow> ('w, unit) mlm" where
  "write_all env t = (\<lambda>c. case me_reply env t (cn_server c) of
       Inl e \<Rightarrow> (Inl e, c)
     | Inr (ls, w) \<Rightarrow> (Inr (), c\<lparr>cn_lines := cn_lines c @ ls, cn_sent := cn_sent c @ [t], cn_server := w\<rparr>))"

text \<open>\<^verbatim>\<open>{:?}\<close> of a string.\<close>

definition hex1 :: "nat \<Rightarrow> char" where "hex1 n = char_of (if n < 10 then 48 + n else 87 + n)"

definition debug_char :: "char \<Rightarrow> string" where
  "debug_char c =
     (if c = CHR 0x09 then [CHR 0x5C, CHR ''t'']
      else if c = carriage then [CHR 0x5C, CHR ''r'']
      else if c = newline then [CHR 0x5C, CHR ''n'']
      else if c = CHR 0x00 then [CHR 0x5C, CHR ''0'']
      else if c = CHR 0x5C \<or> c = quote then [CHR 0x5C, c]
      else if of_char c < (32 :: nat) \<or> of_char c = (127 :: nat)
      then [CHR 0x5C] @ ''u{'' @ (if of_char c < (16 :: nat) then [] else [hex1 (of_char c div 16)]) @ [hex1 (of_char c mod 16)] @ ''}''
      else [c])"

definition debug_string :: "string \<Rightarrow> string" where
  "debug_string s = [quote] @ concat (map debug_char s) @ [quote]"

fun expect_loop :: "nat \<Rightarrow> string list \<Rightarrow> (string + unit) \<times> string list" where
  "expect_loop code [] = (Inl ''smtp: connection closed'', [])"
| "expect_loop code (l # ls) =
     (let t = trim_end l
      in if length t > 3 \<and> t ! 3 = CHR ''-'' then expect_loop code ls
         else if starts_with t (nat_str code) then (Inr (), ls)
         else (Inl (''smtp: expected '' @ nat_str code @ '', got '' @ debug_string t), ls))"

definition expect :: "nat \<Rightarrow> ('w, unit) mlm" where
  "expect code = (\<lambda>c. case expect_loop code (cn_lines c) of (r, ls) \<Rightarrow> (r, c\<lparr>cn_lines := ls\<rparr>))"

definition smtp :: "'w mail_env \<Rightarrow> string \<Rightarrow> string \<Rightarrow> string \<Rightarrow> ('w, unit) mlm" where
  "smtp env from to mail =
     andthen (\<lambda>c. case me_greet env (cn_server c) of Inl e \<Rightarrow> (Inl e, c)
              | Inr (ls, w) \<Rightarrow> (Inr (), c\<lparr>cn_lines := ls, cn_sent := [], cn_server := w\<rparr>))
     (\<lambda>_. andthen (expect 220)
     (\<lambda>_. andthen (for_each [(''EHLO '' @ mail_host from, 250), (''MAIL FROM:<'' @ from @ ''>'', 250), (''RCPT TO:<'' @ to @ ''>'', 250), (''DATA'', 354)]
            (\<lambda>(cmd, code). andthen (write_all env (cmd @ crlf)) (\<lambda>_. expect code)))
     (\<lambda>_. andthen (write_all env (mail @ crlf @ ''.'' @ crlf))
     (\<lambda>_. andthen (expect 250)
     (\<lambda>_. write_all env (''QUIT'' @ crlf))))))"

section \<open>The run\<close>

definition var_or :: "(string \<Rightarrow> string option) \<Rightarrow> string \<Rightarrow> string \<Rightarrow> string" where
  "var_or vars name dflt = (case vars name of Some v \<Rightarrow> v | None \<Rightarrow> dflt)"

text \<open>The text of a \<^verbatim>\<open>ParseIntError\<close>.\<close>

definition int_error :: "string \<Rightarrow> string" where
  "int_error s =
     (let ds = (case s of c # r \<Rightarrow> if c = CHR ''+'' then r else s | [] \<Rightarrow> [])
      in if s = [] then ''cannot parse integer from empty string''
         else if ds = [] \<or> \<not> list_all is_digit ds then ''invalid digit found in string''
         else ''number too large to fit in target type'')"

record 'w digest_env =
  de_vars :: "string \<Rightarrow> string option"
  de_get :: "string \<Rightarrow> (string \<times> string) list \<Rightarrow> 'w \<Rightarrow> (string + json) \<times> 'w"
  de_mail :: "'w mail_env"
  de_now :: int
  de_fl :: rounding

definition get_json :: "'w digest_env \<Rightarrow> string \<Rightarrow> (string \<times> string) list \<Rightarrow> ('w, json) mlm" where
  "get_json env url query = (\<lambda>c. case de_get env url query (cn_server c) of (r, w) \<Rightarrow> (r, c\<lparr>cn_server := w\<rparr>))"

definition prom_query :: "'w digest_env \<Rightarrow> string \<Rightarrow> string \<Rightarrow> ('w, json) mlm" where
  "prom_query env p expr = get_json env (p @ ''/api/v1/query'') [(''query'', expr)]"

definition fetch_alerts :: "'w digest_env \<Rightarrow> string \<Rightarrow> string \<Rightarrow> nat \<Rightarrow> ('w, json \<times> json \<times> json \<times> json \<times> json) mlm" where
  "fetch_alerts env p am hours =
     andthen (get_json env (p @ ''/api/v1/alerts'') [])
     (\<lambda>active. andthen (prom_query env p (''max_over_time(ALERTS{alertstate='' @ [quote] @ ''firing'' @ [quote] @ ''}['' @ nat_str hours @ ''h])''))
     (\<lambda>fired. andthen (prom_query env p (''max_over_time(ALERTS_FOR_STATE['' @ nat_str hours @ ''h])''))
     (\<lambda>started. andthen (get_json env (p @ ''/api/v1/rules'') [(''type'', ''alert'')])
     (\<lambda>rules. andthen (get_json env (am @ ''/api/v2/alerts'') [])
     (\<lambda>held. ret (active, fired, started, rules, held))))))"

definition comma_set :: "string \<Rightarrow> string list" where
  "comma_set s = filter (\<lambda>w. w \<noteq> []) (map trim (split_char (CHR '','') s))"

definition required :: "(string \<Rightarrow> string option) \<Rightarrow> string \<Rightarrow> ('w, string) mlm" where
  "required vars name = (case vars name of Some v \<Rightarrow> ret v | None \<Rightarrow> throw (''set '' @ name))"

definition parse_hours :: "string \<Rightarrow> ('w, nat) mlm" where
  "parse_hours s = (case parse_uint 32 s of Some n \<Rightarrow> ret n | None \<Rightarrow> throw (int_error s))"

definition deliver :: "'w digest_env \<Rightarrow> string \<Rightarrow> string \<Rightarrow> nat \<Rightarrow> digest \<Rightarrow> ('w, unit) mlm" where
  "deliver env from to hours d =
     (let now = de_now env;
          mail = message from to (subject d now) (digest_text d hours now) (html d hours now) now
      in retry 3 (smtp (de_mail env) from to mail))"

definition digest_run :: "'w digest_env \<Rightarrow> ('w, unit) mlm" where
  "digest_run env =
     (let vars = de_vars env;
          slash = (\<lambda>c. c = CHR ''/'');
          p = trim_end_matches slash (var_or vars ''PROMETHEUS_URL'' ''http://prometheus-kube-prometheus-prometheus.observability.svc.cluster.local:9090'');
          am = trim_end_matches slash (var_or vars ''ALERTMANAGER_URL'' ''http://alertmanager.observability.svc.cluster.local:9093'')
      in andthen (required vars ''DIGEST_FROM'')
         (\<lambda>from. andthen (required vars ''DIGEST_TO'')
         (\<lambda>to. andthen (parse_hours (var_or vars ''DIGEST_HOURS'' ''24''))
         (\<lambda>hours. andthen (retry 3 (fetch_alerts env p am hours))
         (\<lambda>(active, fired, started, rules, held).
            let d = classify_alerts (de_fl env) active fired started rules held (comma_set (var_or vars ''IGNORE_ALERTS'' ''Watchdog,InfoInhibitor''))
            in if digest_is_empty d \<and> var_or vars ''ALWAYS_SEND'' ''false'' \<noteq> ''true'' then ret ()
               else deliver env from to hours d)))))"

section \<open>Every alert is accounted for\<close>

lemma fold_add_current:
  "fold (add_current since ign held) cs d =
     \<lparr>dg_firing = dg_firing d @ map (\<lambda>(l, s). \<lparr>al_labels = l, al_since = since l, al_summary = s\<rparr>) (filter (\<lambda>(l, _). \<not> ignored ign l \<and> held_back held l = None) cs),
      dg_resolved = dg_resolved d,
      dg_silenced = dg_silenced d @ map (\<lambda>(l, s). (\<lparr>al_labels = l, al_since = since l, al_summary = s\<rparr>, the (held_back held l)))
        (filter (\<lambda>(l, _). \<not> ignored ign l \<and> held_back held l \<noteq> None) cs)\<rparr>"
  by (induction cs arbitrary: d) (auto simp: add_current_def Let_def split: option.split)

lemma fold_add_resolved:
  "fold (add_resolved since ign cur smy) ss d = d\<lparr>dg_resolved := dg_resolved d
     @ map (\<lambda>l. \<lparr>al_labels = l, al_since = since l, al_summary = (case Option.bind (map_of l ''alertname'') (map_of smy) of Some s \<Rightarrow> s | None \<Rightarrow> [])\<rparr>)
         (filter (\<lambda>l. \<not> ignored ign l \<and> \<not> list_ex (\<lambda>(c, _). c = l) cur) (map fst ss))\<rparr>"
  by (induction ss arbitrary: d) (auto simp: add_resolved_def Let_def)

lemma split_filter_mset:
  "mset (map fst (filter (\<lambda>(l, _). P l \<and> Q l) cs)) + mset (map fst (filter (\<lambda>(l, _). P l \<and> \<not> Q l) cs)) = mset (filter P (map fst cs))"
  by (induction cs) auto

lemma digest_accounting:
  fixes active fired started rules am fl ign
  defines "d \<equiv> classify_alerts fl active fired started rules am ign"
  shows "mset (map al_labels (dg_firing d)) + mset (map (al_labels \<circ> fst) (dg_silenced d)) = mset (filter (\<lambda>l. \<not> ignored ign l) (map fst (current active)))
       \<and> list_all (\<lambda>a. held_back (suppressed am) (al_labels a) = None) (dg_firing d)
       \<and> list_all (\<lambda>(a, why). held_back (suppressed am) (al_labels a) = Some why) (dg_silenced d)
       \<and> mset (map al_labels (dg_resolved d)) = mset (filter (\<lambda>l. \<not> ignored ign l \<and> l \<notin> fst ` set (current active)) (map fst (series fl fired)))
       \<and> sorted (map rank (dg_firing d)) \<and> sorted (map rank (dg_resolved d)) \<and> sorted (map (rank \<circ> fst) (dg_silenced d))"
proof -
  have cur: "list_ex (\<lambda>(c, _). c = l) (current active) \<longleftrightarrow> l \<in> fst ` set (current active)" for l
    by (force simp: list_ex_iff)
  have m: "mset (map g (sort_key k xs)) = mset (map g xs)" for g :: "'x \<Rightarrow> 'y" and k :: "'x \<Rightarrow> 'z :: linorder" and xs by simp
  have s: "sorted (map k (sort_key k xs))" for k :: "'x \<Rightarrow> 'z :: linorder" and xs by simp
  note d = d_def [unfolded classify_alerts_def Let_def fold_add_current fold_add_resolved]
  have "mset (map al_labels (dg_firing d)) + mset (map (al_labels \<circ> fst) (dg_silenced d)) = mset (filter (\<lambda>l. \<not> ignored ign l) (map fst (current active)))"
    unfolding split_filter_mset [of "\<lambda>l. \<not> ignored ign l" "\<lambda>l. held_back (suppressed am) l = None", symmetric]
    by (simp add: d m comp_def case_prod_unfold image_mset.compositionality)
  moreover have "list_all (\<lambda>a. held_back (suppressed am) (al_labels a) = None) (dg_firing d)"
    and "list_all (\<lambda>(a, why). held_back (suppressed am) (al_labels a) = Some why) (dg_silenced d)"
    by (auto simp: d list_all_iff)
  moreover have "mset (map al_labels (dg_resolved d)) = mset (filter (\<lambda>l. \<not> ignored ign l \<and> l \<notin> fst ` set (current active)) (map fst (series fl fired)))"
    by (simp add: d m comp_def cur image_mset.compositionality)
  moreover have "sorted (map rank (dg_firing d)) \<and> sorted (map rank (dg_resolved d)) \<and> sorted (map (rank \<circ> fst) (dg_silenced d))"
    using s [of rank] s [of "\<lambda>(a, _). rank a"] by (simp add: d comp_def case_prod_unfold)
  ultimately show ?thesis by blast
qed


section \<open>The mail arrives as it was made\<close>

text \<open>How a mail server reads the data (RFC 5321): lines end with a carriage return and a line feed, a line
  with a dot alone ends the mail, and of any other line that begins with a dot the dot is taken away.\<close>

fun crlf_lines :: "string \<Rightarrow> string list" where
  "crlf_lines [] = [[]]"
| "crlf_lines [c] = [[c]]"
| "crlf_lines (c # e # s) =
     (if c = carriage \<and> e = newline then [] # crlf_lines s
      else (case crlf_lines (e # s) of w # ws \<Rightarrow> (c # w) # ws | [] \<Rightarrow> [[c]]))"

definition unstuff :: "string \<Rightarrow> string" where
  "unstuff l = (case l of c # r \<Rightarrow> if c = CHR ''.'' then r else l | [] \<Rightarrow> [])"

definition read_mail :: "string \<Rightarrow> string" where
  "read_mail stream = join crlf (map unstuff (takeWhile (\<lambda>l. l \<noteq> ''.'') (crlf_lines stream)))"

definition dotless :: "string \<Rightarrow> bool" where
  "dotless l \<longleftrightarrow> (case l of c # _ \<Rightarrow> c \<noteq> CHR ''.'' | [] \<Rightarrow> True)"

lemma crlf_lines_not_Nil [simp]: "crlf_lines s \<noteq> []"
  by (induction s rule: crlf_lines.induct) (auto split: list.split)

lemma crlf_lines_line: "newline \<notin> set a \<Longrightarrow> crlf_lines (a @ crlf @ b) = a # crlf_lines b"
proof (induction a)
  case (Cons c a)
  then have IH: "crlf_lines (a @ crlf @ b) = a # crlf_lines b" by simp
  obtain e r where r: "a @ crlf @ b = e # r" by (cases "a @ crlf @ b") (auto simp: crlf_def)
  have "e = newline \<Longrightarrow> False" using r Cons.prems by (cases a) (auto simp: crlf_def carriage_def newline_def)
  with IH r show ?case by auto
qed (simp add: crlf_def)

lemma crlf_lines_last: "newline \<notin> set a \<Longrightarrow> crlf_lines a = [a]"
proof (induction a rule: crlf_lines.induct)
  case (3 c e s)
  then show ?case by auto
qed simp_all

lemma read_lines:
  assumes "list_all (\<lambda>l. newline \<notin> set l \<and> dotless l) (ls @ [l])"
  shows "read_mail (concat (map (\<lambda>l. l @ crlf) ls) @ l @ crlf @ ''.'' @ crlf) = concat (map (\<lambda>l. l @ crlf) ls) @ l"
proof -
  have "crlf_lines (concat (map (\<lambda>l. l @ crlf) ls) @ l @ crlf @ ''.'' @ crlf) = ls @ [l, ''.'', []]"
    using assms
  proof (induction ls)
    case Nil
    have "crlf_lines (''.'' @ crlf @ []) = [''.'', []]" by (subst crlf_lines_line) (simp_all add: newline_def)
    with Nil show ?case by (simp add: crlf_lines_line)
  qed (simp add: crlf_lines_line)
  moreover have "takeWhile (\<lambda>l. l \<noteq> ''.'') (ls @ [l, ''.'', []]) = ls @ [l]"
    using assms by (simp add: takeWhile_append list_all_iff) (auto simp: dotless_def)
  moreover have "map unstuff (ls @ [l]) = ls @ [l]"
  proof (rule map_idI)
    fix x
    assume "x \<in> set (ls @ [l])"
    with assms have "dotless x" by (auto simp: list_all_iff)
    then show "unstuff x = x" by (cases x) (simp_all add: unstuff_def dotless_def)
  qed
  moreover have "join crlf (ls @ [l]) = concat (map (\<lambda>l. l @ crlf) ls) @ l" by (induction ls) (simp_all add: join_Cons)
  ultimately show ?thesis by (simp add: read_mail_def)
qed

text \<open>The parts of a message are lines.\<close>

definition clean :: "string \<Rightarrow> bool" where "clean s \<longleftrightarrow> newline \<notin> set s"

lemma clean_simps [simp]: "clean []" "clean (c # s) \<longleftrightarrow> c \<noteq> newline \<and> clean s" "clean (a @ b) \<longleftrightarrow> clean a \<and> clean b"
  by (auto simp: clean_def)

lemma digit_not_newline: "is_digit c \<Longrightarrow> c \<noteq> newline"
  by (auto simp: is_digit_def newline_def)

lemma clean_nat_str [simp]: "clean (nat_str n)"
  using is_digit_nat_str digit_not_newline by (fastforce simp: clean_def)

lemma clean_padi [simp]: "clean (padi w i)" "clean (int_str i)"
proof -
  have "clean (replicate k (CHR ''0''))" for k by (induction k) (simp_all add: newline_def)
  then show "clean (padi w i)" "clean (int_str i)" by (simp_all add: padi_def pad0_def int_str_def newline_def)
qed

lemma clean_rfc2822 [simp]: "clean (rfc2822 t)"
proof -
  obtain y m e where c: "civil (t div 86400) = (y, m, e)" by (cases "civil (t div 86400)")
  have "list_all clean [''Thu'', ''Fri'', ''Sat'', ''Sun'', ''Mon'', ''Tue'', ''Wed'']"
    "list_all clean [''Jan'', ''Feb'', ''Mar'', ''Apr'', ''May'', ''Jun'', ''Jul'', ''Aug'', ''Sep'', ''Oct'', ''Nov'', ''Dec'']"
    by (simp_all add: newline_def)
  then have "clean ([''Thu'', ''Fri'', ''Sat'', ''Sun'', ''Mon'', ''Tue'', ''Wed''] ! nat (t div 86400 mod 7))"
    and "clean ([''Jan'', ''Feb'', ''Mar'', ''Apr'', ''May'', ''Jun'', ''Jul'', ''Aug'', ''Sep'', ''Oct'', ''Nov'', ''Dec''] ! nat (m - 1))"
    using civil_fields [OF c] by (simp_all only: list_all_length) (auto simp: nat_less_iff)
  then show ?thesis by (simp add: rfc2822_def c Let_def newline_def)
qed

lemma b64_alphabet: "set (b64 s) \<subseteq> insert (CHR ''='') (set T)"
proof -
  have "set (b64_chunk c) \<subseteq> insert (CHR ''='') (set T)" for c
    using sextet_less T_facts unfolding b64_chunk_def Let_def sextet_def [symmetric] by auto
  then show ?thesis unfolding b64_def by fastforce
qed

lemma chunks_set: "c \<in> set (chunks n xs) \<Longrightarrow> set c \<subseteq> set xs"
proof (induction n xs rule: chunks.induct)
  case (1 n xs)
  show ?case
  proof (cases "xs = [] \<or> n = 0")
    case False
    with 1 show ?thesis by (subst (asm) (2) chunks.simps) (auto dest: in_set_takeD in_set_dropD)
  qed (use 1 in \<open>simp add: chunks.simps\<close>)
qed

lemma chunk_lines: "list_all (\<lambda>l. clean l \<and> dotless l) (chunks 76 (b64 s))"
proof -
  have "newline \<notin> insert (CHR ''='') (set T)" "CHR ''.'' \<notin> insert (CHR ''='') (set T)" by code_simp+
  then have "newline \<notin> set c \<and> CHR ''.'' \<notin> set c" if "c \<in> set (chunks 76 (b64 s))" for c
    using chunks_set [OF that] b64_alphabet [of s] by blast
  then show ?thesis by (fastforce simp: list_all_iff clean_def dotless_def split: list.split)
qed

definition body_lines :: "string \<Rightarrow> string list" where
  "body_lines body = (if chunks 76 (b64 body) = [] then [[]] else chunks 76 (b64 body))"

definition part_lines :: "string \<Rightarrow> string \<Rightarrow> string \<Rightarrow> string list" where
  "part_lines boundary kind body =
     [''--'' @ boundary, ''Content-Type: '' @ kind @ ''; charset=utf-8'', ''Content-Transfer-Encoding: base64'', []] @ body_lines body"

lemma join_lines: "xs \<noteq> [] \<Longrightarrow> join sep xs @ sep = concat (map (\<lambda>l. l @ sep) xs)"
  by (induction xs rule: induct_list012) simp_all

lemma part_is_lines: "mail_part boundary kind body = concat (map (\<lambda>l. l @ crlf) (part_lines boundary kind body))"
proof -
  have "join crlf (chunks 76 (b64 body)) @ crlf = concat (map (\<lambda>l. l @ crlf) (body_lines body))"
    by (simp add: body_lines_def join_lines)
  then show ?thesis by (simp add: mail_part_def part_lines_def)
qed

lemma part_lines_ok:
  assumes "clean boundary" "clean kind"
  shows "list_all (\<lambda>l. clean l \<and> dotless l) (part_lines boundary kind body)"
proof -
  have "list_all (\<lambda>l. clean l \<and> dotless l) (body_lines body)"
    using chunk_lines [of body] by (auto simp: body_lines_def dotless_def)
  with assms show ?thesis by (simp add: part_lines_def dotless_def newline_def)
qed

definition head_lines :: "string \<Rightarrow> string \<Rightarrow> string \<Rightarrow> int \<Rightarrow> string list" where
  "head_lines from to subj now =
     [''From: Alert digest <'' @ from @ ''>'', ''To: <'' @ to @ ''>'', ''Subject: '' @ subj, ''Date: '' @ rfc2822 now,
      ''Message-ID: <alert-digest-'' @ int_str now @ ''@'' @ mail_host from @ ''>'', ''MIME-Version: 1.0'',
      ''Content-Type: multipart/alternative; boundary='' @ [quote] @ ''alert-digest-'' @ int_str now @ [quote], []]"

lemma clean_mail_host: "clean from \<Longrightarrow> clean (mail_host from)"
proof -
  have "mail_host from \<in> set (split_char (CHR ''@'') from)" unfolding mail_host_def by (rule last_in_set) simp
  then show "clean from \<Longrightarrow> clean (mail_host from)" unfolding clean_def by (blast dest: split_on_pieces)
qed

lemma head_lines_ok:
  assumes "clean from" "clean to" "clean subj"
  shows "list_all (\<lambda>l. clean l \<and> dotless l) (head_lines from to subj now)"
  using assms clean_mail_host [OF assms(1)] by (simp add: head_lines_def dotless_def newline_def quote_def)

text \<open>Property C21: the mail arrives as it was made. Whatever the alerts say (their texts are in the Base64 parts), when
  the addresses and the subject have no line feed, a mail server that reads the data by RFC 5321 gets
  exactly the message: no line of it is a dot alone or begins with one.\<close>

theorem mail_arrives_as_made:
  assumes "newline \<notin> set from" and "newline \<notin> set to" and "newline \<notin> set subj"
  shows "read_mail (message from to subj txt htm now @ crlf @ ''.'' @ crlf) = message from to subj txt htm now"
proof -
  let ?b = "''alert-digest-'' @ int_str now"
  define ls where "ls = head_lines from to subj now @ part_lines ?b ''text/plain'' txt @ part_lines ?b ''text/html'' htm"
  have m: "message from to subj txt htm now = concat (map (\<lambda>l. l @ crlf) ls) @ (''--'' @ ?b @ ''--'')"
    by (simp add: message_def Let_def ls_def part_is_lines head_lines_def)
  have b: "clean ?b" by (simp add: newline_def)
  have "list_all (\<lambda>l. clean l \<and> dotless l) (ls @ [''--'' @ ?b @ ''--''])"
  proof -
    have "clean ''text/plain''" "clean ''text/html''" and e: "clean (''--'' @ ?b @ ''--'') \<and> dotless (''--'' @ ?b @ ''--'')"
      using b by (simp_all add: newline_def dotless_def)
    moreover have "list_all (\<lambda>l. clean l \<and> dotless l) (head_lines from to subj now)"
      using assms by (intro head_lines_ok) (simp_all add: clean_def)
    ultimately show ?thesis unfolding ls_def list_all_append using part_lines_ok [OF b] by simp
  qed
  then have "list_all (\<lambda>l. newline \<notin> set l \<and> dotless l) (ls @ [''--'' @ ?b @ ''--''])" by (simp add: clean_def)
  from read_lines [OF this] show ?thesis unfolding m by simp
qed

theorem mail_arrives_as_made_witness:
  "read_mail (message ''a@x'' ''b@y'' ''hi'' ([newline] @ ''.'' @ [newline]) ''.'' 0 @ crlf @ ''.'' @ crlf)
     = message ''a@x'' ''b@y'' ''hi'' ([newline] @ ''.'' @ [newline]) ''.'' 0"
  by (rule mail_arrives_as_made) (simp_all add: newline_def)

end
