(* ===== verification/Sso_Token.thy ===== *)
theory Sso_Token
  imports Prelude
begin

text \<open>
  \<^verbatim>\<open>apps/sso-token/src\<close>: the store of secrets (\<^verbatim>\<open>store.rs\<close>) and the tokens of a login (\<^verbatim>\<open>main.rs\<close>); the bridge
  of MCP messages is in \<open>Mcp\<close>. Commands (the keychain's), the identity provider and \<^verbatim>\<open>serde\<close> are parameters.
  Calls to the file system may fail (\<open>te_faults\<close>, by the number of the call). Time passes with sleeps and requests.
  The terminal and permissions of files are left out.
\<close>

section \<open>State\<close>

record tokens =
  to_refresh :: string
  to_access :: string
  to_expires_at :: nat

record token_response =
  tr_access :: string
  tr_expires_in :: nat
  tr_refresh :: "string option"

record oauth_error =
  oe_error :: string
  oe_description :: "string option"

record device_auth =
  da_device_code :: string
  da_user_code :: string
  da_verification_uri :: string
  da_verification_uri_complete :: "string option"
  da_expires_in :: nat
  da_interval :: "nat option"

text \<open>What a form POST comes to: a body, a status with a body, or no answer.\<close>

datatype http_answer = Answer string | Refused nat string | Unreachable string

record 'w token_env =
  te_macos :: bool
  te_vars :: "string \<Rightarrow> string option"
  te_run :: "string list \<Rightarrow> string option \<Rightarrow> 'w \<Rightarrow> string option \<times> 'w"
  te_faults :: "nat \<Rightarrow> string option"
  te_post :: "string \<Rightarrow> (string \<times> string) list \<Rightarrow> 'w \<Rightarrow> http_answer \<times> 'w"
  te_lag :: "nat \<Rightarrow> nat"
  te_ser :: "tokens \<Rightarrow> string"
  te_de :: "string \<Rightarrow> string + tokens"
  te_de_response :: "string \<Rightarrow> string + token_response"
  te_de_device :: "string \<Rightarrow> string + device_auth"
  te_de_error :: "string \<Rightarrow> oauth_error option"

record 'w token_state =
  tw_world :: 'w
  tw_files :: "string \<rightharpoonup> string"
  tw_calls :: nat
  tw_now :: nat
  tw_posts :: nat
  tw_opened :: "string list"

type_synonym ('w, 'a) tkm = "('w token_state, string, 'a) sem"

section \<open>The store\<close>

definition SERVICE :: string where "SERVICE = ''sso-token''"

definition run_cmd :: "'w token_env \<Rightarrow> string list \<Rightarrow> string option \<Rightarrow> ('w, string option) tkm" where
  "run_cmd env args input = (\<lambda>s. case te_run env args input (tw_world s) of (r, w) \<Rightarrow> (Inr r, s\<lparr>tw_world := w\<rparr>))"

text \<open>The keychain of macOS.\<close>

definition macos_get :: "'w token_env \<Rightarrow> string \<Rightarrow> ('w, string option) tkm" where
  "macos_get env account =
     run_cmd env [''/usr/bin/security'', ''find-generic-password'', ''-s'', SERVICE, ''-a'', account, ''-w''] None"

definition hex2 :: "char \<Rightarrow> string" where
  "hex2 c = map (\<lambda>n. char_of (if n < 10 then 48 + n else 87 + n)) [of_char c div 16, of_char c mod (16 :: nat)]"

definition security_command :: "string \<Rightarrow> string \<Rightarrow> string" where
  "security_command account val =
     ''add-generic-password -U -s '' @ [quote] @ SERVICE @ [quote] @ '' -a '' @ [quote] @ account @ [quote] @ '' -l '' @ [quote] @ SERVICE @ '' ''
     @ account @ [quote] @ '' -X '' @ concat (map hex2 val) @ [newline]"

definition macos_set :: "'w token_env \<Rightarrow> string \<Rightarrow> string \<Rightarrow> ('w, bool) tkm" where
  "macos_set env account val =
     andthen (run_cmd env [''/usr/bin/security'', ''-i''] (Some (security_command account val)))
     (\<lambda>r. if r = None then ret False
          else andthen (macos_get env account) (\<lambda>g. ret (map_option trim g = Some val)))"

definition macos_delete :: "'w token_env \<Rightarrow> string \<Rightarrow> ('w, unit) tkm" where
  "macos_delete env account =
     ignore (run_cmd env [''/usr/bin/security'', ''delete-generic-password'', ''-s'', SERVICE, ''-a'', account] None)"

text \<open>The Secret Service elsewhere.\<close>

definition linux_get :: "'w token_env \<Rightarrow> string \<Rightarrow> ('w, string option) tkm" where
  "linux_get env account = run_cmd env [''secret-tool'', ''lookup'', ''service'', SERVICE, ''account'', account] None"

definition linux_set :: "'w token_env \<Rightarrow> string \<Rightarrow> string \<Rightarrow> ('w, bool) tkm" where
  "linux_set env account val =
     andthen (run_cmd env [''secret-tool'', ''store'', ''--label'', SERVICE @ '' '' @ account, ''service'', SERVICE, ''account'', account] (Some val))
     (\<lambda>r. ret (r \<noteq> None))"

definition linux_delete :: "'w token_env \<Rightarrow> string \<Rightarrow> ('w, unit) tkm" where
  "linux_delete env account = ignore (run_cmd env [''secret-tool'', ''clear'', ''service'', SERVICE, ''account'', account] None)"

definition keychain_get :: "'w token_env \<Rightarrow> string \<Rightarrow> ('w, string option) tkm" where
  "keychain_get env = (if te_macos env then macos_get env else linux_get env)"

definition keychain_set :: "'w token_env \<Rightarrow> string \<Rightarrow> string \<Rightarrow> ('w, bool) tkm" where
  "keychain_set env = (if te_macos env then macos_set env else linux_set env)"

definition keychain_delete :: "'w token_env \<Rightarrow> string \<Rightarrow> ('w, unit) tkm" where
  "keychain_delete env = (if te_macos env then macos_delete env else linux_delete env)"

lemmas keychain_defs = keychain_get_def keychain_set_def macos_get_def macos_set_def linux_get_def linux_set_def

definition file_name :: "string \<Rightarrow> string" where
  "file_name account = map (\<lambda>c. if is_alnum c then c else CHR ''_'') account"

definition file_of :: "'w token_env \<Rightarrow> string \<Rightarrow> string + string" where
  "file_of env account =
     (let path = (\<lambda>dir. dir @ ''/'' @ SERVICE @ ''/'' @ file_name account) in
      case te_vars env ''XDG_STATE_HOME'' of
        Some dir \<Rightarrow> if dir \<noteq> [] then Inr (path dir)
                    else (case te_vars env ''HOME'' of Some h \<Rightarrow> Inr (path (h @ ''/.local/state'')) | None \<Rightarrow> Inl ''HOME is not set'')
      | None \<Rightarrow> (case te_vars env ''HOME'' of Some h \<Rightarrow> Inr (path (h @ ''/.local/state'')) | None \<Rightarrow> Inl ''HOME is not set''))"

text \<open>The file is \<open>path.json\<close>, the one it is written to first is \<open>path.tmp\<close>.\<close>

definition json_file :: "string \<Rightarrow> string" where "json_file path = path @ ''.json''"
definition tmp_file :: "string \<Rightarrow> string" where "tmp_file path = path @ ''.tmp''"

text \<open>One call to the file system: it fails, or changes the files and returns.\<close>

definition fs_call :: "'w token_env \<Rightarrow> ((string \<rightharpoonup> string) \<Rightarrow> (string \<rightharpoonup> string)) \<Rightarrow> ('w, unit) tkm" where
  "fs_call env f = (\<lambda>s.
     case te_faults env (tw_calls s) of
       Some e \<Rightarrow> (Inl e, s\<lparr>tw_calls := Suc (tw_calls s)\<rparr>)
     | None \<Rightarrow> (Inr (), s\<lparr>tw_calls := Suc (tw_calls s), tw_files := f (tw_files s)\<rparr>))"

definition reading :: "string \<Rightarrow> string" where "reading p = ''reading '' @ json_file p"

definition read_to_string :: "'w token_env \<Rightarrow> string \<Rightarrow> ('w, string option) tkm" where
  "read_to_string env p = (\<lambda>s.
     case fs_call env (\<lambda>f. f) s of
       (Inl e, s') \<Rightarrow> (Inl (reading p), s')
     | (Inr _, s') \<Rightarrow> (Inr (tw_files s' (json_file p)), s'))"

definition store_get :: "'w token_env \<Rightarrow> string \<Rightarrow> ('w, string option) tkm" where
  "store_get env account =
     andthen (keychain_get env account)
     (\<lambda>k. case k of
        Some t \<Rightarrow> if trim t \<noteq> [] then ret (Some (trim t))
                 else andthen (lift_result (file_of env account)) (read_to_string env)
      | None \<Rightarrow> andthen (lift_result (file_of env account)) (read_to_string env))"

text \<open>Create the directory; open the temporary file, write it, sync it; rename it.\<close>

definition write_private :: "'w token_env \<Rightarrow> string \<Rightarrow> string \<Rightarrow> ('w, unit) tkm" where
  "write_private env p val =
     andthen (fs_call env (\<lambda>f. f))
     (\<lambda>_. andthen (fs_call env (\<lambda>f. f(tmp_file p \<mapsto> [])))
     (\<lambda>_. andthen (fs_call env (\<lambda>f. f(tmp_file p \<mapsto> val)))
     (\<lambda>_. andthen (fs_call env (\<lambda>f. f))
     (\<lambda>_. fs_call env (\<lambda>f. f(json_file p := f (tmp_file p), tmp_file p := None))))))"

definition store_set :: "'w token_env \<Rightarrow> string \<Rightarrow> string \<Rightarrow> ('w, unit) tkm" where
  "store_set env account val =
     andthen (lift_result (file_of env account))
     (\<lambda>p. andthen (keychain_set env account val)
     (\<lambda>kept. if kept then ignore (fs_call env (\<lambda>f. f(json_file p := None))) else write_private env p val))"

definition store_delete :: "'w token_env \<Rightarrow> string \<Rightarrow> ('w, unit) tkm" where
  "store_delete env account =
     andthen (keychain_delete env account)
     (\<lambda>_. andthen (lift_result (file_of env account)) (\<lambda>p. fs_call env (\<lambda>f. f(json_file p := None))))"

section \<open>Tokens\<close>

definition SCOPES :: string where "SCOPES = ''openid profile email groups offline_access''"
definition MARGIN :: nat where "MARGIN = 30"

definition wrap64 :: "nat \<Rightarrow> nat" where "wrap64 n = n mod 2 ^ 64"

record client =
  cl_issuer :: string
  cl_client_id :: string
  cl_account :: string

definition client_from_env :: "'w token_env \<Rightarrow> string + client" where
  "client_from_env env =
     (case te_vars env ''SSO_ISSUER'' of
        None \<Rightarrow> Inl ''SSO_ISSUER is not set''
      | Some i \<Rightarrow>
          let issuer = trim_end_matches (\<lambda>c. c = CHR ''/'') i;
              cid = (case te_vars env ''SSO_CLIENT_ID'' of Some c \<Rightarrow> c | None \<Rightarrow> ''cli'')
          in Inr \<lparr>cl_issuer = issuer, cl_client_id = cid, cl_account = cid @ ''@'' @ issuer\<rparr>)"

definition endpoint :: "client \<Rightarrow> string \<Rightarrow> string" where
  "endpoint cl path = cl_issuer cl @ ''/protocol/openid-connect/'' @ path"

definition send_form :: "'w token_env \<Rightarrow> client \<Rightarrow> string \<Rightarrow> (string \<times> string) list \<Rightarrow> ('w, http_answer) tkm" where
  "send_form env cl path form = (\<lambda>s.
     case te_post env (endpoint cl path) form (tw_world s) of
       (a, w) \<Rightarrow> (Inr a, s\<lparr>tw_world := w, tw_posts := Suc (tw_posts s), tw_now := tw_now s + te_lag env (tw_posts s)\<rparr>))"

definition post_form :: "'w token_env \<Rightarrow> client \<Rightarrow> (string \<Rightarrow> string + 'a) \<Rightarrow> string \<Rightarrow> (string \<times> string) list \<Rightarrow> ('w, oauth_error + 'a) tkm" where
  "post_form env cl de path form =
     andthen (send_form env cl path (form @ [(''client_id'', cl_client_id cl)]))
     (\<lambda>a. case a of
        Answer body \<Rightarrow> (case de body of Inr x \<Rightarrow> ret (Inr x) | Inl e \<Rightarrow> throw e)
      | Refused code body \<Rightarrow> (case te_de_error env body of
            Some e \<Rightarrow> ret (Inl e)
          | None \<Rightarrow> throw (path @ '': HTTP '' @ nat_str code @ '': '' @ body))
      | Unreachable e \<Rightarrow> throw (path @ '': request failed''))"

definition describe :: "oauth_error \<Rightarrow> string" where
  "describe e = (case oe_description e of Some d \<Rightarrow> oe_error e @ '' ('' @ d @ '')'' | None \<Rightarrow> oe_error e)"

definition save_tokens :: "'w token_env \<Rightarrow> client \<Rightarrow> token_response \<Rightarrow> string option \<Rightarrow> ('w, string) tkm" where
  "save_tokens env cl t previous =
     (case (case tr_refresh t of Some r \<Rightarrow> Some r | None \<Rightarrow> previous) of
        None \<Rightarrow> throw ''token response carried no refresh token''
      | Some r \<Rightarrow>
          andthen (gets tw_now)
          (\<lambda>now. andthen (store_set env (cl_account cl) (te_ser env \<lparr>to_refresh = r, to_access = tr_access t, to_expires_at = wrap64 (now + tr_expires_in t)\<rparr>))
          (\<lambda>_. ret (tr_access t))))"

definition device_grant :: "string \<Rightarrow> (string \<times> string) list" where
  "device_grant code = [(''grant_type'', ''urn:ietf:params:oauth:grant-type:device_code''), (''device_code'', code)]"

definition sleep :: "nat \<Rightarrow> 'w token_state \<Rightarrow> 'w token_state" where
  "sleep secs s = s\<lparr>tw_now := tw_now s + secs\<rparr>"

lemma send_form_now: "tw_now s \<le> tw_now (snd (send_form env cl path form s))" "tw_posts (snd (send_form env cl path form s)) = Suc (tw_posts s)"
  by (simp_all add: send_form_def split: prod.split)

lemma post_form_state: "snd (post_form env cl de path form s) = snd (send_form env cl path (form @ [(''client_id'', cl_client_id cl)]) s)"
proof -
  obtain a w where "te_post env (endpoint cl path) (form @ [(''client_id'', cl_client_id cl)]) (tw_world s) = (a, w)" by fastforce
  then show ?thesis
    by (cases a) (simp_all add: post_form_def andthen_def send_form_def ret_apply throw_apply split: sum.split option.split)
qed

lemma poll_takes_time:
  assumes "(r, s') = post_form env cl de path form (sleep n s)" and "0 < n"
  shows "tw_now s < tw_now s' \<and> tw_now s + n \<le> tw_now s' \<and> tw_posts s' = Suc (tw_posts s)"
proof -
  have s': "s' = snd (send_form env cl path (form @ [(''client_id'', cl_client_id cl)]) (sleep n s))"
    using post_form_state [of env cl de path form "sleep n s"] unfolding assms(1) [symmetric] by simp
  have "tw_now (sleep n s) \<le> tw_now s'" "tw_posts s' = Suc (tw_posts (sleep n s))"
    unfolding s' by (rule send_form_now)+
  then show ?thesis using assms(2) by (simp add: sleep_def)
qed

text \<open>The polls of a login. Each one follows a sleep of at least a second, so the deadline is reached.\<close>

function login_loop :: "'w token_env \<Rightarrow> client \<Rightarrow> string \<Rightarrow> nat \<Rightarrow> nat \<Rightarrow> ('w, unit) tkm" where
  "login_loop env cl code deadline interval s =
     (if tw_now s < deadline
      then case post_form env cl (te_de_response env) ''token'' (device_grant code) (sleep (max 1 interval) s) of
             (Inl e, s') \<Rightarrow> (Inl e, s')
           | (Inr (Inr t), s') \<Rightarrow> andthen (save_tokens env cl t None) (\<lambda>_. ret ()) s'
           | (Inr (Inl e), s') \<Rightarrow>
               if oe_error e = ''authorization_pending'' then login_loop env cl code deadline (max 1 interval) s'
               else if oe_error e = ''slow_down'' then login_loop env cl code deadline (max 1 interval + 5) s'
               else (Inl (''login: '' @ describe e), s')
      else (Inl ''login: the code expired before it was confirmed'', s))"
  by pat_completeness auto

termination
  by (relation "measure (\<lambda>(env, cl, code, deadline, interval, s). deadline - tw_now s)")
    (auto dest!: poll_takes_time simp: diff_less_mono2)

declare login_loop.simps [simp del]

definition open_browser :: "string \<Rightarrow> ('w, unit) tkm" where
  "open_browser url = (\<lambda>s. (Inr (), s\<lparr>tw_opened := tw_opened s @ [url]\<rparr>))"

definition pace :: "device_auth \<Rightarrow> nat" where
  "pace auth = max 1 (case da_interval auth of Some i \<Rightarrow> i | None \<Rightarrow> 5)"

definition login :: "'w token_env \<Rightarrow> client \<Rightarrow> ('w, unit) tkm" where
  "login env cl =
     andthen (post_form env cl (te_de_device env) ''auth/device'' [(''scope'', SCOPES)])
     (\<lambda>a. case a of
        Inl e \<Rightarrow> throw (''device authorization: '' @ describe e)
      | Inr auth \<Rightarrow>
          andthen (open_browser (case da_verification_uri_complete auth of Some u \<Rightarrow> u | None \<Rightarrow> da_verification_uri auth))
          (\<lambda>_. andthen (gets tw_now)
          (\<lambda>now. login_loop env cl (da_device_code auth) (wrap64 (now + da_expires_in auth))
                   (pace auth))))"

definition refresh_grant :: "string \<Rightarrow> (string \<times> string) list" where
  "refresh_grant r = [(''grant_type'', ''refresh_token''), (''refresh_token'', r)]"

definition not_logged_in :: string where "not_logged_in = ''not logged in; run `sso-token login`''"
definition unreadable :: string where "unreadable = ''stored tokens are unreadable; run `sso-token login`''"

definition refresh_error :: "oauth_error \<Rightarrow> string" where
  "refresh_error e =
     (if oe_error e = ''invalid_grant'' then ''session expired ('' @ describe e @ ''); run `sso-token login`''
      else ''refresh: '' @ describe e)"

definition token :: "'w token_env \<Rightarrow> client \<Rightarrow> ('w, string) tkm" where
  "token env cl =
     andthen (store_get env (cl_account cl))
     (\<lambda>raw. case raw of
        None \<Rightarrow> throw not_logged_in
      | Some raw \<Rightarrow> (case te_de env raw of
          Inl _ \<Rightarrow> throw unreadable
        | Inr t \<Rightarrow> andthen (gets tw_now)
            (\<lambda>now. if to_expires_at t > wrap64 (now + MARGIN) then ret (to_access t)
                   else andthen (post_form env cl (te_de_response env) ''token'' (refresh_grant (to_refresh t)))
                        (\<lambda>a. case a of
                           Inr r \<Rightarrow> save_tokens env cl r (Some (to_refresh t))
                         | Inl e \<Rightarrow> throw (refresh_error e)))))"

definition logout :: "'w token_env \<Rightarrow> client \<Rightarrow> ('w, unit) tkm" where
  "logout env cl =
     andthen (store_get env (cl_account cl))
     (\<lambda>raw. andthen (case raw of
        None \<Rightarrow> ret ()
      | Some raw \<Rightarrow> (case te_de env raw of
          Inl _ \<Rightarrow> ret ()
        | Inr t \<Rightarrow> ignore (send_form env cl ''revoke''
              [(''token'', to_refresh t), (''token_type_hint'', ''refresh_token''), (''client_id'', cl_client_id cl)])))
     (\<lambda>_. store_delete env (cl_account cl)))"

section \<open>A store of files\<close>

text \<open>Without a keychain every command fails, and the file is the store.\<close>

definition no_keychain :: "'w token_env \<Rightarrow> bool" where
  "no_keychain env \<longleftrightarrow> (\<forall>args input w. fst (te_run env args input w) = None)"

lemma run_none: "no_keychain env \<Longrightarrow> \<exists>w'. run_cmd env args input s = (Inr None, s\<lparr>tw_world := w'\<rparr>)"
proof -
  assume "no_keychain env"
  then have "te_run env args input (tw_world s) = (None, snd (te_run env args input (tw_world s)))"
    unfolding no_keychain_def by (metis prod.collapse)
  then show ?thesis unfolding run_cmd_def by (metis (no_types, lifting) case_prod_conv)
qed

lemma get_none: "no_keychain env \<Longrightarrow> \<exists>w'. keychain_get env account s = (Inr None, s\<lparr>tw_world := w'\<rparr>)"
  by (simp add: keychain_defs run_none)

lemma set_none: "no_keychain env \<Longrightarrow> \<exists>w'. keychain_set env account val s = (Inr False, s\<lparr>tw_world := w'\<rparr>)"
  using run_none [of env "[''/usr/bin/security'', ''-i'']" "Some (security_command account val)" s]
    run_none [of env "[''secret-tool'', ''store'', ''--label'', SERVICE @ '' '' @ account, ''service'', SERVICE, ''account'', account]" "Some val" s]
  by (auto simp: keychain_defs andthen_def ret_apply)

text \<open>The file changes with the last call of \<^verbatim>\<open>write_private\<close> or not at all.\<close>

lemma tmp_not_json [simp]: "tmp_file p \<noteq> json_file p" "json_file p \<noteq> tmp_file p"
  by (simp_all add: tmp_file_def json_file_def)

lemma write_private_atomic:
  "case write_private env p val s of
     (Inr _, s') \<Rightarrow> tw_files s' (json_file p) = Some val
   | (Inl e, s') \<Rightarrow> tw_files s' (json_file p) = tw_files s (json_file p)"
  by (simp add: write_private_def andthen_def fs_call_def split: option.split)

lemma write_private_now: "tw_now (snd (write_private env p val s)) = tw_now s"
  by (simp add: write_private_def andthen_def fs_call_def split: option.split)

lemma store_set_atomic:
  assumes "no_keychain env" and "file_of env account = Inr p"
  shows "case store_set env account val s of
      (Inr _, s') \<Rightarrow> tw_files s' (json_file p) = Some val
    | (Inl e, s') \<Rightarrow> tw_files s' (json_file p) = tw_files s (json_file p)"
proof -
  obtain w' where k: "keychain_set env account val s = (Inr False, s\<lparr>tw_world := w'\<rparr>)"
    using set_none [OF assms(1)] by blast
  have "store_set env account val s = write_private env p val (s\<lparr>tw_world := w'\<rparr>)"
    by (simp add: store_set_def lift_result_def assms(2) k andthen_def)
  then show ?thesis using write_private_atomic [where env = env and p = p and val = val and s = "s\<lparr>tw_world := w'\<rparr>"]
    by (simp split: prod.splits sum.splits)
qed

lemma store_get_file:
  assumes "no_keychain env" and "file_of env account = Inr p" and "store_get env account s = (r, s')"
  shows "tw_files s' = tw_files s \<and> (r = Inr (tw_files s (json_file p)) \<or> (\<exists>e. r = Inl e))"
proof -
  obtain w' where k: "keychain_get env account s = (Inr None, s\<lparr>tw_world := w'\<rparr>)"
    using get_none [OF assms(1)] by blast
  have "r = fst (read_to_string env p (s\<lparr>tw_world := w'\<rparr>))" "s' = snd (read_to_string env p (s\<lparr>tw_world := w'\<rparr>))"
    using assms(3) by (simp_all add: store_get_def lift_result_def assms(2) k andthen_def)
  then show ?thesis by (cases "te_faults env (tw_calls s)") (simp_all add: read_to_string_def fs_call_def)
qed

lemma post_form_files: "tw_files (snd (post_form env cl de path form s)) = tw_files s"
  by (simp add: post_form_state send_form_def split: prod.split)

text \<open>What \<^verbatim>\<open>save\<close> stores has a refresh token: the answer's, or else the one before it.\<close>

lemma save_tokens_stores:
  assumes "no_keychain env" and "file_of env (cl_account cl) = Inr p"
    and "\<And>t. te_de env (te_ser env t) = Inr t" and "save_tokens env cl t (Some r) s = (x, s')"
  shows "tw_files s' (json_file p) = tw_files s (json_file p)
    \<or> (\<exists>raw t'. tw_files s' (json_file p) = Some raw \<and> te_de env raw = Inr t' \<and> x = Inr (to_access t')
        \<and> to_refresh t' = (case tr_refresh t of Some r' \<Rightarrow> r' | None \<Rightarrow> r))"
proof -
  define r' where "r' = (case tr_refresh t of Some r' \<Rightarrow> r' | None \<Rightarrow> r)"
  define val where "val = \<lparr>to_refresh = r', to_access = tr_access t, to_expires_at = wrap64 (tw_now s + tr_expires_in t)\<rparr>"
  have save: "save_tokens env cl t (Some r) s = andthen (store_set env (cl_account cl) (te_ser env val)) (\<lambda>_. ret (to_access val)) s"
    by (cases "tr_refresh t") (simp_all add: save_tokens_def andthen_def gets_apply val_def r'_def)
  obtain y s1 where y: "store_set env (cl_account cl) (te_ser env val) s = (y, s1)" by fastforce
  have s1: "s1 = s'" and x: "\<And>u. y = Inr u \<Longrightarrow> x = Inr (to_access val)"
    using assms(4) unfolding save by (auto simp: andthen_def y ret_apply split: sum.splits)
  have "te_de env (te_ser env val) = Inr val" "to_refresh val = r'" by (rule assms(3)) (simp add: val_def)
  with store_set_atomic [OF assms(1,2), where val = "te_ser env val" and s = s] x show ?thesis
    unfolding r'_def [symmetric] y s1 by (cases y) auto
qed

text \<open>
  Property C7. A login survives every refresh. On a host without a keychain, whatever the identity provider answers and
  whichever calls to the file system fail, a \<^verbatim>\<open>token\<close> that starts from readable stored tokens leaves readable stored
  tokens: those it found, or new ones whose access token it returns.
\<close>

theorem login_survives_token:
  assumes "no_keychain env" and "file_of env (cl_account cl) = Inr p" and "\<And>t. te_de env (te_ser env t) = Inr t"
    and "tw_files s (json_file p) = Some raw" and "te_de env raw = Inr t"
  shows "\<exists>raw' t'. tw_files (snd (token env cl s)) (json_file p) = Some raw' \<and> te_de env raw' = Inr t'
    \<and> (raw' = raw \<or> fst (token env cl s) = Inr (to_access t'))"
proof -
  obtain r s1 where g: "store_get env (cl_account cl) s = (r, s1)" by fastforce
  have f1: "tw_files s1 (json_file p) = Some raw" and r: "r = Inr (Some raw) \<or> (\<exists>e. r = Inl e)"
    using store_get_file [OF assms(1,2) g] assms(4) by auto
  let ?post = "post_form env cl (te_de_response env) ''token'' (refresh_grant (to_refresh t)) s1"
  obtain a s2 where p: "?post = (a, s2)" by fastforce
  have f2: "tw_files s2 (json_file p) = Some raw"
    using post_form_files [of env cl "te_de_response env" "''token''" "refresh_grant (to_refresh t)" s1] f1 p by simp
  consider (old) "tw_files (snd (token env cl s)) (json_file p) = Some raw"
    | (saved) x where "token env cl s = save_tokens env cl x (Some (to_refresh t)) s2"
    proof (cases "r = Inr (Some raw) \<and> \<not> wrap64 (tw_now s1 + MARGIN) < to_expires_at t \<and> (\<exists>x. a = Inr (Inr x))")
    case True
    then show ?thesis using saved
      by (auto simp: token_def andthen_def g gets_apply assms(5) p)
  next
    case False
    then show ?thesis using old r f1 f2
      by (auto simp: token_def andthen_def g gets_apply throw_apply ret_apply assms(5) p split: sum.splits)
  qed
  then show ?thesis
  proof cases
    case old
    with assms(5) show ?thesis by blast
  next
    case (saved x)
    then show ?thesis
      using save_tokens_stores [OF assms(1-3), where s = s2 and t = x and r = "to_refresh t"] f2 assms(5)
      by (metis prod.collapse)
  qed
qed

section \<open>The polls of a login\<close>

lemma keeps_run_cmd [keeps_intros]: "(\<And>s w. P s \<Longrightarrow> P (s\<lparr>tw_world := w\<rparr>)) \<Longrightarrow> keeps P (run_cmd env args input) (\<lambda>_. True)"
  by (simp add: keeps_def run_cmd_def split: prod.split)

lemma keeps_file_call [keeps_intros]: "(\<And>s c. P s \<Longrightarrow> P (s\<lparr>tw_calls := c\<rparr>)) \<Longrightarrow> (\<And>s f. P s \<Longrightarrow> P (s\<lparr>tw_files := f\<rparr>))
  \<Longrightarrow> keeps P (fs_call env f) (\<lambda>_. True)"
  by (auto simp: keeps_def fs_call_def split: option.split)

lemma save_tokens_posts: "keeps (\<lambda>s. tw_posts s = n) (save_tokens env cl t previous) (\<lambda>_. True)"
  unfolding save_tokens_def store_set_def keychain_defs write_private_def
  by (auto intro!: keeps_intros simp del: append.simps)

lemma save_and_return_posts:
  "tw_posts (snd (andthen (save_tokens env cl x previous) (\<lambda>_. ret ()) s)) = tw_posts s"
proof -
  have "keeps (\<lambda>s'. tw_posts s' = tw_posts s) (andthen (save_tokens env cl x previous) (\<lambda>_. ret ())) (\<lambda>_. True)"
    by (intro keeps_andthen_any save_tokens_posts keeps_ret) simp
  then show ?thesis by (rule keepsD) simp
qed

text \<open>One poll more, a pause of \<open>i\<close> later.\<close>

lemma one_more_poll:
  assumes "now < deadline" and "now + i \<le> now'" and "k * i < deadline - now' + i"
  shows "Suc k * i < deadline - now + (i :: nat)"
proof (cases "now' < deadline")
  case True
  with assms show ?thesis by simp
next
  case False
  with assms(3) have "k = 0" by (cases k) simp_all
  with assms(1) show ?thesis by simp
qed

text \<open>A round of the loop: a pause and a poll, and then the end or a round with no shorter a pause.\<close>

lemma login_loop_round:
  assumes "tw_now s < deadline"
  obtains s' where "tw_now s + max 1 interval \<le> tw_now s'" and "tw_posts s' = Suc (tw_posts s)"
    and "tw_posts (snd (login_loop env cl code deadline interval s)) = tw_posts s'
      \<or> (\<exists>j \<ge> interval. login_loop env cl code deadline interval s = login_loop env cl code deadline j s')"
proof -
  obtain r s' where p: "post_form env cl (te_de_response env) ''token'' (device_grant code) (sleep (max 1 interval) s) = (r, s')"
    by fastforce
  note unfolded = login_loop.simps [of env cl code deadline interval s] assms p
  consider (over) e where "r = Inl e" | (confirmed) t where "r = Inr (Inr t)"
    | (pending) e where "r = Inr (Inl e)" "oe_error e = ''authorization_pending''"
    | (slow) e where "r = Inr (Inl e)" "oe_error e \<noteq> ''authorization_pending''" "oe_error e = ''slow_down''"
    | (refused) e where "r = Inr (Inl e)" "oe_error e \<noteq> ''authorization_pending''" "oe_error e \<noteq> ''slow_down''"
    by (metis sum.exhaust)
  then have "tw_posts (snd (login_loop env cl code deadline interval s)) = tw_posts s'
      \<or> (\<exists>j \<ge> interval. login_loop env cl code deadline interval s = login_loop env cl code deadline j s')"
  proof cases
    case pending
    then show ?thesis unfolding unfolded by (intro disjI2 exI [of _ "max 1 interval"]) (simp add: assms p del: One_nat_def)
  next
    case slow
    then show ?thesis unfolding unfolded by (intro disjI2 exI [of _ "max 1 interval + 5"]) (simp add: assms p del: One_nat_def)
  qed (simp_all add: unfolded save_and_return_posts del: One_nat_def)
  moreover have "0 < max 1 interval" by simp
  ultimately show ?thesis using poll_takes_time [OF p [symmetric]] that [of s'] by blast
qed

lemma login_loop_pace:
  "0 < i \<Longrightarrow> i \<le> interval
    \<Longrightarrow> \<exists>k. tw_posts (snd (login_loop env cl code deadline interval s)) = tw_posts s + k \<and> k * i < deadline - tw_now s + i"
proof (induction "deadline - tw_now s" arbitrary: s interval rule: less_induct)
  case less
  show ?case
  proof (cases "tw_now s < deadline")
    case True
    obtain s' where t: "tw_now s + max 1 interval \<le> tw_now s'" "tw_posts s' = Suc (tw_posts s)"
      and next_round: "tw_posts (snd (login_loop env cl code deadline interval s)) = tw_posts s'
        \<or> (\<exists>j \<ge> interval. login_loop env cl code deadline interval s = login_loop env cl code deadline j s')"
      by (rule login_loop_round [OF True])
    have "deadline - tw_now s' < deadline - tw_now s" using t(1) True by simp
    then have "\<exists>k. tw_posts (snd (login_loop env cl code deadline interval s)) = tw_posts s' + k \<and> k * i < deadline - tw_now s' + i"
      using next_round less.hyps [of s'] less.prems by (auto intro: exI [of _ 0])
    moreover have "tw_now s + i \<le> tw_now s'" using t(1) less.prems by simp
    ultimately show ?thesis using one_more_poll [OF True] t(2) by (metis add_Suc_shift)
  next
    case False
    then show ?thesis using less.prems by (simp add: login_loop.simps)
  qed
qed

lemma pace_pos: "0 < pace auth"
  by (simp add: pace_def)

lemma wrap64_add: "wrap64 (a + b) - a \<le> b"
proof -
  have "wrap64 (a + b) \<le> a + b" unfolding wrap64_def by (rule mod_less_eq_dividend)
  then show ?thesis by simp
qed

text \<open>
  Property C40. A login ends, and keeps the pace it was told. After a device authorization with an interval of \<open>i\<close> seconds
  (5 if the provider gives none, never below 1) and a life of \<open>n\<close> seconds, the provider gets at most one request
  for every \<open>i\<close> of the \<open>n\<close> seconds and one more, whatever it answers and however long each request takes.
\<close>

theorem login_keeps_the_pace:
  assumes "post_form env cl (te_de_device env) ''auth/device'' [(''scope'', SCOPES)] s = (Inr (Inr auth), s1)"
  shows "\<exists>k. tw_posts (snd (login env cl s)) = Suc (tw_posts s) + k \<and> k * pace auth < da_expires_in auth + pace auth"
proof -
  define s2 where "s2 = snd (open_browser (case da_verification_uri_complete auth of Some u \<Rightarrow> u | None \<Rightarrow> da_verification_uri auth) s1)"
  have s1: "tw_posts s1 = Suc (tw_posts s)" and s2: "tw_posts s2 = tw_posts s1"
    using assms post_form_state [of env cl "te_de_device env" "''auth/device''" "[(''scope'', SCOPES)]" s]
    by (simp_all add: send_form_now s2_def open_browser_def)
  have "snd (login env cl s) = snd (login_loop env cl (da_device_code auth) (wrap64 (tw_now s2 + da_expires_in auth)) (pace auth) s2)"
    by (simp add: login_def andthen_def assms gets_apply open_browser_def s2_def)
  moreover obtain k where
    "tw_posts (snd (login_loop env cl (da_device_code auth) (wrap64 (tw_now s2 + da_expires_in auth)) (pace auth) s2)) = tw_posts s2 + k"
    and "k * pace auth < wrap64 (tw_now s2 + da_expires_in auth) - tw_now s2 + pace auth"
    using login_loop_pace [of "pace auth" "pace auth" env cl "da_device_code auth" "wrap64 (tw_now s2 + da_expires_in auth)" s2]
    by (auto simp: pace_pos)
  ultimately show ?thesis
    using wrap64_add [of "tw_now s2" "da_expires_in auth"] s1 s2 by (intro exI [of _ k]) simp
qed

section \<open>A host\<close>

text \<open>A host without a keychain, whose provider answers with a token and rotates the refresh token. Stored tokens are
  lengths and texts.\<close>

definition plain_ser :: "tokens \<Rightarrow> string" where
  "plain_ser t = map (\<lambda>_. CHR ''1'') [0..<length (to_refresh t)] @ ''0'' @ to_refresh t
     @ map (\<lambda>_. CHR ''1'') [0..<length (to_access t)] @ ''0'' @ to_access t @ map (\<lambda>_. CHR ''1'') [0..<to_expires_at t]"

definition plain_string :: "string \<Rightarrow> string \<times> string" where
  "plain_string s = (let n = length (takeWhile (\<lambda>c. c = CHR ''1'') s); rest = drop (Suc n) s in (take n rest, drop n rest))"

definition plain_de :: "string \<Rightarrow> string + tokens" where
  "plain_de s = (case plain_string s of (r, s1) \<Rightarrow> case plain_string s1 of (a, s2) \<Rightarrow>
     Inr \<lparr>to_refresh = r, to_access = a, to_expires_at = length s2\<rparr>)"

definition sample_env :: "unit token_env" where
  "sample_env =
     \<lparr>te_macos = False, te_vars = (\<lambda>k. if k = ''HOME'' then Some ''/home/u'' else None), te_run = (\<lambda>_ _ w. (None, w)),
      te_faults = (\<lambda>n. if n = 3 then Some ''no space'' else None),
      te_post = (\<lambda>_ form w. (if form ! 0 = (''scope'', SCOPES) then Answer ''device'' else Answer ''token'', w)), te_lag = (\<lambda>_. 1),
      te_ser = plain_ser, te_de = plain_de,
      te_de_response = (\<lambda>_. Inr \<lparr>tr_access = ''a2'', tr_expires_in = 300, tr_refresh = Some ''r2''\<rparr>),
      te_de_device = (\<lambda>_. Inr \<lparr>da_device_code = ''d'', da_user_code = ''u'', da_verification_uri = ''v'',
                              da_verification_uri_complete = None, da_expires_in = 600, da_interval = Some 5\<rparr>),
      te_de_error = (\<lambda>_. None)\<rparr>"

definition sample_client :: client where
  "sample_client = \<lparr>cl_issuer = ''https://i'', cl_client_id = ''cli'', cl_account = ''cli@https://i''\<rparr>"

definition sample_path :: string where "sample_path = ''/home/u/.local/state/sso-token/cli_https___i''"

definition sample_tokens :: tokens where "sample_tokens = \<lparr>to_refresh = ''r1'', to_access = ''a1'', to_expires_at = 2\<rparr>"

definition sample_host :: "unit token_state" where
  "sample_host =
     \<lparr>tw_world = (), tw_files = [json_file sample_path \<mapsto> plain_ser sample_tokens], tw_calls = 0, tw_now = 100, tw_posts = 0, tw_opened = []\<rparr>"

lemma plain_string_back: "plain_string (map (\<lambda>_. CHR ''1'') [0..<length x] @ ''0'' @ x @ y) = (x, y)"
proof -
  have "takeWhile (\<lambda>c. c = CHR ''1'') (map (\<lambda>_. CHR ''1'') [0..<length x] @ ''0'' @ x @ y) = map (\<lambda>_. CHR ''1'') [0..<length x]"
    by (subst takeWhile_append2) auto
  then show ?thesis by (simp add: plain_string_def)
qed

lemma plain_back: "plain_de (plain_ser t) = Inr t"
  by (simp only: plain_de_def plain_ser_def append_assoc plain_string_back prod.case) simp

lemma sample_file: "file_of sample_env (cl_account sample_client) = Inr sample_path"
  by code_simp

theorem login_survives_token_witness:
  "\<exists>raw' t'. tw_files (snd (token sample_env sample_client sample_host)) (json_file sample_path) = Some raw' \<and> te_de sample_env raw' = Inr t'
    \<and> (raw' = plain_ser sample_tokens \<or> fst (token sample_env sample_client sample_host) = Inr (to_access t'))"
  by (rule login_survives_token [where t = sample_tokens, OF _ sample_file])
     (simp_all add: no_keychain_def sample_env_def sample_host_def plain_back)

theorem login_keeps_the_pace_witness:
  "\<exists>k. tw_posts (snd (login sample_env sample_client sample_host)) = Suc 0 + k \<and> k * 5 < 600 + 5"
  using login_keeps_the_pace [of sample_env sample_client sample_host
      "\<lparr>da_device_code = ''d'', da_user_code = ''u'', da_verification_uri = ''v'',
        da_verification_uri_complete = None, da_expires_in = 600, da_interval = Some 5\<rparr>" "sample_host\<lparr>tw_posts := 1, tw_now := 101\<rparr>"]
  by (simp add: post_form_def send_form_def andthen_def sample_env_def sample_host_def pace_def ret_apply)

section \<open>Secrets that stay\<close>

text \<open>\<^verbatim>\<open>get\<close> asks the keychain first, and \<^verbatim>\<open>set\<close> leaves the keychain's old secret when it falls back to the file:
  the secret just set is not the one read.\<close>

lemma keychain_wins:
  assumes "keychain_get env account s = (Inr (Some old), s1)" and "trim old \<noteq> []"
  shows "store_get env account s = (Inr (Some (trim old)), s1)"
  using assms by (simp add: store_get_def andthen_def ret_apply)

definition stale_env :: "unit token_env" where
  "stale_env = sample_env\<lparr>te_run := (\<lambda>args _ w. (if args ! 1 = ''lookup'' then Some ''old'' else None, w)), te_faults := (\<lambda>_. None)\<rparr>"

lemma set_is_not_read_back:
  "fst (andthen (store_set stale_env ''cli'' ''new'') (\<lambda>_. store_get stale_env ''cli'') sample_host) = Inr (Some ''old'')"
  by code_simp

text \<open>The same keychain refuses \<^verbatim>\<open>clear\<close>: \<^verbatim>\<open>delete\<close> succeeds, and the secret is still there.\<close>

lemma delete_leaves_secret:
  "fst (andthen (store_delete stale_env ''cli'') (\<lambda>_. store_get stale_env ''cli'') sample_host) = Inr (Some ''old'')"
  by code_simp

text \<open>Accounts that differ in punctuation share a file.\<close>

lemma accounts_share_a_file:
  "file_of sample_env ''cli@https://a.b'' = file_of sample_env ''cli@https://a-b''"
  by code_simp

end
