(* ===== verification/Mcp.thy ===== *)
theory Mcp
  imports Sso_Token Damage
begin

text \<open>
  \<^verbatim>\<open>apps/sso-token/src/mcp.rs\<close>: messages from standard input are posted to an MCP server and its answers written to
  standard output. Threads interleave: the main thread and each worker take one step at a time (get a token and send;
  take the answer; write one message), in the order of a schedule that is an argument. The token closure, the
  HTTP server and \<^verbatim>\<open>serde_json\<close> are parameters. Lines of standard input have their numbers.
\<close>

section \<open>State\<close>

text \<open>\<open>ma_broken\<close> is the error that ends the body early, if one does.\<close>

record mcp_answer =
  ma_status :: nat
  ma_session :: "string option"
  ma_content_type :: string
  ma_body :: string
  ma_broken :: "string option"

datatype mcp_reply = Replied mcp_answer | Rejected nat string | Lost string

record 't mcp_env =
  me_url :: string
  me_token :: "('t, string, string) sem"
  me_send :: "string \<Rightarrow> string option \<Rightarrow> string \<Rightarrow> 't \<Rightarrow> mcp_reply \<times> 't"
  me_delete :: "string \<Rightarrow> string \<Rightarrow> 't \<Rightarrow> 't"
  me_parse :: "string \<Rightarrow> json option"
  me_print :: "json \<Rightarrow> string"

type_synonym message = "nat \<times> string"

text \<open>Where \<^verbatim>\<open>forward\<close> of a message is: at its start; at an answer; at messages to write and then perhaps an error.\<close>

datatype worker =
    Starting message
  | Answered message mcp_reply
  | Emitting message "string list" "string option"

record 't mcp_state =
  ms_token :: 't
  ms_session :: "string option"
  ms_out :: "string list"
  ms_sent :: "(message \<times> string option) list"
  ms_unread :: "message list"
  ms_main :: "worker option"
  ms_workers :: "worker list"

section \<open>Messages\<close>

definition emit :: "string \<Rightarrow> 't mcp_state \<Rightarrow> 't mcp_state" where
  "emit msg s = s\<lparr>ms_out := ms_out s @ [msg]\<rparr>"

definition id_member :: "json \<Rightarrow> json option" where
  "id_member v = (case v of JObj ms \<Rightarrow> map_of ms ''id'' | _ \<Rightarrow> None)"

definition line_id :: "'t mcp_env \<Rightarrow> string \<Rightarrow> json" where
  "line_id env line = (case Option.bind (me_parse env line) id_member of Some v \<Rightarrow> v | None \<Rightarrow> JNull)"

definition error_message :: "json \<Rightarrow> string \<Rightarrow> json" where
  "error_message i err =
     JObj [(''jsonrpc'', JStr ''2.0''), (''id'', i), (''error'', JObj [(''code'', JInt (- 32603)), (''message'', JStr err)])]"

definition fail :: "'t mcp_env \<Rightarrow> json \<Rightarrow> string \<Rightarrow> 't mcp_state \<Rightarrow> 't mcp_state" where
  "fail env i err s = (if i \<noteq> JNull then emit (me_print env (error_message i err)) s else s)"

definition emit_json :: "'t mcp_env \<Rightarrow> string \<Rightarrow> 't mcp_state \<Rightarrow> 't mcp_state" where
  "emit_json env raw s = (case me_parse env raw of Some v \<Rightarrow> emit (me_print env v) s | None \<Rightarrow> s)"

definition in_order :: "'t mcp_env \<Rightarrow> string \<Rightarrow> bool" where
  "in_order env line =
     (case me_parse env line of
        Some v \<Rightarrow> jget v ''method'' = JStr ''initialize'' \<or> id_member v = None
      | None \<Rightarrow> False)"

text \<open>The events of a stream. The lines of one that breaks end with its last line feed.\<close>

definition push_data :: "string \<Rightarrow> string \<Rightarrow> string" where
  "push_data data d = (if data \<noteq> [] then data @ [newline] else data) @ (case strip_prefix '' '' d of Some r \<Rightarrow> r | None \<Rightarrow> d)"

fun sse_loop :: "string \<Rightarrow> string list \<Rightarrow> string list \<times> string" where
  "sse_loop data [] = ([], data)"
| "sse_loop data (l # ls) =
     (case strip_prefix ''data:'' l of
        Some d \<Rightarrow> sse_loop (push_data data d) ls
      | None \<Rightarrow>
          if l = [] \<and> data \<noteq> [] then (case sse_loop [] ls of (ms, rest) \<Rightarrow> (data # ms, rest))
          else sse_loop data ls)"

definition whole_lines :: "string \<Rightarrow> string list" where
  "whole_lines body = lines (concat (map (\<lambda>l. l @ [newline]) (butlast (split_char newline body))))"

text \<open>What \<^verbatim>\<open>post\<close> does with an answer: the messages it writes, and its error.\<close>

definition answer_messages :: "mcp_answer \<Rightarrow> string list \<times> string option" where
  "answer_messages a =
     (if ma_status a = 202 then ([], None)
      else if ma_content_type a = ''text/event-stream''
      then (case ma_broken a of
              Some e \<Rightarrow> (fst (sse_loop [] (whole_lines (ma_body a))), Some e)
            | None \<Rightarrow> (case sse_loop [] (lines (ma_body a)) of
                (ms, rest) \<Rightarrow> (if rest \<noteq> [] then ms @ [rest] else ms, None)))
      else (case ma_broken a of
              Some e \<Rightarrow> ([], Some e)
            | None \<Rightarrow> (if trim (ma_body a) \<noteq> [] then [ma_body a] else [], None)))"

definition rejected :: "'t mcp_env \<Rightarrow> nat \<Rightarrow> string \<Rightarrow> string" where
  "rejected env code body = ''HTTP '' @ nat_str code @ '' from '' @ me_url env @ '': '' @ body"

section \<open>Steps\<close>

text \<open>One step of a thread in \<^verbatim>\<open>forward\<close>; \<^const>\<open>None\<close> once it is through.\<close>

fun work :: "'t mcp_env \<Rightarrow> worker \<Rightarrow> 't mcp_state \<Rightarrow> worker option \<times> 't mcp_state" where
  "work env (Starting m) s =
     (case me_token env (ms_token s) of
        (Inl e, t) \<Rightarrow> (Some (Emitting m [] (Some e)), s\<lparr>ms_token := t\<rparr>)
      | (Inr bearer, t) \<Rightarrow>
          (case me_send env bearer (ms_session s) (snd m) t of
             (a, t') \<Rightarrow> (Some (Answered m a), s\<lparr>ms_token := t', ms_sent := ms_sent s @ [(m, ms_session s)]\<rparr>)))"
| "work env (Answered m (Replied a)) s =
     (case answer_messages a of
        (ms, err) \<Rightarrow> (Some (Emitting m ms err), s\<lparr>ms_session := (case ma_session a of Some i \<Rightarrow> Some i | None \<Rightarrow> ms_session s)\<rparr>))"
| "work env (Answered m (Rejected code body)) s = (Some (Emitting m [] (Some (rejected env code body))), s)"
| "work env (Answered m (Lost e)) s = (Some (Emitting m [] (Some e)), s)"
| "work env (Emitting m (x # xs) err) s = (Some (Emitting m xs err), emit_json env x s)"
| "work env (Emitting m [] (Some e)) s = (None, fail env (line_id env (snd m)) e s)"
| "work env (Emitting m [] None) s = (None, s)"

text \<open>The main thread reads the next line when it is not in \<^verbatim>\<open>forward\<close> itself.\<close>

definition main_step :: "'t mcp_env \<Rightarrow> 't mcp_state \<Rightarrow> 't mcp_state" where
  "main_step env s =
     (case ms_main s of
        Some w \<Rightarrow> (case work env w s of (w', s') \<Rightarrow> s'\<lparr>ms_main := w'\<rparr>)
      | None \<Rightarrow>
          (case ms_unread s of
             [] \<Rightarrow> s
           | m # rest \<Rightarrow>
               if trim (snd m) = [] then s\<lparr>ms_unread := rest\<rparr>
               else if in_order env (snd m) then s\<lparr>ms_unread := rest, ms_main := Some (Starting m)\<rparr>
               else s\<lparr>ms_unread := rest, ms_workers := ms_workers s @ [Starting m]\<rparr>))"

definition worker_step :: "'t mcp_env \<Rightarrow> nat \<Rightarrow> 't mcp_state \<Rightarrow> 't mcp_state" where
  "worker_step env i s =
     (if i < length (ms_workers s)
      then (case work env (ms_workers s ! i) s of
              (Some w, s') \<Rightarrow> s'\<lparr>ms_workers := (ms_workers s)[i := w]\<rparr>
            | (None, s') \<Rightarrow> s'\<lparr>ms_workers := take i (ms_workers s) @ drop (Suc i) (ms_workers s)\<rparr>)
      else s)"

datatype turn = Main | Worker nat

fun take_turn :: "'t mcp_env \<Rightarrow> 't mcp_state \<Rightarrow> turn \<Rightarrow> 't mcp_state" where
  "take_turn env s Main = main_step env s"
| "take_turn env s (Worker i) = worker_step env i s"

definition mcp_start :: "'t \<Rightarrow> string list \<Rightarrow> 't mcp_state" where
  "mcp_start t ls =
     \<lparr>ms_token = t, ms_session = None, ms_out = [], ms_sent = [], ms_unread = enumerate 0 ls, ms_main = None, ms_workers = []\<rparr>"

definition finished :: "'t mcp_state \<Rightarrow> bool" where
  "finished s \<longleftrightarrow> ms_unread s = [] \<and> ms_main s = None \<and> ms_workers s = []"

definition close_session :: "'t mcp_env \<Rightarrow> 't mcp_state \<Rightarrow> 't mcp_state" where
  "close_session env s =
     (case ms_session s of
        None \<Rightarrow> s
      | Some i \<Rightarrow> (case me_token env (ms_token s) of
            (Inl e, t) \<Rightarrow> s\<lparr>ms_token := t\<rparr>
          | (Inr bearer, t) \<Rightarrow> s\<lparr>ms_token := me_delete env bearer i t\<rparr>))"

text \<open>A run under a schedule: no token, no bridge; the session is closed when all threads are through.\<close>

definition mcp_run :: "'t mcp_env \<Rightarrow> turn list \<Rightarrow> string list \<Rightarrow> 't \<Rightarrow> string + 't mcp_state" where
  "mcp_run env schedule ls t =
     (case me_token env t of
        (Inl e, _) \<Rightarrow> Inl e
      | (Inr _, t') \<Rightarrow>
          let s = foldl (take_turn env) (mcp_start t' ls) schedule
          in Inr (if finished s then close_session env s else s))"

section \<open>The program\<close>

definition USAGE :: string where "USAGE = ''usage: sso-token [token|login|logout|mcp <url>]''"

definition mcp_command :: "'w token_env \<Rightarrow> 'w token_state mcp_env \<Rightarrow> turn list \<Rightarrow> string list \<Rightarrow> client \<Rightarrow> string \<Rightarrow> ('w, string list) tkm" where
  "mcp_command env server schedule stdin cl url = (\<lambda>s.
     case mcp_run (server\<lparr>me_url := url, me_token := token env cl\<rparr>) schedule stdin s of
       Inl e \<Rightarrow> (Inl e, snd (token env cl s))
     | Inr b \<Rightarrow> (Inr (ms_out b), ms_token b))"

text \<open>The lines on standard output of \<^verbatim>\<open>sso-token args\<close>.\<close>

definition sso_main :: "'w token_env \<Rightarrow> 'w token_state mcp_env \<Rightarrow> turn list \<Rightarrow> string list \<Rightarrow> string list \<Rightarrow> ('w, string list) tkm" where
  "sso_main env server schedule stdin args =
     andthen (lift_result (client_from_env env))
     (\<lambda>cl. case args of
        [] \<Rightarrow> andthen (token env cl) (\<lambda>t. ret [t])
      | a # rest \<Rightarrow>
          if a = ''token'' then andthen (token env cl) (\<lambda>t. ret [t])
          else if a = ''login'' then andthen (login env cl) (\<lambda>_. ret [])
          else if a = ''logout'' then andthen (logout env cl) (\<lambda>_. ret [])
          else if a = ''mcp'' then (case rest of [] \<Rightarrow> throw USAGE | url # _ \<Rightarrow> mcp_command env server schedule stdin cl url)
          else if a = ''-h'' \<or> a = ''--help'' \<or> a = ''help'' then ret []
          else throw (''unknown command '' @ a @ ''; '' @ USAGE))"

section \<open>Order\<close>

text \<open>A message that must go in order is sent after every message with a smaller number that is sent before it, and
  before every message with a larger one.\<close>

fun keeps_order :: "'t mcp_env \<Rightarrow> message list \<Rightarrow> bool" where
  "keeps_order env [] \<longleftrightarrow> True"
| "keeps_order env (m # ms) \<longleftrightarrow> list_all (\<lambda>m'. in_order env (snd m') \<longrightarrow> fst m < fst m') ms \<and> keeps_order env ms"

definition starts :: "worker list \<Rightarrow> message list" where
  "starts ws = concat (map (\<lambda>w. case w of Starting m \<Rightarrow> [m] | _ \<Rightarrow> []) ws)"

abbreviation sent :: "'t mcp_state \<Rightarrow> message list" where
  "sent s \<equiv> map fst (ms_sent s)"

abbreviation busy :: "'t mcp_state \<Rightarrow> message list" where
  "busy s \<equiv> starts (case ms_main s of Some w \<Rightarrow> [w] | None \<Rightarrow> [])"

definition orderly :: "'t mcp_env \<Rightarrow> message list \<Rightarrow> message list \<Rightarrow> message list \<Rightarrow> message list \<Rightarrow> bool" where
  "orderly env S W B U \<longleftrightarrow>
     keeps_order env S
     \<and> distinct (map fst (S @ W))
     \<and> (\<forall>m \<in> set (S @ W). \<forall>m' \<in> set (B @ U). fst m < fst m')
     \<and> (\<forall>m \<in> set W. \<not> in_order env (snd m))
     \<and> sorted_wrt (<) (map fst (B @ U))"

abbreviation orderly_state :: "'t mcp_env \<Rightarrow> 't mcp_state \<Rightarrow> bool" where
  "orderly_state env s \<equiv> orderly env (sent s) (starts (ms_workers s)) (busy s) (ms_unread s)"

lemma keeps_order_append:
  "keeps_order env (ms @ [m]) \<longleftrightarrow> keeps_order env ms \<and> (in_order env (snd m) \<longrightarrow> list_all (\<lambda>m'. fst m' < fst m) ms)"
  by (induction ms) auto

text \<open>Messages move from the input to the main thread or a worker, and from there to the server.\<close>

lemma read_main: "orderly env S W [] (m # U) \<Longrightarrow> orderly env S W [m] U"
  by (simp add: orderly_def)

lemma read_worker: "orderly env S W [] (m # U) \<Longrightarrow> \<not> in_order env (snd m) \<Longrightarrow> orderly env S (W @ [m]) [] U"
  by (auto simp: orderly_def) (metis Un_iff fst_conv less_irrefl)+

lemma drop_main: "orderly env S W [m] U \<Longrightarrow> orderly env S W [] U"
  by (simp add: orderly_def)

lemma send_main: "orderly env S W [m] U \<Longrightarrow> orderly env (S @ [m]) W [] U"
  by (auto simp: orderly_def keeps_order_append list_all_iff) (metis Un_iff fst_conv less_irrefl)+

lemma drop_worker: "orderly env S (W1 @ m # W2) B U \<Longrightarrow> orderly env S (W1 @ W2) B U"
  by (auto simp: orderly_def)

lemma send_worker: "orderly env S (W1 @ m # W2) B U \<Longrightarrow> orderly env (S @ [m]) (W1 @ W2) B U"
  by (auto simp: orderly_def keeps_order_append list_all_iff)

lemma starts_simps [simp]:
  "starts [] = []" "starts (Starting m # ws) = m # starts ws" "starts (Answered m a # ws) = starts ws"
  "starts (Emitting m xs e # ws) = starts ws" "starts (us @ ws) = starts us @ starts ws"
  by (simp_all add: starts_def)

text \<open>A step of a thread: it sends the message it starts with, or gives up on it, or has none to send.\<close>

lemma work_sends:
  assumes "work env w s = (w', s')"
  shows "\<exists>ms. sent s' = sent s @ ms \<and> (ms = [] \<or> ms = starts [w]) \<and> starts (case w' of Some v \<Rightarrow> [v] | None \<Rightarrow> []) = []"
    and "ms_unread s' = ms_unread s \<and> ms_main s' = ms_main s \<and> ms_workers s' = ms_workers s"
  using assms
  by (induction env w s rule: work.induct)
     (auto simp: emit_json_def emit_def fail_def split: prod.splits sum.splits option.splits if_splits)

lemma starts_one: "starts [w] = [] \<or> (\<exists>m. starts [w] = [m])"
  by (cases w) simp_all

lemma starts_Cons: "starts (w # ws) = starts [w] @ starts ws"
  using starts_simps(5) [of "[w]" ws] by simp

lemma orderly_main: "orderly_state env s \<Longrightarrow> orderly_state env (main_step env s)"
proof (cases "ms_main s")
  case None
  assume "orderly_state env s"
  then show ?thesis using None
    by (cases "ms_unread s") (auto simp: main_step_def intro: read_main read_worker drop_main dest: read_main)
next
  case (Some w)
  assume o: "orderly_state env s"
  obtain w' s' where w: "work env w s = (w', s')" by fastforce
  obtain ms where ms: "sent s' = sent s @ ms" "ms = [] \<or> ms = starts [w]" "starts (case w' of Some v \<Rightarrow> [v] | None \<Rightarrow> []) = []"
    using work_sends(1) [OF w] by blast
  show ?thesis
    using o Some ms starts_one [of w] work_sends(2) [OF w]
    by (auto simp: main_step_def w dest: drop_main send_main)
qed

lemma orderly_worker: "orderly_state env s \<Longrightarrow> orderly_state env (worker_step env i s)"
proof (cases "i < length (ms_workers s)")
  case True
  assume o: "orderly_state env s"
  define us w vs where "us = take i (ms_workers s)" and "w = ms_workers s ! i" and "vs = drop (Suc i) (ms_workers s)"
  have ws: "ms_workers s = us @ w # vs" using True by (simp add: us_def w_def vs_def id_take_nth_drop)
  have upd: "(ms_workers s)[i := v] = us @ v # vs" for v
    using True by (simp add: us_def vs_def upd_conv_take_nth_drop)
  obtain w' s' where w: "work env w s = (w', s')" by fastforce
  obtain ms where ms: "sent s' = sent s @ ms" "ms = [] \<or> ms = starts [w]" "starts (case w' of Some v \<Rightarrow> [v] | None \<Rightarrow> []) = []"
    using work_sends(1) [OF w] by blast
  have step: "worker_step env i s = s'\<lparr>ms_workers := us @ (case w' of Some v \<Rightarrow> [v] | None \<Rightarrow> []) @ vs\<rparr>"
    using True w upd by (simp add: worker_step_def w_def us_def vs_def split: option.split)
  have "orderly env (sent s @ ms) (starts us @ starts vs) (busy s) (ms_unread s)"
    using o ms(2) starts_one [of w] unfolding ws starts_simps(5) starts_Cons [of w vs]
    by (auto dest: drop_worker send_worker)
  then show ?thesis using ms work_sends(2) [OF w] by (simp add: step)
qed (simp add: worker_step_def)

lemma orderly_turn: "orderly_state env s \<Longrightarrow> orderly_state env (take_turn env s x)"
  by (cases x) (simp_all add: orderly_main orderly_worker)

lemma orderly_run: "orderly_state env s \<Longrightarrow> orderly_state env (foldl (take_turn env) s xs)"
  by (induction xs arbitrary: s) (simp_all add: orderly_turn)

lemma orderly_start: "orderly_state env (mcp_start t ls)"
  by (simp add: orderly_def mcp_start_def map_fst_enumerate strict_sorted_iff)

lemma close_sends [simp]: "ms_sent (close_session env s) = ms_sent s"
  by (simp add: close_session_def split: option.split prod.split sum.split)

text \<open>
  Property C8. Nothing overtakes the handshake. However the threads of the MCP bridge interleave, whatever the server answers
  and whenever tokens fail, no line is sent to the server twice, and when \<^verbatim>\<open>initialize\<close> or a notification is sent,
  every message that stood after it on standard input is sent after it.
\<close>

theorem nothing_overtakes_the_handshake:
  "case mcp_run env schedule ls t of
     Inr s \<Rightarrow> distinct (map fst (map fst (ms_sent s))) \<and> keeps_order env (map fst (ms_sent s))
   | Inl e \<Rightarrow> fst (me_token env t) = Inl e"
proof (cases "me_token env t")
  case (Pair r t')
  then show ?thesis
    using orderly_run [OF orderly_start, of env t' ls schedule]
    by (cases r) (auto simp: mcp_run_def Let_def orderly_def)
qed

section \<open>Progress\<close>

text \<open>What is left to do: lines to read, messages to send, answers to take, messages to write.\<close>

fun left :: "worker \<Rightarrow> nat \<times> nat \<times> nat" where
  "left (Starting m) = (1, 0, 0)"
| "left (Answered m a) = (0, 1, 0)"
| "left (Emitting m xs e) = (0, 0, Suc (length xs))"

definition rank :: "'t mcp_state \<Rightarrow> nat \<times> nat \<times> nat \<times> nat" where
  "rank s =
     (let ws = (case ms_main s of Some w \<Rightarrow> [w] | None \<Rightarrow> []) @ ms_workers s
      in (length (ms_unread s), sum_list (map (fst \<circ> left) ws), sum_list (map (fst \<circ> snd \<circ> left) ws), sum_list (map (snd \<circ> snd \<circ> left) ws)))"

abbreviation smaller :: "((nat \<times> nat \<times> nat \<times> nat) \<times> (nat \<times> nat \<times> nat \<times> nat)) set" where
  "smaller \<equiv> less_than <*lex*> less_than <*lex*> less_than <*lex*> less_than"

fun enabled :: "'t mcp_state \<Rightarrow> turn \<Rightarrow> bool" where
  "enabled s Main \<longleftrightarrow> ms_main s \<noteq> None \<or> ms_unread s \<noteq> []"
| "enabled s (Worker i) \<longleftrightarrow> i < length (ms_workers s)"

lemma work_left:
  assumes "work env w s = (w', s')"
  shows "case w' of
      None \<Rightarrow> left w = (0, 0, 1)
    | Some v \<Rightarrow> fst (left v) < fst (left w) \<or> fst (left v) = fst (left w) \<and>
        (fst (snd (left v)) < fst (snd (left w)) \<or> fst (snd (left v)) = fst (snd (left w)) \<and> snd (snd (left v)) < snd (snd (left w)))"
  using assms by (induction env w s rule: work.induct) (auto split: prod.splits sum.splits)

lemma main_progress: "enabled s Main \<Longrightarrow> (rank (main_step env s), rank s) \<in> smaller"
proof (cases "ms_main s")
  case None
  then show "enabled s Main \<Longrightarrow> ?thesis" by (cases "ms_unread s") (auto simp: main_step_def rank_def Let_def)
next
  case (Some w)
  obtain w' s' where w: "work env w s = (w', s')" by fastforce
  show "?thesis" using Some work_left [OF w] work_sends(2) [OF w]
    by (auto simp: main_step_def rank_def Let_def w split: option.splits)
qed

lemma worker_progress: "enabled s (Worker i) \<Longrightarrow> (rank (worker_step env i s), rank s) \<in> smaller"
proof -
  assume i: "enabled s (Worker i)"
  define us w vs where "us = take i (ms_workers s)" and "w = ms_workers s ! i" and "vs = drop (Suc i) (ms_workers s)"
  have ws: "ms_workers s = us @ w # vs" using i by (simp add: us_def w_def vs_def id_take_nth_drop)
  obtain w' s' where w: "work env w s = (w', s')" by fastforce
  have step: "worker_step env i s = s'\<lparr>ms_workers := us @ (case w' of Some v \<Rightarrow> [v] | None \<Rightarrow> []) @ vs\<rparr>"
    using i w by (simp add: worker_step_def w_def us_def vs_def upd_conv_take_nth_drop split: option.split)
  show ?thesis using work_left [OF w] work_sends(2) [OF w]
    by (auto simp: step rank_def Let_def ws split: option.splits)
qed

lemma turn_progress: "enabled s x \<Longrightarrow> (rank (take_turn env s x), rank s) \<in> smaller"
  by (cases x) (simp_all only: take_turn.simps main_progress worker_progress)

lemma unfinished_enabled: "\<not> finished s \<Longrightarrow> enabled s Main \<or> enabled s (Worker 0)"
  by (auto simp: finished_def)

lemma wf_rank: "wf (inv_image smaller rank)"
  by (intro wf_inv_image wf_lex_prod wf_less_than)

text \<open>After any turns of the threads there are turns that bring the bridge through.\<close>

lemma gets_through: "\<exists>more. finished (foldl (take_turn env) s more)"
proof (induction s rule: wf_induct_rule [OF wf_rank])
  case (1 s)
  show ?case
  proof (cases "finished s")
    case True
    then show ?thesis by (intro exI [of _ "[]"]) simp
  next
    case False
    then obtain x where "enabled s x" using unfinished_enabled by blast
    then have "(take_turn env s x, s) \<in> inv_image smaller rank" using turn_progress [of s x env] by (simp only: in_inv_image)
    then obtain more where "finished (foldl (take_turn env) (take_turn env s x) more)" using 1 by blast
    then show ?thesis by (intro exI [of _ "x # more"]) simp
  qed
qed

section \<open>Output\<close>

text \<open>Every message written is one line, as the values that are printed are.\<close>

lemma work_out:
  assumes "\<And>v. newline \<notin> set (me_print env v)" and "list_all (\<lambda>l. newline \<notin> set l) (ms_out s)"
  shows "list_all (\<lambda>l. newline \<notin> set l) (ms_out (snd (work env w s)))"
  using assms by (induction env w s rule: work.induct)
    (auto simp: emit_json_def emit_def fail_def split: prod.splits sum.splits option.splits)

lemma turn_out:
  assumes "\<And>v. newline \<notin> set (me_print env v)" and "list_all (\<lambda>l. newline \<notin> set l) (ms_out s)"
  shows "list_all (\<lambda>l. newline \<notin> set l) (ms_out (take_turn env s x))"
  using work_out [OF assms]
  by (cases x) (auto simp: main_step_def worker_step_def assms(2) split: option.splits prod.splits list.splits, (metis snd_conv)+)

lemma one_line_each:
  assumes "\<And>v. newline \<notin> set (me_print env v)"
  shows "list_all (\<lambda>l. newline \<notin> set l) (ms_out (foldl (take_turn env) (mcp_start t ls) schedule))"
proof -
  have "list_all (\<lambda>l. newline \<notin> set l) (ms_out s) \<Longrightarrow> list_all (\<lambda>l. newline \<notin> set l) (ms_out (foldl (take_turn env) s schedule))" for s
    by (induction schedule arbitrary: s) (simp_all add: turn_out [OF assms])
  then show ?thesis by (simp add: mcp_start_def)
qed

text \<open>A stream of events reads back as the events.\<close>

definition event_lines :: "string list \<Rightarrow> string list" where
  "event_lines ds = map (\<lambda>d. ''data: '' @ d) ds @ [[]]"

lemma data_line: "strip_prefix ''data:'' (''data: '' @ d) = Some ('' '' @ d)" "strip_prefix '' '' ('' '' @ d) = Some d"
  by simp_all

lemma join_push: "join sep ((a @ sep @ d) # ds) = join sep (a # d # ds)"
  by (cases ds) simp_all

lemma sse_data: "data \<noteq> [] \<Longrightarrow> sse_loop data (map (\<lambda>d. ''data: '' @ d) ds @ ls) = sse_loop (join [newline] (data # ds)) ls"
proof (induction ds arbitrary: data)
  case (Cons d ds)
  have "push_data data ('' '' @ d) = data @ [newline] @ d" using Cons.prems by (simp add: push_data_def)
  then have "sse_loop data (map (\<lambda>d. ''data: '' @ d) (d # ds) @ ls) = sse_loop (data @ [newline] @ d) (map (\<lambda>d. ''data: '' @ d) ds @ ls)"
    by simp
  also have "\<dots> = sse_loop (join [newline] (data # d # ds)) ls"
    using Cons.IH [of "data @ [newline] @ d"] join_push [of "[newline]" data d ds] by (simp del: join.simps)
  finally show ?case .
qed simp

lemma join_not_Nil: "d \<noteq> [] \<Longrightarrow> join sep (d # ds) \<noteq> []"
  by (cases ds) simp_all

lemma sse_event: "d \<noteq> [] \<Longrightarrow> sse_loop [] (event_lines (d # ds) @ ls) = (case sse_loop [] ls of (ms, rest) \<Rightarrow> (join [newline] (d # ds) # ms, rest))"
  using sse_data [of d ds "[] # ls"] join_not_Nil [of d "[newline]" ds] by (simp add: event_lines_def push_data_def)

lemma stream_reads_back:
  "list_all (\<lambda>ds. ds \<noteq> [] \<and> hd ds \<noteq> []) evs \<Longrightarrow> sse_loop [] (concat (map event_lines evs)) = (map (join [newline]) evs, [])"
proof (induction evs)
  case (Cons ds evs)
  then show ?case using sse_event [of "hd ds" "tl ds"] by (cases ds) auto
qed simp

end
